(* ===== verification/Prelude.thy ===== *)
theory Prelude
  imports Complex_Main "HOL-Library.Sublist" "HOL-Library.AList"
begin

text \<open>
  The prelude of the development: the JavaScript values and string operations that the
  source uses, as total HOL functions, and the generic lemmas the components share.

  Conventions used by every theory of the development.
  \<^item> A JavaScript string is a \<open>string\<close>; one \<open>char\<close> stands for one UTF-16 code unit,
    so \<open>length\<close> is the \<open>.length\<close> of the source. The 8-bit \<open>char\<close> covers the code
    units up to 255, and no modelled operation inspects a code unit above that range.
  \<^item> A JavaScript number is a \<open>rat\<close>. Every finite double is a rational; the timestamps,
    counters and lengths the source computes with are integers below \<open>2 ^ 53\<close>, on which
    the source's arithmetic is exact. The values NaN and Infinity are not modelled.
  \<^item> A field or argument that may be undefined is an \<open>option\<close> (\<open>None\<close> is undefined);
    one that may also be null is an \<open>option option\<close> (\<open>Some None\<close> is null).
  \<^item> \<open>Date.now ()\<close>, the translation function \<open>t\<close> of i18next and the identifiers of
    nanoid are arguments of the definitions that use them.
\<close>

named_theorems js_simps \<open>evaluation of the JavaScript string operations\<close>
named_theorems role_simps \<open>case distinctions on roles and statuses\<close>

type_synonym jsnum = rat

section \<open>Operators\<close>

text \<open>The operator \<open>??\<close> on a value that may be undefined.\<close>

definition nullish :: "'a option \<Rightarrow> 'a \<Rightarrow> 'a" where
  "nullish x d = (case x of None \<Rightarrow> d | Some v \<Rightarrow> v)"

lemma nullish_simps [simp]: "nullish None d = d" "nullish (Some v) d = v"
  by (simp_all add: nullish_def)

text \<open>The chain \<open>x ?? y\<close> whose right operand may itself be undefined.\<close>

definition nullish_opt :: "'a option \<Rightarrow> 'a option \<Rightarrow> 'a option" where
  "nullish_opt x y = (case x of None \<Rightarrow> y | Some v \<Rightarrow> Some v)"

lemma nullish_opt_simps [simp]: "nullish_opt None y = y" "nullish_opt (Some v) y = Some v"
  by (simp_all add: nullish_opt_def)

text \<open>The operator \<open>||\<close> on strings: the empty string and undefined are falsy.\<close>

definition str_or :: "string \<Rightarrow> string \<Rightarrow> string" where
  "str_or a b = (if a = [] then b else a)"

definition opt_str :: "string option \<Rightarrow> string" where
  "opt_str x = (case x of None \<Rightarrow> [] | Some s \<Rightarrow> s)"

lemma str_or_simps [simp]: "str_or [] b = b" "a \<noteq> [] \<Longrightarrow> str_or a b = a"
  by (simp_all add: str_or_def)

lemma opt_str_simps [simp]: "opt_str None = []" "opt_str (Some s) = s"
  by (simp_all add: opt_str_def)

section \<open>Strings\<close>

text \<open>
  White space as \<open>String.prototype.trim\<close> and the regular expression class \<open>\s\<close> define
  it, restricted to the code units up to 255.
\<close>

definition js_ws :: "char \<Rightarrow> bool" where
  "js_ws c \<longleftrightarrow> c \<in> {CHR 0x09, CHR 0x0A, CHR 0x0B, CHR 0x0C, CHR 0x0D, CHR 0x20, CHR 0xA0}"

definition js_trim :: "string \<Rightarrow> string" where
  "js_trim s = rev (dropWhile js_ws (rev (dropWhile js_ws s)))"

fun index_of :: "string \<Rightarrow> string \<Rightarrow> nat option" where
  "index_of p [] = (if p = [] then Some 0 else None)"
| "index_of p (c # s) = (if prefix p (c # s) then Some 0 else map_option Suc (index_of p s))"

text \<open>\<open>s.indexOf(p, from)\<close>; \<open>None\<close> is the result \<open>-1\<close>.\<close>

definition js_indexOf :: "string \<Rightarrow> string \<Rightarrow> nat \<Rightarrow> nat option" where
  "js_indexOf s p from = map_option ((+) (min from (length s))) (index_of p (drop from s))"

definition js_includes :: "string \<Rightarrow> string \<Rightarrow> bool" where
  "js_includes s p \<longleftrightarrow> index_of p s \<noteq> None"

text \<open>\<open>s.slice(i, j)\<close> for indices that are not negative.\<close>

definition js_slice :: "string \<Rightarrow> nat \<Rightarrow> nat \<Rightarrow> string" where
  "js_slice s i j = take (j - i) (drop i s)"

text \<open>\<open>xs.slice(-n)\<close>: the last \<open>n\<close> elements.\<close>

definition last_n :: "nat \<Rightarrow> 'a list \<Rightarrow> 'a list" where
  "last_n n xs = drop (length xs - n) xs"

fun js_join :: "string \<Rightarrow> string list \<Rightarrow> string" where
  "js_join sep [] = []"
| "js_join sep [x] = x"
| "js_join sep (x # y # xs) = x @ sep @ js_join sep (y # xs)"

fun js_split :: "char \<Rightarrow> string \<Rightarrow> string list" where
  "js_split c [] = [[]]"
| "js_split c (x # s) =
     (if x = c then [] # js_split c s
      else (case js_split c s of [] \<Rightarrow> [[x]] | w # ws \<Rightarrow> (x # w) # ws))"

definition js_segments :: "char \<Rightarrow> string \<Rightarrow> string list" where
  \<comment> \<open>\<open>s.split(c).map((x) => x.trim()).filter(Boolean)\<close>\<close>
  "js_segments c s = filter (\<lambda>x. x \<noteq> []) (map js_trim (js_split c s))"

definition is_digit :: "char \<Rightarrow> bool" where
  "is_digit c \<longleftrightarrow> c \<in> set ''0123456789''"

text \<open>\<open>toLowerCase\<close>: the letters A to Z, and those from 192 to 222 but for the multiplication sign.\<close>

definition js_lower :: "string \<Rightarrow> string" where
  "js_lower s = map (\<lambda>c. let n = (of_char c :: nat) in
     if 65 \<le> n \<and> n \<le> 90 \<or> 192 \<le> n \<and> n \<le> 222 \<and> n \<noteq> 215 then char_of (n + 32) else c) s"

subsection \<open>Trimming\<close>

lemma js_ws_simps [js_simps]:
  "js_ws CHR 0x20" "js_ws CHR 0x0A" "\<not> js_ws CHR ''<''" "\<not> js_ws CHR ''>''"
  by (simp_all add: js_ws_def)

lemma js_trim_Nil [simp]: "js_trim [] = []"
  by (simp add: js_trim_def)

lemma length_dropWhile_le_self: "length (dropWhile P xs) \<le> length xs"
  by (induction xs) auto

lemma length_js_trim: "length (js_trim s) \<le> length s"
  unfolding js_trim_def length_rev
  by (metis (no_types, lifting) le_trans length_dropWhile_le_self length_rev)

lemma js_trim_eq_Nil: "js_trim s = [] \<longleftrightarrow> (\<forall>c \<in> set s. js_ws c)"
proof -
  have "(\<forall>c \<in> set (dropWhile js_ws s). js_ws c) \<longleftrightarrow> (\<forall>c \<in> set s. js_ws c)"
    by (induction s) auto
  then show ?thesis by (simp add: js_trim_def dropWhile_eq_Nil_conv)
qed

text \<open>A trimmed string begins and ends with characters that are not white space.\<close>

lemma js_trim_ends:
  assumes "js_trim s \<noteq> []"
  shows "\<not> js_ws (hd (js_trim s)) \<and> \<not> js_ws (last (js_trim s))"
proof -
  define u where "u = dropWhile js_ws s"
  define v where "v = dropWhile js_ws (rev u)"
  have t: "js_trim s = rev v" by (simp add: js_trim_def u_def v_def)
  with assms have "v \<noteq> []" by simp
  then have last: "\<not> js_ws (hd v)" unfolding v_def by (rule hd_dropWhile)
  have "rev u = takeWhile js_ws (rev u) @ v" by (simp add: v_def)
  then have u: "u = rev v @ rev (takeWhile js_ws (rev u))"
    by (metis rev_append rev_rev_ident)
  then have "u \<noteq> []" "hd u = hd (rev v)" using \<open>v \<noteq> []\<close> by (metis hd_append Nil_is_append_conv
    rev_is_Nil_conv)+
  moreover from this(1) have "\<not> js_ws (hd u)" unfolding u_def by (rule hd_dropWhile)
  ultimately show ?thesis using last \<open>v \<noteq> []\<close> by (simp add: t last_rev)
qed

lemma js_trim_idem [simp]: "js_trim (js_trim s) = js_trim s"
proof (cases "js_trim s = []")
  case False
  define v where "v = js_trim s"
  have "\<not> js_ws (hd v)" "\<not> js_ws (last v)" "v \<noteq> []"
    using js_trim_ends [OF False] False by (simp_all add: v_def)
  then have "dropWhile js_ws v = v" "dropWhile js_ws (rev v) = rev v"
    by (simp_all add: dropWhile_eq_self_iff hd_rev)
  then have "js_trim v = v" by (simp add: js_trim_def)
  then show ?thesis by (simp add: v_def)
qed simp

lemma js_trim_unchanged:
  assumes "\<not> js_ws (hd s)" and "\<not> js_ws (last s)"
  shows "js_trim s = s"
proof -
  have "dropWhile js_ws s = s" "dropWhile js_ws (rev s) = rev s"
    using assms by (simp_all add: dropWhile_eq_self_iff hd_rev)
  then show ?thesis by (simp add: js_trim_def)
qed

subsection \<open>Searching\<close>

lemma index_of_Some:
  "index_of p s = Some i \<Longrightarrow> i + length p \<le> length s \<and> prefix p (drop i s)"
  by (induction p s arbitrary: i rule: index_of.induct)
     (auto split: if_splits dest: prefix_length_le)

lemma index_of_first:
  "index_of p s = Some i \<Longrightarrow> j < i \<Longrightarrow> \<not> prefix p (drop j s)"
proof (induction p s arbitrary: i j rule: index_of.induct)
  case (2 p c s)
  then show ?case by (cases j) (auto split: if_splits)
qed (simp split: if_splits)

lemma index_of_None: "index_of p s = None \<longleftrightarrow> \<not> sublist p s"
  by (induction p s rule: index_of.induct) (auto simp: sublist_Cons_right)

lemma js_includes_sublist: "js_includes s p \<longleftrightarrow> sublist p s"
  by (simp add: js_includes_def index_of_None)

lemma js_indexOf_bounds:
  assumes "js_indexOf s p from = Some i" and "p \<noteq> []"
  shows "from \<le> i \<and> i + length p \<le> length s"
proof -
  from assms(1) obtain k where k: "index_of p (drop from s) = Some k"
    and i: "i = min from (length s) + k"
    by (auto simp: js_indexOf_def)
  from index_of_Some [OF k] have "k + length p \<le> length s - from" by simp
  moreover from assms(2) have "0 < length p" by simp
  ultimately show ?thesis using i by linarith
qed

text \<open>
  The tags the source searches for begin with a character that does not occur again in
  them, so an occurrence never straddles the end of a text that holds none.
\<close>

lemma prefix_append_fresh:
  assumes "prefix (c # cs) (v @ c # w)" and "c \<notin> set cs" and "v \<noteq> []"
  shows "prefix (c # cs) v"
proof -
  have "length (c # cs) \<le> length v"
  proof (rule ccontr)
    assume "\<not> length (c # cs) \<le> length v"
    then have lt: "length v < length (c # cs)" by simp
    from assms(1) obtain zs where "v @ c # w = (c # cs) @ zs" by (auto simp: prefix_def)
    then have "(v @ c # w) ! length v = ((c # cs) @ zs) ! length v" by (rule arg_cong)
    moreover have "((c # cs) @ zs) ! length v = (c # cs) ! length v"
      using lt by (simp only: nth_append if_True)
    ultimately have "(c # cs) ! length v = c" by simp
    then have "cs ! (length v - 1) = c" using assms(3) by (simp add: nth_Cons')
    moreover have "length v - 1 < length cs" using lt assms(3) by (cases v) auto
    ultimately show False using assms(2) nth_mem [of "length v - 1" cs] by simp
  qed
  then show ?thesis using prefix_length_prefix [OF assms(1), of v] by simp
qed

lemma index_of_fresh:
  assumes "\<not> sublist (c # cs) v" and "c \<notin> set cs"
  shows "index_of (c # cs) (v @ (c # cs) @ w) = Some (length v)"
  using assms
proof (induction v)
  case Nil
  then show ?case by simp
next
  case (Cons x v)
  from Cons.prems have "\<not> prefix (c # cs) (x # v)" "\<not> sublist (c # cs) v"
    by (simp_all add: sublist_Cons_right)
  moreover from this(1) have "\<not> prefix (c # cs) ((x # v) @ c # cs @ w)"
    using prefix_append_fresh [of c cs "x # v" "cs @ w"] Cons.prems(2) by auto
  ultimately show ?case using Cons.IH Cons.prems(2) by (simp del: Cons_prefix_Cons)
qed

subsection \<open>Joining\<close>

lemma js_join_Cons:
  "js_join sep (x # xs) = (if xs = [] then x else x @ sep @ js_join sep xs)"
  by (cases xs) auto

lemma js_join_empty_sep: "js_join [] xs = concat xs"
  by (induction xs) (auto simp: js_join_Cons)

subsection \<open>Lists\<close>

lemma length_last_n: "length (last_n n xs) = min n (length xs)"
  by (simp add: last_n_def)

lemma suffix_last_n: "suffix (last_n n xs) xs"
  by (simp add: last_n_def suffix_drop)

lemma last_n_all: "length xs \<le> n \<Longrightarrow> last_n n xs = xs"
  by (simp add: last_n_def)

lemma set_map_filter: "y \<in> set (List.map_filter f xs) \<longleftrightarrow> (\<exists>x \<in> set xs. f x = Some y)"
  by (induction xs) (auto simp: List.map_filter_def split: option.splits)

lemma js_split_nonempty [simp]: "js_split c s \<noteq> []"
  by (cases s) (auto split: list.split)

lemma js_split_append: "js_split c (s @ c # t) = js_split c s @ js_split c t"
  by (induction s) (auto split: list.split)

lemma js_split_none: "c \<notin> set s \<Longrightarrow> js_split c s = [s]"
  by (induction s) auto

lemma js_segments_append: "js_segments c (s @ c # t) = js_segments c s @ js_segments c t"
  by (simp add: js_segments_def js_split_append)

lemma js_segments_join: "js_segments c (js_join [c] xs) = concat (map (js_segments c) xs)"
proof (induction xs)
  case Nil
  then show ?case by (simp add: js_segments_def js_trim_def)
next
  case (Cons x xs)
  then show ?case by (simp add: js_join_Cons js_segments_append)
qed

lemma js_segments_word: "s \<noteq> [] \<Longrightarrow> c \<notin> set s \<Longrightarrow> \<forall>x \<in> set s. \<not> js_ws x \<Longrightarrow> js_segments c s = [s]"
proof -
  assume "s \<noteq> []" and "c \<notin> set s" and ws: "\<forall>x \<in> set s. \<not> js_ws x"
  moreover have "dropWhile js_ws s = s" "dropWhile js_ws (rev s) = rev s"
    using ws by (metis dropWhile_eq_self_iff list.set_sel(1) set_rev)+
  ultimately show "js_segments c s = [s]" by (simp add: js_segments_def js_split_none js_trim_def)
qed

section \<open>Searching in arrays\<close>

text \<open>\<open>findIndex\<close>, with \<open>None\<close> for the result -1.\<close>

fun js_findIndex :: "('a \<Rightarrow> bool) \<Rightarrow> 'a list \<Rightarrow> nat option" where
  "js_findIndex P [] = None"
| "js_findIndex P (x # xs) = (if P x then Some 0 else map_option Suc (js_findIndex P xs))"

lemma js_findIndex_Some:
  "js_findIndex P xs = Some i \<Longrightarrow> i < length xs \<and> P (xs ! i) \<and> (\<forall>j < i. \<not> P (xs ! j))"
proof (induction xs arbitrary: i)
  case (Cons x xs)
  then show ?case by (cases "P x") (auto simp: nth_Cons split: nat.splits)
qed simp

lemma js_findIndex_None: "js_findIndex P xs = None \<longleftrightarrow> (\<forall>x \<in> set xs. \<not> P x)"
  by (induction xs) auto

section \<open>Objects\<close>

text \<open>The names that every object inherits.\<close>

definition inherited_names :: "string list" where
  "inherited_names = [''constructor'', ''__proto__'', ''hasOwnProperty'', ''isPrototypeOf'',
     ''propertyIsEnumerable'', ''toLocaleString'', ''toString'', ''valueOf'', ''__defineGetter__'',
     ''__defineSetter__'', ''__lookupGetter__'', ''__lookupSetter__'']"

lemma set_update_alist: "set (AList.update k v m) \<subseteq> insert (k, v) (set m)"
  by (induction m) auto

end
