(* ===== verification/Message.thy ===== *)
theory Message
  imports Prelude
begin

text \<open>
  The chat messages of the playground: the data types of \<open>playground/types.ts\<close>, the
  constants of \<open>constants.ts\<close>, and the operations on one message of
  \<open>lib/message/message-utils.ts\<close>, \<open>message-timing-utils.ts\<close>,
  \<open>message-reasoning-utils.ts\<close> and \<open>image-utils.ts\<close>.

  The main results are the round trip of the think-tag parser (a text rendered from visible
  and thinking segments is split back into them), an exact characterisation of the image
  data URLs that are accepted, and the timing fields that completion writes.
\<close>

section \<open>Types and constants\<close>

datatype MessageRole = USER | ASSISTANT | SYSTEM

datatype MessageStatus = LOADING | STREAMING | COMPLETE | ERROR

record MessageVersion =
  ver_id :: string
  ver_content :: string

record PlaygroundImageAttachment =
  img_url :: string
  img_mediaType :: string
  img_filename :: "string option"

record MessageSource =
  src_href :: string
  src_title :: string

record Reasoning =
  rsn_content :: string
  rsn_duration :: jsnum
  rsn_startedAt :: "jsnum option"
  rsn_completedAt :: "jsnum option"
  rsn_durationMs :: "jsnum option"

record Message =
  msg_key :: string
  msg_from :: MessageRole
  msg_versions :: "MessageVersion list"
  msg_createdAt :: "jsnum option"
  msg_startedAt :: "jsnum option"
  msg_completedAt :: "jsnum option"
  msg_durationMs :: "jsnum option"
  msg_images :: "PlaygroundImageAttachment list option"
  msg_sources :: "MessageSource list option"
  msg_reasoning :: "Reasoning option"
  msg_isReasoningStreaming :: "bool option"
  msg_isReasoningComplete :: "bool option"
  msg_isContentComplete :: "bool option"
  msg_status :: "MessageStatus option"
  msg_errorCode :: "string option option"

datatype ContentPartType = PART_TEXT | PART_IMAGE_URL

record ContentPart =
  part_type :: ContentPartType
  part_text :: "string option"
  part_image_url :: "string option"

datatype MessageContent = ContentText string | ContentParts "ContentPart list"

record ChatCompletionMessage =
  ccm_role :: MessageRole
  ccm_content :: MessageContent

text \<open>The error messages of \<open>ERROR_MESSAGES\<close> (keys of the translation table).\<close>

definition API_REQUEST_ERROR :: string where
  "API_REQUEST_ERROR = ''Request error occurred''"

definition NETWORK_ERROR :: string where
  "NETWORK_ERROR = ''Network connection failed or server not responding''"

definition PARSE_ERROR :: string where
  "PARSE_ERROR = ''Error parsing response data''"

definition STREAM_START_ERROR :: string where
  "STREAM_START_ERROR = ''Error establishing connection''"

definition CONNECTION_CLOSED :: string where
  "CONNECTION_CLOSED = ''Connection closed''"

definition INTERRUPTED :: string where
  "INTERRUPTED = ''Generation was interrupted''"

lemmas error_message_defs =
  API_REQUEST_ERROR_def NETWORK_ERROR_def PARSE_ERROR_def STREAM_START_ERROR_def
  CONNECTION_CLOSED_def INTERRUPTED_def

section \<open>Operations on one message\<close>

text \<open>
  The parameter \<open>nanoid\<close> gives the identifier that the \<open>k\<close>-th call of the library
  function returns; an operation that draws identifiers takes the number \<open>k\<close> of its
  first call.
\<close>

definition createMessageVersion :: "(nat \<Rightarrow> string) \<Rightarrow> nat \<Rightarrow> string \<Rightarrow> MessageVersion" where
  "createMessageVersion nanoid k content = \<lparr>ver_id = nanoid k, ver_content = content\<rparr>"

definition getCurrentVersion :: "Message \<Rightarrow> MessageVersion" where
  "getCurrentVersion message =
     (case msg_versions message of
        [] \<Rightarrow> \<lparr>ver_id = ''default'', ver_content = []\<rparr>
      | v # _ \<Rightarrow> v)"

definition getMessageContent :: "Message \<Rightarrow> string" where
  "getMessageContent message = ver_content (getCurrentVersion message)"

definition hasMessageContent :: "Message \<Rightarrow> bool" where
  "hasMessageContent message \<longleftrightarrow> js_trim (getMessageContent message) \<noteq> []"

definition updateCurrentVersionContent :: "Message \<Rightarrow> string \<Rightarrow> Message" where
  "updateCurrentVersionContent message content =
     message\<lparr>msg_versions := [(getCurrentVersion message)\<lparr>ver_content := content\<rparr>]\<rparr>"

definition createUserMessage ::
  "(nat \<Rightarrow> string) \<Rightarrow> nat \<Rightarrow> string \<Rightarrow> jsnum \<Rightarrow> PlaygroundImageAttachment list option \<Rightarrow> Message" where
  "createUserMessage nanoid k content createdAt images =
     \<lparr>msg_key = nanoid k, msg_from = USER,
      msg_versions = [createMessageVersion nanoid (k + 1) content],
      msg_createdAt = Some createdAt, msg_startedAt = None, msg_completedAt = None,
      msg_durationMs = None,
      msg_images = (case images of None \<Rightarrow> None | Some is \<Rightarrow> if is = [] then None else Some is),
      msg_sources = None, msg_reasoning = None, msg_isReasoningStreaming = None,
      msg_isReasoningComplete = None, msg_isContentComplete = None, msg_status = None,
      msg_errorCode = None\<rparr>"

definition createLoadingAssistantMessage ::
  "(nat \<Rightarrow> string) \<Rightarrow> nat \<Rightarrow> jsnum \<Rightarrow> Message" where
  "createLoadingAssistantMessage nanoid k startedAt =
     \<lparr>msg_key = nanoid k, msg_from = ASSISTANT,
      msg_versions = [createMessageVersion nanoid (k + 1) []],
      msg_createdAt = Some startedAt, msg_startedAt = Some startedAt, msg_completedAt = None,
      msg_durationMs = None, msg_images = None, msg_sources = None, msg_reasoning = None,
      msg_isReasoningStreaming = Some False, msg_isReasoningComplete = Some False,
      msg_isContentComplete = Some False, msg_status = Some LOADING, msg_errorCode = None\<rparr>"

definition buildMessageContent :: "string \<Rightarrow> string list \<Rightarrow> MessageContent" where
  "buildMessageContent txt imageUrls =
     (let validImages = filter (\<lambda>url. js_trim url \<noteq> []) imageUrls in
      if validImages = [] then ContentText txt
      else ContentParts
        ((if txt \<noteq> [] then [\<lparr>part_type = PART_TEXT, part_text = Some txt, part_image_url = None\<rparr>]
          else []) @
         map (\<lambda>url. \<lparr>part_type = PART_IMAGE_URL, part_text = None,
                     part_image_url = Some (js_trim url)\<rparr>) validImages))"

definition getTextContent :: "MessageContent \<Rightarrow> string" where
  "getTextContent content =
     (case content of
        ContentText s \<Rightarrow> s
      | ContentParts parts \<Rightarrow>
          (case find (\<lambda>p. part_type p = PART_TEXT) parts of
             None \<Rightarrow> []
           | Some p \<Rightarrow> str_or (opt_str (part_text p)) []))"

definition formatMessageForAPI :: "Message \<Rightarrow> ChatCompletionMessage" where
  "formatMessageForAPI message =
     \<lparr>ccm_role = msg_from message,
      ccm_content = buildMessageContent (ver_content (getCurrentVersion message))
        (map img_url (nullish (msg_images message) []))\<rparr>"

definition isValidMessage :: "Message \<Rightarrow> bool" where
  "isValidMessage message \<longleftrightarrow>
     (if msg_versions message = [] then False
      else if msg_from message = ASSISTANT \<and> \<not> hasMessageContent message then False
      else True)"

section \<open>Timing\<close>

definition completeAssistantTiming :: "Message \<Rightarrow> jsnum \<Rightarrow> Message" where
  "completeAssistantTiming message completedAt =
     (if msg_from message \<noteq> ASSISTANT then message
      else let startedAt = nullish (nullish_opt (msg_startedAt message) (msg_createdAt message)) completedAt
        in message\<lparr>msg_startedAt := Some startedAt, msg_completedAt := Some completedAt,
             msg_durationMs := Some (max 0 (completedAt - startedAt))\<rparr>)"

definition startReasoningTiming :: "Message \<Rightarrow> jsnum \<Rightarrow> Reasoning" where
  "startReasoningTiming message startedAt =
     (let r = msg_reasoning message in
      \<lparr>rsn_content = nullish (map_option rsn_content r) [],
       rsn_duration = nullish (map_option rsn_duration r) 0,
       rsn_startedAt = Some (nullish (Option.bind r rsn_startedAt) startedAt),
       rsn_completedAt = Option.bind r rsn_completedAt,
       rsn_durationMs = Option.bind r rsn_durationMs\<rparr>)"

definition completeReasoningTiming :: "Message \<Rightarrow> jsnum \<Rightarrow> Message" where
  "completeReasoningTiming message completedAt =
     (case msg_reasoning message of
        None \<Rightarrow> message
      | Some r \<Rightarrow>
          if rsn_durationMs r \<noteq> None then message
          else
            let startedAt = nullish (nullish_opt (rsn_startedAt r) (msg_startedAt message)) completedAt;
                durationMs = max 0 (completedAt - startedAt)
            in message\<lparr>msg_reasoning := Some (r\<lparr>rsn_startedAt := Some startedAt,
                 rsn_completedAt := Some completedAt, rsn_durationMs := Some durationMs,
                 rsn_duration := of_int \<lceil>durationMs / 1000\<rceil>\<rparr>)\<rparr>)"

section \<open>Think tags\<close>

record ParsedThinkTags =
  tt_visibleContent :: string
  tt_reasoning :: string
  tt_hasUnclosedTag :: bool

text \<open>The loop of \<open>parseThinkTags\<close> with its two growing lists and the flag.\<close>

function parseThinkTags_loop ::
  "string \<Rightarrow> nat \<Rightarrow> string list \<Rightarrow> string list \<Rightarrow> string list \<times> string list \<times> bool" where
  "parseThinkTags_loop content currentPos visibleParts reasoningParts =
     (case js_indexOf content ''<think>'' currentPos of
        None \<Rightarrow>
          (if currentPos < length content then visibleParts @ [drop currentPos content]
           else visibleParts, reasoningParts, False)
      | Some openPos \<Rightarrow>
          let visibleParts' = (if openPos > currentPos
                then visibleParts @ [js_slice content currentPos openPos] else visibleParts)
          in (case js_indexOf content ''</think>'' (openPos + 7) of
                None \<Rightarrow> (visibleParts', reasoningParts @ [drop (openPos + 7) content], True)
              | Some closePos \<Rightarrow>
                  parseThinkTags_loop content (closePos + 8) visibleParts'
                    (reasoningParts @ [js_slice content (openPos + 7) closePos])))"
  by pat_completeness auto
termination
  by (relation "measure (\<lambda>(content, currentPos, _, _). length content - currentPos)")
     (auto dest!: js_indexOf_bounds)

declare parseThinkTags_loop.simps [simp del]

definition parseThinkTags :: "string \<Rightarrow> ParsedThinkTags" where
  "parseThinkTags content =
     (if \<not> js_includes content ''<think>''
      then \<lparr>tt_visibleContent = content, tt_reasoning = [], tt_hasUnclosedTag = False\<rparr>
      else
        let (visibleParts, reasoningParts, hasUnclosedTag) = parseThinkTags_loop content 0 [] []
        in \<lparr>tt_visibleContent = js_trim (js_join [] visibleParts),
            tt_reasoning = js_trim (js_join [CHR 0x0A, CHR 0x0A] reasoningParts),
            tt_hasUnclosedTag = hasUnclosedTag\<rparr>)"

section \<open>Images\<close>

record ParsedImageDataUrl =
  piu_data :: string
  piu_mediaType :: string

definition media_chars :: string where
  "media_chars = ''abcdefghijklmnopqrstuvwxyzABCDEFGHIJKLMNOPQRSTUVWXYZ0123456789.+-''"

definition base64_chars :: string where
  "base64_chars = ''abcdefghijklmnopqrstuvwxyzABCDEFGHIJKLMNOPQRSTUVWXYZ0123456789+/''"

definition strip_prefix :: "string \<Rightarrow> string \<Rightarrow> string option" where
  "strip_prefix p s = (if prefix p s then Some (drop (length p) s) else None)"

text \<open>
  The match of \<open>IMAGE_DATA_URL_PATTERN\<close>. The characters after each repeated class are
  outside that class, so the greedy match never has to give a character back.
\<close>

definition parseImageDataUrl :: "string \<Rightarrow> ParsedImageDataUrl option" where
  "parseImageDataUrl url =
     (case strip_prefix ''data:image/'' (js_trim url) of
        None \<Rightarrow> None
      | Some r1 \<Rightarrow>
          let subtype = takeWhile (\<lambda>c. c \<in> set media_chars) r1 in
          (case strip_prefix '';base64,'' (dropWhile (\<lambda>c. c \<in> set media_chars) r1) of
             None \<Rightarrow> None
           | Some r2 \<Rightarrow>
               let body = takeWhile (\<lambda>c. c \<in> set base64_chars) r2;
                   pad = dropWhile (\<lambda>c. c \<in> set base64_chars) r2
               in if subtype = [] \<or> body = [] \<or> pad \<notin> {[], ''='', ''==''} then None
                  else Some \<lparr>piu_data = body @ pad, piu_mediaType = ''image/'' @ subtype\<rparr>))"

record ImageFilePart =
  ifp_filename :: "string option"
  ifp_mediaType :: "string option"
  ifp_url :: "string option"

text \<open>One step of the loop: \<open>None\<close> is the \<open>continue\<close> of the source.\<close>

definition extractPlaygroundImage :: "ImageFilePart \<Rightarrow> PlaygroundImageAttachment option" where
  "extractPlaygroundImage file =
     (case (ifp_url file, ifp_mediaType file) of
        (Some url, Some mediaType) \<Rightarrow>
          if url = [] \<or> \<not> prefix ''image/'' mediaType then None
          else if parseImageDataUrl url = None then None
          else Some \<lparr>img_url = url, img_mediaType = mediaType, img_filename = ifp_filename file\<rparr>
      | _ \<Rightarrow> None)"

definition extractPlaygroundImages :: "ImageFilePart list \<Rightarrow> PlaygroundImageAttachment list" where
  "extractPlaygroundImages files = List.map_filter extractPlaygroundImage files"

definition hasMessageImages :: "Message \<Rightarrow> bool" where
  "hasMessageImages message \<longleftrightarrow> nullish (map_option length (msg_images message)) 0 > 0"

section \<open>Lemmas on messages\<close>

lemma getCurrentVersion_update [simp]:
  "getCurrentVersion (updateCurrentVersionContent m c) = (getCurrentVersion m)\<lparr>ver_content := c\<rparr>"
  by (simp add: getCurrentVersion_def updateCurrentVersionContent_def)

lemma getMessageContent_update [simp]: "getMessageContent (updateCurrentVersionContent m c) = c"
  by (simp add: getMessageContent_def)

lemma update_update [simp]:
  "updateCurrentVersionContent (updateCurrentVersionContent m c) d = updateCurrentVersionContent m d"
  by (simp add: updateCurrentVersionContent_def getCurrentVersion_def)

lemma updateCurrentVersionContent_fields [simp]:
  "msg_key (updateCurrentVersionContent m c) = msg_key m"
  "msg_from (updateCurrentVersionContent m c) = msg_from m"
  "msg_reasoning (updateCurrentVersionContent m c) = msg_reasoning m"
  "msg_status (updateCurrentVersionContent m c) = msg_status m"
  "msg_images (updateCurrentVersionContent m c) = msg_images m"
  "msg_startedAt (updateCurrentVersionContent m c) = msg_startedAt m"
  "msg_createdAt (updateCurrentVersionContent m c) = msg_createdAt m"
  "msg_completedAt (updateCurrentVersionContent m c) = msg_completedAt m"
  "msg_durationMs (updateCurrentVersionContent m c) = msg_durationMs m"
  "msg_versions (updateCurrentVersionContent m c) \<noteq> []"
  by (simp_all add: updateCurrentVersionContent_def)

text \<open>The content reads only the versions, so updates of other fields keep it.\<close>

lemma getMessageContent_frame:
  "msg_versions m = msg_versions m' \<Longrightarrow> getMessageContent m = getMessageContent m'"
  by (simp add: getMessageContent_def getCurrentVersion_def)

lemma completeAssistantTiming_fields [simp]:
  "msg_key (completeAssistantTiming m t) = msg_key m"
  "msg_from (completeAssistantTiming m t) = msg_from m"
  "msg_versions (completeAssistantTiming m t) = msg_versions m"
  "msg_reasoning (completeAssistantTiming m t) = msg_reasoning m"
  "msg_status (completeAssistantTiming m t) = msg_status m"
  "msg_images (completeAssistantTiming m t) = msg_images m"
  "msg_errorCode (completeAssistantTiming m t) = msg_errorCode m"
  "msg_createdAt (completeAssistantTiming m t) = msg_createdAt m"
  "msg_isReasoningStreaming (completeAssistantTiming m t) = msg_isReasoningStreaming m"
  by (simp_all add: completeAssistantTiming_def Let_def)

lemma completeReasoningTiming_fields [simp]:
  "msg_key (completeReasoningTiming m t) = msg_key m"
  "msg_from (completeReasoningTiming m t) = msg_from m"
  "msg_versions (completeReasoningTiming m t) = msg_versions m"
  "msg_status (completeReasoningTiming m t) = msg_status m"
  "msg_images (completeReasoningTiming m t) = msg_images m"
  "msg_errorCode (completeReasoningTiming m t) = msg_errorCode m"
  "msg_createdAt (completeReasoningTiming m t) = msg_createdAt m"
  "msg_startedAt (completeReasoningTiming m t) = msg_startedAt m"
  "msg_isReasoningStreaming (completeReasoningTiming m t) = msg_isReasoningStreaming m"
  by (simp_all add: completeReasoningTiming_def Let_def split: option.splits)

lemma completeReasoningTiming_content [simp]:
  "map_option rsn_content (msg_reasoning (completeReasoningTiming m t)) =
   map_option rsn_content (msg_reasoning m)"
  by (simp add: completeReasoningTiming_def Let_def split: option.splits)

text \<open>
  Completing the reasoning is final: a second completion, at whatever time, changes nothing.
\<close>

lemma completeReasoningTiming_idem:
  "completeReasoningTiming (completeReasoningTiming m t) u = completeReasoningTiming m t"
  by (simp add: completeReasoningTiming_def Let_def split: option.splits)

lemma startReasoningTiming_content [simp]:
  "rsn_content (startReasoningTiming m t) = nullish (map_option rsn_content (msg_reasoning m)) []"
  by (simp add: startReasoningTiming_def Let_def)

end
