(* ===== verification/Think_Tags.thy ===== *)
theory Think_Tags
  imports Message
begin

text \<open>
  Correctness of the think-tag parser of \<open>lib/message/message-reasoning-utils.ts\<close> and of
  the image data URL matcher of \<open>image-utils.ts\<close>, both defined in theory \<open>Message\<close>.

  The specification of the parser is a rendering function: a text is a sequence of
  visible/thinking pairs, a visible tail and, if the model is still thinking, an unclosed
  thought. Every text has such a decomposition, and the parser finds it.
\<close>

section \<open>Texts rendered from segments\<close>

definition OPEN :: string where "OPEN = ''<think>''"

definition CLOSE :: string where "CLOSE = ''</think>''"

definition render_pairs :: "(string \<times> string) list \<Rightarrow> string" where
  "render_pairs ps = concat (map (\<lambda>(v, t). v @ OPEN @ t @ CLOSE) ps)"

definition render :: "(string \<times> string) list \<Rightarrow> string \<Rightarrow> string option \<Rightarrow> string" where
  "render ps tail u = render_pairs ps @ tail @ (case u of None \<Rightarrow> [] | Some t \<Rightarrow> OPEN @ t)"

text \<open>
  A visible part holds no opening tag and a thought holds no closing tag; a thought may hold
  further opening tags, which the parser takes as text.
\<close>

definition segments_ok :: "(string \<times> string) list \<Rightarrow> string \<Rightarrow> string option \<Rightarrow> bool" where
  "segments_ok ps tail u \<longleftrightarrow>
     (\<forall>(v, t) \<in> set ps. \<not> js_includes v OPEN \<and> \<not> js_includes t CLOSE) \<and>
     \<not> js_includes tail OPEN \<and> (\<forall>t. u = Some t \<longrightarrow> \<not> js_includes t CLOSE)"

lemma tag_lengths: "length OPEN = 7" "length CLOSE = 8" "OPEN \<noteq> []" "CLOSE \<noteq> []"
  by (simp_all add: OPEN_def CLOSE_def)

text \<open>The equation of the loop with the tags and their lengths named.\<close>

lemma loop_unfold:
  "parseThinkTags_loop content pos vs rs =
     (case js_indexOf content OPEN pos of
        None \<Rightarrow> (if pos < length content then vs @ [drop pos content] else vs, rs, False)
      | Some i \<Rightarrow>
          let vs' = (if i > pos then vs @ [js_slice content pos i] else vs)
          in (case js_indexOf content CLOSE (i + length OPEN) of
                None \<Rightarrow> (vs', rs @ [drop (i + length OPEN) content], True)
              | Some j \<Rightarrow> parseThinkTags_loop content (j + length CLOSE) vs'
                    (rs @ [js_slice content (i + length OPEN) j])))"
  unfolding tag_lengths by (simp only: parseThinkTags_loop.simps [of content pos] OPEN_def CLOSE_def)

lemma js_indexOf_append:
  "js_indexOf (pre @ s) p (length pre) = map_option ((+) (length pre)) (index_of p s)"
  by (simp add: js_indexOf_def)

lemma index_of_open:
  "\<not> js_includes v OPEN \<Longrightarrow> index_of OPEN (v @ OPEN @ w) = Some (length v)"
  using index_of_fresh [of "CHR ''<''" "''think>''" v w] by (simp add: js_includes_sublist OPEN_def)

lemma index_of_close:
  "\<not> js_includes t CLOSE \<Longrightarrow> index_of CLOSE (t @ CLOSE @ w) = Some (length t)"
  using index_of_fresh [of "CHR ''<''" "''/think>''" t w] by (simp add: js_includes_sublist CLOSE_def)

text \<open>One round of the loop, by the first tag after the current position.\<close>

lemma loop_no_open:
  assumes "\<not> js_includes s OPEN"
  shows "parseThinkTags_loop (pre @ s) (length pre) vs rs =
    (if s = [] then vs else vs @ [s], rs, False)"
  using assms by (simp add: loop_unfold [of "pre @ s"] js_indexOf_append js_includes_def)

lemma loop_unclosed:
  assumes "\<not> js_includes v OPEN" and "\<not> js_includes t CLOSE"
  shows "parseThinkTags_loop (pre @ v @ OPEN @ t) (length pre) vs rs =
    (if v = [] then vs else vs @ [v], rs @ [t], True)"
proof -
  let ?c = "pre @ v @ OPEN @ t"
  have open_at: "js_indexOf ?c OPEN (length pre) = Some (length pre + length v)"
    by (simp add: js_indexOf_append index_of_open [OF assms(1)])
  have close_at: "js_indexOf ?c CLOSE (length pre + length v + length OPEN) = None"
    using js_indexOf_append [of "pre @ v @ OPEN" t CLOSE] assms(2)
    by (simp add: js_includes_def add.assoc)
  show ?thesis
    by (simp add: loop_unfold [of ?c] open_at close_at js_slice_def)
qed

lemma loop_pair:
  assumes "\<not> js_includes v OPEN" and "\<not> js_includes t CLOSE"
  shows "parseThinkTags_loop (pre @ v @ OPEN @ t @ CLOSE @ s) (length pre) vs rs =
    parseThinkTags_loop (pre @ v @ OPEN @ t @ CLOSE @ s) (length (pre @ v @ OPEN @ t @ CLOSE))
      (if v = [] then vs else vs @ [v]) (rs @ [t])"
proof -
  let ?c = "pre @ v @ OPEN @ t @ CLOSE @ s"
  have open_at: "js_indexOf ?c OPEN (length pre) = Some (length pre + length v)"
    by (simp add: js_indexOf_append index_of_open [OF assms(1)])
  have close_at: "js_indexOf ?c CLOSE (length pre + length v + length OPEN) =
      Some (length pre + length v + length OPEN + length t)"
    using js_indexOf_append [of "pre @ v @ OPEN" "t @ CLOSE @ s" CLOSE] index_of_close [OF assms(2)]
    by (simp add: add.assoc)
  show ?thesis
    by (simp only: loop_unfold [of ?c "length pre"] open_at option.case close_at Let_def)
       (simp add: js_slice_def add.assoc)
qed

lemma loop_render:
  assumes "segments_ok ps tail u"
  shows "parseThinkTags_loop (pre @ render ps tail u) (length pre) vs rs =
    (vs @ filter (\<lambda>v. v \<noteq> []) (map fst ps @ [tail]),
     rs @ map snd ps @ (case u of None \<Rightarrow> [] | Some t \<Rightarrow> [t]), u \<noteq> None)"
  using assms
proof (induction ps arbitrary: pre vs rs)
  case Nil
  then show ?case
    by (cases u) (auto simp: render_def render_pairs_def segments_ok_def loop_no_open
        loop_unclosed)
next
  case (Cons p ps)
  obtain v t where p: "p = (v, t)" by fastforce
  let ?pre = "pre @ v @ OPEN @ t @ CLOSE"
  from Cons.prems have vt: "\<not> js_includes v OPEN" "\<not> js_includes t CLOSE"
    and ok: "segments_ok ps tail u"
    by (auto simp: segments_ok_def p)
  have c: "pre @ render (p # ps) tail u = pre @ v @ OPEN @ t @ CLOSE @ render ps tail u"
    by (simp add: render_def render_pairs_def p)
  have "parseThinkTags_loop (?pre @ render ps tail u) (length ?pre)
      (if v = [] then vs else vs @ [v]) (rs @ [t]) =
    ((if v = [] then vs else vs @ [v]) @ filter (\<lambda>v. v \<noteq> []) (map fst ps @ [tail]),
     (rs @ [t]) @ map snd ps @ (case u of None \<Rightarrow> [] | Some t \<Rightarrow> [t]), u \<noteq> None)"
    by (rule Cons.IH [OF ok])
  then show ?case
    unfolding c loop_pair [OF vt] by (simp add: p)
qed

lemma concat_filter_nonempty: "concat (filter (\<lambda>v. v \<noteq> []) xs) = concat xs"
  by (induction xs) auto

lemma render_includes:
  assumes "ps \<noteq> [] \<or> u \<noteq> None"
  shows "js_includes (render ps tail u) OPEN"
proof (cases ps)
  case Nil
  then show ?thesis using assms
    by (auto simp: render_def render_pairs_def js_includes_sublist)
next
  case (Cons p ps')
  then have "render ps tail u = fst p @ OPEN @ (snd p @ CLOSE @ render ps' tail u)"
    by (cases p) (simp add: render_def render_pairs_def)
  then show ?thesis unfolding js_includes_sublist by (metis sublist_appendI)
qed

text \<open>Every text is rendered from segments that satisfy the side condition.\<close>

lemma split_at_first:
  assumes "index_of p s = Some i" and "p \<noteq> []"
  obtains a b where "s = a @ p @ b" and "\<not> js_includes a p"
proof -
  from index_of_Some [OF assms(1)] obtain z where z: "drop i s = p @ z" and i: "i \<le> length s"
    by (auto simp: prefix_def)
  then have s: "s = take i s @ p @ z" by (metis append_take_drop_id)
  have "\<not> sublist p (take i s)"
  proof
    assume "sublist p (take i s)"
    then obtain a b where ab: "take i s = a @ p @ b" by (auto simp: sublist_def)
    have "length a + length p \<le> length (take i s)" by (simp add: ab)
    then have "length a < i" using assms(2) i by (cases p) auto
    moreover have "drop (length a) s = p @ b @ drop i s"
      using ab append_take_drop_id [of i s] by (metis append.assoc append_eq_conv_conj)
    then have "prefix p (drop (length a) s)" by simp
    ultimately show False using index_of_first [OF assms(1)] by blast
  qed
  then show ?thesis using that [OF s] by (simp add: js_includes_sublist)
qed

lemma segments_exist: "\<exists>ps tail u. segments_ok ps tail u \<and> s = render ps tail u"
proof (induction s rule: length_induct)
  case (1 s)
  show ?case
  proof (cases "index_of OPEN s")
    case None
    then have "segments_ok [] s None \<and> s = render [] s None"
      by (simp add: segments_ok_def render_def render_pairs_def js_includes_def)
    then show ?thesis by blast
  next
    case (Some i)
    then obtain v r where s: "s = v @ OPEN @ r" and v: "\<not> js_includes v OPEN"
      using split_at_first tag_lengths(3) by metis
    show ?thesis
    proof (cases "index_of CLOSE r")
      case None
      then have "segments_ok [] v (Some r) \<and> s = render [] v (Some r)"
        using v by (simp add: segments_ok_def js_includes_def s render_def render_pairs_def)
      then show ?thesis by blast
    next
      case (Some j)
      then obtain t w where r: "r = t @ CLOSE @ w" and t: "\<not> js_includes t CLOSE"
        using split_at_first tag_lengths(4) by metis
      have "length w < length s" by (simp add: s r tag_lengths)
      with 1 obtain ps tail u where ps: "segments_ok ps tail u" "w = render ps tail u" by blast
      then have "segments_ok ((v, t) # ps) tail u \<and> s = render ((v, t) # ps) tail u"
        using v t by (auto simp: segments_ok_def s r render_def render_pairs_def)
      then show ?thesis by blast
    qed
  qed
qed

section \<open>The parser\<close>

lemma parseThinkTags_render:
  assumes "segments_ok ps tail u" and "ps \<noteq> [] \<or> u \<noteq> None"
  shows "parseThinkTags (render ps tail u) =
    \<lparr>tt_visibleContent = js_trim (concat (map fst ps) @ tail),
     tt_reasoning = js_trim (js_join [CHR 0x0A, CHR 0x0A]
       (map snd ps @ (case u of None \<Rightarrow> [] | Some t \<Rightarrow> [t]))),
     tt_hasUnclosedTag = (u \<noteq> None)\<rparr>"
proof -
  have "js_includes (render ps tail u) ''<think>''"
    using render_includes [OF assms(2)] by (simp only: OPEN_def)
  moreover have "concat (filter (\<lambda>v. v \<noteq> []) (map fst ps @ [tail])) = concat (map fst ps) @ tail"
    by (simp only: concat_filter_nonempty) simp
  ultimately show ?thesis
    using loop_render [OF assms(1), of "[]" "[]" "[]"]
    by (simp only: parseThinkTags_def js_join_empty_sep append_Nil list.size(3) Let_def prod.case
        simp_thms if_False)
qed

text \<open>
  C16. The think-tag parser inverts rendering: a text made of visible parts without opening
  tags and thoughts without closing tags is split into exactly these parts, the visible ones
  joined, the thoughts separated by blank lines, and the flag tells whether the last thought
  is still open.
\<close>

theorem parseThinkTags_roundtrip:
  assumes "segments_ok ps tail u" and "ps \<noteq> [] \<or> u \<noteq> None"
  shows "parseThinkTags (render ps tail u) =
    \<lparr>tt_visibleContent = js_trim (concat (map fst ps) @ tail),
     tt_reasoning = js_trim (js_join [CHR 0x0A, CHR 0x0A]
       (map snd ps @ (case u of None \<Rightarrow> [] | Some t \<Rightarrow> [t]))),
     tt_hasUnclosedTag = (u \<noteq> None)\<rparr>"
  by (rule parseThinkTags_render [OF assms])

lemma parseThinkTags_roundtrip_witness:
  "segments_ok [(''a '', ''x''), ([], ''y'')] '' b'' (Some ''z'') \<and>
   parseThinkTags ''a <think>x</think><think>y</think> b<think>z'' =
    \<lparr>tt_visibleContent = ''a  b'', tt_reasoning = ''x'' @ [CHR 0x0A, CHR 0x0A] @ ''y''
       @ [CHR 0x0A, CHR 0x0A] @ ''z'', tt_hasUnclosedTag = True\<rparr>"
proof -
  have ok: "segments_ok [(''a '', ''x''), ([], ''y'')] '' b'' (Some ''z'')"
    by (simp add: segments_ok_def js_includes_def OPEN_def CLOSE_def)
  have rendered: "render [(''a '', ''x''), ([], ''y'')] '' b'' (Some ''z'') =
      ''a <think>x</think><think>y</think> b<think>z''"
    by (simp add: render_def render_pairs_def OPEN_def CLOSE_def)
  show ?thesis
    using ok parseThinkTags_roundtrip [OF ok]
    by (simp add: rendered js_trim_def js_ws_def)
qed

text \<open>
  No text is outside the parser's specification: every text decomposes into segments, a
  text without an opening tag is returned unchanged, and the parser reports an open thought
  exactly when the decomposition ends in one.
\<close>

theorem parseThinkTags_total:
  "\<exists>ps tail u. segments_ok ps tail u \<and> content = render ps tail u \<and>
     (if ps = [] \<and> u = None
      then parseThinkTags content =
        \<lparr>tt_visibleContent = content, tt_reasoning = [], tt_hasUnclosedTag = False\<rparr>
      else tt_visibleContent (parseThinkTags content) = js_trim (concat (map fst ps) @ tail) \<and>
        (tt_hasUnclosedTag (parseThinkTags content) \<longleftrightarrow> u \<noteq> None))"
proof -
  obtain ps tail u where ok: "segments_ok ps tail u" and c: "content = render ps tail u"
    using segments_exist by blast
  show ?thesis
  proof (cases "ps = [] \<and> u = None")
    case True
    then have "\<not> js_includes content OPEN"
      using ok by (simp add: c render_def render_pairs_def segments_ok_def)
    then have "parseThinkTags content =
        \<lparr>tt_visibleContent = content, tt_reasoning = [], tt_hasUnclosedTag = False\<rparr>"
      by (simp add: parseThinkTags_def OPEN_def)
    then show ?thesis
      using True ok c by (intro exI [of _ ps] exI [of _ tail] exI [of _ u]) simp
  next
    case False
    then have "ps \<noteq> [] \<or> u \<noteq> None" by blast
    from parseThinkTags_render [OF ok this] show ?thesis
      using False ok c by (intro exI [of _ ps] exI [of _ tail] exI [of _ u]) auto
  qed
qed

section \<open>Image data URLs\<close>

text \<open>The strings that match the two groups of \<open>IMAGE_DATA_URL_PATTERN\<close>.\<close>

definition image_media_type :: "string \<Rightarrow> bool" where
  "image_media_type mt \<longleftrightarrow>
     (\<exists>subtype. mt = ''image/'' @ subtype \<and> subtype \<noteq> [] \<and> set subtype \<subseteq> set media_chars)"

definition base64_data :: "string \<Rightarrow> bool" where
  "base64_data d \<longleftrightarrow>
     (\<exists>body pad. d = body @ pad \<and> body \<noteq> [] \<and> set body \<subseteq> set base64_chars \<and>
        pad \<in> {[], ''='', ''==''})"

lemma strip_prefix_Some: "strip_prefix p s = Some r \<longleftrightarrow> s = p @ r"
  by (auto simp: strip_prefix_def prefix_def)

lemma span_append:
  assumes "\<forall>c \<in> set xs. P c" and "ys = [] \<or> \<not> P (hd ys)"
  shows "takeWhile P (xs @ ys) = xs \<and> dropWhile P (xs @ ys) = ys"
  using assms by (cases ys) auto

lemma bspec_subset: "set xs \<subseteq> set ys \<Longrightarrow> \<forall>c \<in> set xs. c \<in> set ys"
  by blast

lemma pad_not_base64: "pad \<in> {[], ''='', ''==''} \<Longrightarrow> pad = [] \<or> hd pad \<notin> set base64_chars"
  by (auto simp: base64_chars_def)

lemma semicolon_not_media: "CHR '';'' \<notin> set media_chars"
  by (simp add: media_chars_def)

lemma parseImageDataUrl_intro:
  assumes url: "js_trim url = ''data:image/'' @ subtype @ '';base64,'' @ body @ pad"
    and "subtype \<noteq> []" "set subtype \<subseteq> set media_chars"
    and "body \<noteq> []" "set body \<subseteq> set base64_chars" and pad: "pad \<in> {[], ''='', ''==''}"
  shows "parseImageDataUrl url = Some \<lparr>piu_data = body @ pad, piu_mediaType = ''image/'' @ subtype\<rparr>"
proof -
  let ?M = "\<lambda>c. c \<in> set media_chars" and ?B = "\<lambda>c. c \<in> set base64_chars"
  have m: "takeWhile ?M (subtype @ '';base64,'' @ body @ pad) = subtype"
    "dropWhile ?M (subtype @ '';base64,'' @ body @ pad) = '';base64,'' @ body @ pad"
    using span_append [OF bspec_subset [OF assms(3)], of "'';base64,'' @ body @ pad"]
      semicolon_not_media by simp_all
  have b: "takeWhile ?B (body @ pad) = body" "dropWhile ?B (body @ pad) = pad"
    using span_append [OF bspec_subset [OF assms(5)] pad_not_base64 [OF pad]] by simp_all
  have s: "strip_prefix ''data:image/'' (js_trim url) = Some (subtype @ '';base64,'' @ body @ pad)"
    "strip_prefix '';base64,'' ('';base64,'' @ body @ pad) = Some (body @ pad)"
    using url by (simp_all only: strip_prefix_Some)
  show ?thesis
    unfolding parseImageDataUrl_def s(1) option.case Let_def m s(2) b
    using assms(2,4) pad by simp
qed

text \<open>
  An image data URL is accepted exactly when, after trimming, it reads
  \<open>data:\<close>, an image media type, \<open>;base64,\<close> and base64 data with at most two padding
  signs; the result carries the media type and the data unchanged.
\<close>

theorem parseImageDataUrl_iff:
  "parseImageDataUrl url = Some p \<longleftrightarrow>
     js_trim url = ''data:'' @ piu_mediaType p @ '';base64,'' @ piu_data p \<and>
     image_media_type (piu_mediaType p) \<and> base64_data (piu_data p)"
proof
  assume lhs: "parseImageDataUrl url = Some p"
  let ?M = "\<lambda>c. c \<in> set media_chars" and ?B = "\<lambda>c. c \<in> set base64_chars"
  from lhs obtain r1 r2 where r1: "js_trim url = ''data:image/'' @ r1"
    and r2: "dropWhile ?M r1 = '';base64,'' @ r2"
    and ne: "takeWhile ?M r1 \<noteq> []" "takeWhile ?B r2 \<noteq> []" "dropWhile ?B r2 \<in> {[], ''='', ''==''}"
    and p: "p = \<lparr>piu_data = takeWhile ?B r2 @ dropWhile ?B r2, piu_mediaType = ''image/'' @ takeWhile ?M r1\<rparr>"
    unfolding parseImageDataUrl_def Let_def
    by (auto simp only: strip_prefix_Some option.inject split: option.splits if_splits)
  have "image_media_type (piu_mediaType p)"
    unfolding image_media_type_def p using ne(1) by (auto dest: set_takeWhileD)
  moreover have "base64_data (piu_data p)"
    unfolding base64_data_def p using ne(2,3)
    by (intro exI [of _ "takeWhile ?B r2"] exI [of _ "dropWhile ?B r2"]) (auto dest: set_takeWhileD)
  moreover have "r1 = takeWhile ?M r1 @ '';base64,'' @ r2"
    using takeWhile_dropWhile_id [of ?M r1] unfolding r2 by simp
  then have "js_trim url = ''data:'' @ piu_mediaType p @ '';base64,'' @ piu_data p"
    unfolding r1 p by simp
  ultimately show "js_trim url = ''data:'' @ piu_mediaType p @ '';base64,'' @ piu_data p \<and>
     image_media_type (piu_mediaType p) \<and> base64_data (piu_data p)" by blast
next
  assume rhs: "js_trim url = ''data:'' @ piu_mediaType p @ '';base64,'' @ piu_data p \<and>
     image_media_type (piu_mediaType p) \<and> base64_data (piu_data p)"
  then obtain subtype body pad where mt: "piu_mediaType p = ''image/'' @ subtype"
    and d: "piu_data p = body @ pad"
    and ok: "subtype \<noteq> []" "set subtype \<subseteq> set media_chars" "body \<noteq> []"
      "set body \<subseteq> set base64_chars" "pad \<in> {[], ''='', ''==''}"
    unfolding image_media_type_def base64_data_def by blast
  have "js_trim url = ''data:image/'' @ subtype @ '';base64,'' @ body @ pad"
    using rhs mt d by simp
  from parseImageDataUrl_intro [OF this ok] show "parseImageDataUrl url = Some p"
    using mt d by (cases p) simp
qed

lemma extractPlaygroundImage_valid:
  "extractPlaygroundImage file = Some img \<Longrightarrow>
     prefix ''image/'' (img_mediaType img) \<and> parseImageDataUrl (img_url img) \<noteq> None"
  by (cases "ifp_url file"; cases "ifp_mediaType file")
     (auto simp: extractPlaygroundImage_def split: if_splits)

lemma extractPlaygroundImages_valid:
  "img \<in> set (extractPlaygroundImages files) \<Longrightarrow>
     prefix ''image/'' (img_mediaType img) \<and> parseImageDataUrl (img_url img) \<noteq> None"
  by (auto simp: extractPlaygroundImages_def set_map_filter dest: extractPlaygroundImage_valid)

end
