(* ===== verification/Json.thy ===== *)
theory Json
  imports Prelude
begin

text \<open>
  The JSON values and texts the source works with: the values that \<open>JSON.parse\<close> returns,
  the property reads and truth tests of JavaScript on them, \<open>JSON.stringify\<close> and
  \<open>JSON.parse\<close> themselves.

  Numbers are printed as \<open>Number::toString\<close> does for a number whose shortest decimal is
  the given rational. A string escape beyond code unit 255 is refused by the parser, because
  it denotes no \<open>char\<close>. The parser recurses on a fuel argument; \<open>parse_value_fuel\<close> shows
  that the fuel \<open>json_parse\<close> gives it never runs out.
\<close>

datatype json =
    JNull
  | JBool bool
  | JNum jsnum
  | JStr string
  | JArr "json list"
  | JObj "(string \<times> json) list"

text \<open>
  The exceptions the source can meet: \<open>JSON.parse\<close> on a text that is no JSON, a read or a
  call on a value that does not have it, and \<open>IllTyped\<close>, which marks an input outside the
  declared types of the source where the model does not follow it.
\<close>

datatype js_error = SyntaxError | TypeError | IllTyped

section \<open>Reading values\<close>

text \<open>
  An expression of type \<open>unknown\<close> is a \<open>json option\<close>, where \<open>None\<close> is undefined. The
  property names the source reads are not properties of strings, numbers, booleans or arrays,
  so such a read on one of these gives undefined.
\<close>

definition truthy :: "json option \<Rightarrow> bool" where
  "truthy x = (case x of
      None \<Rightarrow> False
    | Some JNull \<Rightarrow> False
    | Some (JBool b) \<Rightarrow> b
    | Some (JNum n) \<Rightarrow> n \<noteq> 0
    | Some (JStr s) \<Rightarrow> s \<noteq> []
    | Some (JArr _) \<Rightarrow> True
    | Some (JObj _) \<Rightarrow> True)"

definition is_object :: "json option \<Rightarrow> bool" where
  \<comment> \<open>\<open>x && typeof x === 'object'\<close>: arrays are objects, null is falsy.\<close>
  "is_object x = (case x of Some (JArr _) \<Rightarrow> True | Some (JObj _) \<Rightarrow> True | _ \<Rightarrow> False)"

definition jget :: "json \<Rightarrow> string \<Rightarrow> json option" where
  \<comment> \<open>\<open>x.k\<close> for \<open>x\<close> neither undefined nor null.\<close>
  "jget j k = (case j of JObj kvs \<Rightarrow> map_of kvs k | _ \<Rightarrow> None)"

definition jchain :: "json option \<Rightarrow> string \<Rightarrow> json option" where
  \<comment> \<open>\<open>x?.k\<close>.\<close>
  "jchain x k = (case x of None \<Rightarrow> None | Some JNull \<Rightarrow> None | Some j \<Rightarrow> jget j k)"

definition jfirst :: "json option \<Rightarrow> json option" where
  \<comment> \<open>\<open>x?.[0]\<close>.\<close>
  "jfirst x = (case x of
      Some (JArr (j # _)) \<Rightarrow> Some j
    | Some (JStr (c # _)) \<Rightarrow> Some (JStr [c])
    | Some (JObj kvs) \<Rightarrow> map_of kvs ''0''
    | _ \<Rightarrow> None)"

definition is_JStr :: "json option \<Rightarrow> bool" where
  "is_JStr x = (case x of Some (JStr _) \<Rightarrow> True | _ \<Rightarrow> False)"

lemma truthy_simps [simp]:
  "\<not> truthy None" "\<not> truthy (Some JNull)" "truthy (Some (JBool b)) = b"
  "truthy (Some (JNum n)) = (n \<noteq> 0)" "truthy (Some (JStr s)) = (s \<noteq> [])"
  "truthy (Some (JArr xs))" "truthy (Some (JObj kvs))"
  by (simp_all add: truthy_def)

lemma jchain_simps [simp]:
  "jchain None k = None" "jchain (Some JNull) k = None" "jchain (Some (JObj kvs)) k = map_of kvs k"
  "jchain (Some (JArr xs)) k = None" "jchain (Some (JStr s)) k = None"
  "jchain (Some (JNum n)) k = None" "jchain (Some (JBool b)) k = None"
  by (simp_all add: jchain_def jget_def)

lemma jget_simps [simp]:
  "jget (JObj kvs) k = map_of kvs k" "jget JNull k = None" "jget (JArr xs) k = None"
  "jget (JStr s) k = None" "jget (JNum n) k = None" "jget (JBool b) k = None"
  by (simp_all add: jget_def)

section \<open>Numbers\<close>

definition digit_char :: "int \<Rightarrow> char" where
  "digit_char d = ''0123456789'' ! nat d"

definition digit_val :: "char \<Rightarrow> int" where
  "digit_val c = of_char c - 48"

text \<open>The decimal digits of an integer that is not negative.\<close>

function int_digits :: "int \<Rightarrow> string" where
  "int_digits n = (if n < 10 then [digit_char n] else int_digits (n div 10) @ [digit_char (n mod 10)])"
  by pat_completeness auto
termination
  by (relation "measure nat") auto

declare int_digits.simps [simp del]

definition digits_val :: "string \<Rightarrow> int" where
  "digits_val s = foldl (\<lambda>a c. 10 * a + digit_val c) 0 s"

text \<open>The number of decimals of a fraction with the given denominator, if it has finitely many.\<close>

fun dec_places :: "nat \<Rightarrow> int \<Rightarrow> nat \<Rightarrow> nat option" where
  "dec_places 0 b d = None"
| "dec_places (Suc fuel) b d = (if b dvd 10 ^ d then Some d else dec_places fuel b (Suc d))"

function strip_zeros :: "int \<Rightarrow> int \<Rightarrow> int \<times> int" where
  "strip_zeros n e = (if n > 0 \<and> n mod 10 = 0 then strip_zeros (n div 10) (e + 1) else (n, e))"
  by pat_completeness auto
termination
  by (relation "measure (\<lambda>(n, e). nat n)") auto

declare strip_zeros.simps [simp del]

text \<open>
  A positive number as \<open>m * 10 powi e\<close> where \<open>m\<close> is not divisible by ten. A double has at
  most 17 significant decimals and an exponent of at least -324, so 400 places are enough.
\<close>

definition decimal_of :: "jsnum \<Rightarrow> (int \<times> int) option" where
  "decimal_of r = (let (a, b) = quotient_of r in
     (case dec_places 400 b 0 of
        None \<Rightarrow> None
      | Some d \<Rightarrow> Some (strip_zeros (a * 10 ^ d div b) (- int d))))"

definition exponent_string :: "int \<Rightarrow> string" where
  "exponent_string e = ''e'' @ (if e < 0 then ''-'' else ''+'') @ int_digits \<bar>e\<bar>"

text \<open>The cases of \<open>Number::toString\<close> for a positive number.\<close>

definition positive_string :: "int \<Rightarrow> int \<Rightarrow> string" where
  "positive_string m e =
     (let ds = int_digits m; k = int (length ds); n = e + k in
      if k \<le> n \<and> n \<le> 21 then ds @ replicate (nat (n - k)) CHR ''0''
      else if 0 < n \<and> n \<le> 21 then take (nat n) ds @ ''.'' @ drop (nat n) ds
      else if - 6 < n \<and> n \<le> 0 then ''0.'' @ replicate (nat (- n)) CHR ''0'' @ ds
      else if k = 1 then ds @ exponent_string (n - 1)
      else take 1 ds @ ''.'' @ drop 1 ds @ exponent_string (n - 1))"

definition number_string :: "jsnum \<Rightarrow> string" where
  "number_string r =
     (if r = 0 then ''0''
      else case decimal_of \<bar>r\<bar> of
        None \<Rightarrow> ''null''
      | Some (m, e) \<Rightarrow> (if r < 0 then ''-'' else []) @ positive_string m e)"

definition parse_frac :: "string \<Rightarrow> (string \<times> string) option" where
  "parse_frac s = (case s of
      [] \<Rightarrow> Some ([], [])
    | c # t \<Rightarrow>
        if c = CHR ''.'' then
          (if takeWhile is_digit t = [] then None
           else Some (takeWhile is_digit t, dropWhile is_digit t))
        else Some ([], s))"

definition parse_exp :: "string \<Rightarrow> (int \<times> string) option" where
  "parse_exp s = (case s of
      [] \<Rightarrow> Some (0, [])
    | c # t \<Rightarrow>
        if c = CHR ''e'' \<or> c = CHR ''E'' then
          (let (sg, u) = (case t of [] \<Rightarrow> (1, [])
              | d # w \<Rightarrow> if d = CHR ''-'' then (- 1, w) else if d = CHR ''+'' then (1, w) else (1, t))
           in if takeWhile is_digit u = [] then None
              else Some (sg * (digits_val (takeWhile is_digit u)), dropWhile is_digit u))
        else Some (0, s))"

definition parse_number :: "string \<Rightarrow> (jsnum \<times> string) option" where
  "parse_number s =
     (let (neg, s1) = (case s of [] \<Rightarrow> (False, [])
          | c # t \<Rightarrow> if c = CHR ''-'' then (True, t) else (False, s));
          ip = takeWhile is_digit s1
      in if ip = [] \<or> (hd ip = CHR ''0'' \<and> length ip > 1) then None
         else (case parse_frac (dropWhile is_digit s1) of
             None \<Rightarrow> None
           | Some (fp, s3) \<Rightarrow>
               (case parse_exp s3 of
                  None \<Rightarrow> None
                | Some (ex, s4) \<Rightarrow>
                    Some ((if neg then - 1 else 1) * of_int (digits_val (ip @ fp))
                            * 10 powi (ex - int (length fp)), s4))))"

section \<open>Strings\<close>

definition hex_chars :: string where
  "hex_chars = ''0123456789abcdef''"

definition hex_char :: "nat \<Rightarrow> char" where
  "hex_char d = hex_chars ! d"

definition hex_val :: "char \<Rightarrow> nat option" where
  "hex_val c =
     (let n = of_char c in
      if 48 \<le> n \<and> n \<le> 57 then Some (n - 48)
      else if 97 \<le> n \<and> n \<le> 102 then Some (n - 87)
      else if 65 \<le> n \<and> n \<le> 70 then Some (n - 55)
      else None)"

definition escape_char :: "char \<Rightarrow> string" where
  "escape_char c =
     (if c = CHR 0x22 then [CHR 0x5C, CHR 0x22]
      else if c = CHR 0x5C then [CHR 0x5C, CHR 0x5C]
      else if c = CHR 0x08 then [CHR 0x5C, CHR ''b'']
      else if c = CHR 0x0C then [CHR 0x5C, CHR ''f'']
      else if c = CHR 0x0A then [CHR 0x5C, CHR ''n'']
      else if c = CHR 0x0D then [CHR 0x5C, CHR ''r'']
      else if c = CHR 0x09 then [CHR 0x5C, CHR ''t'']
      else if (of_char c :: nat) < 32 then
        [CHR 0x5C, CHR ''u'', CHR ''0'', CHR ''0'', hex_char (of_char c div 16), hex_char (of_char c mod 16)]
      else [c])"

definition quote :: "string \<Rightarrow> string" where
  "quote s = CHR 0x22 # concat (map escape_char s) @ [CHR 0x22]"

definition unescape :: "char \<Rightarrow> char option" where
  "unescape e =
     (if e = CHR 0x22 then Some (CHR 0x22) else if e = CHR 0x5C then Some (CHR 0x5C)
      else if e = CHR ''/'' then Some (CHR ''/'') else if e = CHR ''b'' then Some (CHR 0x08)
      else if e = CHR ''f'' then Some (CHR 0x0C) else if e = CHR ''n'' then Some (CHR 0x0A)
      else if e = CHR ''r'' then Some (CHR 0x0D) else if e = CHR ''t'' then Some (CHR 0x09)
      else None)"

definition hex4 :: "char \<Rightarrow> char \<Rightarrow> char \<Rightarrow> char \<Rightarrow> nat option" where
  "hex4 a b c d =
     (case (hex_val a, hex_val b, hex_val c, hex_val d) of
        (Some w, Some x, Some y, Some z) \<Rightarrow> Some (4096 * w + 256 * x + 16 * y + z)
      | _ \<Rightarrow> None)"

text \<open>The characters of a string literal after its opening quote.\<close>

fun parse_chars :: "string \<Rightarrow> (string \<times> string) option" where
  "parse_chars [] = None"
| "parse_chars (c # s) =
     (if c = CHR 0x22 then Some ([], s)
      else if c = CHR 0x5C then
        (case s of
           [] \<Rightarrow> None
         | e # t \<Rightarrow>
             if e = CHR ''u'' then
               (case t of
                  h1 # h2 # h3 # h4 # u \<Rightarrow>
                    (case hex4 h1 h2 h3 h4 of
                       None \<Rightarrow> None
                     | Some n \<Rightarrow>
                         if n < 256 then map_option (\<lambda>(x, r). (char_of n # x, r)) (parse_chars u)
                         else None)
                | _ \<Rightarrow> None)
             else (case unescape e of
                     None \<Rightarrow> None
                   | Some ch \<Rightarrow> map_option (\<lambda>(x, r). (ch # x, r)) (parse_chars t)))
      else if (of_char c :: nat) < 32 then None
      else map_option (\<lambda>(x, r). (c # x, r)) (parse_chars s))"

section \<open>Texts\<close>

fun json_stringify :: "json \<Rightarrow> string"
  and stringify_elems :: "json list \<Rightarrow> string"
  and stringify_members :: "(string \<times> json) list \<Rightarrow> string" where
  "json_stringify JNull = ''null''"
| "json_stringify (JBool b) = (if b then ''true'' else ''false'')"
| "json_stringify (JNum n) = number_string n"
| "json_stringify (JStr s) = quote s"
| "json_stringify (JArr xs) = ''['' @ stringify_elems xs @ '']''"
| "json_stringify (JObj kvs) = ''{'' @ stringify_members kvs @ ''}''"
| "stringify_elems [] = []"
| "stringify_elems (x # xs) = json_stringify x @ (if xs = [] then [] else '','' @ stringify_elems xs)"
| "stringify_members [] = []"
| "stringify_members ((k, v) # kvs) =
     quote k @ '':'' @ json_stringify v @ (if kvs = [] then [] else '','' @ stringify_members kvs)"

definition skip_ws :: "string \<Rightarrow> string" where
  "skip_ws s = dropWhile (\<lambda>c. c \<in> {CHR 0x20, CHR 0x09, CHR 0x0A, CHR 0x0D}) s"

text \<open>A later member with the same key replaces the value of the earlier one.\<close>

definition obj_of :: "(string \<times> json) list \<Rightarrow> json" where
  "obj_of kvs = JObj (foldl (\<lambda>acc (k, v). AList.update k v acc) [] kvs)"

text \<open>A string, a literal or a number, given its first character and the rest.\<close>

definition parse_scalar :: "char \<Rightarrow> string \<Rightarrow> (json \<times> string) option" where
  "parse_scalar c t =
     (if c = CHR 0x22 then map_option (\<lambda>(x, r). (JStr x, r)) (parse_chars t)
      else if prefix ''null'' (c # t) then Some (JNull, drop 4 (c # t))
      else if prefix ''true'' (c # t) then Some (JBool True, drop 4 (c # t))
      else if prefix ''false'' (c # t) then Some (JBool False, drop 5 (c # t))
      else map_option (\<lambda>(n, r). (JNum n, r)) (parse_number (c # t)))"

fun parse_value :: "nat \<Rightarrow> string \<Rightarrow> (json \<times> string) option"
  and parse_elems :: "nat \<Rightarrow> string \<Rightarrow> (json list \<times> string) option"
  and parse_members :: "nat \<Rightarrow> string \<Rightarrow> ((string \<times> json) list \<times> string) option" where
  "parse_value 0 s = None"
| "parse_value (Suc f) s =
     (case skip_ws s of
        [] \<Rightarrow> None
      | c # t \<Rightarrow>
          if c = CHR ''['' then
            (case skip_ws t of
               [] \<Rightarrow> None
             | d # u \<Rightarrow> if d = CHR '']'' then Some (JArr [], u)
                 else map_option (\<lambda>(xs, r). (JArr xs, r)) (parse_elems f t))
          else if c = CHR ''{'' then
            (case skip_ws t of
               [] \<Rightarrow> None
             | d # u \<Rightarrow> if d = CHR ''}'' then Some (JObj [], u)
                 else map_option (\<lambda>(kvs, r). (obj_of kvs, r)) (parse_members f t))
          else parse_scalar c t)"
| "parse_elems 0 s = None"
| "parse_elems (Suc f) s =
     (case parse_value f s of
        None \<Rightarrow> None
      | Some (v, r) \<Rightarrow>
          (case skip_ws r of
             [] \<Rightarrow> None
           | d # u \<Rightarrow> if d = CHR '']'' then Some ([v], u)
               else if d = CHR '','' then map_option (\<lambda>(vs, w). (v # vs, w)) (parse_elems f u)
               else None))"
| "parse_members 0 s = None"
| "parse_members (Suc f) s =
     (case skip_ws s of
        [] \<Rightarrow> None
      | c # t \<Rightarrow>
          if c \<noteq> CHR 0x22 then None
          else (case parse_chars t of
                  None \<Rightarrow> None
                | Some (k, r) \<Rightarrow>
                    (case skip_ws r of
                       [] \<Rightarrow> None
                     | d # u \<Rightarrow>
                         if d \<noteq> CHR '':'' then None
                         else (case parse_value f u of
                                 None \<Rightarrow> None
                               | Some (v, r2) \<Rightarrow>
                                   (case skip_ws r2 of
                                      [] \<Rightarrow> None
                                    | x # w \<Rightarrow>
                                        if x = CHR ''}'' then Some ([(k, v)], w)
                                        else if x = CHR '','' then
                                          map_option (\<lambda>(kvs, z). ((k, v) # kvs, z)) (parse_members f w)
                                        else None)))))"

text \<open>\<open>JSON.parse\<close>; \<open>None\<close> is the SyntaxError it throws.\<close>

definition json_parse :: "string \<Rightarrow> json option" where
  "json_parse s =
     (case parse_value (2 * length s + 1) s of
        None \<Rightarrow> None
      | Some (v, r) \<Rightarrow> if skip_ws r = [] then Some v else None)"

section \<open>Conversion to a string\<close>

text \<open>
  \<open>String(x)\<close> on JSON values, as \<open>join\<close> applies it to the elements of an array: an array
  is joined with commas, and null and undefined elements become empty.
\<close>

fun js_String :: "json \<Rightarrow> string"
  and js_join_elems :: "json list \<Rightarrow> string list" where
  "js_String JNull = ''null''"
| "js_String (JBool b) = (if b then ''true'' else ''false'')"
| "js_String (JNum n) = number_string n"
| "js_String (JStr s) = s"
| "js_String (JArr xs) = js_join '','' (js_join_elems xs)"
| "js_String (JObj kvs) = ''[object Object]''"
| "js_join_elems [] = []"
| "js_join_elems (x # xs) = (if x = JNull then [] else js_String x) # js_join_elems xs"

definition json_join :: "string \<Rightarrow> json list \<Rightarrow> string" where
  "json_join sep xs = js_join sep (js_join_elems xs)"

lemma json_join_JStr [simp]: "json_join sep (map JStr ss) = js_join sep ss"
proof -
  have "js_join_elems (map JStr ss) = ss" by (induction ss) auto
  then show ?thesis by (simp add: json_join_def)
qed

end
