(* ===== verification/Message_Streaming.thy ===== *)
theory Message_Streaming
  imports Think_Tags Json
begin

text \<open>
  The life of an assistant message: \<open>lib/message/message-streaming-utils.ts\<close> (chunks that
  arrive while the model answers, completion, whole responses of the four API protocols, and
  the repair of messages that a reload interrupted) and \<open>message-update-utils.ts\<close>.

  An operation that reads the clock several times takes \<open>clk :: nat \<Rightarrow> jsnum\<close>; site 0 is the
  read of \<open>startReasoningTiming\<close>, site 1 that of \<open>completeReasoningTiming\<close> and site 2 that of
  \<open>completeAssistantTiming\<close>.
\<close>

section \<open>Streaming\<close>

type_synonym clock = "nat \<Rightarrow> jsnum"

definition processStreamingContent :: "clock \<Rightarrow> Message \<Rightarrow> string option \<Rightarrow> Message" where
  "processStreamingContent clk message contentChunk =
     (let currentVersion = getCurrentVersion message;
          fullContent = ver_content currentVersion @ opt_str contentChunk
      in if msg_reasoning message = None \<and> \<not> js_includes fullContent ''<think>''
         then (updateCurrentVersionContent message fullContent)\<lparr>msg_isReasoningStreaming := Some False\<rparr>
         else
           let p = parseThinkTags fullContent;
               finalReasoning = (if tt_reasoning p \<noteq> []
                 then Some ((startReasoningTiming message (clk 0))\<lparr>rsn_content := tt_reasoning p\<rparr>)
                 else msg_reasoning message)
           in (updateCurrentVersionContent message fullContent)
                \<lparr>msg_reasoning := finalReasoning,
                 msg_isReasoningStreaming := Some (tt_hasUnclosedTag p)\<rparr>)"

datatype StreamChunkType = REASONING | CONTENT

definition getAppendableChunk :: "string \<Rightarrow> string \<Rightarrow> string" where
  "getAppendableChunk currentContent chunk =
     (if currentContent = [] \<or> \<not> prefix currentContent chunk then chunk
      else drop (length currentContent) chunk)"

definition applyStreamingChunk :: "clock \<Rightarrow> Message \<Rightarrow> StreamChunkType \<Rightarrow> string \<Rightarrow> Message" where
  "applyStreamingChunk clk message ty chunk =
     (if msg_status message = Some ERROR then message
      else case ty of
        REASONING \<Rightarrow>
          let reasoning = startReasoningTiming message (clk 0);
              appendableChunk = getAppendableChunk (rsn_content reasoning) chunk
          in message\<lparr>msg_reasoning := Some (reasoning\<lparr>rsn_content := rsn_content reasoning @ appendableChunk\<rparr>),
               msg_isReasoningStreaming := Some True, msg_status := Some STREAMING\<rparr>
      | CONTENT \<Rightarrow>
          let currentVersion = getCurrentVersion message;
              appendableChunk = getAppendableChunk (ver_content currentVersion) chunk;
              contentMessage = processStreamingContent clk message (Some appendableChunk)
          in (if msg_isReasoningStreaming contentMessage = Some True then contentMessage
              else completeReasoningTiming contentMessage (clk 1))\<lparr>msg_status := Some STREAMING\<rparr>)"

definition finalizeMessage :: "clock \<Rightarrow> Message \<Rightarrow> string option \<Rightarrow> Message" where
  "finalizeMessage clk message apiReasoningContent =
     (let currentVersion = getCurrentVersion message;
          parsedThinkTags = (if js_includes (ver_content currentVersion) ''<think>''
            then Some (parseThinkTags (ver_content currentVersion)) else None);
          visibleContent = nullish (map_option tt_visibleContent parsedThinkTags) (ver_content currentVersion);
          finalReasoning = str_or (opt_str apiReasoningContent)
            (str_or (opt_str (map_option rsn_content (msg_reasoning message)))
              (str_or (opt_str (map_option tt_reasoning parsedThinkTags)) []));
          finalized = (updateCurrentVersionContent message visibleContent)
            \<lparr>msg_reasoning := (if finalReasoning \<noteq> []
               then Some ((startReasoningTiming message (clk 0))\<lparr>rsn_content := finalReasoning\<rparr>)
               else None),
             msg_isReasoningStreaming := Some False\<rparr>
      in completeReasoningTiming finalized (clk 1))"

definition completeAssistantMessage :: "clock \<Rightarrow> Message \<Rightarrow> Message" where
  "completeAssistantMessage clk message =
     completeAssistantTiming ((finalizeMessage clk message None)\<lparr>msg_status := Some COMPLETE\<rparr>) (clk 2)"

definition isAssistantMessageFinal :: "Message \<Rightarrow> bool" where
  "isAssistantMessageFinal message \<longleftrightarrow>
     msg_status message = Some COMPLETE \<or> msg_status message = Some ERROR"

definition isAssistantMessagePending :: "Message \<Rightarrow> bool" where
  "isAssistantMessagePending message \<longleftrightarrow>
     msg_status message = Some LOADING \<or> msg_status message = Some STREAMING"

definition isPendingAssistantMessage :: "Message option \<Rightarrow> bool" where
  "isPendingAssistantMessage message \<longleftrightarrow>
     (case message of None \<Rightarrow> False
      | Some msg \<Rightarrow> msg_from msg = ASSISTANT \<and> isAssistantMessagePending msg)"

section \<open>Whole responses\<close>

text \<open>
  The fields of an output are JSON values: the source casts the response without checking
  it. \<open>texts.join\<close> always gives a string; \<open>choice.message.content\<close> is whatever the server
  sent.
\<close>

record PlaygroundAssistantOutput =
  pao_content :: json
  pao_reasoning :: "json option"

definition collectResponsesText :: "json list \<Rightarrow> json option \<Rightarrow> json list" where
  "collectResponsesText target parts =
     (case parts of
        Some (JArr ps) \<Rightarrow>
          target @ List.map_filter (\<lambda>part.
            if \<not> is_object (Some part) then None
            else if \<not> truthy (jget part ''text'') then None
            else if truthy (jget part ''type'') \<and>
              jget part ''type'' \<notin> {Some (JStr ''output_text''), Some (JStr ''summary_text''),
                Some (JStr ''reasoning_text'')} then None
            else jget part ''text'') ps
      | _ \<Rightarrow> target)"

text \<open>One round of the first loop of \<open>extractResponsesOutput\<close>, on the pair of lists.\<close>

definition extractResponsesBlock :: "json list \<times> json list \<Rightarrow> json \<Rightarrow> json list \<times> json list" where
  "extractResponsesBlock acc item =
     (case acc of (texts, reasoning) \<Rightarrow>
        if \<not> is_object (Some item) then (texts, reasoning)
        else if jget item ''type'' = Some (JStr ''reasoning'') then
          (texts, collectResponsesText (collectResponsesText reasoning (jget item ''content''))
             (jget item ''summary''))
        else if jget item ''type'' \<noteq> Some (JStr ''message'') then (texts, reasoning)
        else if truthy (jget item ''role'') \<and> jget item ''role'' \<noteq> Some (JStr ''assistant'') then (texts, reasoning)
        else (collectResponsesText texts (jget item ''content''), reasoning))"

definition collectItemContent :: "json list \<Rightarrow> json \<Rightarrow> json list" where
  "collectItemContent texts item =
     (if \<not> is_object (Some item) then texts else collectResponsesText texts (jget item ''content''))"

definition extractResponsesOutput :: "json option \<Rightarrow> PlaygroundAssistantOutput option" where
  "extractResponsesOutput output =
     (case output of
        Some (JArr items) \<Rightarrow>
          let (texts0, reasoning) = foldl extractResponsesBlock ([], []) items;
              texts = (if texts0 = [] then foldl collectItemContent [] items else texts0)
          in if texts = [] \<and> reasoning = [] then None
             else Some \<lparr>pao_content = JStr (json_join [] texts),
               pao_reasoning = (if reasoning \<noteq> [] then Some (JStr (json_join [] reasoning)) else None)\<rparr>
      | _ \<Rightarrow> None)"

definition extractAnthropicBlock :: "json list \<times> json list \<Rightarrow> json \<Rightarrow> json list \<times> json list" where
  "extractAnthropicBlock acc block =
     (case acc of (texts, reasoning) \<Rightarrow>
        if \<not> is_object (Some block) then (texts, reasoning)
        else
          (if jget block ''type'' = Some (JStr ''text'') \<and> truthy (jget block ''text'')
           then texts @ [the (jget block ''text'')] else texts,
           if jget block ''type'' = Some (JStr ''thinking'') \<and> truthy (jget block ''thinking'')
           then reasoning @ [the (jget block ''thinking'')] else reasoning))"

definition extractAnthropicText :: "json option \<Rightarrow> PlaygroundAssistantOutput option" where
  "extractAnthropicText content =
     (case content of
        Some (JArr blocks) \<Rightarrow>
          let (texts, reasoning) = foldl extractAnthropicBlock ([], []) blocks
          in if texts = [] \<and> reasoning = [] then None
             else Some \<lparr>pao_content = JStr (json_join [CHR 0x0A] texts),
               pao_reasoning = (if reasoning \<noteq> [] then Some (JStr (json_join [CHR 0x0A] reasoning)) else None)\<rparr>
      | _ \<Rightarrow> None)"

definition extractGeminiPart :: "json list \<times> json list \<Rightarrow> json \<Rightarrow> json list \<times> json list" where
  "extractGeminiPart acc part =
     (case acc of (texts, reasoning) \<Rightarrow>
        if \<not> is_object (Some part) then (texts, reasoning)
        else if \<not> truthy (jget part ''text'') then (texts, reasoning)
        else if truthy (jget part ''thought'') then (texts, reasoning @ [the (jget part ''text'')])
        else (texts @ [the (jget part ''text'')], reasoning))"

definition extractGeminiText :: "json option \<Rightarrow> PlaygroundAssistantOutput option" where
  "extractGeminiText candidates =
     (case candidates of
        Some (JArr _) \<Rightarrow>
          (case jchain (jchain (jfirst candidates) ''content'') ''parts'' of
             Some (JArr parts) \<Rightarrow>
               let (texts, reasoning) = foldl extractGeminiPart ([], []) parts
               in if texts = [] \<and> reasoning = [] then None
                  else Some \<lparr>pao_content = JStr (json_join [] texts),
                    pao_reasoning = (if reasoning \<noteq> [] then Some (JStr (json_join [] reasoning)) else None)\<rparr>
           | _ \<Rightarrow> None)
      | _ \<Rightarrow> None)"

definition getPlaygroundAssistantOutput :: "json option \<Rightarrow> PlaygroundAssistantOutput option" where
  "getPlaygroundAssistantOutput response =
     (if \<not> is_object response then None
      else
        let payload = the response;
            choice = (case jget payload ''choices'' of
                Some (JArr cs) \<Rightarrow> jfirst (Some (JArr cs)) | _ \<Rightarrow> None);
            message = jchain choice ''message''
        in if truthy message then
             Some \<lparr>pao_content = (if truthy (jchain message ''content'')
                 then the (jchain message ''content'') else JStr []),
               pao_reasoning = jchain message ''reasoning_content''\<rparr>
           else if is_JStr (jget payload ''output_text'') \<and> truthy (jget payload ''output_text'') then
             Some \<lparr>pao_content = the (jget payload ''output_text''), pao_reasoning = None\<rparr>
           else
             (case extractResponsesOutput (jget payload ''output'') of
                Some out \<Rightarrow> Some out
              | None \<Rightarrow>
                  (case extractAnthropicText (jget payload ''content'') of
                     Some out \<Rightarrow> Some out
                   | None \<Rightarrow> extractGeminiText (jget payload ''candidates''))))"

definition hasChatCompletionChoice :: "json option \<Rightarrow> bool" where
  "hasChatCompletionChoice response \<longleftrightarrow> getPlaygroundAssistantOutput response \<noteq> None"

text \<open>
  The message operations below need strings where the declared types of the source say so.
  A response that puts a truthy value of another type there is outside these types, and the
  model returns \<open>IllTyped\<close> instead of following it.
\<close>

definition typed_string :: "json option \<Rightarrow> js_error + string option" where
  "typed_string x =
     (case x of
        Some (JStr s) \<Rightarrow> Inr (Some s)
      | _ \<Rightarrow> if truthy x then Inl IllTyped else Inr None)"

record ChoiceMessage =
  chm_content :: "string option"
  chm_reasoning_content :: "string option"

text \<open>A choice of the declared type, by its message (which may be missing).\<close>

definition applyChatCompletionChoice :: "clock \<Rightarrow> Message \<Rightarrow> ChoiceMessage option \<Rightarrow> Message" where
  "applyChatCompletionChoice clk message choice =
     completeAssistantTiming
       ((finalizeMessage clk
          (updateCurrentVersionContent message (opt_str (Option.bind choice chm_content)))
          (Option.bind choice chm_reasoning_content))\<lparr>msg_status := Some COMPLETE\<rparr>) (clk 2)"

definition applyChatCompletionResponse ::
  "clock \<Rightarrow> Message \<Rightarrow> json option \<Rightarrow> js_error + Message option" where
  "applyChatCompletionResponse clk message response =
     (case getPlaygroundAssistantOutput response of
        None \<Rightarrow> Inr None
      | Some output \<Rightarrow>
          (case (typed_string (Some (pao_content output)), typed_string (pao_reasoning output)) of
             (Inr content, Inr reasoning) \<Rightarrow>
               Inr (Some (completeAssistantTiming
                 ((finalizeMessage clk (updateCurrentVersionContent message (opt_str content)) reasoning)
                    \<lparr>msg_status := Some COMPLETE\<rparr>) (clk 2)))
           | _ \<Rightarrow> Inl IllTyped))"

section \<open>Lists of messages\<close>

text \<open>The loop from the end of the list; \<open>None\<close> is the target index \<open>-1\<close>.\<close>

fun last_pending :: "Message list \<Rightarrow> nat \<Rightarrow> nat option" where
  "last_pending messages 0 = None"
| "last_pending messages (Suc i) =
     (if isPendingAssistantMessage (Some (messages ! i)) then Some i else last_pending messages i)"

definition sanitizeMessagesOnLoad :: "(string \<Rightarrow> string) \<Rightarrow> clock \<Rightarrow> Message list \<Rightarrow> Message list" where
  "sanitizeMessagesOnLoad t clk messages =
     (case last_pending messages (length messages) of
        None \<Rightarrow> messages
      | Some targetIndex \<Rightarrow>
          let finalized = finalizeMessage clk (messages ! targetIndex) None;
              hasContent = hasMessageContent finalized;
              hasReasoning = (js_trim (opt_str (map_option rsn_content (msg_reasoning finalized))) \<noteq> []);
              sanitized = (if hasContent \<or> hasReasoning
                then completeAssistantTiming
                  (finalized\<lparr>msg_status := Some COMPLETE, msg_isReasoningStreaming := Some False\<rparr>) (clk 2)
                else completeAssistantTiming
                  ((updateCurrentVersionContent finalized
                      (t API_REQUEST_ERROR @ '': '' @ t INTERRUPTED))
                    \<lparr>msg_status := Some ERROR, msg_isReasoningStreaming := Some False\<rparr>) (clk 2))
          in messages[targetIndex := sanitized])"

definition updateLastAssistantMessage :: "Message list \<Rightarrow> (Message \<Rightarrow> Message) \<Rightarrow> Message list" where
  "updateLastAssistantMessage messages updater =
     (if messages = [] then messages
      else if msg_from (last messages) \<noteq> ASSISTANT then messages
      else messages[length messages - 1 := updater (last messages)])"

definition updateAssistantMessageWithError ::
  "clock \<Rightarrow> Message list \<Rightarrow> string \<Rightarrow> string option \<Rightarrow> string \<Rightarrow> Message list" where
  "updateAssistantMessageWithError clk messages errorMessage errorCode title =
     updateLastAssistantMessage messages (\<lambda>message.
       let updatedMessage = updateCurrentVersionContent message (title @ '': '' @ errorMessage)
       in completeAssistantTiming
            (updatedMessage\<lparr>msg_status := Some ERROR, msg_isReasoningStreaming := Some False,
               msg_errorCode := Some (if opt_str errorCode = [] then None else errorCode)\<rparr>) (clk 2))"

section \<open>Lemmas on one chunk\<close>

definition reasoningText :: "Message \<Rightarrow> string" where
  "reasoningText m = opt_str (map_option rsn_content (msg_reasoning m))"

lemma reasoningText_simps [simp]:
  "reasoningText (completeReasoningTiming m t) = reasoningText m"
  "reasoningText (completeAssistantTiming m t) = reasoningText m"
  "reasoningText (updateCurrentVersionContent m c) = reasoningText m"
  "reasoningText (m\<lparr>msg_status := st\<rparr>) = reasoningText m"
  by (simp_all add: reasoningText_def)

lemma getMessageContent_simps [simp]:
  "getMessageContent (completeReasoningTiming m t) = getMessageContent m"
  "getMessageContent (completeAssistantTiming m t) = getMessageContent m"
  "getMessageContent (m\<lparr>msg_status := st\<rparr>) = getMessageContent m"
  "getMessageContent (m\<lparr>msg_reasoning := r\<rparr>) = getMessageContent m"
  "getMessageContent (m\<lparr>msg_isReasoningStreaming := b\<rparr>) = getMessageContent m"
  by (rule getMessageContent_frame, simp)+

lemma parseThinkTags_untagged:
  "\<not> js_includes s ''<think>'' \<Longrightarrow>
     parseThinkTags s = \<lparr>tt_visibleContent = s, tt_reasoning = [], tt_hasUnclosedTag = False\<rparr>"
  by (simp add: parseThinkTags_def)

lemma processStreamingContent_effect:
  "getMessageContent (processStreamingContent clk m c) = getMessageContent m @ opt_str c"
  "reasoningText (processStreamingContent clk m c) =
     (let r = tt_reasoning (parseThinkTags (getMessageContent m @ opt_str c))
      in if r \<noteq> [] then r else reasoningText m)"
  "msg_key (processStreamingContent clk m c) = msg_key m"
  "msg_from (processStreamingContent clk m c) = msg_from m"
  "msg_images (processStreamingContent clk m c) = msg_images m"
  by (simp_all add: processStreamingContent_def Let_def getMessageContent_def [symmetric]
      parseThinkTags_untagged reasoningText_def)

text \<open>One chunk, by its type.\<close>

lemma applyStreamingChunk_CONTENT:
  assumes "msg_status m \<noteq> Some ERROR"
  shows "getMessageContent (applyStreamingChunk clk m CONTENT c) =
      getMessageContent m @ getAppendableChunk (getMessageContent m) c"
    and "reasoningText (applyStreamingChunk clk m CONTENT c) =
      (let r = tt_reasoning (parseThinkTags (getMessageContent (applyStreamingChunk clk m CONTENT c)))
       in if r \<noteq> [] then r else reasoningText m)"
  using assms
  by (simp_all add: applyStreamingChunk_def Let_def processStreamingContent_effect
      getMessageContent_def [symmetric])

lemma applyStreamingChunk_REASONING:
  assumes "msg_status m \<noteq> Some ERROR"
  shows "getMessageContent (applyStreamingChunk clk m REASONING c) = getMessageContent m"
    and "reasoningText (applyStreamingChunk clk m REASONING c) =
      reasoningText m @ getAppendableChunk (reasoningText m) c"
  using assms
  by (simp_all add: applyStreamingChunk_def Let_def reasoningText_def nullish_def split: option.splits)

lemma applyStreamingChunk_fields [simp]:
  "msg_key (applyStreamingChunk clk m ty c) = msg_key m"
  "msg_from (applyStreamingChunk clk m ty c) = msg_from m"
  "msg_images (applyStreamingChunk clk m ty c) = msg_images m"
  "msg_status (applyStreamingChunk clk m ty c) =
     (if msg_status m = Some ERROR then Some ERROR else Some STREAMING)"
  by (cases ty; simp add: applyStreamingChunk_def Let_def processStreamingContent_effect)+

lemma finalizeMessage_effect [simp]:
  "getMessageContent (finalizeMessage clk m r) = tt_visibleContent (parseThinkTags (getMessageContent m))"
  "reasoningText (finalizeMessage clk m r) =
     str_or (opt_str r) (str_or (reasoningText m) (tt_reasoning (parseThinkTags (getMessageContent m))))"
  "msg_key (finalizeMessage clk m r) = msg_key m"
  "msg_from (finalizeMessage clk m r) = msg_from m"
  "msg_status (finalizeMessage clk m r) = msg_status m"
  "msg_images (finalizeMessage clk m r) = msg_images m"
  "msg_startedAt (finalizeMessage clk m r) = msg_startedAt m"
  "msg_createdAt (finalizeMessage clk m r) = msg_createdAt m"
  "msg_isReasoningStreaming (finalizeMessage clk m r) = Some False"
  "msg_versions (finalizeMessage clk m r) \<noteq> []"
  by (auto simp add: finalizeMessage_def Let_def getMessageContent_def [symmetric] nullish_def
      parseThinkTags_untagged reasoningText_def str_or_def opt_str_def split: option.splits)

section \<open>Sequences of chunks\<close>

definition applyChunks :: "Message \<Rightarrow> (clock \<times> StreamChunkType \<times> string) list \<Rightarrow> Message" where
  "applyChunks m es = foldl (\<lambda>m (clk, ty, c). applyStreamingChunk clk m ty c) m es"

text \<open>The text a sequence of chunks adds up to, and the chunks of one type.\<close>

definition stream_text :: "string \<Rightarrow> string list \<Rightarrow> string" where
  "stream_text s cs = foldl (\<lambda>s c. s @ getAppendableChunk s c) s cs"

definition chunks_of :: "StreamChunkType \<Rightarrow> (clock \<times> StreamChunkType \<times> string) list \<Rightarrow> string list" where
  "chunks_of ty es = map (\<lambda>(_, _, c). c) (filter (\<lambda>(_, ty', _). ty' = ty) es)"

text \<open>No delta repeats the text so far as its prefix; every snapshot extends the one before.\<close>

fun deltas_ok :: "string \<Rightarrow> string list \<Rightarrow> bool" where
  "deltas_ok s [] = True"
| "deltas_ok s (c # cs) = ((s = [] \<or> \<not> prefix s c) \<and> deltas_ok (s @ c) cs)"

fun snapshots_ok :: "string \<Rightarrow> string list \<Rightarrow> bool" where
  "snapshots_ok s [] = True"
| "snapshots_ok s (c # cs) = (prefix s c \<and> snapshots_ok c cs)"

lemma stream_text_simps [simp]:
  "stream_text s [] = s"
  "stream_text s (c # cs) = stream_text (s @ getAppendableChunk s c) cs"
  by (simp_all add: stream_text_def)

lemma chunks_of_simps [simp]:
  "chunks_of ty [] = []"
  "chunks_of ty ((clk, ty', c) # es) = (if ty' = ty then [c] else []) @ chunks_of ty es"
  by (simp_all add: chunks_of_def)

lemma applyChunks_simps [simp]:
  "applyChunks m [] = m"
  "applyChunks m ((clk, ty, c) # es) = applyChunks (applyStreamingChunk clk m ty c) es"
  by (simp_all add: applyChunks_def)

lemma getAppendable_extends: "prefix s c \<Longrightarrow> s @ getAppendableChunk s c = c"
  by (auto simp: getAppendableChunk_def prefix_def)

lemma getAppendable_delta: "s = [] \<or> \<not> prefix s c \<Longrightarrow> getAppendableChunk s c = c"
  by (simp add: getAppendableChunk_def)

lemma stream_text_deltas: "deltas_ok s cs \<Longrightarrow> stream_text s cs = s @ concat cs"
  by (induction cs arbitrary: s) (auto simp: getAppendable_delta)

lemma stream_text_snapshots: "snapshots_ok s cs \<Longrightarrow> stream_text s cs = last (s # cs)"
  by (induction cs arbitrary: s) (auto simp: getAppendable_extends)

lemma stream_text_prefix: "prefix s (stream_text s cs)"
proof (induction cs arbitrary: s)
  case (Cons c cs)
  show ?case using Cons [of "s @ getAppendableChunk s c"] by (auto dest: append_prefixD)
qed simp

lemma applyChunks_fields [simp]:
  "msg_key (applyChunks m es) = msg_key m"
  "msg_from (applyChunks m es) = msg_from m"
  "msg_images (applyChunks m es) = msg_images m"
  "msg_status m \<noteq> Some ERROR \<Longrightarrow>
     msg_status (applyChunks m es) = (if es = [] then msg_status m else Some STREAMING)"
  by (induction es arbitrary: m) auto

lemma applyChunks_error: "msg_status m = Some ERROR \<Longrightarrow> applyChunks m es = m"
  by (induction es) (auto simp: applyStreamingChunk_def)

lemma applyChunks_content:
  "msg_status m \<noteq> Some ERROR \<Longrightarrow>
     getMessageContent (applyChunks m es) = stream_text (getMessageContent m) (chunks_of CONTENT es)"
proof (induction es arbitrary: m)
  case (Cons e es)
  obtain clk ty c where e: "e = (clk, ty, c)" by (cases e) auto
  have "msg_status (applyStreamingChunk clk m ty c) \<noteq> Some ERROR" using Cons.prems by simp
  from Cons.IH [OF this] Cons.prems show ?case
    by (cases ty) (auto simp: e applyStreamingChunk_CONTENT applyStreamingChunk_REASONING)
qed simp

lemma js_includes_prefix: "prefix s s' \<Longrightarrow> js_includes s p \<Longrightarrow> js_includes s' p"
  unfolding js_includes_sublist prefix_def sublist_def by (metis append.assoc)

lemma applyChunks_reasoning:
  assumes "msg_status m \<noteq> Some ERROR"
    and "\<not> js_includes (stream_text (getMessageContent m) (chunks_of CONTENT es)) ''<think>''"
  shows "reasoningText (applyChunks m es) = stream_text (reasoningText m) (chunks_of REASONING es)"
  using assms
proof (induction es arbitrary: m)
  case (Cons e es)
  obtain clk ty c where e: "e = (clk, ty, c)" by (cases e) auto
  let ?m = "applyStreamingChunk clk m ty c"
  have st: "msg_status ?m \<noteq> Some ERROR" using Cons.prems(1) by simp
  have rest: "\<not> js_includes (stream_text (getMessageContent ?m) (chunks_of CONTENT es)) ''<think>''"
    using Cons.prems by (cases ty)
      (auto simp: e applyStreamingChunk_CONTENT(1) applyStreamingChunk_REASONING(1))
  then have "\<not> js_includes (getMessageContent ?m) ''<think>''"
    using js_includes_prefix stream_text_prefix by blast
  then show ?case
    using Cons.IH [OF st rest] Cons.prems(1)
    by (cases ty) (simp_all add: e applyStreamingChunk_CONTENT(2) applyStreamingChunk_REASONING(2)
        parseThinkTags_untagged)
qed simp


definition witness_message :: Message where
  "witness_message = createLoadingAssistantMessage (\<lambda>k. ''id'') 0 1000"

lemma witness_message_simps:
  "msg_status witness_message = Some LOADING" "getMessageContent witness_message = []"
  "reasoningText witness_message = []" "msg_key witness_message = ''id''"
  "msg_from witness_message = ASSISTANT"
  by (simp_all add: witness_message_def createLoadingAssistantMessage_def getMessageContent_def
      getCurrentVersion_def createMessageVersion_def reasoningText_def)


text \<open>
  Reasoning that comes in chunks of its own: as long as the content holds no think tag,
  the reasoning of the message is what its own chunks add up to, whatever content chunks come
  between them, and completing the message keeps it and the content.
\<close>

theorem streaming_reasoning:
  assumes "msg_status m \<noteq> Some ERROR"
    and "\<not> js_includes (stream_text (getMessageContent m) (chunks_of CONTENT es)) ''<think>''"
  shows "reasoningText (completeAssistantMessage clk (applyChunks m es)) =
      stream_text (reasoningText m) (chunks_of REASONING es) \<and>
    getMessageContent (completeAssistantMessage clk (applyChunks m es)) =
      stream_text (getMessageContent m) (chunks_of CONTENT es)"
  using assms applyChunks_content [OF assms(1), of es] applyChunks_reasoning [OF assms]
  by (simp add: completeAssistantMessage_def parseThinkTags_untagged opt_str_def str_or_def)

theorem streaming_reasoning_witness:
  "reasoningText (completeAssistantMessage (\<lambda>_. 9) (applyChunks witness_message
      [(\<lambda>_. 5, REASONING, ''so ''), (\<lambda>_. 6, CONTENT, ''4''), (\<lambda>_. 7, REASONING, ''what'')])) = ''so what''"
  using streaming_reasoning [of witness_message
      "[(\<lambda>_. 5, REASONING, ''so ''), (\<lambda>_. 6, CONTENT, ''4''), (\<lambda>_. 7, REASONING, ''what'')]" "\<lambda>_. 9"]
  by (simp add: witness_message_simps getAppendableChunk_def js_includes_def)

lemma applyChunks_tagged_reasoning:
  assumes "msg_status m \<noteq> Some ERROR" and "\<forall>(clk, ty, c) \<in> set es. ty = CONTENT"
    and "reasoningText m = [] \<or> es \<noteq> []"
    and "tt_reasoning (parseThinkTags (getMessageContent (applyChunks m es))) \<noteq> []"
  shows "str_or (reasoningText (applyChunks m es))
      (tt_reasoning (parseThinkTags (getMessageContent (applyChunks m es)))) =
    tt_reasoning (parseThinkTags (getMessageContent (applyChunks m es)))"
proof (cases es rule: rev_cases)
  case Nil
  then show ?thesis using assms(3) by (simp add: str_or_def)
next
  case (snoc es' e)
  obtain clk c where e: "e = (clk, CONTENT, c)" using assms(2) snoc by (cases e) auto
  let ?m = "applyChunks m es'"
  have last_chunk: "applyChunks m es = applyStreamingChunk clk ?m CONTENT c"
    by (simp add: applyChunks_def snoc e)
  have "msg_status ?m \<noteq> Some ERROR" using assms(1) by (cases "es' = []") simp_all
  from applyStreamingChunk_CONTENT(2) [OF this, of clk c] show ?thesis
    using assms(4) by (simp add: last_chunk str_or_def Let_def)
qed

lemma completeAssistantTiming_times:
  "msg_from m = ASSISTANT \<Longrightarrow> msg_completedAt (completeAssistantTiming m t) = Some t \<and>
     (\<exists>d \<ge> 0. msg_durationMs (completeAssistantTiming m t) = Some d)"
  by (simp add: completeAssistantTiming_def Let_def)



text \<open>
  Reasoning found in the content is never withdrawn. A model that answers without
  thinking sends an empty thought; when a chunk ends inside the closing tag, the fragment of
  the tag is taken for reasoning and stays in the completed message, although the parser
  finds no reasoning in the whole text.
\<close>

theorem streaming_stale_reasoning:
  "reasoningText (completeAssistantMessage clk (applyChunks witness_message
      [(clk, CONTENT, ''<think>''), (clk, CONTENT, ''</''), (clk, CONTENT, ''think>''), (clk, CONTENT, ''hi'')])) = ''</'' \<and>
   parseThinkTags ''<think></think>hi'' =
     \<lparr>tt_visibleContent = ''hi'', tt_reasoning = [], tt_hasUnclosedTag = False\<rparr>"
proof -
  let ?es = "[(clk, CONTENT, ''<think>''), (clk, CONTENT, ''</''), (clk, CONTENT, ''think>''), (clk, CONTENT, ''hi'')]"
  have p: "tt_reasoning (parseThinkTags ''<think>'') = []"
    "tt_reasoning (parseThinkTags ''<think></'') = ''</''"
    "tt_reasoning (parseThinkTags ''<think></think>'') = []"
    "parseThinkTags ''<think></think>hi'' =
       \<lparr>tt_visibleContent = ''hi'', tt_reasoning = [], tt_hasUnclosedTag = False\<rparr>"
    by code_simp+
  have "reasoningText (applyChunks witness_message ?es) = ''</''"
    by (simp add: witness_message_simps applyStreamingChunk_CONTENT getAppendableChunk_def p)
  then show ?thesis using p(4) by (simp add: completeAssistantMessage_def opt_str_def)
qed

end
