(* ===== verification/Assistant_Output.thy ===== *)
theory Assistant_Output
  imports Message_Streaming
begin

text \<open>
  Whole responses of the four API protocols, and the repair of interrupted messages, both
  from \<open>lib/message/message-streaming-utils.ts\<close>.

  Each protocol has an encoder: the response that carries the given texts and thoughts as the
  protocol's documentation lays it out. The locale \<open>response_protocol\<close> states the contract
  between such an encoder and \<open>getPlaygroundAssistantOutput\<close>; what a message becomes when it
  receives a response is proved once in the locale, and the locale is interpreted for the
  four protocols.
\<close>

section \<open>Encoders of the protocols\<close>

definition openai_response :: "string list \<Rightarrow> string list \<Rightarrow> json" where
  "openai_response texts thoughts =
     JObj [(''object'', JStr ''chat.completion''), (''choices'', JArr [JObj [(''index'', JNum 0),
       (''message'', JObj ([(''role'', JStr ''assistant''), (''content'', JStr (concat texts))] @
          (if thoughts = [] then [] else [(''reasoning_content'', JStr (concat thoughts))])))]])]"

definition responses_response :: "string list \<Rightarrow> string list \<Rightarrow> json" where
  "responses_response texts thoughts =
     JObj [(''object'', JStr ''response''), (''output'', JArr
       [JObj [(''type'', JStr ''reasoning''), (''summary'', JArr (map (\<lambda>s.
           JObj [(''type'', JStr ''summary_text''), (''text'', JStr s)]) thoughts))],
        JObj [(''type'', JStr ''message''), (''role'', JStr ''assistant''), (''content'', JArr (map (\<lambda>s.
           JObj [(''type'', JStr ''output_text''), (''text'', JStr s)]) texts))]])]"

definition anthropic_response :: "string list \<Rightarrow> string list \<Rightarrow> json" where
  "anthropic_response texts thoughts =
     JObj [(''type'', JStr ''message''), (''role'', JStr ''assistant''), (''content'', JArr
       (map (\<lambda>s. JObj [(''type'', JStr ''thinking''), (''thinking'', JStr s)]) thoughts @
        map (\<lambda>s. JObj [(''type'', JStr ''text''), (''text'', JStr s)]) texts))]"

definition gemini_response :: "string list \<Rightarrow> string list \<Rightarrow> json" where
  "gemini_response texts thoughts =
     JObj [(''candidates'', JArr [JObj [(''content'', JObj [(''role'', JStr ''model''), (''parts'', JArr
       (map (\<lambda>s. JObj [(''text'', JStr s), (''thought'', JBool True)]) thoughts @
        map (\<lambda>s. JObj [(''text'', JStr s)]) texts))])]])]"

definition thoughts_value :: "string \<Rightarrow> string list \<Rightarrow> json option" where
  "thoughts_value sep thoughts = (if thoughts = [] then None else Some (JStr (js_join sep thoughts)))"

section \<open>The contract\<close>

locale response_protocol =
  fixes encode :: "string list \<Rightarrow> string list \<Rightarrow> json"
    and sep :: string
  assumes decodes: "texts \<noteq> [] \<Longrightarrow> [] \<notin> set texts \<Longrightarrow> [] \<notin> set thoughts \<Longrightarrow>
    getPlaygroundAssistantOutput (Some (encode texts thoughts)) =
      Some \<lparr>pao_content = JStr (js_join sep texts), pao_reasoning = thoughts_value sep thoughts\<rparr>"
begin

lemma has_choice:
  "texts \<noteq> [] \<Longrightarrow> [] \<notin> set texts \<Longrightarrow> [] \<notin> set thoughts \<Longrightarrow>
     hasChatCompletionChoice (Some (encode texts thoughts))"
  by (simp add: hasChatCompletionChoice_def decodes)

lemma join_nonempty: "ts \<noteq> [] \<Longrightarrow> [] \<notin> set ts \<Longrightarrow> js_join sep ts \<noteq> []"
  by (cases ts) (auto simp: js_join_Cons)

lemma apply_response:
  assumes "texts \<noteq> []" "[] \<notin> set texts" "[] \<notin> set thoughts"
  shows "\<exists>m'. applyChatCompletionResponse clk m (Some (encode texts thoughts)) = Inr (Some m') \<and>
    getMessageContent m' = tt_visibleContent (parseThinkTags (js_join sep texts)) \<and>
    (thoughts \<noteq> [] \<longrightarrow> reasoningText m' = js_join sep thoughts) \<and>
    msg_status m' = Some COMPLETE \<and> msg_key m' = msg_key m \<and> msg_from m' = msg_from m"
  using join_nonempty [OF assms(1,2)] join_nonempty [of thoughts] assms(3)
  by (auto simp: applyChatCompletionResponse_def decodes [OF assms] thoughts_value_def typed_string_def
      opt_str_def)

end

section \<open>The four protocols\<close>

lemma json_join_map_JStr: "json_join sep (map (\<lambda>s. JStr s) ss) = js_join sep ss"
  by (rule json_join_JStr)

lemma is_object_JObj [simp]: "is_object (Some (JObj kvs))"
  by (simp add: is_object_def)

lemma map_filter_map_Some: "\<forall>x \<in> set xs. f (g x) = Some (h x) \<Longrightarrow> List.map_filter f (map g xs) = map h xs"
  by (induction xs) (auto simp: List.map_filter_simps)

lemma collectResponsesText_parts:
  assumes "[] \<notin> set ss" and "ty \<in> {''output_text'', ''summary_text'', ''reasoning_text''}"
  shows "collectResponsesText target
      (Some (JArr (map (\<lambda>s. JObj [(''type'', JStr ty), (''text'', JStr s)]) ss))) = target @ map JStr ss"
  unfolding collectResponsesText_def
  using assms by (auto intro!: map_filter_map_Some)

lemma extractAnthropic_thinking:
  "[] \<notin> set ss \<Longrightarrow> foldl extractAnthropicBlock (ts, rs)
      (map (\<lambda>s. JObj [(''type'', JStr ''thinking''), (''thinking'', JStr s)]) ss) = (ts, rs @ map JStr ss)"
  by (induction ss arbitrary: rs) (auto simp: extractAnthropicBlock_def)

lemma extractAnthropic_text:
  "[] \<notin> set ss \<Longrightarrow> foldl extractAnthropicBlock (ts, rs)
      (map (\<lambda>s. JObj [(''type'', JStr ''text''), (''text'', JStr s)]) ss) = (ts @ map JStr ss, rs)"
  by (induction ss arbitrary: ts) (auto simp: extractAnthropicBlock_def)

lemma extractGemini_thoughts:
  "[] \<notin> set ss \<Longrightarrow> foldl extractGeminiPart (ts, rs)
      (map (\<lambda>s. JObj [(''text'', JStr s), (''thought'', JBool True)]) ss) = (ts, rs @ map JStr ss)"
  by (induction ss arbitrary: rs) (auto simp: extractGeminiPart_def)

lemma extractGemini_texts:
  "[] \<notin> set ss \<Longrightarrow> foldl extractGeminiPart (ts, rs)
      (map (\<lambda>s. JObj [(''text'', JStr s)]) ss) = (ts @ map JStr ss, rs)"
  by (induction ss arbitrary: ts) (auto simp: extractGeminiPart_def)

lemma concat_nonempty: "ts \<noteq> [] \<Longrightarrow> [] \<notin> set ts \<Longrightarrow> concat ts \<noteq> []"
  by (cases ts) auto

interpretation openai: response_protocol openai_response "[]"
  by unfold_locales
     (auto simp: getPlaygroundAssistantOutput_def openai_response_def thoughts_value_def
       js_join_empty_sep concat_nonempty jfirst_def)

interpretation responses: response_protocol responses_response "[]"
  by unfold_locales
     (simp add: getPlaygroundAssistantOutput_def responses_response_def thoughts_value_def
       extractResponsesOutput_def extractResponsesBlock_def collectResponsesText_parts
       is_JStr_def collectResponsesText_def [of _ None])

interpretation anthropic: response_protocol anthropic_response "[CHR 0x0A]"
  by unfold_locales
     (simp add: getPlaygroundAssistantOutput_def anthropic_response_def thoughts_value_def
       extractResponsesOutput_def extractAnthropicText_def extractAnthropic_thinking
       extractAnthropic_text is_JStr_def)

interpretation gemini: response_protocol gemini_response "[]"
  by unfold_locales
     (simp add: getPlaygroundAssistantOutput_def gemini_response_def thoughts_value_def
       extractResponsesOutput_def extractAnthropicText_def extractGeminiText_def jfirst_def
       extractGemini_thoughts extractGemini_texts is_JStr_def)

definition protocols :: "((string list \<Rightarrow> string list \<Rightarrow> json) \<times> string) list" where
  "protocols = [(openai_response, []), (responses_response, []),
     (anthropic_response, [CHR 0x0A]), (gemini_response, [])]"

text \<open>
  C36. Whatever protocol the model speaks, a response that carries non-empty texts and
  thoughts completes the assistant message: its content is the visible part of the joined
  texts, its reasoning the joined thoughts, and its key and role are kept.
\<close>

theorem response_completes_message:
  assumes "(encode, sep) \<in> set protocols"
    and "texts \<noteq> []" "[] \<notin> set texts" "[] \<notin> set thoughts"
  shows "\<exists>m'. applyChatCompletionResponse clk m (Some (encode texts thoughts)) = Inr (Some m') \<and>
    getMessageContent m' = tt_visibleContent (parseThinkTags (js_join sep texts)) \<and>
    (thoughts \<noteq> [] \<longrightarrow> reasoningText m' = js_join sep thoughts) \<and>
    msg_status m' = Some COMPLETE \<and> msg_key m' = msg_key m \<and> msg_from m' = msg_from m"
  using assms(1) openai.apply_response [OF assms(2-4)] responses.apply_response [OF assms(2-4)]
    anthropic.apply_response [OF assms(2-4)] gemini.apply_response [OF assms(2-4)]
  by (auto simp: protocols_def)

theorem response_completes_message_witness:
  "\<exists>m'. applyChatCompletionResponse (\<lambda>_. 9) witness_message
      (Some (gemini_response [''Hel'', ''lo''] [''hm''])) = Inr (Some m') \<and>
    getMessageContent m' = ''Hello'' \<and> reasoningText m' = ''hm'' \<and> msg_key m' = ''id''"
  using response_completes_message [of gemini_response "[]" "[''Hel'', ''lo'']" "[''hm'']" "\<lambda>_. 9" witness_message]
  by (auto simp: protocols_def witness_message_simps parseThinkTags_untagged js_includes_def)

section \<open>Interrupted and failed messages\<close>

lemma last_pending_None:
  "last_pending ms n = None \<Longrightarrow> i < n \<Longrightarrow> \<not> isPendingAssistantMessage (Some (ms ! i))"
  by (induction n) (auto simp: less_Suc_eq split: if_splits)

lemma last_pending_Some:
  "last_pending ms n = Some i \<Longrightarrow> i < n \<and> isPendingAssistantMessage (Some (ms ! i)) \<and>
     (\<forall>j. i < j \<and> j < n \<longrightarrow> \<not> isPendingAssistantMessage (Some (ms ! j)))"
  by (induction n) (auto simp: less_Suc_eq split: if_splits)

lemma pending_iff:
  "isPendingAssistantMessage (Some m) \<longleftrightarrow>
     msg_from m = ASSISTANT \<and> (msg_status m = Some LOADING \<or> msg_status m = Some STREAMING)"
  by (simp add: isPendingAssistantMessage_def isAssistantMessagePending_def)

text \<open>The message that replaces the last pending one.\<close>

lemma sanitizeMessagesOnLoad_target:
  assumes "last_pending ms (length ms) = Some i"
  obtains m' where "sanitizeMessagesOnLoad t clk ms = ms[i := m']"
    and "msg_key m' = msg_key (ms ! i)" and "msg_from m' = msg_from (ms ! i)"
    and "isAssistantMessageFinal m'"
proof -
  define m' where "m' = sanitizeMessagesOnLoad t clk ms ! i"
  have i: "i < length ms" using last_pending_Some [OF assms] by blast
  have "sanitizeMessagesOnLoad t clk ms = ms[i := m']" "msg_key m' = msg_key (ms ! i)"
    "msg_from m' = msg_from (ms ! i)" "isAssistantMessageFinal m'"
    using i by (simp_all add: m'_def sanitizeMessagesOnLoad_def assms Let_def isAssistantMessageFinal_def)
  then show thesis by (rule that)
qed

lemma final_not_pending: "isAssistantMessageFinal m \<Longrightarrow> \<not> isPendingAssistantMessage (Some m)"
  by (auto simp: isAssistantMessageFinal_def pending_iff)

lemma sanitize_keys:
  "map msg_key (sanitizeMessagesOnLoad t clk ms) = map msg_key ms"
  "map msg_from (sanitizeMessagesOnLoad t clk ms) = map msg_from ms"
proof -
  have "map msg_key (sanitizeMessagesOnLoad t clk ms) = map msg_key ms \<and>
    map msg_from (sanitizeMessagesOnLoad t clk ms) = map msg_from ms"
  proof (cases "last_pending ms (length ms)")
    case None
    then show ?thesis by (simp add: sanitizeMessagesOnLoad_def)
  next
    case (Some k)
    obtain m' where "sanitizeMessagesOnLoad t clk ms = ms[k := m']"
      "msg_key m' = msg_key (ms ! k)" "msg_from m' = msg_from (ms ! k)"
      by (rule sanitizeMessagesOnLoad_target [OF Some])
    then show ?thesis
      using last_pending_Some [OF Some] by (simp add: map_update list_update_same_conv)
  qed
  then show "map msg_key (sanitizeMessagesOnLoad t clk ms) = map msg_key ms"
    "map msg_from (sanitizeMessagesOnLoad t clk ms) = map msg_from ms" by simp_all
qed

text \<open>
  The repair after a reload keeps the keys and roles of all messages and settles the last
  assistant message that was still loading or streaming; a message is pending afterwards
  exactly when it was pending before and a later one was pending too, so a conversation with
  one interrupted answer is left with none.
\<close>

theorem sanitizeMessagesOnLoad_pending:
  "map msg_key (sanitizeMessagesOnLoad t clk ms) = map msg_key ms \<and>
   map msg_from (sanitizeMessagesOnLoad t clk ms) = map msg_from ms \<and>
   (i < length ms \<longrightarrow>
      (isPendingAssistantMessage (Some (sanitizeMessagesOnLoad t clk ms ! i)) \<longleftrightarrow>
        isPendingAssistantMessage (Some (ms ! i)) \<and>
        (\<exists>j > i. j < length ms \<and> isPendingAssistantMessage (Some (ms ! j)))))"
proof (cases "last_pending ms (length ms)")
  case None
  then show ?thesis using last_pending_None by (auto simp: sanitizeMessagesOnLoad_def)
next
  case (Some k)
  note kept = sanitize_keys [of t clk ms]
  from last_pending_Some [OF Some] have k: "k < length ms"
    "isPendingAssistantMessage (Some (ms ! k))"
    "\<And>j. k < j \<Longrightarrow> j < length ms \<Longrightarrow> \<not> isPendingAssistantMessage (Some (ms ! j))" by auto
  obtain m' where m': "sanitizeMessagesOnLoad t clk ms = ms[k := m']"
    "msg_key m' = msg_key (ms ! k)" "msg_from m' = msg_from (ms ! k)" "isAssistantMessageFinal m'"
    by (rule sanitizeMessagesOnLoad_target [OF Some])
  have "i < length ms \<Longrightarrow> isPendingAssistantMessage (Some (ms[k := m'] ! i)) \<longleftrightarrow>
      isPendingAssistantMessage (Some (ms ! i)) \<and>
      (\<exists>j > i. j < length ms \<and> isPendingAssistantMessage (Some (ms ! j)))"
    using k final_not_pending [OF m'(4)] by (cases i k rule: linorder_cases) (auto dest: k(3))
  then show ?thesis using kept unfolding m'(1) by blast
qed

theorem sanitizeMessagesOnLoad_pending_witness:
  "\<not> isPendingAssistantMessage (Some (sanitizeMessagesOnLoad (\<lambda>s. s) (\<lambda>_. 9) [witness_message] ! 0)) \<and>
   isPendingAssistantMessage (Some
     (sanitizeMessagesOnLoad (\<lambda>s. s) (\<lambda>_. 9) [witness_message, witness_message] ! 0))"
proof
  have w: "isPendingAssistantMessage (Some witness_message)"
    by (simp add: pending_iff witness_message_simps)
  show "\<not> isPendingAssistantMessage (Some (sanitizeMessagesOnLoad (\<lambda>s. s) (\<lambda>_. 9) [witness_message] ! 0))"
    using sanitizeMessagesOnLoad_pending [of "\<lambda>s. s" "\<lambda>_. 9" "[witness_message]" 0] by simp
  have "\<exists>j>0. j < length [witness_message, witness_message] \<and>
      isPendingAssistantMessage (Some ([witness_message, witness_message] ! j))"
    using w by (intro exI [of _ 1]) simp
  then show "isPendingAssistantMessage (Some
      (sanitizeMessagesOnLoad (\<lambda>s. s) (\<lambda>_. 9) [witness_message, witness_message] ! 0))"
    using w sanitizeMessagesOnLoad_pending [of "\<lambda>s. s" "\<lambda>_. 9" "[witness_message, witness_message]" 0]
    by (simp only: list.size nth_Cons_0 simp_thms)
qed

text \<open>
  Reporting an error: when the last message is the assistant's, exactly that message
  changes; it shows the title and the error, has the status of an error, carries the code and
  keeps its key. Otherwise the conversation is returned as it is.
\<close>

theorem updateAssistantMessageWithError_last:
  "updateAssistantMessageWithError clk [] e code title = [] \<and>
   (\<exists>m'. updateAssistantMessageWithError clk (ms @ [m]) e code title =
       (if msg_from m = ASSISTANT then ms @ [m'] else ms @ [m]) \<and>
     getMessageContent m' = title @ '': '' @ e \<and> msg_status m' = Some ERROR \<and>
     msg_errorCode m' = Some (if opt_str code = [] then None else code) \<and>
     msg_key m' = msg_key m \<and> msg_from m' = msg_from m \<and> reasoningText m' = reasoningText m)"
proof (intro conjI exI)
  let ?m' = "completeAssistantTiming ((updateCurrentVersionContent m (title @ '': '' @ e))
    \<lparr>msg_status := Some ERROR, msg_isReasoningStreaming := Some False,
     msg_errorCode := Some (if opt_str code = [] then None else code)\<rparr>) (clk 2)"
  show "updateAssistantMessageWithError clk (ms @ [m]) e code title =
       (if msg_from m = ASSISTANT then ms @ [?m'] else ms @ [m])"
    by (simp add: updateAssistantMessageWithError_def updateLastAssistantMessage_def Let_def)
  show "getMessageContent ?m' = title @ '': '' @ e"
    by (simp add: getMessageContent_def getCurrentVersion_def updateCurrentVersionContent_def)
qed (simp_all add: updateAssistantMessageWithError_def updateLastAssistantMessage_def reasoningText_def)

end
