(* ===== verification/Conversation.thy ===== *)
theory Conversation
  imports Assistant_Output
begin

text \<open>
  The conversation as a list of messages: \<open>lib/message/conversation-message-utils.ts\<close>
  (submit, regenerate, delete and edit) and the views of a message that the components
  render, from \<open>message-action-utils.ts\<close>, \<open>message-content-utils.ts\<close>,
  \<open>message-editor-utils.ts\<close>, \<open>message-error-utils.ts\<close> and \<open>message-layout-utils.ts\<close>.

  The invariant of a conversation is that its messages have distinct keys and that the
  identifiers still to be drawn are not among them. It rests on one hypothesis on the
  library \<open>nanoid\<close>, that it never returns an identifier twice (\<open>inj nanoid\<close>).
\<close>

section \<open>Operations on the conversation\<close>

text \<open>Two messages are created, with two identifiers each.\<close>

definition appendUserMessagePair ::
  "(nat \<Rightarrow> string) \<Rightarrow> nat \<Rightarrow> jsnum \<Rightarrow> Message list \<Rightarrow> string \<Rightarrow>
   PlaygroundImageAttachment list option \<Rightarrow> Message list" where
  "appendUserMessagePair nanoid k submittedAt messages content images =
     messages @ [createUserMessage nanoid k content submittedAt images,
                 createLoadingAssistantMessage nanoid (k + 2) submittedAt]"

definition createRegeneratedMessages ::
  "(nat \<Rightarrow> string) \<Rightarrow> nat \<Rightarrow> jsnum \<Rightarrow> Message list \<Rightarrow> string \<Rightarrow> Message list option" where
  "createRegeneratedMessages nanoid k now messages messageKey =
     (case js_findIndex (\<lambda>message. msg_key message = messageKey) messages of
        None \<Rightarrow> None
      | Some messageIndex \<Rightarrow>
          if msg_from (messages ! messageIndex) = USER
          then Some (take (messageIndex + 1) messages @ [createLoadingAssistantMessage nanoid k now])
          else Some (take messageIndex messages @ [createLoadingAssistantMessage nanoid k now]))"

definition removeMessageByKey :: "Message list \<Rightarrow> string \<Rightarrow> Message list" where
  "removeMessageByKey messages messageKey = filter (\<lambda>message. msg_key message \<noteq> messageKey) messages"

text \<open>The loop runs over the indices below \<open>beforeIndex\<close>, from the top.\<close>

fun getPreviousUserMessage :: "Message list \<Rightarrow> nat \<Rightarrow> Message option" where
  "getPreviousUserMessage messages 0 = None"
| "getPreviousUserMessage messages (Suc index) =
     (if msg_from (messages ! index) = USER then Some (messages ! index)
      else getPreviousUserMessage messages index)"

definition applyMessageEdit ::
  "(nat \<Rightarrow> string) \<Rightarrow> nat \<Rightarrow> jsnum \<Rightarrow> Message list \<Rightarrow> string \<Rightarrow> string \<Rightarrow> bool \<Rightarrow>
   (Message list \<times> bool) option" where
  "applyMessageEdit nanoid k submittedAt messages messageKey content shouldSubmit =
     (case js_findIndex (\<lambda>message. msg_key message = messageKey) messages of
        None \<Rightarrow> None
      | Some messageIndex \<Rightarrow>
          let updatedMessages = map (\<lambda>message.
                if msg_key message = messageKey
                then (updateCurrentVersionContent message content)
                  \<lparr>msg_createdAt := (if shouldSubmit then Some submittedAt else msg_createdAt message)\<rparr>
                else message) messages
          in if \<not> shouldSubmit \<or> msg_from (updatedMessages ! messageIndex) \<noteq> USER
             then Some (updatedMessages, False)
             else Some (take (messageIndex + 1) updatedMessages @
                    [createLoadingAssistantMessage nanoid k submittedAt], True))"

definition getEditingMessageContent :: "Message list \<Rightarrow> string option \<Rightarrow> string" where
  "getEditingMessageContent messages editingKey =
     (if opt_str editingKey = [] then []
      else case find (\<lambda>item. msg_key item = opt_str editingKey) messages of
             None \<Rightarrow> []
           | Some message \<Rightarrow> getMessageContent message)"

record ChatMessageRenderState =
  crs_alwaysShowActions :: bool
  crs_content :: string
  crs_isEditing :: bool

definition getChatMessageRenderState ::
  "Message list \<Rightarrow> Message \<Rightarrow> nat \<Rightarrow> string option \<Rightarrow> ChatMessageRenderState" where
  "getChatMessageRenderState messages message messageIndex editingKey =
     \<lparr>crs_alwaysShowActions = False, crs_content = getMessageContent message,
      crs_isEditing = (editingKey = Some (msg_key message))\<rparr>"

section \<open>Views of a message\<close>

record MessageActionState =
  mas_content :: string
  mas_hasContent :: bool
  mas_isAssistant :: bool
  mas_isLoading :: bool
  mas_isUser :: bool

definition getMessageActionState :: "Message \<Rightarrow> MessageActionState" where
  "getMessageActionState message =
     \<lparr>mas_content = getMessageContent message, mas_hasContent = hasMessageContent message,
      mas_isAssistant = (msg_from message = ASSISTANT),
      mas_isLoading = (msg_status message = Some LOADING \<or> msg_status message = Some STREAMING),
      mas_isUser = (msg_from message = USER)\<rparr>"

definition getMessageActionsVisibilityClass :: "bool \<Rightarrow> string" where
  "getMessageActionsVisibilityClass alwaysVisible =
     (if alwaysVisible then ''opacity-100''
      else ''opacity-0 group-hover:opacity-100 max-md:opacity-100'')"

record MessageContentState =
  mcs_displayContent :: string
  mcs_hasSources :: bool
  mcs_isAssistant :: bool
  mcs_showLoader :: bool
  mcs_showMessageContent :: bool
  mcs_sources :: "MessageSource list"
  mcs_hasReasoning :: bool
  mcs_reasoningContent :: "string option"

definition shouldShowMessageLoader :: "Message \<Rightarrow> bool \<Rightarrow> string \<Rightarrow> bool" where
  "shouldShowMessageLoader message isAssistant versionContent \<longleftrightarrow>
     isAssistant \<and> msg_isReasoningStreaming message \<noteq> Some True \<and>
     (msg_status message = Some LOADING \<or>
      msg_status message = Some STREAMING \<and> versionContent = [])"

definition shouldShowMessageContent :: "Message \<Rightarrow> string \<Rightarrow> bool" where
  "shouldShowMessageContent message versionContent \<longleftrightarrow>
     (msg_from message = USER \<or> msg_isReasoningStreaming message \<noteq> Some True) \<and>
     (length versionContent > 0 \<or> hasMessageImages message)"

definition getDisplayContent :: "Message \<Rightarrow> string \<Rightarrow> string" where
  "getDisplayContent message versionContent =
     (if msg_from message \<noteq> ASSISTANT then versionContent
      else if \<not> js_includes versionContent ''<think>'' then versionContent
      else tt_visibleContent (parseThinkTags versionContent))"

definition getMessageContentState :: "Message \<Rightarrow> string \<Rightarrow> MessageContentState" where
  "getMessageContentState message versionContent =
     (let isAssistant = (msg_from message = ASSISTANT);
          sources = nullish (msg_sources message) [];
          reasoningContent = (if isAssistant then map_option rsn_content (msg_reasoning message) else None);
          hasReasoning = (opt_str reasoningContent \<noteq> [])
      in \<lparr>mcs_displayContent = getDisplayContent message versionContent,
          mcs_hasSources = (length sources > 0), mcs_isAssistant = isAssistant,
          mcs_showLoader = shouldShowMessageLoader message isAssistant versionContent,
          mcs_showMessageContent = shouldShowMessageContent message versionContent,
          mcs_sources = sources, mcs_hasReasoning = hasReasoning,
          mcs_reasoningContent = (if hasReasoning then reasoningContent else None)\<rparr>)"

record MessageEditorState =
  mes_canSave :: bool
  mes_hasChanged :: bool
  mes_showSaveAndSubmit :: bool

definition getMessageEditorState :: "Message \<Rightarrow> string \<Rightarrow> string \<Rightarrow> MessageEditorState" where
  "getMessageEditorState message editText originalText =
     (let hasPayload = (length (js_trim editText) > 0 \<or> hasMessageImages message);
          hasChanged = (editText \<noteq> originalText)
      in \<lparr>mes_canSave = (hasPayload \<and> hasChanged), mes_hasChanged = hasChanged,
          mes_showSaveAndSubmit = (msg_from message = USER)\<rparr>)"

datatype MessageErrorKind = KIND_GENERIC | KIND_MODEL_PRICE

record MessageErrorState =
  ers_content :: string
  ers_kind :: MessageErrorKind
  ers_showSettingsLink :: bool

definition FALLBACK_ERROR_CONTENT :: string where
  "FALLBACK_ERROR_CONTENT = ''An unknown error occurred''"

text \<open>The role is \<open>number | null | undefined\<close>; both missing values are \<open>None\<close>.\<close>

definition isAdminRole :: "jsnum option \<Rightarrow> bool" where
  "isAdminRole role \<longleftrightarrow> (case role of None \<Rightarrow> False | Some r \<Rightarrow> r \<ge> 10)"

definition isErrorMessage :: "Message \<Rightarrow> bool" where
  "isErrorMessage message \<longleftrightarrow> msg_status message = Some ERROR"

definition getMessageErrorState :: "Message \<Rightarrow> bool \<Rightarrow> MessageErrorState option" where
  "getMessageErrorState message isAdmin =
     (if \<not> isErrorMessage message then None
      else
        let content = str_or (getMessageContent message) FALLBACK_ERROR_CONTENT;
            isModelPriceError = (msg_errorCode message = Some (Some ''model_price_error''))
        in Some \<lparr>ers_content = content,
             ers_kind = (if isModelPriceError then KIND_MODEL_PRICE else KIND_GENERIC),
             ers_showSettingsLink = (isModelPriceError \<and> isAdmin)\<rparr>)"

datatype PlaygroundMessageLayoutMode = LAYOUT_ALTERNATING | LAYOUT_LEFT

datatype MessageAlignment = ALIGN_LEFT | ALIGN_RIGHT

definition getMessageAlignment :: "Message \<Rightarrow> PlaygroundMessageLayoutMode \<Rightarrow> MessageAlignment" where
  "getMessageAlignment message layoutMode =
     (if layoutMode = LAYOUT_LEFT then ALIGN_LEFT
      else if msg_from message = USER then ALIGN_RIGHT else ALIGN_LEFT)"

definition getMessageAlignmentClass :: "MessageAlignment \<Rightarrow> string" where
  "getMessageAlignmentClass alignment =
     (if alignment = ALIGN_RIGHT then ''items-end text-right'' else ''items-start text-left'')"

section \<open>Distinct keys\<close>

definition conv_ok :: "(nat \<Rightarrow> string) \<Rightarrow> nat \<Rightarrow> Message list \<Rightarrow> bool" where
  "conv_ok nanoid k ms \<longleftrightarrow> distinct (map msg_key ms) \<and> (\<forall>j \<ge> k. nanoid j \<notin> msg_key ` set ms)"

lemma created_fields [simp]:
  "msg_key (createUserMessage nanoid k c t images) = nanoid k"
  "msg_from (createUserMessage nanoid k c t images) = USER"
  "getMessageContent (createUserMessage nanoid k c t images) = c"
  "msg_key (createLoadingAssistantMessage nanoid k t) = nanoid k"
  "msg_from (createLoadingAssistantMessage nanoid k t) = ASSISTANT"
  "msg_status (createLoadingAssistantMessage nanoid k t) = Some LOADING"
  "getMessageContent (createLoadingAssistantMessage nanoid k t) = []"
  by (simp_all add: createUserMessage_def createLoadingAssistantMessage_def getMessageContent_def
      getCurrentVersion_def createMessageVersion_def)

lemma conv_ok_mono: "conv_ok nanoid k ms \<Longrightarrow> k \<le> k' \<Longrightarrow> conv_ok nanoid k' ms"
  by (auto simp: conv_ok_def)

text \<open>The invariant reads only the keys.\<close>

lemma conv_ok_keys: "map msg_key ms = map msg_key ms' \<Longrightarrow> conv_ok nanoid k ms \<Longrightarrow> conv_ok nanoid k ms'"
  unfolding conv_ok_def by (metis list.set_map)

lemma conv_ok_take: "conv_ok nanoid k ms \<Longrightarrow> conv_ok nanoid k (take n ms)"
  unfolding conv_ok_def by (metis distinct_take image_mono set_take_subset subsetD take_map)

lemma conv_ok_filter: "conv_ok nanoid k ms \<Longrightarrow> conv_ok nanoid k (filter P ms)"
  by (auto simp: conv_ok_def distinct_map intro: inj_on_subset)

lemma conv_ok_snoc:
  assumes "conv_ok nanoid k ms" and "inj nanoid" and "msg_key m = nanoid k" and "k < k'"
  shows "conv_ok nanoid k' (ms @ [m])"
  using assms by (auto simp: conv_ok_def dest: injD)

lemma conv_ok_append_pair:
  assumes "conv_ok nanoid k ms" and "inj nanoid"
  shows "conv_ok nanoid (k + 4) (appendUserMessagePair nanoid k t ms c images)"
proof -
  have "conv_ok nanoid (k + 2) (ms @ [createUserMessage nanoid k c t images])"
    by (rule conv_ok_snoc [OF assms]) simp_all
  from conv_ok_snoc [OF this assms(2), of "createLoadingAssistantMessage nanoid (k + 2) t" "k + 4"]
  show ?thesis by (simp add: appendUserMessagePair_def)
qed

lemma conv_ok_regenerate:
  assumes "conv_ok nanoid k ms" and "inj nanoid"
    and "createRegeneratedMessages nanoid k t ms key = Some ms'"
  shows "conv_ok nanoid (k + 2) ms'"
  using assms(3) conv_ok_snoc [OF conv_ok_take [OF assms(1)] assms(2), of
      "createLoadingAssistantMessage nanoid k t" "k + 2"]
  by (auto simp: createRegeneratedMessages_def split: option.splits if_splits)

lemma edit_keys:
  "map msg_key (map (\<lambda>m. if msg_key m = key then (updateCurrentVersionContent m c)\<lparr>msg_createdAt := f m\<rparr>
      else m) ms) = map msg_key ms"
  by (induction ms) auto

lemma conv_ok_edit:
  assumes "conv_ok nanoid k ms" and "inj nanoid"
    and "applyMessageEdit nanoid k t ms key c submit = Some (ms', send)"
  shows "conv_ok nanoid (k + 2) ms'"
proof -
  let ?u = "map (\<lambda>m. if msg_key m = key then (updateCurrentVersionContent m c)
      \<lparr>msg_createdAt := (if submit then Some t else msg_createdAt m)\<rparr> else m) ms"
  have u: "conv_ok nanoid k ?u" by (rule conv_ok_keys [OF edit_keys [symmetric] assms(1)])
  have sent: "conv_ok nanoid (k + 2) (take n ?u @ [createLoadingAssistantMessage nanoid k t])" for n
    by (rule conv_ok_snoc [OF conv_ok_take [OF u] assms(2)]) simp_all
  have "conv_ok nanoid (k + 2) ?u" using conv_ok_mono [OF u] by simp
  then show ?thesis
    using assms(3) sent unfolding applyMessageEdit_def Let_def
    by (auto split: option.splits if_splits)
qed

text \<open>
  C37. Every operation on the conversation keeps the keys of its messages distinct, when the
  library never returns an identifier twice: submitting draws four identifiers, regenerating
  and editing two, deleting none, and the repair after a reload none.
\<close>

theorem conversation_keys_distinct:
  assumes "inj nanoid" and "conv_ok nanoid k ms"
  shows "conv_ok nanoid (k + 4) (appendUserMessagePair nanoid k now ms content images) \<and>
    (\<forall>ms'. createRegeneratedMessages nanoid k now ms key = Some ms' \<longrightarrow> conv_ok nanoid (k + 2) ms') \<and>
    (\<forall>ms' send. applyMessageEdit nanoid k now ms key content submit = Some (ms', send) \<longrightarrow>
       conv_ok nanoid (k + 2) ms') \<and>
    conv_ok nanoid k (removeMessageByKey ms key) \<and>
    conv_ok nanoid k (sanitizeMessagesOnLoad t clk ms)"
  using conv_ok_append_pair [OF assms(2,1)] conv_ok_regenerate [OF assms(2,1)] conv_ok_edit [OF assms(2,1)]
    conv_ok_filter [OF assms(2)] conv_ok_keys [OF sanitize_keys(1) [symmetric] assms(2)]
  by (auto simp: removeMessageByKey_def)

definition witness_ids :: "nat \<Rightarrow> string" where
  "witness_ids k = replicate k CHR ''x''"

lemma witness_ids_inj: "inj witness_ids"
  by (rule injI) (metis length_replicate witness_ids_def)

theorem conversation_keys_distinct_witness:
  "distinct (map msg_key (appendUserMessagePair witness_ids 4 0
      (appendUserMessagePair witness_ids 0 0 [] ''a'' None) ''b'' None))"
proof -
  have "conv_ok witness_ids 0 []" by (simp add: conv_ok_def)
  note conversation_keys_distinct [OF witness_ids_inj this, THEN conjunct1, of 0 "''a''" None]
  then have "conv_ok witness_ids 4 (appendUserMessagePair witness_ids 0 0 [] ''a'' None)" by simp
  note conversation_keys_distinct [OF witness_ids_inj this, THEN conjunct1, of 0 "''b''" None]
  then show ?thesis by (simp only: conv_ok_def)
qed

lemma findIndex_split:
  assumes "msg_key m = key" and "key \<notin> msg_key ` set pre"
  shows "js_findIndex (\<lambda>m. msg_key m = key) (pre @ m # post) = Some (length pre)"
  using assms by (induction pre) auto

text \<open>
  Regenerating: a key that no message has gives null. Otherwise the conversation is cut
  at the first message with that key, which is kept exactly when the user wrote it, and a
  loading assistant message without content is appended.
\<close>

theorem createRegeneratedMessages_spec:
  "(key \<notin> msg_key ` set ms \<longrightarrow> createRegeneratedMessages nanoid k now ms key = None) \<and>
   (key \<notin> msg_key ` set pre \<and> msg_key m = key \<longrightarrow>
     createRegeneratedMessages nanoid k now (pre @ m # post) key =
       Some (pre @ (if msg_from m = USER then [m] else []) @ [createLoadingAssistantMessage nanoid k now]))"
  using findIndex_split [of m key pre post] js_findIndex_None [of "\<lambda>m. msg_key m = key" ms]
  by (auto simp: createRegeneratedMessages_def)

theorem createRegeneratedMessages_spec_witness:
  "createRegeneratedMessages witness_ids 5 7 [witness_message, witness_message] ''id'' =
     Some [createLoadingAssistantMessage witness_ids 5 7]"
  using createRegeneratedMessages_spec [of "''id''" "[]" witness_ids 5 7 "[]" witness_message "[witness_message]"]
  by (simp add: witness_message_simps)

text \<open>
  Editing: with distinct keys, exactly the message with the key gets the new content,
  and keeps its key, role, images and reasoning. Only a submitted user message is sent: then
  everything after it is dropped and a loading assistant message follows it. Otherwise the
  rest of the conversation stays as it is and nothing is sent.
\<close>

theorem applyMessageEdit_spec:
  assumes "distinct (map msg_key (pre @ m # post))"
  shows "\<exists>m'. applyMessageEdit nanoid k now (pre @ m # post) (msg_key m) content submit =
      (if submit \<and> msg_from m = USER
       then Some (pre @ [m', createLoadingAssistantMessage nanoid k now], True)
       else Some (pre @ m' # post, False)) \<and>
    getMessageContent m' = content \<and> msg_key m' = msg_key m \<and> msg_from m' = msg_from m \<and>
    msg_images m' = msg_images m \<and> msg_reasoning m' = msg_reasoning m"
proof (intro exI conjI)
  let ?m' = "(updateCurrentVersionContent m content)
      \<lparr>msg_createdAt := (if submit then Some now else msg_createdAt m)\<rparr>"
  let ?f = "\<lambda>x. if msg_key x = msg_key m then (updateCurrentVersionContent x content)
      \<lparr>msg_createdAt := (if submit then Some now else msg_createdAt x)\<rparr> else x"
  have fresh: "msg_key m \<notin> msg_key ` set pre" "msg_key m \<notin> msg_key ` set post"
    using assms by auto
  have "map ?f pre = pre" "map ?f post = post"
    using fresh by (auto intro!: map_idI simp: image_iff)
  then have "map ?f (pre @ m # post) = pre @ ?m' # post" by simp
  then show "applyMessageEdit nanoid k now (pre @ m # post) (msg_key m) content submit =
      (if submit \<and> msg_from m = USER
       then Some (pre @ [?m', createLoadingAssistantMessage nanoid k now], True)
       else Some (pre @ ?m' # post, False))"
    unfolding applyMessageEdit_def Let_def
    using findIndex_split [OF refl fresh(1), of post] by simp
  show "getMessageContent ?m' = content"
    by (simp add: getMessageContent_def getCurrentVersion_def updateCurrentVersionContent_def)
qed simp_all

theorem applyMessageEdit_spec_witness:
  "\<exists>m'. applyMessageEdit witness_ids 5 7 [witness_message] ''id'' ''new'' True = Some ([m'], False) \<and>
     getMessageContent m' = ''new''"
  using applyMessageEdit_spec [of "[]" witness_message "[]" witness_ids 5 7 "''new''" True]
  by (auto simp: witness_message_simps)

end
