(* ===== verification/Json_Roundtrip.thy ===== *)
theory Json_Roundtrip
  imports Json
begin

text \<open>
  Correctness of the JSON texts of theory \<open>Json\<close>: numbers, string literals and whole values
  are parsed back to what was printed, and the fuel of the parser is always enough.
\<close>

section \<open>Digits\<close>

lemma digit_cases:
  assumes "0 \<le> d" and "d < (10 :: int)"
  shows "d \<in> {0, 1, 2, 3, 4, 5, 6, 7, 8, 9}"
  using assms unfolding insert_iff empty_iff by presburger

lemma digit_char_simps:
  "digit_char 0 = CHR ''0''" "digit_char 1 = CHR ''1''" "digit_char 2 = CHR ''2''"
  "digit_char 3 = CHR ''3''" "digit_char 4 = CHR ''4''" "digit_char 5 = CHR ''5''"
  "digit_char 6 = CHR ''6''" "digit_char 7 = CHR ''7''" "digit_char 8 = CHR ''8''"
  "digit_char 9 = CHR ''9''"
  by (simp_all add: digit_char_def)

lemma digit_char_ok:
  assumes "0 \<le> d" and "d < 10"
  shows "is_digit (digit_char d)" and "digit_val (digit_char d) = d"
    and "digit_char d = CHR ''0'' \<longleftrightarrow> d = 0"
  using digit_cases [OF assms]
  by (auto simp: digit_char_simps is_digit_def digit_val_def)

lemma digits_val_Nil [simp]: "digits_val [] = 0"
  by (simp add: digits_val_def)

lemma digits_val_snoc [simp]: "digits_val (xs @ [c]) = 10 * digits_val xs + digit_val c"
  by (simp add: digits_val_def)

lemma digits_val_append: "digits_val (xs @ ys) = digits_val xs * 10 ^ length ys + digits_val ys"
proof (induction ys rule: rev_induct)
  case (snoc y ys)
  then show ?case
    using digits_val_snoc [of "xs @ ys" y] by (simp add: algebra_simps del: digits_val_snoc) simp
qed simp

lemma digits_val_zeros [simp]: "digits_val (replicate n CHR ''0'') = 0"
proof (induction n)
  case (Suc n)
  have "digits_val (replicate n CHR ''0'' @ [CHR ''0'']) = 0"
    unfolding digits_val_snoc using Suc by (simp add: digit_val_def)
  then show ?case by (simp add: replicate_append_same)
qed simp

lemma int_digits_val: "0 \<le> n \<Longrightarrow> digits_val (int_digits n) = n"
proof (induction n rule: int_digits.induct)
  case (1 n)
  show ?case
  proof (cases "n < 10")
    case True
    then show ?thesis
      using digits_val_snoc [of "[]"] "1.prems"
      by (simp add: int_digits.simps [of n] digit_char_ok)
  next
    case False
    then show ?thesis
      using "1.IH" "1.prems" by (simp add: int_digits.simps [of n] digit_char_ok)
  qed
qed

lemma int_digits_ok:
  "0 \<le> n \<Longrightarrow> int_digits n \<noteq> [] \<and> (\<forall>c \<in> set (int_digits n). is_digit c)"
proof (induction n rule: int_digits.induct)
  case (1 n)
  then show ?case
    by (cases "n < 10") (auto simp: int_digits.simps [of n] digit_char_ok)
qed

lemma int_digits_hd: "0 < n \<Longrightarrow> hd (int_digits n) \<noteq> CHR ''0''"
proof (induction n rule: int_digits.induct)
  case (1 n)
  show ?case
  proof (cases "n < 10")
    case True
    then show ?thesis using "1.prems" by (simp add: int_digits.simps [of n] digit_char_ok)
  next
    case False
    then have "0 < n div 10" by simp
    with False "1.IH" int_digits_ok [of "n div 10"] show ?thesis
      by (simp add: int_digits.simps [of n])
  qed
qed

lemmas int_digits_digits = int_digits_ok [THEN conjunct2]
lemmas int_digits_nonempty = int_digits_ok [THEN conjunct1]

section \<open>Numbers\<close>

text \<open>A text after which a number, a string or a literal is complete.\<close>

definition delimited :: "string \<Rightarrow> bool" where
  "delimited r \<longleftrightarrow> r = [] \<or> hd r \<in> {CHR '','', CHR '']'', CHR ''}''}"

lemma delimited_facts:
  assumes "delimited r"
  shows "r = [] \<or> \<not> is_digit (hd r)" and "parse_frac r = Some ([], r)"
    and "parse_exp r = Some (0, r)"
  using assms by (cases r; auto simp: delimited_def is_digit_def parse_frac_def parse_exp_def)+

lemma span_digits:
  assumes "\<forall>c \<in> set xs. is_digit c" and "ys = [] \<or> \<not> is_digit (hd ys)"
  shows "takeWhile is_digit (xs @ ys) = xs" and "dropWhile is_digit (xs @ ys) = ys"
  using assms by (cases ys; auto)+

definition frac_string :: "string \<Rightarrow> string" where
  "frac_string fp = (if fp = [] then [] else ''.'' @ fp)"

definition exp_string :: "int option \<Rightarrow> string" where
  "exp_string x = (case x of None \<Rightarrow> [] | Some e \<Rightarrow> exponent_string e)"

lemma exp_string_hd: "delimited r \<Longrightarrow> exp_string x @ r = [] \<or> \<not> is_digit (hd (exp_string x @ r))"
  using delimited_facts(1) [of r]
  by (cases x) (auto simp: exp_string_def exponent_string_def is_digit_def)

lemma parse_exp_string:
  assumes "delimited r"
  shows "parse_exp (exp_string x @ r) = Some (nullish x 0, r)"
proof (cases x)
  case None
  then show ?thesis using delimited_facts(3) [OF assms] by (simp add: exp_string_def)
next
  case (Some e)
  have d: "takeWhile is_digit (int_digits n @ r) = int_digits n"
    "dropWhile is_digit (int_digits n @ r) = r" if "0 \<le> n" for n
    using span_digits [OF int_digits_digits [OF that] delimited_facts(1) [OF assms]] by simp_all
  show ?thesis
    using int_digits_nonempty
    by (cases "e < 0") (simp_all add: Some exp_string_def exponent_string_def parse_exp_def d int_digits_val)
qed

lemma parse_frac_string:
  assumes "\<forall>c \<in> set fp. is_digit c" and "delimited r"
  shows "parse_frac (frac_string fp @ exp_string x @ r) = Some (fp, exp_string x @ r)"
proof (cases "fp = []")
  case True
  then show ?thesis
    using delimited_facts(2) [OF assms(2)]
    by (cases x) (simp_all add: frac_string_def exp_string_def exponent_string_def parse_frac_def)
next
  case False
  with span_digits [OF assms(1) exp_string_hd [OF assms(2)], of x] show ?thesis
    by (simp add: frac_string_def parse_frac_def)
qed

lemma parse_number_shape:
  assumes ip: "\<forall>c \<in> set ip. is_digit c" "ip \<noteq> []" "hd ip = CHR ''0'' \<longrightarrow> length ip = 1"
    and fp: "\<forall>c \<in> set fp. is_digit c" and r: "delimited r"
  shows "parse_number ((if neg then ''-'' else []) @ ip @ frac_string fp @ exp_string x @ r) =
    Some ((if neg then - 1 else 1) * of_int (digits_val (ip @ fp)) * 10 powi (nullish x 0 - int (length fp)), r)"
proof -
  let ?t = "frac_string fp @ exp_string x @ r"
  have "?t = [] \<or> \<not> is_digit (hd ?t)"
    using exp_string_hd [OF r, of x] by (simp add: frac_string_def is_digit_def)
  note d = span_digits [OF ip(1) this]
  have "hd ip \<noteq> CHR ''-''" using ip(1,2) by (cases ip) (auto simp: is_digit_def)
  then have s: "(case (if neg then ''-'' else []) @ ip @ ?t of [] \<Rightarrow> (False, [])
      | c # t \<Rightarrow> if c = CHR ''-'' then (True, t)
          else (False, (if neg then ''-'' else []) @ ip @ ?t)) = (neg, ip @ ?t)"
    using ip(2) by (cases neg; cases ip) auto
  show ?thesis
    unfolding parse_number_def s Let_def prod.case d parse_frac_string [OF fp r] option.case
      parse_exp_string [OF r]
    using ip(2,3) by auto
qed

text \<open>The value of a decimal with mantissa \<open>m\<close> and exponent \<open>e\<close>.\<close>

definition decimal_value :: "int \<Rightarrow> int \<Rightarrow> jsnum" where
  "decimal_value m e = of_int m * 10 powi e"

lemma decimal_value_shift: "decimal_value (m * 10 ^ d) e = decimal_value m (e + int d)"
  by (simp add: decimal_value_def power_int_add)

lemma strip_zeros_value: "strip_zeros n e = (m, f) \<Longrightarrow> decimal_value m f = decimal_value n e"
proof (induction n e rule: strip_zeros.induct)
  case (1 n e)
  show ?case
  proof (cases "n > 0 \<and> n mod 10 = 0")
    case True
    then have "strip_zeros (n div 10) (e + 1) = (m, f)"
      using "1.prems" by (simp add: strip_zeros.simps [of n])
    then have "decimal_value m f = decimal_value (n div 10) (e + 1)" by (rule "1.IH" [OF True])
    also have "\<dots> = decimal_value (n div 10 * 10 ^ 1) e"
      unfolding decimal_value_shift by simp
    also have "n div 10 * 10 ^ 1 = n" using True by (simp add: mod_0_imp_dvd)
    finally show ?thesis .
  next
    case False
    with "1.prems" show ?thesis by (auto simp: strip_zeros.simps [of n])
  qed
qed

lemma strip_zeros_pos: "strip_zeros n e = (m, f) \<Longrightarrow> 0 < n \<Longrightarrow> 0 < m"
proof (induction n e rule: strip_zeros.induct)
  case (1 n e)
  show ?case
  proof (cases "n mod 10 = 0")
    case True
    then have "0 < n div 10" using "1.prems"(2) by presburger
    then show ?thesis
      using True "1.prems" "1.IH" by (simp add: strip_zeros.simps [of n])
  next
    case False
    with "1.prems" show ?thesis by (auto simp: strip_zeros.simps [of n])
  qed
qed

lemma dec_places_dvd: "dec_places f b d = Some p \<Longrightarrow> b dvd 10 ^ p"
  by (induction f b d rule: dec_places.induct) (auto split: if_splits)

lemma decimal_of_value:
  assumes "decimal_of r = Some (m, e)" and "0 < r"
  shows "decimal_value m e = r \<and> 0 < m"
proof -
  obtain a b where q: "quotient_of r = (a, b)" by fastforce
  have b: "0 < b" and r: "r = of_int a / of_int b"
    using q quotient_of_denom_pos quotient_of_div by blast+
  with assms(2) have a: "0 < a" by (simp add: zero_less_divide_iff)
  from assms(1) obtain d where "dec_places 400 b 0 = Some d"
    and st: "strip_zeros (a * 10 ^ d div b) (- int d) = (m, e)"
    by (auto simp: decimal_of_def q Let_def split: option.splits)
  then have dvd: "b dvd 10 ^ d" by (blast dest: dec_places_dvd)
  then have bn: "b dvd a * 10 ^ d" by simp
  have "decimal_value (a * 10 ^ d div b) (- int d) = r"
    using b by (simp add: decimal_value_def r of_int_div [OF bn] power_int_minus field_simps)
  moreover have "0 < a * 10 ^ d div b"
    using a b zdvd_imp_le [OF bn] by (simp add: pos_imp_zdiv_pos_iff)
  ultimately show ?thesis using strip_zeros_value [OF st] strip_zeros_pos [OF st] by simp
qed

text \<open>Each case of \<open>positive_string\<close> has the shape that \<open>parse_number_shape\<close> reads.\<close>

lemma positive_string_shape:
  assumes "0 < m"
  obtains ip fp x where "positive_string m e = ip @ frac_string fp @ exp_string x"
    and "\<forall>c \<in> set ip. is_digit c" "ip \<noteq> []" "hd ip = CHR ''0'' \<longrightarrow> length ip = 1"
    and "\<forall>c \<in> set fp. is_digit c"
    and "of_int (digits_val (ip @ fp)) * 10 powi (nullish x 0 - int (length fp)) = decimal_value m e"
proof -
  define ds where "ds = int_digits m"
  define k where "k = int (length ds)"
  define n where "n = e + k"
  have m0: "0 \<le> m" using assms by simp
  have ds: "\<forall>c \<in> set ds. is_digit c" "ds \<noteq> []" "hd ds \<noteq> CHR ''0''" "digits_val ds = m"
    using int_digits_digits [OF m0] int_digits_nonempty [OF m0] int_digits_hd [OF assms]
      int_digits_val [OF m0] by (simp_all add: ds_def)
  have sub: "\<forall>c \<in> set (take i ds). is_digit c" "\<forall>c \<in> set (drop i ds). is_digit c" for i
    using ds(1) by (auto dest: in_set_takeD in_set_dropD)
  have zeros: "is_digit CHR ''0''" by (simp add: is_digit_def)
  have k: "0 < k" using ds(2) by (simp add: k_def)
  have ps: "positive_string m e =
      (if k \<le> n \<and> n \<le> 21 then ds @ replicate (nat (n - k)) CHR ''0''
       else if 0 < n \<and> n \<le> 21 then take (nat n) ds @ ''.'' @ drop (nat n) ds
       else if - 6 < n \<and> n \<le> 0 then ''0.'' @ replicate (nat (- n)) CHR ''0'' @ ds
       else if k = 1 then ds @ exponent_string (n - 1)
       else take 1 ds @ ''.'' @ drop 1 ds @ exponent_string (n - 1))"
    by (simp add: positive_string_def ds_def k_def n_def Let_def)
  consider (int) "k \<le> n \<and> n \<le> 21" | (mid) "\<not> (k \<le> n \<and> n \<le> 21)" "0 < n" "n \<le> 21"
    | (small) "\<not> (k \<le> n \<and> n \<le> 21)" "- 6 < n" "n \<le> 0"
    | (exp) "\<not> (k \<le> n \<and> n \<le> 21)" "\<not> (0 < n \<and> n \<le> 21)" "\<not> (- 6 < n \<and> n \<le> 0)"
    by linarith
  then show thesis
  proof cases
    case int
    then have e0: "int (nat (n - k)) = e" by (simp add: n_def)
    have "decimal_value (m * 10 ^ nat (n - k)) 0 = decimal_value m e"
      unfolding decimal_value_shift e0 by simp
    then have v: "of_int (digits_val (ds @ replicate (nat (n - k)) CHR ''0'')) = decimal_value m e"
      unfolding digits_val_append ds(4) by (simp add: decimal_value_def)
    show ?thesis
      by (rule that [of "ds @ replicate (nat (n - k)) CHR ''0''" "[]" None])
         (use int ds zeros v in \<open>auto simp: ps frac_string_def exp_string_def\<close>)
  next
    case mid
    then have nk: "nat n < length ds" by (simp add: k_def nat_less_iff)
    then have e0: "- int (length (drop (nat n) ds)) = e"
      using mid(2) by (simp add: n_def k_def of_nat_diff)
    have v: "of_int (digits_val (take (nat n) ds @ drop (nat n) ds)) *
        10 powi (0 - int (length (drop (nat n) ds))) = decimal_value m e"
      unfolding append_take_drop_id ds(4) decimal_value_def using e0 by simp
    show ?thesis
      by (rule that [of "take (nat n) ds" "drop (nat n) ds" None])
         (use mid nk ds sub v in \<open>auto simp: ps frac_string_def exp_string_def hd_take\<close>)
  next
    case small
    let ?fp = "replicate (nat (- n)) CHR ''0'' @ ds"
    have e0: "- int (length ?fp) = e" using small(3) by (simp add: n_def k_def)
    have "digits_val (''0'' @ ?fp) = m"
      by (simp only: digits_val_append digits_val_zeros ds(4)) (simp add: digits_val_def digit_val_def)
    then have v: "of_int (digits_val (''0'' @ ?fp)) * 10 powi (0 - int (length ?fp)) = decimal_value m e"
      unfolding decimal_value_def using e0 by simp
    show ?thesis
      by (rule that [of "''0''" ?fp None])
         (use small k ds(1,2) zeros v in \<open>simp_all add: ps frac_string_def exp_string_def ball_Un\<close>)
  next
    case exp
    have e0: "n - 1 - int (length (drop 1 ds)) = e" using ds(2) by (simp add: n_def k_def of_nat_diff Suc_leI)
    have v: "of_int (digits_val (take 1 ds @ drop 1 ds)) *
        10 powi (n - 1 - int (length (drop 1 ds))) = decimal_value m e"
      unfolding append_take_drop_id ds(4) decimal_value_def e0 ..
    have drop1: "drop 1 ds = [] \<longleftrightarrow> k = 1" using ds(2) k by (cases ds) (auto simp: k_def)
    then have "k = 1 \<Longrightarrow> take 1 ds = ds" using append_take_drop_id [of 1 ds] by simp
    then have "positive_string m e = take 1 ds @ frac_string (drop 1 ds) @ exp_string (Some (n - 1))"
      using exp drop1 by (auto simp: ps frac_string_def exp_string_def)
    moreover have "length (take 1 ds) = 1" using ds(2) by (cases ds) auto
    ultimately show ?thesis
      by (intro that [of "take 1 ds" "drop 1 ds" "Some (n - 1)"])
         (use ds sub v in \<open>auto simp: hd_take\<close>)
  qed
qed

definition is_decimal :: "jsnum \<Rightarrow> bool" where
  "is_decimal r \<longleftrightarrow> r = 0 \<or> decimal_of \<bar>r\<bar> \<noteq> None"

lemma parse_number_string:
  assumes "is_decimal r" and "delimited rest"
  shows "parse_number (number_string r @ rest) = Some (r, rest)"
proof (cases "r = 0")
  case True
  then show ?thesis
    using parse_number_shape [of "''0''" "[]" rest False None] assms(2)
    by (simp add: number_string_def is_digit_def frac_string_def exp_string_def digits_val_def digit_val_def)
next
  case False
  with assms(1) obtain m e where d: "decimal_of \<bar>r\<bar> = Some (m, e)" by (auto simp: is_decimal_def)
  with False have v: "decimal_value m e = \<bar>r\<bar>" and "0 < m" using decimal_of_value by simp_all
  from \<open>0 < m\<close> obtain ip fp x where sh: "positive_string m e = ip @ frac_string fp @ exp_string x"
    and ip: "\<forall>c \<in> set ip. is_digit c" "ip \<noteq> []" "hd ip = CHR ''0'' \<longrightarrow> length ip = 1"
    and fp: "\<forall>c \<in> set fp. is_digit c"
    and val: "of_int (digits_val (ip @ fp)) * 10 powi (nullish x 0 - int (length fp)) = decimal_value m e"
    by (rule positive_string_shape)
  have "number_string r @ rest = (if r < 0 then ''-'' else []) @ ip @ frac_string fp @ exp_string x @ rest"
    using False by (simp add: number_string_def d sh)
  then show ?thesis
    using parse_number_shape [OF ip fp assms(2), of "r < 0" x] val v
    by (simp add: mult.assoc)
qed

section \<open>String literals\<close>

lemma hex_val_hex_char:
  assumes "d < 16"
  shows "hex_val (hex_char d) = Some d"
proof -
  have "d \<in> {0, 1, 2, 3, 4, 5, 6, 7, 8, 9, 10, 11, 12, 13, 14, 15}"
    unfolding insert_iff empty_iff using assms by presburger
  then show ?thesis
    by (elim insertE) (simp_all add: hex_char_def hex_chars_def hex_val_def Let_def)
qed

lemma parse_chars_escape:
  "parse_chars (escape_char c @ r) = map_option (\<lambda>(x, w). (c # x, w)) (parse_chars r)"
proof -
  consider (special) "c \<in> {CHR 0x22, CHR 0x5C, CHR 0x08, CHR 0x0C, CHR 0x0A, CHR 0x0D, CHR 0x09}"
    | (control) "c \<notin> {CHR 0x22, CHR 0x5C, CHR 0x08, CHR 0x0C, CHR 0x0A, CHR 0x0D, CHR 0x09}"
        "(of_char c :: nat) < 32"
    | (plain) "c \<notin> {CHR 0x22, CHR 0x5C, CHR 0x08, CHR 0x0C, CHR 0x0A, CHR 0x0D, CHR 0x09}"
        "\<not> (of_char c :: nat) < 32"
    by blast
  then show ?thesis
  proof cases
    case special
    then show ?thesis by (elim insertE) (simp_all add: escape_char_def unescape_def)
  next
    case control
    let ?n = "of_char c :: nat"
    have "hex4 CHR ''0'' CHR ''0'' (hex_char (?n div 16)) (hex_char (?n mod 16)) = Some ?n"
      using control(2) by (simp add: hex4_def hex_val_hex_char) (simp add: hex_val_def)
    then show ?thesis using control by (simp add: escape_char_def)
  next
    case plain
    then show ?thesis by (simp add: escape_char_def)
  qed
qed

lemma parse_chars_quote:
  "parse_chars (concat (map escape_char s) @ CHR 0x22 # r) = Some (s, r)"
  by (induction s) (simp_all add: parse_chars_escape)

section \<open>Values\<close>

text \<open>
  Values that a printed text determines: numbers with finitely many decimals, and objects in
  which no key is repeated.
\<close>

fun json_ok :: "json \<Rightarrow> bool" where
  "json_ok (JNum n) = is_decimal n"
| "json_ok (JArr xs) = (\<forall>x \<in> set xs. json_ok x)"
| "json_ok (JObj kvs) = (distinct (map fst kvs) \<and> (\<forall>kv \<in> set kvs. json_ok (snd kv)))"
| "json_ok _ = True"

lemma update_fresh: "k \<notin> fst ` set al \<Longrightarrow> AList.update k v al = al @ [(k, v)]"
  by (induction al) auto

lemma foldl_update_distinct:
  assumes "distinct (map fst (acc @ kvs))"
  shows "foldl (\<lambda>acc (k, v). AList.update k v acc) acc kvs = acc @ kvs"
  using assms
proof (induction kvs arbitrary: acc)
  case (Cons kv kvs)
  obtain k v where kv: "kv = (k, v)" by fastforce
  have "AList.update k v acc = acc @ [(k, v)]"
    using Cons.prems by (intro update_fresh) (auto simp: kv)
  then show ?case using Cons.IH [of "acc @ [kv]"] Cons.prems by (simp add: kv)
qed simp

lemma obj_of_distinct: "distinct (map fst kvs) \<Longrightarrow> obj_of kvs = JObj kvs"
  using foldl_update_distinct [of "[]" kvs] by (simp add: obj_of_def)

subsection \<open>The parser consumes input\<close>

lemma length_skip_ws: "length (skip_ws s) \<le> length s"
  by (simp add: skip_ws_def length_dropWhile_le)

lemma skip_ws_Cons: "skip_ws s = c # t \<Longrightarrow> length t < length s"
  using length_skip_ws [of s] by simp

lemma parse_chars_length: "parse_chars s = Some (x, r) \<Longrightarrow> length r < length s"
proof (induction s arbitrary: x r rule: parse_chars.induct)
  case (2 c s)
  then show ?case
    by (fastforce split: if_splits list.splits option.splits)
qed simp

lemma parse_frac_length: "parse_frac s = Some (fp, r) \<Longrightarrow> length r \<le> length s"
  by (cases s) (auto simp: parse_frac_def intro: le_SucI length_dropWhile_le split: if_splits)

lemma parse_exp_length: "parse_exp s = Some (e, r) \<Longrightarrow> length r \<le> length s"
  by (cases s) (auto simp: parse_exp_def Let_def intro: le_SucI length_dropWhile_le
      split: if_splits list.splits prod.splits)

lemma parse_number_length:
  assumes "parse_number s = Some (n, r)"
  shows "length r < length s"
proof -
  define p where "p = (case s of [] \<Rightarrow> (False, [])
      | c # t \<Rightarrow> if c = CHR ''-'' then (True, t) else (False, s))"
  define s1 where "s1 = snd p"
  have le: "length s1 \<le> length s" by (cases s) (auto simp: s1_def p_def)
  from assms obtain fp s3 where ne: "takeWhile is_digit s1 \<noteq> []"
    and "parse_frac (dropWhile is_digit s1) = Some (fp, s3)" and "length r \<le> length s3"
    unfolding parse_number_def p_def [symmetric] Let_def case_prod_beta s1_def [symmetric]
    by (auto dest!: parse_exp_length split: if_splits option.splits)
  then have "length r \<le> length (dropWhile is_digit s1)" using parse_frac_length by fastforce
  moreover have "length (dropWhile is_digit s1) < length s1"
    using ne by (cases s1) (auto simp: less_Suc_eq_le length_dropWhile_le split: if_splits)
  ultimately show ?thesis using le by linarith
qed

lemma parse_scalar_length:
  assumes "parse_scalar c t = Some (v, r)"
  shows "length r < length (c # t)"
proof (cases "\<exists>n. parse_number (c # t) = Some (n, r)")
  case True
  then show ?thesis using parse_number_length by blast
next
  case False
  with assms have "(\<exists>x. parse_chars t = Some (x, r)) \<or> r = drop 4 (c # t) \<or> r = drop 5 (c # t)"
    unfolding parse_scalar_def by (simp only: split: if_splits) auto
  then show ?thesis by (auto dest: parse_chars_length)
qed

lemma parse_value_Suc_length:
  assumes v: "parse_value (Suc f) s = Some (v, r)"
    and elems: "\<And>t vs r. parse_elems f t = Some (vs, r) \<Longrightarrow> length r < length t"
    and members: "\<And>t kvs r. parse_members f t = Some (kvs, r) \<Longrightarrow> length r < length t"
  shows "length r < length s"
proof -
  from v have "skip_ws s \<noteq> []" by (cases "skip_ws s") simp_all
  then obtain c t where ct: "skip_ws s = c # t" by (cases "skip_ws s") simp_all
  then have t: "length t < length s" by (rule skip_ws_Cons)
  have "length r < length (c # t)"
  proof (cases "c \<in> {CHR ''['', CHR ''{''}")
    case True
    with v ct have "skip_ws t \<noteq> []" by (cases "skip_ws t") auto
    then obtain d u where du: "skip_ws t = d # u" by (cases "skip_ws t") simp_all
    with True v ct have "r = u \<or> length r < length t"
      by (auto split: if_splits dest: elems members)
    with skip_ws_Cons [OF du] show ?thesis by auto
  next
    case False
    with v ct have "parse_scalar c t = Some (v, r)" by simp
    then show ?thesis by (rule parse_scalar_length)
  qed
  with t show ?thesis by simp
qed

lemma parse_elems_Suc_length:
  assumes vs: "parse_elems (Suc f) s = Some (vs, r)"
    and val: "\<And>t v r. parse_value f t = Some (v, r) \<Longrightarrow> length r < length t"
    and elems: "\<And>t vs r. parse_elems f t = Some (vs, r) \<Longrightarrow> length r < length t"
  shows "length r < length s"
proof -
  from vs obtain v r1 d u where v: "parse_value f s = Some (v, r1)" and du: "skip_ws r1 = d # u"
    by (auto split: option.splits list.splits)
  with vs have "r = u \<or> length r < length u"
    by (auto split: if_splits dest: elems)
  with val [OF v] skip_ws_Cons [OF du] show ?thesis by auto
qed

lemma parse_members_Suc_length:
  assumes kvs: "parse_members (Suc f) s = Some (kvs, r)"
    and val: "\<And>t v r. parse_value f t = Some (v, r) \<Longrightarrow> length r < length t"
    and members: "\<And>t kvs r. parse_members f t = Some (kvs, r) \<Longrightarrow> length r < length t"
  shows "length r < length s"
proof -
  from kvs obtain c t k r0 where ct: "skip_ws s = c # t" and k: "parse_chars t = Some (k, r0)"
    by (auto split: option.splits list.splits if_splits)
  from kvs ct k obtain d u v r1 where du: "skip_ws r0 = d # u" and v: "parse_value f u = Some (v, r1)"
    by (auto split: option.splits list.splits if_splits)
  from kvs ct k du v obtain x w where xw: "skip_ws r1 = x # w"
    by (auto split: option.splits list.splits if_splits)
  from kvs ct k du v xw have "r = w \<or> length r < length w"
    by (auto split: if_splits dest: members)
  with skip_ws_Cons [OF ct] parse_chars_length [OF k] skip_ws_Cons [OF du] val [OF v]
    skip_ws_Cons [OF xw]
  show ?thesis by auto
qed

lemma parse_length:
  "(\<forall>s v r. parse_value f s = Some (v, r) \<longrightarrow> length r < length s) \<and>
   (\<forall>s vs r. parse_elems f s = Some (vs, r) \<longrightarrow> length r < length s) \<and>
   (\<forall>s kvs r. parse_members f s = Some (kvs, r) \<longrightarrow> length r < length s)"
proof (induction f)
  case (Suc f)
  then show ?case
    by (blast intro: parse_value_Suc_length parse_elems_Suc_length parse_members_Suc_length)
qed simp

lemmas parse_value_length = parse_length [THEN conjunct1, rule_format]
lemmas parse_elems_length = parse_length [THEN conjunct2, THEN conjunct1, rule_format]
lemmas parse_members_length = parse_length [THEN conjunct2, THEN conjunct2, rule_format]

subsection \<open>The fuel is enough\<close>

text \<open>Two units per character are enough: more fuel gives the same result.\<close>

definition fuel_stable :: "nat \<Rightarrow> nat \<Rightarrow> bool" where
  "fuel_stable f g \<longleftrightarrow>
     (\<forall>s. 2 * length s + 1 \<le> f \<longrightarrow> parse_value g s = parse_value f s) \<and>
     (\<forall>s. 2 * length s + 2 \<le> f \<longrightarrow> parse_elems g s = parse_elems f s) \<and>
     (\<forall>s. 2 * length s + 2 \<le> f \<longrightarrow> parse_members g s = parse_members f s)"

lemma fuel_stable_value:
  assumes "fuel_stable f g" and "2 * length s + 1 \<le> Suc f"
  shows "parse_value (Suc g) s = parse_value (Suc f) s"
proof (cases "skip_ws s")
  case (Cons c t)
  then have "2 * length t + 2 \<le> f" using skip_ws_Cons [OF Cons] assms(2) by simp
  then have "parse_elems g t = parse_elems f t" "parse_members g t = parse_members f t"
    using assms(1) by (simp_all add: fuel_stable_def)
  then show ?thesis by (simp only: parse_value.simps Cons list.case)
qed (simp only: parse_value.simps list.case)

lemma fuel_stable_elems:
  assumes "fuel_stable f g" and "2 * length s + 2 \<le> Suc f"
  shows "parse_elems (Suc g) s = parse_elems (Suc f) s"
proof -
  have v: "parse_value g s = parse_value f s" using assms by (simp add: fuel_stable_def)
  show ?thesis
  proof (cases "parse_value f s")
    case (Some p)
    obtain x r where p: "p = (x, r)" by fastforce
    show ?thesis
    proof (cases "skip_ws r")
      case (Cons d u)
      have "length u < length s"
        using skip_ws_Cons [OF Cons] parse_value_length Some p by fastforce
      then have "2 * length u + 2 \<le> f" using assms(2) by simp
      then have "parse_elems g u = parse_elems f u" using assms(1) by (simp add: fuel_stable_def)
      then show ?thesis using v Some p Cons by simp
    qed (simp add: v Some p)
  qed (simp add: v)
qed

lemma fuel_stable_members:
  assumes "fuel_stable f g" and "2 * length s + 2 \<le> Suc f"
  shows "parse_members (Suc g) s = parse_members (Suc f) s"
proof (cases "skip_ws s")
  case (Cons c t)
  note ct = Cons
  show ?thesis
  proof (cases "parse_chars t")
    case (Some p)
    obtain k r where p: "p = (k, r)" by fastforce
    show ?thesis
    proof (cases "skip_ws r")
      case (Cons d u)
      have u: "length u < length s"
        using skip_ws_Cons [OF ct] skip_ws_Cons [OF Cons] parse_chars_length Some p by fastforce
      then have v: "parse_value g u = parse_value f u" using assms by (simp add: fuel_stable_def)
      have w: "parse_members g w = parse_members f w"
        if "parse_value f u = Some (x, r2)" "skip_ws r2 = y # w" for x r2 y w
      proof -
        have "length w < length s"
          using u skip_ws_Cons [OF that(2)] parse_value_length [OF that(1)] by simp
        then show ?thesis using assms by (simp add: fuel_stable_def)
      qed
      show ?thesis
        by (simp add: ct Some p Cons v w split: option.splits list.splits)
    qed (simp add: ct Some p)
  qed (simp add: ct)
qed simp

lemma fuel_stable_le: "f \<le> g \<Longrightarrow> fuel_stable f g"
proof (induction f arbitrary: g)
  case 0
  then show ?case by (simp add: fuel_stable_def)
next
  case (Suc f)
  then obtain h where g: "g = Suc h" and "f \<le> h" by (cases g) auto
  with Suc.IH have st: "fuel_stable f h" by blast
  show ?case
    unfolding g fuel_stable_def [of "Suc f" "Suc h"]
    using fuel_stable_value [OF st] fuel_stable_elems [OF st] fuel_stable_members [OF st] by blast
qed

lemma parse_value_fuel:
  "2 * length s + 1 \<le> g \<Longrightarrow> parse_value g s = parse_value (2 * length s + 1) s"
  using fuel_stable_le [of "2 * length s + 1" g] by (simp add: fuel_stable_def)

subsection \<open>Printed values are parsed back\<close>

lemma number_string_hd:
  assumes "is_decimal n"
  obtains c t where "number_string n = c # t" and "is_digit c \<or> c = CHR ''-''"
proof (cases "n = 0")
  case True
  then show ?thesis using that by (simp add: number_string_def is_digit_def)
next
  case False
  with assms obtain m e where d: "decimal_of \<bar>n\<bar> = Some (m, e)" by (auto simp: is_decimal_def)
  with False have "0 < m" using decimal_of_value by simp
  then obtain ip fp x where sh: "positive_string m e = ip @ frac_string fp @ exp_string x"
    and ip: "\<forall>c \<in> set ip. is_digit c" "ip \<noteq> []"
    by (rule positive_string_shape)
  then obtain c t where "ip = c # t" by (cases ip) auto
  with ip sh d False show ?thesis
    using that by (cases "n < 0") (simp_all add: number_string_def)
qed

lemma is_digit_facts:
  "is_digit c \<Longrightarrow> c \<notin> {CHR 0x20, CHR 0x09, CHR 0x0A, CHR 0x0D, CHR 0x22, CHR ''['', CHR '']'',
     CHR ''{'', CHR ''}'', CHR '','', CHR ''n'', CHR ''t'', CHR ''f''}"
  by (auto simp: is_digit_def)

lemma skip_ws_printed:
  assumes "json_ok j"
  shows "skip_ws (json_stringify j @ r) = json_stringify j @ r"
    and "\<exists>c t. json_stringify j = c # t \<and> c \<noteq> CHR '']''"
proof -
  have "\<exists>c t. json_stringify j = c # t \<and> c \<notin> {CHR 0x20, CHR 0x09, CHR 0x0A, CHR 0x0D, CHR '']''}"
  proof (cases j)
    case (JNum n)
    with assms obtain c t where "number_string n = c # t" "is_digit c \<or> c = CHR ''-''"
      using number_string_hd [of n] by auto
    with JNum show ?thesis using is_digit_facts [of c] by auto
  qed (auto simp: quote_def)
  then obtain c t where "json_stringify j = c # t"
      "c \<notin> {CHR 0x20, CHR 0x09, CHR 0x0A, CHR 0x0D, CHR '']''}" by blast
  then show "skip_ws (json_stringify j @ r) = json_stringify j @ r"
    and "\<exists>c t. json_stringify j = c # t \<and> c \<noteq> CHR '']''"
    by (simp_all add: skip_ws_def)
qed

lemma skip_ws_delimited: "delimited r \<Longrightarrow> skip_ws r = r"
  by (cases r) (auto simp: delimited_def skip_ws_def)

lemma delimited_Cons: "d \<in> {CHR '','', CHR '']'', CHR ''}''} \<Longrightarrow> delimited (d # r)"
  by (simp add: delimited_def)

text \<open>With enough fuel, a value, an element list or a member list is read back.\<close>

definition reads :: "json \<Rightarrow> bool" where
  "reads j \<longleftrightarrow> (\<exists>k. \<forall>f \<ge> k. \<forall>r. delimited r \<longrightarrow>
     parse_value f (json_stringify j @ r) = Some (j, r))"

lemma readsI:
  assumes "\<And>f r. k \<le> f \<Longrightarrow> delimited r \<Longrightarrow> parse_value (Suc f) (json_stringify j @ r) = Some (j, r)"
  shows "reads j"
  unfolding reads_def
proof (intro exI [of _ "Suc k"] allI impI)
  fix f r assume "Suc k \<le> f" "delimited r"
  then show "parse_value f (json_stringify j @ r) = Some (j, r)"
    using assms [of "f - 1" r] by (cases f) auto
qed

lemma reads_scalar:
  assumes "json_stringify j = c # t" and "c \<notin> {CHR ''['', CHR ''{''}" and "json_ok j"
    and "\<And>r. delimited r \<Longrightarrow> parse_scalar c (t @ r) = Some (j, r)"
  shows "reads j"
proof (rule readsI)
  fix f r assume "delimited r"
  then show "parse_value (Suc f) (json_stringify j @ r) = Some (j, r)"
    using assms skip_ws_printed(1) [OF assms(3), of r] by simp
qed

lemma reads_elems:
  assumes "\<forall>x \<in> set xs. reads x" and "xs \<noteq> []"
  shows "\<exists>k. \<forall>f \<ge> k. \<forall>r. parse_elems f (stringify_elems xs @ CHR '']'' # r) = Some (xs, r)"
  using assms
proof (induction xs)
  case (Cons x xs)
  then have "reads x" by simp
  then obtain k where "\<forall>f \<ge> k. \<forall>r. delimited r \<longrightarrow>
      parse_value f (json_stringify x @ r) = Some (x, r)"
    unfolding reads_def by blast
  note k = this [rule_format]
  show ?case
  proof (cases "xs = []")
    case True
    have "parse_elems f (stringify_elems [x] @ CHR '']'' # r) = Some ([x], r)" if f: "Suc k \<le> f" for f r
      using f k [of "f - 1" "CHR '']'' # r"]
      by (cases f) (auto simp: delimited_Cons skip_ws_delimited)
    then show ?thesis using True by blast
  next
    case False
    with Cons have "\<exists>k. \<forall>f \<ge> k. \<forall>r. parse_elems f (stringify_elems xs @ CHR '']'' # r) = Some (xs, r)"
      by simp
    then obtain k' where k': "\<And>f r. k' \<le> f \<Longrightarrow>
        parse_elems f (stringify_elems xs @ CHR '']'' # r) = Some (xs, r)"
      by blast
    have "parse_elems f (stringify_elems (x # xs) @ CHR '']'' # r) = Some (x # xs, r)"
      if f: "Suc (max k k') \<le> f" for f r
      using f k [of "f - 1" "CHR '','' # stringify_elems xs @ CHR '']'' # r"] k' [of "f - 1" r] False
      by (cases f) (auto simp: delimited_Cons skip_ws_delimited)
    then show ?thesis by blast
  qed
qed simp

lemma reads_members:
  assumes "\<forall>kv \<in> set kvs. reads (snd kv)" and "kvs \<noteq> []"
  shows "\<exists>k. \<forall>f \<ge> k. \<forall>r. parse_members f (stringify_members kvs @ CHR ''}'' # r) = Some (kvs, r)"
  using assms
proof (induction kvs)
  case (Cons kv kvs)
  obtain key x where kv: "kv = (key, x)" by fastforce
  with Cons.prems have "reads x" by simp
  then obtain k where "\<forall>f \<ge> k. \<forall>r. delimited r \<longrightarrow>
      parse_value f (json_stringify x @ r) = Some (x, r)"
    unfolding reads_def by blast
  note k = this [rule_format]
  have member: "parse_members (Suc f) (quote key @ CHR '':'' # json_stringify x @ d # r) =
      (if d = CHR ''}'' then Some ([(key, x)], r)
       else map_option (\<lambda>(kvs, z). ((key, x) # kvs, z)) (parse_members f r))"
    if "k \<le> f" "d \<in> {CHR '','', CHR ''}''}" for f d r
    using k [OF that(1), of "d # r"] that(2) parse_chars_quote [of key "CHR '':'' # json_stringify x @ d # r"]
    by (auto simp: quote_def skip_ws_def delimited_def)
  show ?case
  proof (cases "kvs = []")
    case True
    have "parse_members f (stringify_members [kv] @ CHR ''}'' # r) = Some ([kv], r)"
      if f: "Suc k \<le> f" for f r
      using f member [of "f - 1" "CHR ''}''" r] by (cases f) (auto simp: kv)
    then show ?thesis using True by blast
  next
    case False
    with Cons have "\<exists>k. \<forall>f \<ge> k. \<forall>r. parse_members f (stringify_members kvs @ CHR ''}'' # r) = Some (kvs, r)"
      by simp
    then obtain k' where k': "\<And>f r. k' \<le> f \<Longrightarrow>
        parse_members f (stringify_members kvs @ CHR ''}'' # r) = Some (kvs, r)"
      by blast
    have "parse_members f (stringify_members (kv # kvs) @ CHR ''}'' # r) = Some (kv # kvs, r)"
      if f: "Suc (max k k') \<le> f" for f r
      using f member [of "f - 1" "CHR '',''" "stringify_members kvs @ CHR ''}'' # r"]
        k' [of "f - 1" r] False
      by (cases f) (auto simp: kv)
    then show ?thesis by blast
  qed
qed simp

lemma reads_JArr:
  assumes "\<forall>x \<in> set xs. reads x \<and> json_ok x"
  shows "reads (JArr xs)"
proof (cases "xs = []")
  case True
  then show ?thesis by (intro readsI) (simp add: skip_ws_def)
next
  case False
  then obtain k where k: "\<And>f r. k \<le> f \<Longrightarrow>
      parse_elems f (stringify_elems xs @ CHR '']'' # r) = Some (xs, r)"
    using reads_elems assms by blast
  obtain x ys where xs: "xs = x # ys" using False by (cases xs) auto
  then have "json_ok x" using assms by simp
  then obtain c t where c: "json_stringify x = c # t" "c \<noteq> CHR '']''"
    using skip_ws_printed(2) by blast
  then have "skip_ws (stringify_elems xs @ r) = stringify_elems xs @ r" for r
    using skip_ws_printed(1) [OF \<open>json_ok x\<close>] by (simp add: xs)
  then show ?thesis
    using k c by (intro readsI [of k]) (auto simp: xs skip_ws_def)
qed

lemma reads_JObj:
  assumes "\<forall>kv \<in> set kvs. reads (snd kv)" and "distinct (map fst kvs)"
  shows "reads (JObj kvs)"
proof (cases "kvs = []")
  case True
  then show ?thesis by (intro readsI) (simp add: skip_ws_def)
next
  case False
  then obtain k where k: "\<And>f r. k \<le> f \<Longrightarrow>
      parse_members f (stringify_members kvs @ CHR ''}'' # r) = Some (kvs, r)"
    using reads_members assms(1) by blast
  obtain t where t: "stringify_members kvs = CHR 0x22 # t"
    using False by (cases kvs) (auto simp: quote_def)
  show ?thesis
    using k by (intro readsI [of k]) (auto simp: skip_ws_def t obj_of_distinct [OF assms(2)])
qed

lemma parse_scalar_number:
  assumes "is_digit c \<or> c = CHR ''-''"
  shows "parse_scalar c t = map_option (\<lambda>(n, r). (JNum n, r)) (parse_number (c # t))"
    and "c \<notin> {CHR ''['', CHR ''{''}"
proof -
  have "c \<in> set ''-0123456789''" using assms by (simp add: is_digit_def disj_commute)
  then have "c \<notin> {CHR 0x22, CHR ''n'', CHR ''t'', CHR ''f'', CHR ''['', CHR ''{''}" by auto
  then show "parse_scalar c t = map_option (\<lambda>(n, r). (JNum n, r)) (parse_number (c # t))"
    and "c \<notin> {CHR ''['', CHR ''{''}"
    by (auto simp: parse_scalar_def)
qed

lemma reads_json_ok: "json_ok j \<Longrightarrow> reads j"
proof (induction j)
  case (JNum n)
  then obtain c t where ct: "number_string n = c # t" "is_digit c \<or> c = CHR ''-''"
    using number_string_hd [of n] by auto
  have "parse_scalar c (t @ r) = Some (JNum n, r)" if "delimited r" for r
    using parse_scalar_number(1) [OF ct(2), of "t @ r"] parse_number_string [of n r] JNum that ct(1) by simp
  then show ?case
    using parse_scalar_number(2) [OF ct(2)] JNum ct(1) by (intro reads_scalar [of _ c t]) simp_all
next
  case (JStr s)
  then show ?case
    using parse_chars_quote [of s]
    by (intro reads_scalar [of _ "CHR 0x22" "concat (map escape_char s) @ [CHR 0x22]"])
       (auto simp: parse_scalar_def quote_def)
next
  case (JBool b)
  then show ?case
    by (cases b; intro reads_scalar [OF _ _ JBool]) (auto simp: parse_scalar_def)
next
  case JNull
  then show ?case by (intro reads_scalar [OF _ _ JNull]) (auto simp: parse_scalar_def)
next
  case (JArr xs)
  then show ?case by (intro reads_JArr) simp
next
  case (JObj kvs)
  then show ?case by (intro reads_JObj) (auto simp: snds.simps)
qed

lemma json_parse_stringify: "json_ok j \<Longrightarrow> json_parse (json_stringify j) = Some j"
proof -
  assume "json_ok j"
  then have "reads j" by (rule reads_json_ok)
  then obtain k where "\<forall>f \<ge> k. \<forall>r. delimited r \<longrightarrow>
      parse_value f (json_stringify j @ r) = Some (j, r)"
    unfolding reads_def by blast
  note k = this [rule_format]
  let ?g = "max k (2 * length (json_stringify j) + 1)"
  have "parse_value ?g (json_stringify j) = Some (j, [])"
    using k [of ?g "[]"] by (simp add: delimited_def)
  then have "parse_value (2 * length (json_stringify j) + 1) (json_stringify j) = Some (j, [])"
    using parse_value_fuel [of "json_stringify j" ?g] by simp
  then show ?thesis by (simp add: json_parse_def skip_ws_def)
qed

end
