(* ===== verification/Stream_Events.thy ===== *)
theory Stream_Events
  imports Conversation Json_Roundtrip
begin

text \<open>
  The events of a stream, as \<open>lib/streaming/stream-utils.ts\<close> reads them, and the errors of
  plain requests, from \<open>request-error-utils.ts\<close>.

  A payload is what \<open>JSON.parse\<close> returns. Reads that would throw in the source (on null, or
  a call of a method that is not there) are \<open>TypeError\<close> results, and a catch clause maps them
  to its value. Chunks and error texts stay JSON values, because the source does not check
  them.

  The locale \<open>stream_protocol\<close> states what the delta events of a protocol promise; it is
  interpreted for the four protocols, over the JSON texts that travel on the wire.
\<close>

section \<open>Updates\<close>

type_synonym StreamUpdateType = StreamChunkType

record StreamMessageUpdate =
  smu_type :: StreamUpdateType
  smu_chunk :: json

definition pushUpdate ::
  "StreamMessageUpdate list \<Rightarrow> StreamUpdateType \<Rightarrow> json option \<Rightarrow> StreamMessageUpdate list" where
  "pushUpdate updates ty chunk =
     (if \<not> truthy chunk then updates else updates @ [\<lparr>smu_type = ty, smu_chunk = the chunk\<rparr>])"

definition parseOpenAIChatUpdates :: "json \<Rightarrow> StreamMessageUpdate list" where
  "parseOpenAIChatUpdates payload =
     (let delta = jchain (jfirst (jget payload ''choices'')) ''delta'' in
      if \<not> truthy delta then []
      else pushUpdate (pushUpdate [] REASONING (jchain delta ''reasoning_content''))
             CONTENT (jchain delta ''content''))"

definition parseResponsesUpdates :: "json \<Rightarrow> StreamMessageUpdate list" where
  "parseResponsesUpdates payload =
     (let updates1 = (if jget payload ''type'' = Some (JStr ''response.output_text.delta'') \<and>
            is_JStr (jget payload ''delta'')
          then pushUpdate [] CONTENT (jget payload ''delta'') else [])
      in if (jget payload ''type'' = Some (JStr ''response.reasoning_text.delta'') \<or>
             jget payload ''type'' = Some (JStr ''response.reasoning_summary_text.delta'')) \<and>
            is_JStr (jget payload ''delta'')
         then pushUpdate updates1 REASONING (jget payload ''delta'') else updates1)"

definition parseAnthropicUpdates :: "json \<Rightarrow> StreamMessageUpdate list" where
  "parseAnthropicUpdates payload =
     (if jget payload ''type'' \<noteq> Some (JStr ''content_block_delta'') \<or> \<not> truthy (jget payload ''delta'')
      then []
      else
        let delta = jget payload ''delta'';
            updates1 = (if jchain delta ''type'' = Some (JStr ''thinking_delta'')
              then pushUpdate [] REASONING (jchain delta ''thinking'') else [])
        in if jchain delta ''type'' = Some (JStr ''text_delta'')
           then pushUpdate updates1 CONTENT (jchain delta ''text'') else updates1)"

text \<open>
  The loop of \<open>parseGeminiUpdates\<close> over an array. Iterating a string gives characters, which
  have neither property; other values are not iterable.
\<close>

fun geminiPartUpdates ::
  "StreamMessageUpdate list \<Rightarrow> json list \<Rightarrow> js_error + StreamMessageUpdate list" where
  "geminiPartUpdates updates [] = Inr updates"
| "geminiPartUpdates updates (part # parts) =
     (if part = JNull then Inl TypeError
      else if truthy (jget part ''thought'')
      then geminiPartUpdates (pushUpdate updates REASONING (jget part ''text'')) parts
      else geminiPartUpdates (pushUpdate updates CONTENT (jget part ''text'')) parts)"

definition parseGeminiUpdates :: "json \<Rightarrow> js_error + StreamMessageUpdate list" where
  "parseGeminiUpdates payload =
     (let parts = jchain (jchain (jfirst (jget payload ''candidates'')) ''content'') ''parts'' in
      if \<not> truthy parts then Inr []
      else case parts of
          Some (JArr ps) \<Rightarrow> geminiPartUpdates [] ps
        | Some (JStr _) \<Rightarrow> Inr []
        | _ \<Rightarrow> Inl TypeError)"

section \<open>Messages and errors\<close>

record StreamErrorDetails =
  sed_errorCode :: "json option"
  sed_errorMessage :: json

definition json_or :: "json option \<Rightarrow> json option \<Rightarrow> json option" where
  \<comment> \<open>\<open>a || b\<close>\<close>
  "json_or a b = (if truthy a then a else b)"

definition parseStreamErrorDetails :: "string option \<Rightarrow> StreamErrorDetails" where
  "parseStreamErrorDetails data =
     (let fallbackMessage = JStr (str_or (opt_str data) API_REQUEST_ERROR) in
      if opt_str data = [] then \<lparr>sed_errorCode = None, sed_errorMessage = fallbackMessage\<rparr>
      else case json_parse (opt_str data) of
          None \<Rightarrow> \<lparr>sed_errorCode = None, sed_errorMessage = fallbackMessage\<rparr>
        | Some parsed \<Rightarrow>
            if \<not> truthy (jchain (Some parsed) ''error'')
            then \<lparr>sed_errorCode = None, sed_errorMessage = fallbackMessage\<rparr>
            else
              let error = jchain (Some parsed) ''error''
              in \<lparr>sed_errorCode = json_or (jchain error ''code'') None,
                  sed_errorMessage = the (json_or (jchain error ''message'') (Some fallbackMessage))\<rparr>)"

text \<open>
  \<open>payload.type?.startsWith\<close>: undefined and null skip the call, a string has the method, and
  calling it on any other value throws.
\<close>

definition parseStreamMessageUpdates :: "string \<Rightarrow> js_error + StreamMessageUpdate list" where
  "parseStreamMessageUpdates data =
     (case json_parse data of
        None \<Rightarrow> Inl SyntaxError
      | Some payload \<Rightarrow>
          if payload = JNull then Inl TypeError
          else if truthy (jget payload ''choices'') then Inr (parseOpenAIChatUpdates payload)
          else
            let dispatch = (\<lambda>startsWith.
                  if startsWith then Inr (parseResponsesUpdates payload)
                  else if jget payload ''type'' = Some (JStr ''content_block_delta'')
                  then Inr (parseAnthropicUpdates payload)
                  else if truthy (jget payload ''candidates'') then parseGeminiUpdates payload
                  else Inr [])
            in (case jget payload ''type'' of
                  None \<Rightarrow> dispatch False
                | Some JNull \<Rightarrow> dispatch False
                | Some (JStr ty) \<Rightarrow> dispatch (prefix ''response.'' ty)
                | _ \<Rightarrow> Inl TypeError))"

record SseEvent =
  sse_type :: string
  sse_data :: "json option"

definition SSE_CONTROL_EVENT_TYPES :: "string list" where
  "SSE_CONTROL_EVENT_TYPES = [''error'', ''readystatechange'', ''abort'', ''open'']"

text \<open>
  The wrapped \<open>dispatchEvent\<close>: the original method is a function on the state of the
  listeners, and the wrapper first dispatches a copy of a named event as a message.
\<close>

definition forwardNamedSseEventsAsMessage ::
  "(SseEvent \<Rightarrow> 's \<Rightarrow> bool \<times> 's) \<Rightarrow> SseEvent \<Rightarrow> 's \<Rightarrow> bool \<times> 's" where
  "forwardNamedSseEventsAsMessage originalDispatch event s =
     (let s1 = (if sse_type event \<noteq> ''message'' \<and> sse_type event \<notin> set SSE_CONTROL_EVENT_TYPES \<and>
              is_JStr (sse_data event)
            then snd (originalDispatch \<lparr>sse_type = ''message'', sse_data = sse_data event\<rparr> s)
            else s)
      in originalDispatch event s1)"

definition isStreamDoneMessage :: "string \<Rightarrow> bool" where
  "isStreamDoneMessage data \<longleftrightarrow>
     (if data = ''[DONE]'' then True
      else case json_parse data of
          None \<Rightarrow> False
        | Some JNull \<Rightarrow> False
        | Some parsed \<Rightarrow> jget parsed ''type'' = Some (JStr ''message_stop'') \<or>
            jget parsed ''type'' = Some (JStr ''response.completed''))"

definition nonempty_string :: "json option \<Rightarrow> bool" where
  \<comment> \<open>\<open>typeof x === 'string' && x.length > 0\<close>\<close>
  "nonempty_string x \<longleftrightarrow> (case x of Some (JStr s) \<Rightarrow> length s > 0 | _ \<Rightarrow> False)"

text \<open>\<open>candidates.some\<close>: \<open>None\<close> is the exception on a null candidate.\<close>

fun someCandidateFinished :: "json list \<Rightarrow> bool option" where
  "someCandidateFinished [] = Some False"
| "someCandidateFinished (candidate # candidates) =
     (if candidate = JNull then None
      else if nonempty_string (jget candidate ''finishReason'') then Some True
      else someCandidateFinished candidates)"

definition isStreamTerminalMessage :: "string \<Rightarrow> bool" where
  "isStreamTerminalMessage data \<longleftrightarrow>
     (case json_parse data of
        None \<Rightarrow> False
      | Some JNull \<Rightarrow> False
      | Some payload \<Rightarrow>
          let finished = (case jget payload ''candidates'' of
                Some (JArr cs) \<Rightarrow> someCandidateFinished cs | _ \<Rightarrow> Some False)
          in (case finished of
                None \<Rightarrow> False
              | Some True \<Rightarrow> True
              | Some False \<Rightarrow> nonempty_string (jchain (jget payload ''promptFeedback'') ''blockReason'')))"

definition isStreamClosedReadyState :: "jsnum option \<Rightarrow> bool" where
  "isStreamClosedReadyState readyState \<longleftrightarrow> readyState = Some 2"

text \<open>The source is read only through its \<open>status\<close>.\<close>

definition getStreamReadyStateError :: "jsnum option \<Rightarrow> jsnum option \<Rightarrow> string option" where
  "getStreamReadyStateError eventReadyState status =
     (case (eventReadyState, status) of
        (Some rs, Some st) \<Rightarrow>
          if rs \<ge> 2 \<and> st \<noteq> 200
          then Some (''HTTP '' @ number_string st @ '': '' @ CONNECTION_CLOSED) else None
      | _ \<Rightarrow> None)"

definition shouldCompleteOnStreamClose :: "jsnum option \<Rightarrow> jsnum option \<Rightarrow> bool" where
  "shouldCompleteOnStreamClose eventReadyState status \<longleftrightarrow>
     (if \<not> isStreamClosedReadyState eventReadyState then False
      else status = None \<or> status = Some 200)"

record RequestErrorDetails =
  red_errorCode :: "json option"
  red_errorMessage :: json

definition parseRequestErrorDetails :: "json option \<Rightarrow> RequestErrorDetails" where
  "parseRequestErrorDetails error =
     (let data = jchain (jchain error ''response'') ''data'' in
      \<lparr>red_errorCode = json_or (jchain (jchain data ''error'') ''code'') None,
       red_errorMessage = the (json_or (jchain data ''message'')
         (json_or (jchain error ''message'') (Some (JStr API_REQUEST_ERROR))))\<rparr>)"

section \<open>The protocols on the wire\<close>

text \<open>The delta events and the final event of each protocol, as its documentation lays them out.\<close>

definition openai_event :: "StreamUpdateType \<Rightarrow> string \<Rightarrow> json" where
  "openai_event ty s = JObj [(''object'', JStr ''chat.completion.chunk''), (''choices'', JArr [JObj [
     (''delta'', JObj [(case ty of REASONING \<Rightarrow> ''reasoning_content'' | CONTENT \<Rightarrow> ''content'', JStr s)]),
     (''finish_reason'', JNull)]])]"

definition responses_event :: "StreamUpdateType \<Rightarrow> string \<Rightarrow> json" where
  "responses_event ty s = JObj [(''type'', JStr (case ty of
     REASONING \<Rightarrow> ''response.reasoning_summary_text.delta'' | CONTENT \<Rightarrow> ''response.output_text.delta'')),
     (''delta'', JStr s)]"

definition anthropic_event :: "StreamUpdateType \<Rightarrow> string \<Rightarrow> json" where
  "anthropic_event ty s = JObj [(''type'', JStr ''content_block_delta''), (''delta'', JObj (case ty of
     REASONING \<Rightarrow> [(''type'', JStr ''thinking_delta''), (''thinking'', JStr s)]
   | CONTENT \<Rightarrow> [(''type'', JStr ''text_delta''), (''text'', JStr s)]))]"

definition gemini_event :: "StreamUpdateType \<Rightarrow> string \<Rightarrow> json" where
  "gemini_event ty s = JObj [(''candidates'', JArr [JObj [(''content'', JObj [(''parts'', JArr [JObj
     (case ty of REASONING \<Rightarrow> [(''text'', JStr s), (''thought'', JBool True)]
      | CONTENT \<Rightarrow> [(''text'', JStr s)])])])]])]"

definition openai_end :: string where "openai_end = ''[DONE]''"

definition responses_end :: string where
  "responses_end = json_stringify (JObj [(''type'', JStr ''response.completed'')])"

definition anthropic_end :: string where
  "anthropic_end = json_stringify (JObj [(''type'', JStr ''message_stop'')])"

definition gemini_end :: string where
  "gemini_end = json_stringify (JObj [(''candidates'', JArr [JObj [(''finishReason'', JStr ''STOP'')]])])"

locale stream_protocol =
  fixes event :: "StreamUpdateType \<Rightarrow> string \<Rightarrow> json"
    and finish :: string
  assumes delta_update: "s \<noteq> [] \<Longrightarrow> parseStreamMessageUpdates (json_stringify (event ty s)) =
      Inr [\<lparr>smu_type = ty, smu_chunk = JStr s\<rparr>]"
    and delta_not_done: "\<not> isStreamDoneMessage (json_stringify (event ty s))"
    and delta_not_terminal: "\<not> isStreamTerminalMessage (json_stringify (event ty s))"
    and finish_ends: "isStreamDoneMessage finish \<or>
      parseStreamMessageUpdates finish = Inr [] \<and> isStreamTerminalMessage finish"

text \<open>The laws follow from the values, because printing and parsing are inverse.\<close>

lemma stream_protocolI:
  assumes "\<And>ty s. json_ok (event ty s)" and "\<And>ty s. \<exists>kvs. event ty s = JObj kvs"
    and "\<And>ty s data. s \<noteq> [] \<Longrightarrow> json_parse data = Some (event ty s) \<Longrightarrow>
      parseStreamMessageUpdates data = Inr [\<lparr>smu_type = ty, smu_chunk = JStr s\<rparr>]"
    and "\<And>ty s data. json_parse data = Some (event ty s) \<Longrightarrow> data \<noteq> ''[DONE]'' \<Longrightarrow>
      \<not> isStreamDoneMessage data \<and> \<not> isStreamTerminalMessage data"
    and "isStreamDoneMessage finish \<or>
      parseStreamMessageUpdates finish = Inr [] \<and> isStreamTerminalMessage finish"
  shows "stream_protocol event finish"
proof -
  have reads: "json_parse (json_stringify (event ty s)) = Some (event ty s)" for ty s
    by (rule json_parse_stringify [OF assms(1)])
  have "json_stringify (event ty s) \<noteq> ''[DONE]''" for ty s
    using assms(2) [of ty s] by auto
  then show ?thesis
    using assms(3-5) reads by unfold_locales blast+
qed

lemmas event_defs =
  parseStreamMessageUpdates_def isStreamDoneMessage_def isStreamTerminalMessage_def
  pushUpdate_def jfirst_def is_JStr_def nonempty_string_def

interpretation openai_wire: stream_protocol openai_event openai_end
  by (rule stream_protocolI)
     (auto simp: openai_event_def openai_end_def parseOpenAIChatUpdates_def event_defs
       split: StreamChunkType.split)

interpretation responses_wire: stream_protocol responses_event responses_end
proof (rule stream_protocolI)
  have "json_parse responses_end = Some (JObj [(''type'', JStr ''response.completed'')])"
    unfolding responses_end_def by (rule json_parse_stringify) simp
  then show "isStreamDoneMessage responses_end \<or>
      parseStreamMessageUpdates responses_end = Inr [] \<and> isStreamTerminalMessage responses_end"
    by (simp add: isStreamDoneMessage_def)
qed (auto simp: responses_event_def parseResponsesUpdates_def event_defs
       split: StreamChunkType.split)

interpretation anthropic_wire: stream_protocol anthropic_event anthropic_end
proof (rule stream_protocolI)
  have "json_parse anthropic_end = Some (JObj [(''type'', JStr ''message_stop'')])"
    unfolding anthropic_end_def by (rule json_parse_stringify) simp
  then show "isStreamDoneMessage anthropic_end \<or>
      parseStreamMessageUpdates anthropic_end = Inr [] \<and> isStreamTerminalMessage anthropic_end"
    by (simp add: isStreamDoneMessage_def)
qed (auto simp: anthropic_event_def parseAnthropicUpdates_def event_defs
       split: StreamChunkType.split)

interpretation gemini_wire: stream_protocol gemini_event gemini_end
proof (rule stream_protocolI)
  have "json_parse gemini_end =
      Some (JObj [(''candidates'', JArr [JObj [(''finishReason'', JStr ''STOP'')]])])"
    unfolding gemini_end_def by (rule json_parse_stringify) simp
  then show "isStreamDoneMessage gemini_end \<or>
      parseStreamMessageUpdates gemini_end = Inr [] \<and> isStreamTerminalMessage gemini_end"
    by (simp add: parseGeminiUpdates_def event_defs)
qed (auto simp: gemini_event_def parseGeminiUpdates_def event_defs
       split: StreamChunkType.split)

definition stream_protocols :: "((StreamUpdateType \<Rightarrow> string \<Rightarrow> json) \<times> string) list" where
  "stream_protocols = [(openai_event, openai_end), (responses_event, responses_end),
     (anthropic_event, anthropic_end), (gemini_event, gemini_end)]"

lemma stream_protocols_interp:
  "(event, finish) \<in> set stream_protocols \<Longrightarrow> stream_protocol event finish"
  using openai_wire.stream_protocol_axioms responses_wire.stream_protocol_axioms
    anthropic_wire.stream_protocol_axioms gemini_wire.stream_protocol_axioms
  by (auto simp: stream_protocols_def)

text \<open>
  C15. The delta events of the four protocols, as JSON text on the wire, are each read as the
  one update they carry, of the right kind and with the text unchanged, whatever characters
  the text holds; none of them is taken for the end of the stream, and the final event of the
  protocol is.
\<close>

theorem stream_events_roundtrip:
  assumes "(event, finish) \<in> set stream_protocols"
  shows "(s \<noteq> [] \<longrightarrow> parseStreamMessageUpdates (json_stringify (event ty s)) =
      Inr [\<lparr>smu_type = ty, smu_chunk = JStr s\<rparr>]) \<and>
    \<not> isStreamDoneMessage (json_stringify (event ty s)) \<and>
    \<not> isStreamTerminalMessage (json_stringify (event ty s)) \<and>
    (isStreamDoneMessage finish \<or> isStreamTerminalMessage finish)"
  using stream_protocols_interp [OF assms] unfolding stream_protocol_def by blast

theorem stream_events_roundtrip_witness:
  "parseStreamMessageUpdates (json_stringify (anthropic_event REASONING ''a quote: \"'')) =
     Inr [\<lparr>smu_type = REASONING, smu_chunk = JStr ''a quote: \"''\<rparr>]"
  using stream_events_roundtrip [of anthropic_event anthropic_end "''a quote: \"''" REASONING]
  by (simp add: stream_protocols_def)

end
