(* ===== verification/Stream_Controller.thy ===== *)
theory Stream_Controller
  imports Stream_Events
begin

text \<open>
  The controller of streaming requests, \<open>createStreamRequestController\<close> of
  \<open>hooks/use-stream-request.ts\<close>.

  The closures of one call of \<open>send\<close> are told apart by their \<open>requestGeneration\<close>. The
  variables \<open>source\<close> and \<open>generation\<close> of the controller, the flag \<open>completed\<close> of every call and
  the state of every event source are fields of the state; the calls of the callbacks and of
  \<open>setStreaming\<close> are recorded in the order in which they happen. An asynchronous call is cut at
  its \<open>await\<close>: \<open>send_start\<close> runs up to it, and \<open>headers_ok\<close> or \<open>headers_failed\<close> resumes.

  The library \<open>sse.js\<close> is a parameter: its events may come for any source that was created, in
  any order and also after the source was closed, which the step relation allows.
\<close>

section \<open>State\<close>

record SourceState =
  sst_generation :: nat
  sst_completed :: bool
  sst_closed :: bool

datatype Callback =
    OnUpdate StreamUpdateType json
  | OnComplete
  | OnError json "json option"

record StreamCtl =
  sc_source :: "nat option"
  sc_generation :: nat
  sc_streaming :: bool
  sc_sources :: "SourceState list"
  sc_waiting :: "nat list"
  sc_log :: "(nat \<times> Callback) list"

definition initial_ctl :: StreamCtl where
  "initial_ctl = \<lparr>sc_source = None, sc_generation = 0, sc_streaming = False, sc_sources = [],
     sc_waiting = [], sc_log = []\<rparr>"

section \<open>Operations\<close>

definition close_source :: "nat \<Rightarrow> StreamCtl \<Rightarrow> StreamCtl" where
  "close_source n c = c\<lparr>sc_sources := (sc_sources c)[n := (sc_sources c ! n)\<lparr>sst_closed := True\<rparr>]\<rparr>"

definition close_previous :: "StreamCtl \<Rightarrow> StreamCtl" where
  \<comment> \<open>\<open>source = null; previousSource?.close()\<close>\<close>
  "close_previous c =
     (case sc_source c of
        None \<Rightarrow> c
      | Some n \<Rightarrow> close_source n (c\<lparr>sc_source := None\<rparr>))"

definition closeActiveSource :: "nat \<Rightarrow> StreamCtl \<Rightarrow> StreamCtl" where
  "closeActiveSource target c =
     (let c1 = close_source target c in
      if sc_source c1 = Some target then c1\<lparr>sc_source := None, sc_streaming := False\<rparr> else c1)"

definition set_completed :: "nat \<Rightarrow> StreamCtl \<Rightarrow> StreamCtl" where
  "set_completed n c = c\<lparr>sc_sources := (sc_sources c)[n := (sc_sources c ! n)\<lparr>sst_completed := True\<rparr>]\<rparr>"

definition call :: "nat \<Rightarrow> Callback \<Rightarrow> StreamCtl \<Rightarrow> StreamCtl" where
  "call g cb c = c\<lparr>sc_log := sc_log c @ [(g, cb)]\<rparr>"

definition source_generation :: "StreamCtl \<Rightarrow> nat \<Rightarrow> nat" where
  "source_generation c n = sst_generation (sc_sources c ! n)"

definition isCurrent :: "nat \<Rightarrow> StreamCtl \<Rightarrow> bool" where
  "isCurrent n c \<longleftrightarrow> sc_generation c = source_generation c n \<and> sc_source c = Some n"

definition ignored :: "nat \<Rightarrow> StreamCtl \<Rightarrow> bool" where
  \<comment> \<open>\<open>!isCurrent() || completed\<close>\<close>
  "ignored n c \<longleftrightarrow> \<not> isCurrent n c \<or> sst_completed (sc_sources c ! n)"

definition handleError :: "nat \<Rightarrow> json \<Rightarrow> json option \<Rightarrow> StreamCtl \<Rightarrow> StreamCtl" where
  "handleError n errorMessage errorCode c =
     (if ignored n c then c
      else closeActiveSource n
        (call (source_generation c n) (OnError errorMessage errorCode) (set_completed n c)))"

definition complete_stream :: "nat \<Rightarrow> StreamCtl \<Rightarrow> StreamCtl" where
  \<comment> \<open>\<open>completed = true; closeActiveSource(nextSource); callbacks.onComplete()\<close>\<close>
  "complete_stream n c =
     (let c1 = closeActiveSource n (set_completed n c) in call (source_generation c1 n) OnComplete c1)"

definition send_start :: "StreamCtl \<Rightarrow> StreamCtl" where
  "send_start c =
     (let requestGeneration = sc_generation c + 1;
          c1 = close_previous (c\<lparr>sc_generation := requestGeneration\<rparr>)
      in c1\<lparr>sc_streaming := False, sc_waiting := sc_waiting c1 @ [requestGeneration]\<rparr>)"

definition resume :: "nat \<Rightarrow> StreamCtl \<Rightarrow> StreamCtl" where
  "resume g c = c\<lparr>sc_waiting := removeAll g (sc_waiting c)\<rparr>"

text \<open>The rejected promise carries the message of an \<open>Error\<close>, or is no \<open>Error\<close> (\<open>None\<close>).\<close>

definition headers_failed :: "nat \<Rightarrow> string option \<Rightarrow> StreamCtl \<Rightarrow> StreamCtl" where
  "headers_failed g error c0 =
     (let c = resume g c0 in
      if sc_generation c \<noteq> g then c
      else call g (OnError (JStr (nullish error STREAM_START_ERROR)) None) c)"

text \<open>The flag \<open>throws\<close> tells whether \<open>nextSource.stream()\<close> throws.\<close>

definition headers_ok :: "nat \<Rightarrow> bool \<Rightarrow> StreamCtl \<Rightarrow> StreamCtl" where
  "headers_ok g throws c0 =
     (let c = resume g c0 in
      if sc_generation c \<noteq> g then c
      else
        let n = length (sc_sources c);
            c1 = c\<lparr>sc_sources := sc_sources c @ [\<lparr>sst_generation = g, sst_completed = False, sst_closed = False\<rparr>],
                   sc_source := Some n, sc_streaming := True\<rparr>
        in if \<not> isCurrent n c1 then c1
           else if throws then
             (if ignored n c1 then c1 else handleError n (JStr STREAM_START_ERROR) None c1)
           else c1)"

text \<open>
  The loop over the updates of one event; \<open>fails\<close> tells on which updates the callback itself
  throws, and the result tells whether the loop ended.
\<close>

fun call_updates ::
  "(StreamMessageUpdate \<Rightarrow> bool) \<Rightarrow> nat \<Rightarrow> StreamMessageUpdate list \<Rightarrow> StreamCtl \<Rightarrow> bool \<times> StreamCtl" where
  "call_updates fails g [] c = (True, c)"
| "call_updates fails g (u # us) c =
     (let c1 = call g (OnUpdate (smu_type u) (smu_chunk u)) c in
      if fails u then (False, c1) else call_updates fails g us c1)"

definition on_message :: "(StreamMessageUpdate \<Rightarrow> bool) \<Rightarrow> nat \<Rightarrow> string option \<Rightarrow> StreamCtl \<Rightarrow> StreamCtl" where
  "on_message fails n event_data c =
     (if ignored n c then c
      else
        let data = nullish event_data [] in
        if isStreamDoneMessage data then complete_stream n c
        else
          (case parseStreamMessageUpdates data of
             Inl _ \<Rightarrow> handleError n (JStr PARSE_ERROR) None c
           | Inr updates \<Rightarrow>
               let (ended, c1) = call_updates fails (source_generation c n) updates c in
               if \<not> ended then handleError n (JStr PARSE_ERROR) None c1
               else if isStreamTerminalMessage data then complete_stream n c1 else c1))"

definition on_error :: "nat \<Rightarrow> jsnum option \<Rightarrow> string option \<Rightarrow> StreamCtl \<Rightarrow> StreamCtl" where
  "on_error n source_readyState event_data c =
     (if ignored n c then c
      else if \<not> isStreamClosedReadyState source_readyState then
        let d = parseStreamErrorDetails event_data in
        handleError n (sed_errorMessage d) (sed_errorCode d) c
      else c)"

definition on_readystatechange :: "nat \<Rightarrow> jsnum option \<Rightarrow> jsnum option \<Rightarrow> StreamCtl \<Rightarrow> StreamCtl" where
  "on_readystatechange n event_readyState source_status c =
     (if ignored n c then c
      else
        case getStreamReadyStateError event_readyState source_status of
          Some errorMessage \<Rightarrow> handleError n (JStr errorMessage) None c
        | None \<Rightarrow>
            if shouldCompleteOnStreamClose event_readyState source_status then complete_stream n c else c)"

definition cancel :: "bool \<Rightarrow> StreamCtl \<Rightarrow> StreamCtl" where
  "cancel notify c =
     (let c1 = close_previous (c\<lparr>sc_generation := sc_generation c + 1\<rparr>) in
      if notify then c1\<lparr>sc_streaming := False\<rparr> else c1)"

definition stop_stream :: "StreamCtl \<Rightarrow> StreamCtl" where "stop_stream = cancel True"

definition dispose :: "StreamCtl \<Rightarrow> StreamCtl" where "dispose = cancel False"

section \<open>Steps\<close>

text \<open>
  What can happen to a controller: its three operations \<open>send\<close>, \<open>stop\<close> and \<open>dispose\<close>, the
  promise of the headers, which is settled once, and the events of the sources. Nothing keeps a
  caller from using the controller again after \<open>dispose\<close>, and events still come after it.
\<close>

inductive ctl_step :: "StreamCtl \<Rightarrow> StreamCtl \<Rightarrow> bool" where
  step_send: "ctl_step c (send_start c)"
| step_headers_ok: "g \<in> set (sc_waiting c) \<Longrightarrow> ctl_step c (headers_ok g throws c)"
| step_headers_failed: "g \<in> set (sc_waiting c) \<Longrightarrow> ctl_step c (headers_failed g error c)"
| step_message: "n < length (sc_sources c) \<Longrightarrow> ctl_step c (on_message fails n data c)"
| step_error: "n < length (sc_sources c) \<Longrightarrow> ctl_step c (on_error n readyState data c)"
| step_ready: "n < length (sc_sources c) \<Longrightarrow> ctl_step c (on_readystatechange n readyState status c)"
| step_stop: "ctl_step c (stop_stream c)"
| step_dispose: "ctl_step c (dispose c)"

definition ctl_reachable :: "StreamCtl \<Rightarrow> bool" where
  "ctl_reachable c \<longleftrightarrow> ctl_step\<^sup>*\<^sup>* initial_ctl c"

section \<open>The invariant\<close>

definition terminal :: "Callback \<Rightarrow> bool" where
  "terminal cb \<longleftrightarrow> (case cb of OnUpdate _ _ \<Rightarrow> False | _ \<Rightarrow> True)"

text \<open>
  The order of the callbacks: requests in the order of their generations, and nothing for a
  request after the call that ends it.
\<close>

definition callback_order :: "nat \<times> Callback \<Rightarrow> nat \<times> Callback \<Rightarrow> bool" where
  "callback_order x y \<longleftrightarrow> (if terminal (snd x) then fst x < fst y else fst x \<le> fst y)"

definition may_call :: "StreamCtl \<Rightarrow> bool" where
  "may_call c \<longleftrightarrow> sc_source c \<noteq> None \<or> sc_generation c \<in> set (sc_waiting c)"

definition sources_inv :: "StreamCtl \<Rightarrow> bool" where
  "sources_inv c \<longleftrightarrow>
     (\<forall>n. sc_source c = Some n \<longrightarrow> n < length (sc_sources c) \<and>
        sc_sources c ! n = \<lparr>sst_generation = sc_generation c, sst_completed = False, sst_closed = False\<rparr>) \<and>
     (\<forall>n < length (sc_sources c). sc_source c \<noteq> Some n \<longrightarrow> sst_closed (sc_sources c ! n)) \<and>
     (sc_source c \<noteq> None \<longrightarrow> sc_streaming c)"

definition log_inv :: "StreamCtl \<Rightarrow> bool" where
  "log_inv c \<longleftrightarrow>
     sorted_wrt callback_order (sc_log c) \<and>
     (\<forall>(g, cb) \<in> set (sc_log c). g \<le> sc_generation c \<and>
        (terminal cb \<and> may_call c \<longrightarrow> g < sc_generation c)) \<and>
     (\<forall>g \<in> set (sc_waiting c). g \<le> sc_generation c) \<and>
     (sc_generation c \<in> set (sc_waiting c) \<longrightarrow> sc_source c = None)"

definition ctl_inv :: "StreamCtl \<Rightarrow> bool" where
  "ctl_inv c \<longleftrightarrow> sources_inv c \<and> log_inv c"

lemma ctl_inv_initial: "ctl_inv initial_ctl"
  by (simp add: ctl_inv_def sources_inv_def log_inv_def initial_ctl_def)

text \<open>A handler that is not ignored runs for the active source, which is not completed.\<close>

lemma not_ignored:
  assumes "ctl_inv c" and "\<not> ignored n c"
  shows "sc_source c = Some n" and "n < length (sc_sources c)"
    and "sc_sources c ! n = \<lparr>sst_generation = sc_generation c, sst_completed = False, sst_closed = False\<rparr>"
    and "source_generation c n = sc_generation c" and "sc_generation c \<notin> set (sc_waiting c)"
  using assms by (auto simp: ignored_def isCurrent_def ctl_inv_def sources_inv_def log_inv_def)

text \<open>The end of a request: both ways to end it leave the same state but for the callback.\<close>

definition settle :: "nat \<Rightarrow> Callback \<Rightarrow> StreamCtl \<Rightarrow> StreamCtl" where
  "settle n cb c = c\<lparr>sc_sources := (sc_sources c)[n :=
       \<lparr>sst_generation = sc_generation c, sst_completed = True, sst_closed = True\<rparr>],
     sc_source := None, sc_streaming := False, sc_log := sc_log c @ [(sc_generation c, cb)]\<rparr>"

lemma ending_settles:
  assumes "ctl_inv c" and "\<not> ignored n c"
  shows "handleError n e code c = settle n (OnError e code) c"
    and "complete_stream n c = settle n OnComplete c"
  using assms not_ignored [OF assms]
  by (simp_all add: handleError_def complete_stream_def settle_def closeActiveSource_def close_source_def
      set_completed_def call_def Let_def source_generation_def)

lemma settle_inv:
  assumes "ctl_inv c" and "sc_source c = Some n"
  shows "ctl_inv (settle n cb c)"
proof -
  have nw: "sc_generation c \<notin> set (sc_waiting c)"
    using assms by (auto simp: ctl_inv_def log_inv_def)
  have "sources_inv (settle n cb c)"
    using assms by (auto simp: ctl_inv_def sources_inv_def settle_def nth_list_update)
  moreover have "log_inv (settle n cb c)"
    using assms nw by (fastforce simp: ctl_inv_def log_inv_def settle_def may_call_def sorted_wrt_append
        callback_order_def)
  ultimately show ?thesis by (simp add: ctl_inv_def)
qed

lemma ending_inv:
  assumes "ctl_inv c"
  shows "ctl_inv (handleError n e code c)" and "\<not> ignored n c \<Longrightarrow> ctl_inv (complete_stream n c)"
  using ending_settles [OF assms] settle_inv [OF assms] not_ignored(1) [OF assms] assms
  by (metis handleError_def)+

text \<open>The updates of one event extend the log and leave everything else.\<close>

lemma call_update_inv:
  assumes "ctl_inv c" and "\<not> ignored n c"
  shows "ctl_inv (call (source_generation c n) (OnUpdate ty ch) c)"
    and "\<not> ignored n (call (source_generation c n) (OnUpdate ty ch) c)"
    and "source_generation (call (source_generation c n) (OnUpdate ty ch) c) n = source_generation c n"
proof -
  note act = not_ignored [OF assms]
  have "log_inv c" "sources_inv c" using assms(1) by (simp_all add: ctl_inv_def)
  moreover have "\<forall>x \<in> set (sc_log c). callback_order x (sc_generation c, OnUpdate ty ch)"
    using \<open>log_inv c\<close> act(1) by (auto simp: log_inv_def callback_order_def may_call_def)
  ultimately show "ctl_inv (call (source_generation c n) (OnUpdate ty ch) c)"
    unfolding ctl_inv_def act(4)
    by (simp add: sources_inv_def log_inv_def call_def sorted_wrt_append may_call_def terminal_def)
  show "\<not> ignored n (call (source_generation c n) (OnUpdate ty ch) c)"
    "source_generation (call (source_generation c n) (OnUpdate ty ch) c) n = source_generation c n"
    using assms(2) by (simp_all add: call_def ignored_def isCurrent_def source_generation_def)
qed

lemma call_updates_inv:
  assumes "ctl_inv c" and "\<not> ignored n c"
    and "call_updates fails (source_generation c n) us c = (ended, c1)"
  shows "ctl_inv c1 \<and> \<not> ignored n c1"
  using assms
proof (induction us arbitrary: c)
  case (Cons u us)
  let ?c = "call (source_generation c n) (OnUpdate (smu_type u) (smu_chunk u)) c"
  note step = call_update_inv [OF Cons.prems(1,2), of "smu_type u" "smu_chunk u"]
  show ?case
    using Cons.IH [OF step(1,2)] Cons.prems(3) step by (auto simp: Let_def split: if_splits)
qed simp

lemma on_message_inv:
  assumes "ctl_inv c"
  shows "ctl_inv (on_message fails n data c)"
proof (cases "ignored n c")
  case False
  show ?thesis
  proof (cases "parseStreamMessageUpdates (nullish data [])")
    case (Inl e)
    then show ?thesis using False ending_inv [OF assms] by (simp add: on_message_def Let_def)
  next
    case (Inr us)
    obtain ended c1 where c1: "call_updates fails (source_generation c n) us c = (ended, c1)"
      by fastforce
    note c1_inv = call_updates_inv [OF assms False c1]
    show ?thesis
      using False Inr c1 ending_inv [OF assms] ending_inv [of c1 n] c1_inv
      by (simp add: on_message_def Let_def)
  qed
qed (simp add: on_message_def assms)

lemma on_error_inv: "ctl_inv c \<Longrightarrow> ctl_inv (on_error n rs data c)"
  by (simp add: on_error_def Let_def ending_inv)

lemma on_readystatechange_inv: "ctl_inv c \<Longrightarrow> ctl_inv (on_readystatechange n rs status c)"
  by (simp add: on_readystatechange_def ending_inv split: option.split)

text \<open>A new generation starts without a source, with the old one closed.\<close>

lemma close_previous_fields:
  "sc_source (close_previous c) = None"
  "sc_generation (close_previous c) = sc_generation c"
  "sc_waiting (close_previous c) = sc_waiting c"
  "sc_log (close_previous c) = sc_log c"
  "length (sc_sources (close_previous c)) = length (sc_sources c)"
  by (simp_all add: close_previous_def close_source_def split: option.split)

lemma close_previous_closed:
  assumes "sources_inv c" and "n < length (sc_sources c)"
  shows "sst_closed (sc_sources (close_previous (c\<lparr>sc_generation := g\<rparr>)) ! n)"
  using assms by (cases "sc_source c") (auto simp: sources_inv_def close_previous_def close_source_def
      nth_list_update)

lemma send_start_inv: "ctl_inv c \<Longrightarrow> ctl_inv (send_start c)"
  using close_previous_closed [of c]
  by (fastforce simp: send_start_def Let_def ctl_inv_def log_inv_def sources_inv_def [of "_\<lparr>sc_streaming := _,
      sc_waiting := _\<rparr>"] close_previous_fields may_call_def callback_order_def)

lemma stop_stream_inv: "ctl_inv c \<Longrightarrow> ctl_inv (stop_stream c)"
  using close_previous_closed [of c]
  by (fastforce simp: stop_stream_def cancel_def Let_def ctl_inv_def log_inv_def sources_inv_def [of "_\<lparr>sc_streaming := _\<rparr>"]
      close_previous_fields may_call_def)

lemma dispose_inv: "ctl_inv c \<Longrightarrow> ctl_inv (dispose c)"
  using close_previous_closed [of c]
  by (fastforce simp: dispose_def cancel_def Let_def ctl_inv_def log_inv_def sources_inv_def [of "close_previous _"]
      close_previous_fields may_call_def)

lemma resume_inv: "ctl_inv c \<Longrightarrow> ctl_inv (resume g c)"
  by (auto simp: resume_def ctl_inv_def sources_inv_def log_inv_def may_call_def)

lemma headers_failed_inv:
  assumes "ctl_inv c" and "g \<in> set (sc_waiting c)"
  shows "ctl_inv (headers_failed g error c)"
proof (cases "sc_generation c = g")
  case True
  have "\<forall>x \<in> set (sc_log c). callback_order x (g, cb)" for cb
    using assms True by (auto simp: ctl_inv_def log_inv_def callback_order_def may_call_def)
  then show ?thesis
    using assms True
    by (auto simp: headers_failed_def Let_def resume_def call_def ctl_inv_def sources_inv_def log_inv_def
        may_call_def sorted_wrt_append)
next
  case False
  then show ?thesis using resume_inv [OF assms(1), of g] by (simp add: headers_failed_def Let_def resume_def)
qed

lemma headers_ok_inv:
  assumes "ctl_inv c" and "g \<in> set (sc_waiting c)"
  shows "ctl_inv (headers_ok g throws c)"
proof (cases "sc_generation c = g")
  case True
  let ?n = "length (sc_sources c)"
  let ?c1 = "(resume g c)\<lparr>sc_sources := sc_sources c @
      [\<lparr>sst_generation = g, sst_completed = False, sst_closed = False\<rparr>],
      sc_source := Some ?n, sc_streaming := True\<rparr>"
  have "sources_inv ?c1"
    using assms True by (auto simp: ctl_inv_def sources_inv_def log_inv_def nth_append resume_def)
  moreover have "log_inv ?c1"
    using assms True by (auto simp: ctl_inv_def log_inv_def resume_def may_call_def)
  ultimately have c1: "ctl_inv ?c1" by (simp add: ctl_inv_def)
  have "headers_ok g throws c = (if throws then handleError ?n (JStr STREAM_START_ERROR) None ?c1 else ?c1)"
    using True by (simp add: headers_ok_def Let_def resume_def isCurrent_def source_generation_def ignored_def)
  then show ?thesis using c1 ending_inv(1) [OF c1] by simp
next
  case False
  then show ?thesis using resume_inv [OF assms(1), of g] by (simp add: headers_ok_def Let_def resume_def)
qed

lemmas ctl_inv_steps =
  send_start_inv headers_ok_inv headers_failed_inv on_message_inv on_error_inv on_readystatechange_inv
  stop_stream_inv dispose_inv

lemma ctl_step_inv: "ctl_step c c' \<Longrightarrow> ctl_inv c \<Longrightarrow> ctl_inv c'"
  by (induction rule: ctl_step.induct) (simp_all add: ctl_inv_steps)

lemma ctl_reachable_inv: "ctl_reachable c \<Longrightarrow> ctl_inv c"
  unfolding ctl_reachable_def
  by (induction rule: rtranclp_induct) (auto intro: ctl_inv_initial ctl_step_inv)

text \<open>
  C3. Whatever the order of sends, stops, disposals, header promises and source events, the callbacks
  come in the order of the requests, and after the call that ends a request (its completion
  or its error) there is no further callback for it: a request is ended at most once, and a
  superseded request is never heard of again once a newer one has called back.
\<close>

theorem stream_callbacks_ordered:
  assumes "ctl_reachable c" and "sc_log c = before @ (g, cb) # after" and "(g', cb') \<in> set after"
  shows "g \<le> g' \<and> (terminal cb \<longrightarrow> g < g')"
  using ctl_reachable_inv [OF assms(1)] assms(2,3)
  by (auto simp: ctl_inv_def log_inv_def sorted_wrt_append callback_order_def split: if_splits)

text \<open>
  An event of a source leaves a flag without a source only if it was ignored; the flag outlives
  its source only through \<open>dispose\<close>, which does not call \<open>setStreaming\<close>.
\<close>

lemma call_updates_source: "sc_source (snd (call_updates fails g us c)) = sc_source c"
  by (induction us arbitrary: c) (simp_all add: Let_def call_def)

lemma ending_flag:
  assumes "ctl_inv c" and "\<not> ignored n c"
  shows "\<not> sc_streaming (handleError n e code c)" and "\<not> sc_streaming (complete_stream n c)"
  by (simp_all add: ending_settles [OF assms] settle_def)

lemma on_message_flag:
  assumes "ctl_inv c" and "\<not> ignored n c" and "sc_streaming (on_message fails n data c)"
  shows "sc_source (on_message fails n data c) \<noteq> None"
proof -
  obtain us where us: "\<not> isStreamDoneMessage (nullish data [])" "parseStreamMessageUpdates (nullish data []) = Inr us"
    using assms ending_flag [OF assms(1,2)]
    by (cases "parseStreamMessageUpdates (nullish data [])") (auto simp: on_message_def Let_def split: if_splits)
  obtain ended c1 where c1: "call_updates fails (source_generation c n) us c = (ended, c1)" by fastforce
  have "ctl_inv c1 \<and> \<not> ignored n c1" by (rule call_updates_inv [OF assms(1,2) c1])
  then have "on_message fails n data c = c1"
    using assms(2,3) us c1 ending_flag [of c1 n] by (simp add: on_message_def Let_def split: if_splits)
  moreover have "sc_source c1 = Some n"
    using call_updates_source [of fails "source_generation c n" us c] c1 not_ignored(1) [OF assms(1,2)] by simp
  ultimately show ?thesis by simp
qed

lemma event_flag:
  assumes "ctl_inv c"
  shows "sc_streaming (on_message fails n data c) \<Longrightarrow> sc_source (on_message fails n data c) = None \<Longrightarrow>
      on_message fails n data c = c"
    and "sc_streaming (on_error n rs data c) \<Longrightarrow> sc_source (on_error n rs data c) = None \<Longrightarrow> on_error n rs data c = c"
    and "sc_streaming (on_readystatechange n rs st c) \<Longrightarrow> sc_source (on_readystatechange n rs st c) = None \<Longrightarrow>
      on_readystatechange n rs st c = c"
  using on_message_flag [OF assms, of n fails data] ending_flag [OF assms, of n]
  by (auto simp: on_message_def [of fails n data c] on_error_def on_readystatechange_def Let_def split: if_splits option.splits)

definition disposed_from :: "StreamCtl \<Rightarrow> StreamCtl \<Rightarrow> bool" where
  "disposed_from c0 c \<longleftrightarrow> sc_streaming c0 \<and> set (sc_waiting c) \<subseteq> set (sc_waiting c0) \<and>
     c = (dispose c0)\<lparr>sc_waiting := sc_waiting c\<rparr>"

lemma dispose_fields:
  "sc_source (dispose c) = None" "sc_generation (dispose c) = sc_generation c + 1"
  "sc_streaming (dispose c) = sc_streaming c" "sc_waiting (dispose c) = sc_waiting c"
  by (simp_all add: dispose_def cancel_def close_previous_def close_source_def Let_def split: option.split)

lemma disposed_resume:
  assumes "disposed_from c0 c"
  shows "disposed_from c0 (resume g c)"
  using assms unfolding disposed_from_def resume_def by (cases c) (auto; metis StreamCtl.update_convs(5))

lemma disposed_headers:
  assumes "ctl_inv c0" and "disposed_from c0 c" and "g \<in> set (sc_waiting c)"
  shows "headers_ok g throws c = resume g c" and "headers_failed g error c = resume g c"
proof -
  have "sc_generation c = sc_generation c0 + 1"
    using assms(2) unfolding disposed_from_def by (metis StreamCtl.select_convs(2) StreamCtl.surjective
        StreamCtl.update_convs(5) dispose_fields(2))
  moreover have "g \<le> sc_generation c0"
    using assms(1-3) by (auto simp: disposed_from_def ctl_inv_def log_inv_def)
  ultimately show "headers_ok g throws c = resume g c" "headers_failed g error c = resume g c"
    by (simp_all add: headers_ok_def headers_failed_def resume_def Let_def)
qed

lemma headers_flag:
  assumes "ctl_inv c" and "g \<in> set (sc_waiting c)"
  shows "sc_source (headers_ok g throws c) = None \<Longrightarrow> sc_streaming (headers_ok g throws c) \<Longrightarrow>
      headers_ok g throws c = resume g c"
    and "sc_streaming (headers_failed g error c) \<Longrightarrow> sc_source (headers_failed g error c) = None \<Longrightarrow>
      sc_streaming c \<and> sc_source c = None"
  by (auto simp: headers_ok_def headers_failed_def resume_def call_def Let_def handleError_def closeActiveSource_def
      close_source_def set_completed_def split: if_splits)

lemma stale_flag:
  assumes "ctl_reachable c" and "sc_streaming c" and "sc_source c = None"
  shows "\<exists>c0. ctl_reachable c0 \<and> disposed_from c0 c"
  using assms unfolding ctl_reachable_def
proof (induction rule: rtranclp_induct)
  case base
  then show ?case by (simp add: initial_ctl_def)
next
  case (step c c')
  have inv: "ctl_inv c" using step.hyps(1) by (intro ctl_reachable_inv) (simp add: ctl_reachable_def)
  have keep: ?case if "c' = c" using that step by simp
  have headers: ?case if g: "g \<in> set (sc_waiting c)" and c': "c' = headers_ok g throws c \<or> c' = headers_failed g error c"
      and idle: "sc_streaming c" "sc_source c = None" for g throws error
  proof -
    obtain c0 where c0: "ctl_step\<^sup>*\<^sup>* initial_ctl c0" "disposed_from c0 c" using step.IH idle by blast
    then have "ctl_inv c0" by (simp add: ctl_reachable_inv ctl_reachable_def)
    then show ?thesis using c0 c' disposed_headers [OF _ c0(2) g] disposed_resume [OF c0(2)] by metis
  qed
  from step.hyps(2) show ?case
  proof cases
    case step_send
    then show ?thesis using step.prems by (simp add: send_start_def Let_def)
  next
    case (step_headers_ok g throws)
    then have "c' = resume g c" using headers_flag(1) [OF inv] step.prems by simp
    then have "sc_streaming c" "sc_source c = None" using step.prems by (simp_all add: resume_def)
    then show ?thesis using headers [OF step_headers_ok(2) disjI1] step_headers_ok(1) by blast
  next
    case (step_headers_failed g error)
    then show ?thesis using headers headers_flag(2) [OF inv] step.prems by blast
  next
    case step_stop
    then show ?thesis using step.prems by (simp add: stop_stream_def cancel_def Let_def)
  next
    case step_dispose
    then have "disposed_from c c'" using step.prems by (simp add: disposed_from_def dispose_fields)
    then show ?thesis using step.hyps(1) by blast
  qed (use keep event_flag [OF inv] step.prems in blast)+
qed


section \<open>A whole stream\<close>

definition deliver :: "nat \<Rightarrow> string list \<Rightarrow> StreamCtl \<Rightarrow> StreamCtl" where
  "deliver n texts c = foldl (\<lambda>c data. on_message (\<lambda>_. False) n (Some data) c) c texts"

lemma deliver_simps [simp]:
  "deliver n [] c = c"
  "deliver n (d # ds) c = deliver n ds (on_message (\<lambda>_. False) n (Some d) c)"
  by (simp_all add: deliver_def)

context stream_protocol
begin

definition wire :: "(StreamUpdateType \<times> string) list \<Rightarrow> string list" where
  "wire deltas = map (\<lambda>(ty, s). json_stringify (event ty s)) deltas @ [finish]"

lemma on_message_delta:
  assumes "ctl_inv c" and "\<not> ignored n c" and "s \<noteq> []"
  shows "on_message (\<lambda>_. False) n (Some (json_stringify (event ty s))) c =
    call (source_generation c n) (OnUpdate ty (JStr s)) c"
  using assms(2) delta_update [OF assms(3)] delta_not_done delta_not_terminal
  by (simp add: on_message_def Let_def)

lemma on_message_finish:
  assumes "ctl_inv c" and "\<not> ignored n c"
  shows "on_message (\<lambda>_. False) n (Some finish) c = settle n OnComplete c"
  using assms finish_ends ending_settles [OF assms] by (auto simp: on_message_def Let_def)

lemma deliver_wire:
  assumes "ctl_inv c" and "\<not> ignored n c" and "\<forall>(ty, s) \<in> set deltas. s \<noteq> []"
  shows "deliver n (wire deltas) c = settle n OnComplete
    (c\<lparr>sc_log := sc_log c @ map (\<lambda>(ty, s). (sc_generation c, OnUpdate ty (JStr s))) deltas\<rparr>)"
  using assms
proof (induction deltas arbitrary: c)
  case Nil
  then show ?case by (simp add: wire_def on_message_finish)
next
  case (Cons d deltas)
  obtain ty s where d: "d = (ty, s)" "s \<noteq> []" using Cons.prems(3) by (cases d) auto
  let ?c = "call (source_generation c n) (OnUpdate ty (JStr s)) c"
  note step = call_update_inv [OF Cons.prems(1,2), of ty "JStr s"]
  have "deliver n (wire deltas) ?c = settle n OnComplete
    (?c\<lparr>sc_log := sc_log ?c @ map (\<lambda>(ty, s). (sc_generation ?c, OnUpdate ty (JStr s))) deltas\<rparr>)"
    using Cons.IH [OF step(1,2)] Cons.prems(3) by simp
  then show ?case
    using Cons.prems not_ignored(4) [OF Cons.prems(1,2)] d
    by (simp add: wire_def on_message_delta call_def)
qed

end

text \<open>
  C20. A whole stream of any of the four protocols, delivered to the active source in a
  reachable state: the deltas reach the callbacks of the newest request as updates, in order
  and unchanged, followed by one completion; the source is closed and the streaming flag is
  cleared.
\<close>

theorem stream_delivers:
  assumes "ctl_reachable c" and "sc_source c = Some n"
    and "(event, finish) \<in> set stream_protocols" and "\<forall>(ty, s) \<in> set deltas. s \<noteq> []"
    and "c' = deliver n (map (\<lambda>(ty, s). json_stringify (event ty s)) deltas @ [finish]) c"
  shows "sc_log c' = sc_log c @ map (\<lambda>(ty, s). (sc_generation c, OnUpdate ty (JStr s))) deltas @
      [(sc_generation c, OnComplete)] \<and>
    sc_source c' = None \<and> \<not> sc_streaming c' \<and> sst_closed (sc_sources c' ! n)"
proof -
  have inv: "ctl_inv c" by (rule ctl_reachable_inv [OF assms(1)])
  have n: "n < length (sc_sources c)" "\<not> ignored n c"
    using inv assms(2) by (auto simp: ctl_inv_def sources_inv_def ignored_def isCurrent_def
        source_generation_def)
  note sp = stream_protocols_interp [OF assms(3)]
  have "c' = settle n OnComplete
    (c\<lparr>sc_log := sc_log c @ map (\<lambda>(ty, s). (sc_generation c, OnUpdate ty (JStr s))) deltas\<rparr>)"
    using stream_protocol.deliver_wire [OF sp inv n(2) assms(4)] assms(5)
    by (simp add: stream_protocol.wire_def [OF sp])
  then show ?thesis using n(1) by (simp add: settle_def)
qed

section \<open>Witnesses\<close>

text \<open>One request whose stream has started, and the same after two failed events.\<close>

definition started :: StreamCtl where
  "started = headers_ok 1 False (send_start initial_ctl)"

lemma started_eq: "started = \<lparr>sc_source = Some 0, sc_generation = 1, sc_streaming = True,
    sc_sources = [\<lparr>sst_generation = 1, sst_completed = False, sst_closed = False\<rparr>],
    sc_waiting = [], sc_log = []\<rparr>"
  by (simp add: started_def headers_ok_def send_start_def initial_ctl_def close_previous_def resume_def
      isCurrent_def source_generation_def Let_def)

lemma started_reachable: "ctl_reachable started"
proof -
  have "ctl_step initial_ctl (send_start initial_ctl)" by (rule step_send)
  moreover have "ctl_step (send_start initial_ctl) started"
    unfolding started_def
    by (rule step_headers_ok) (simp add: send_start_def initial_ctl_def close_previous_def Let_def)
  ultimately show ?thesis unfolding ctl_reachable_def by (meson converse_rtranclp_into_rtranclp rtranclp.rtrancl_refl)
qed

definition failed :: StreamCtl where
  "failed = on_error 0 (Some 0) (Some ''broken'') (on_error 0 (Some 0) None started)"

lemma failed_reachable: "ctl_reachable failed"
proof -
  let ?c = "on_error 0 (Some 0) None started"
  have "ctl_step started ?c" by (rule step_error) (simp add: started_eq)
  moreover have "ctl_step ?c failed" unfolding failed_def
    by (rule step_error) (simp add: started_eq on_error_def ignored_def isCurrent_def source_generation_def
        isStreamClosedReadyState_def handleError_def closeActiveSource_def close_source_def call_def
        set_completed_def Let_def)
  ultimately show ?thesis
    using started_reachable unfolding ctl_reachable_def by (meson rtranclp.rtrancl_into_rtrancl)
qed

lemma failed_eq: "sc_log failed = [(1, OnError (JStr API_REQUEST_ERROR) None)]"
  "sc_source failed = None" "length (sc_sources failed) = 1" "sc_generation failed = 1"
  by (simp_all add: failed_def started_eq on_error_def ignored_def isCurrent_def source_generation_def
      isStreamClosedReadyState_def handleError_def closeActiveSource_def close_source_def call_def
      set_completed_def parseStreamErrorDetails_def opt_str_def Let_def)

lemma disposed_reachable: "ctl_reachable (dispose started)"
  using started_reachable step_dispose [of started] unfolding ctl_reachable_def by (rule rtranclp.rtrancl_into_rtrancl)

lemma disposed_eq: "sc_streaming (dispose started)" "sc_source (dispose started) = None" "length (sc_sources (dispose started)) = 1"
  by (simp_all add: dispose_def cancel_def close_previous_def close_source_def started_eq Let_def)


theorem stream_delivers_witness:
  "sc_log (deliver 0 [json_stringify (openai_event CONTENT ''Hi''), ''[DONE]''] started) =
     [(1, OnUpdate CONTENT (JStr ''Hi'')), (1, OnComplete)]"
  using stream_delivers [OF started_reachable, of 0 openai_event openai_end "[(CONTENT, ''Hi'')]"]
  by (simp add: started_eq stream_protocols_def openai_end_def)

lemma restarted_reachable: "ctl_reachable (headers_failed 2 None (send_start failed))"
proof -
  have "ctl_step failed (send_start failed)" by (rule step_send)
  moreover have "ctl_step (send_start failed) (headers_failed 2 None (send_start failed))"
    by (intro step_headers_failed) (simp add: send_start_def failed_eq Let_def)
  ultimately show ?thesis
    using failed_reachable unfolding ctl_reachable_def by (meson rtranclp.rtrancl_into_rtrancl)
qed

lemma restarted_log: "sc_log (headers_failed 2 None (send_start failed)) =
    [(1, OnError (JStr API_REQUEST_ERROR) None), (2, OnError (JStr STREAM_START_ERROR) None)]"
  by (simp add: headers_failed_def send_start_def resume_def call_def close_previous_fields failed_eq Let_def)

theorem stream_callbacks_ordered_witness:
  "terminal (OnError (JStr API_REQUEST_ERROR) None) \<and> (1 :: nat) < 2 \<and>
   ctl_reachable (headers_failed 2 None (send_start failed))"
  using stream_callbacks_ordered [OF restarted_reachable, of "[]" 1 "OnError (JStr API_REQUEST_ERROR) None"
      "[(2, OnError (JStr STREAM_START_ERROR) None)]" 2 "OnError (JStr STREAM_START_ERROR) None"]
    restarted_log restarted_reachable
  by (simp add: terminal_def)

end
