(* ===== verification/Payload.thy ===== *)
theory Payload
  imports Stream_Events
begin

text \<open>
  The requests the playground sends: the configuration types of \<open>types.ts\<close>, the constants
  of \<open>constants.ts\<close> and \<open>lib/streaming/payload-builder.ts\<close>.

  A payload is a JSON object. Assigning a property replaces its value in place or appends it,
  as \<open>AList.update\<close> does.
\<close>

section \<open>Configuration\<close>

datatype PlaygroundEndpointType = EP_OPENAI | EP_OPENAI_RESPONSE | EP_ANTHROPIC | EP_GEMINI

record PlaygroundConfig =
  cfg_model :: string
  cfg_endpointType :: PlaygroundEndpointType
  cfg_temperature :: jsnum
  cfg_top_p :: jsnum
  cfg_max_tokens :: jsnum
  cfg_frequency_penalty :: jsnum
  cfg_presence_penalty :: jsnum
  cfg_seed :: "jsnum option"
  cfg_stream :: bool

record ParameterEnabled =
  pe_temperature :: bool
  pe_top_p :: bool
  pe_max_tokens :: bool
  pe_frequency_penalty :: bool
  pe_presence_penalty :: bool
  pe_seed :: bool

definition DEFAULT_CONFIG :: PlaygroundConfig where
  "DEFAULT_CONFIG = \<lparr>cfg_model = ''gpt-4o'', cfg_endpointType = EP_OPENAI, cfg_temperature = 7 / 10,
     cfg_top_p = 1, cfg_max_tokens = 4096, cfg_frequency_penalty = 0, cfg_presence_penalty = 0,
     cfg_seed = None, cfg_stream = True\<rparr>"

definition DEFAULT_PARAMETER_ENABLED :: ParameterEnabled where
  "DEFAULT_PARAMETER_ENABLED = \<lparr>pe_temperature = True, pe_top_p = True, pe_max_tokens = False,
     pe_frequency_penalty = True, pe_presence_penalty = True, pe_seed = False\<rparr>"

definition API_CHAT_COMPLETIONS :: string where "API_CHAT_COMPLETIONS = ''/pg/chat/completions''"

definition API_RESPONSES :: string where "API_RESPONSES = ''/pg/responses''"

definition API_MESSAGES :: string where "API_MESSAGES = ''/pg/messages''"

section \<open>Messages\<close>

type_synonym payload = "(string \<times> json) list"

record PlaygroundRequest =
  req_url :: string
  req_payload :: payload

definition role_string :: "MessageRole \<Rightarrow> string" where
  "role_string r = (case r of USER \<Rightarrow> ''user'' | ASSISTANT \<Rightarrow> ''assistant'' | SYSTEM \<Rightarrow> ''system'')"

definition json_opt :: "string \<Rightarrow> json option \<Rightarrow> payload" where
  \<comment> \<open>a property that is left out when undefined\<close>
  "json_opt k v = (case v of None \<Rightarrow> [] | Some j \<Rightarrow> [(k, j)])"

text \<open>Content parts and messages as the JSON objects they are.\<close>

definition part_json :: "ContentPart \<Rightarrow> json" where
  "part_json p = JObj ([(''type'', JStr (case part_type p of PART_TEXT \<Rightarrow> ''text'' | PART_IMAGE_URL \<Rightarrow> ''image_url''))]
     @ json_opt ''text'' (map_option JStr (part_text p))
     @ json_opt ''image_url'' (map_option (\<lambda>u. JObj [(''url'', JStr u)]) (part_image_url p)))"

definition content_json :: "MessageContent \<Rightarrow> json" where
  "content_json c = (case c of ContentText s \<Rightarrow> JStr s | ContentParts ps \<Rightarrow> JArr (map part_json ps))"

definition message_json :: "ChatCompletionMessage \<Rightarrow> json" where
  "message_json m = JObj [(''role'', JStr (role_string (ccm_role m))), (''content'', content_json (ccm_content m))]"

definition playgroundMessages :: "Message list \<Rightarrow> ChatCompletionMessage list" where
  "playgroundMessages messages = map formatMessageForAPI (filter isValidMessage messages)"

section \<open>Parameters\<close>

text \<open>The property names a protocol uses; an absent or empty name switches the parameter off.\<close>

record ScalarKeys =
  sk_temperature :: "string option"
  sk_topP :: "string option"
  sk_maxTokens :: "string option"
  sk_frequencyPenalty :: "string option"
  sk_presencePenalty :: "string option"
  sk_seed :: "string option"

definition set_if :: "bool \<Rightarrow> string option \<Rightarrow> json \<Rightarrow> payload \<Rightarrow> payload" where
  \<comment> \<open>\<open>if (enabled && key) payload[key] = value\<close>\<close>
  "set_if enabled key v payload =
     (if enabled \<and> opt_str key \<noteq> [] then AList.update (opt_str key) v payload else payload)"

definition applyScalarParameters ::
  "payload \<Rightarrow> PlaygroundConfig \<Rightarrow> ParameterEnabled \<Rightarrow> ScalarKeys \<Rightarrow> payload" where
  "applyScalarParameters payload config pe keys =
     (let p1 = set_if (pe_temperature pe) (sk_temperature keys) (JNum (cfg_temperature config)) payload;
          p2 = set_if (pe_top_p pe) (sk_topP keys) (JNum (cfg_top_p config)) p1;
          p3 = set_if (pe_max_tokens pe) (sk_maxTokens keys) (JNum (cfg_max_tokens config)) p2;
          p4 = set_if (pe_frequency_penalty pe) (sk_frequencyPenalty keys) (JNum (cfg_frequency_penalty config)) p3;
          p5 = set_if (pe_presence_penalty pe) (sk_presencePenalty keys) (JNum (cfg_presence_penalty config)) p4
      in set_if (pe_seed pe \<and> cfg_seed config \<noteq> None) (sk_seed keys) (JNum (the (cfg_seed config))) p5)"

section \<open>Content of the protocols\<close>

definition splitSystemStep ::
  "string list \<times> ChatCompletionMessage list \<Rightarrow> ChatCompletionMessage \<Rightarrow>
   string list \<times> ChatCompletionMessage list" where
  "splitSystemStep acc message =
     (case acc of (instructions, rest) \<Rightarrow>
        if ccm_role message = SYSTEM then
          (case ccm_content message of
             ContentText s \<Rightarrow> if js_trim s \<noteq> [] then (instructions @ [s], rest) else (instructions, rest)
           | ContentParts _ \<Rightarrow> (instructions, rest))
        else (instructions, rest @ [message]))"

definition splitSystemMessages :: "ChatCompletionMessage list \<Rightarrow> string \<times> ChatCompletionMessage list" where
  "splitSystemMessages messages =
     (let (instructions, rest) = foldl splitSystemStep ([], []) messages
      in (js_join [CHR 0x0A, CHR 0x0A] instructions, rest))"

definition messageText :: "MessageContent \<Rightarrow> string" where
  "messageText content =
     (case content of
        ContentText s \<Rightarrow> s
      | ContentParts ps \<Rightarrow> js_join [CHR 0x0A]
          (map (\<lambda>p. opt_str (part_text p))
            (filter (\<lambda>p. part_type p = PART_TEXT \<and> opt_str (part_text p) \<noteq> []) ps)))"

definition anthropicPart :: "ContentPart \<Rightarrow> json option" where
  "anthropicPart part =
     (if part_type part = PART_TEXT then
        (if opt_str (part_text part) \<noteq> []
         then Some (JObj [(''type'', JStr ''text''), (''text'', JStr (opt_str (part_text part)))]) else None)
      else case parseImageDataUrl (nullish (part_image_url part) []) of
          None \<Rightarrow> None
        | Some parsed \<Rightarrow> Some (JObj [(''type'', JStr ''image''), (''source'', JObj [(''type'', JStr ''base64''),
            (''media_type'', JStr (piu_mediaType parsed)), (''data'', JStr (piu_data parsed))])]))"

definition toAnthropicContent :: "MessageContent \<Rightarrow> json" where
  "toAnthropicContent content =
     (case content of
        ContentText s \<Rightarrow> JStr s
      | ContentParts ps \<Rightarrow>
          let parts = List.map_filter anthropicPart ps
          in if length parts > 0 then JArr parts else JStr (messageText content))"

definition geminiPart :: "ContentPart \<Rightarrow> json option" where
  "geminiPart part =
     (if part_type part = PART_TEXT then
        (if opt_str (part_text part) \<noteq> []
         then Some (JObj [(''text'', JStr (opt_str (part_text part)))]) else None)
      else case parseImageDataUrl (nullish (part_image_url part) []) of
          None \<Rightarrow> None
        | Some parsed \<Rightarrow> Some (JObj [(''inlineData'', JObj [(''mimeType'', JStr (piu_mediaType parsed)),
            (''data'', JStr (piu_data parsed))])]))"

definition toGeminiParts :: "MessageContent \<Rightarrow> json list" where
  "toGeminiParts content =
     (case content of
        ContentText s \<Rightarrow> [JObj [(''text'', JStr s)]]
      | ContentParts ps \<Rightarrow>
          let parts = List.map_filter geminiPart ps
          in if length parts > 0 then parts else [JObj [(''text'', JStr (messageText content))]])"

definition responsesPart :: "ContentPart \<Rightarrow> json option" where
  "responsesPart part =
     (if part_type part = PART_TEXT then
        (if opt_str (part_text part) \<noteq> []
         then Some (JObj [(''type'', JStr ''input_text''), (''text'', JStr (opt_str (part_text part)))]) else None)
      else if opt_str (part_image_url part) \<noteq> []
      then Some (JObj [(''type'', JStr ''input_image''), (''image_url'', JStr (opt_str (part_image_url part)))])
      else None)"

definition toResponsesContent :: "MessageContent \<Rightarrow> json" where
  "toResponsesContent content =
     (case content of
        ContentText s \<Rightarrow> JStr s
      | ContentParts ps \<Rightarrow>
          let parts = List.map_filter responsesPart ps
          in if length parts > 0 then JArr parts else JStr (messageText content))"

section \<open>Payloads\<close>

definition openai_keys :: ScalarKeys where
  "openai_keys = \<lparr>sk_temperature = Some ''temperature'', sk_topP = Some ''top_p'',
     sk_maxTokens = Some ''max_tokens'', sk_frequencyPenalty = Some ''frequency_penalty'',
     sk_presencePenalty = Some ''presence_penalty'', sk_seed = Some ''seed''\<rparr>"

definition responses_keys :: ScalarKeys where
  "responses_keys = \<lparr>sk_temperature = Some ''temperature'', sk_topP = Some ''top_p'',
     sk_maxTokens = Some ''max_output_tokens'', sk_frequencyPenalty = None, sk_presencePenalty = None,
     sk_seed = None\<rparr>"

definition anthropic_keys :: ScalarKeys where
  "anthropic_keys = \<lparr>sk_temperature = Some ''temperature'', sk_topP = Some ''top_p'',
     sk_maxTokens = None, sk_frequencyPenalty = None, sk_presencePenalty = None, sk_seed = None\<rparr>"

definition gemini_keys :: ScalarKeys where
  "gemini_keys = \<lparr>sk_temperature = Some ''temperature'', sk_topP = Some ''topP'',
     sk_maxTokens = Some ''maxOutputTokens'', sk_frequencyPenalty = None, sk_presencePenalty = None,
     sk_seed = None\<rparr>"

definition buildOpenAIPayload ::
  "ChatCompletionMessage list \<Rightarrow> PlaygroundConfig \<Rightarrow> ParameterEnabled \<Rightarrow> payload" where
  "buildOpenAIPayload messages config pe =
     applyScalarParameters
       [(''model'', JStr (cfg_model config)), (''messages'', JArr (map message_json messages)),
        (''stream'', JBool (cfg_stream config))] config pe openai_keys"

definition buildResponsesPayload ::
  "ChatCompletionMessage list \<Rightarrow> PlaygroundConfig \<Rightarrow> ParameterEnabled \<Rightarrow> payload" where
  "buildResponsesPayload messages config pe =
     (let (instructions, rest) = splitSystemMessages messages;
          payload = [(''model'', JStr (cfg_model config)),
            (''input'', JArr (map (\<lambda>m. JObj [(''role'', JStr (role_string (ccm_role m))),
               (''content'', toResponsesContent (ccm_content m))]) rest)),
            (''stream'', JBool (cfg_stream config))];
          payload1 = (if instructions \<noteq> [] then AList.update ''instructions'' (JStr instructions) payload else payload)
      in applyScalarParameters payload1 config pe responses_keys)"

definition buildAnthropicPayload ::
  "ChatCompletionMessage list \<Rightarrow> PlaygroundConfig \<Rightarrow> ParameterEnabled \<Rightarrow> payload" where
  "buildAnthropicPayload messages config pe =
     (let (instructions, rest) = splitSystemMessages messages;
          payload = [(''model'', JStr (cfg_model config)),
            (''messages'', JArr (map (\<lambda>m. JObj [(''role'', JStr (role_string (ccm_role m))),
               (''content'', toAnthropicContent (ccm_content m))]) rest)),
            (''max_tokens'', JNum (cfg_max_tokens config)), (''stream'', JBool (cfg_stream config))];
          payload1 = (if instructions \<noteq> [] then AList.update ''system'' (JStr instructions) payload else payload)
      in applyScalarParameters payload1 config pe anthropic_keys)"

definition buildGeminiPayload ::
  "ChatCompletionMessage list \<Rightarrow> PlaygroundConfig \<Rightarrow> ParameterEnabled \<Rightarrow> payload" where
  "buildGeminiPayload messages config pe =
     (let (instructions, rest) = splitSystemMessages messages;
          generationConfig = applyScalarParameters [] config pe gemini_keys;
          payload = [(''contents'', JArr (map (\<lambda>m. JObj
               [(''role'', JStr (if ccm_role m = ASSISTANT then ''model'' else ''user'')),
                (''parts'', JArr (toGeminiParts (ccm_content m)))]) rest))];
          payload1 = (if instructions \<noteq> [] then AList.update ''systemInstruction''
             (JObj [(''parts'', JArr [JObj [(''text'', JStr instructions)]])]) payload else payload)
      in if length generationConfig > 0
         then AList.update ''generationConfig'' (JObj generationConfig) payload1 else payload1)"

definition playgroundRequestUrl :: "PlaygroundEndpointType \<Rightarrow> string \<Rightarrow> bool \<Rightarrow> string" where
  "playgroundRequestUrl endpointType model stream =
     (case endpointType of
        EP_OPENAI_RESPONSE \<Rightarrow> API_RESPONSES
      | EP_ANTHROPIC \<Rightarrow> API_MESSAGES
      | EP_GEMINI \<Rightarrow> ''/pg/models/'' @ model @ '':'' @
          (if stream then ''streamGenerateContent'' else ''generateContent'')
      | EP_OPENAI \<Rightarrow> API_CHAT_COMPLETIONS)"

definition buildPlaygroundRequest ::
  "Message list \<Rightarrow> PlaygroundConfig \<Rightarrow> ParameterEnabled \<Rightarrow> PlaygroundRequest" where
  "buildPlaygroundRequest messages config pe =
     (let processedMessages = playgroundMessages messages;
          url = playgroundRequestUrl (cfg_endpointType config) (cfg_model config) (cfg_stream config)
      in (case cfg_endpointType config of
            EP_OPENAI_RESPONSE \<Rightarrow>
              \<lparr>req_url = url, req_payload = buildResponsesPayload processedMessages config pe\<rparr>
          | EP_ANTHROPIC \<Rightarrow>
              \<lparr>req_url = url, req_payload = buildAnthropicPayload processedMessages config pe\<rparr>
          | EP_GEMINI \<Rightarrow>
              \<lparr>req_url = url, req_payload = buildGeminiPayload processedMessages config pe\<rparr>
          | EP_OPENAI \<Rightarrow>
              \<lparr>req_url = url, req_payload = buildOpenAIPayload processedMessages config pe\<rparr>))"

section \<open>Parameters in the payload\<close>

lemma map_of_set_if:
  "map_of (set_if enabled key v p) k =
     (if enabled \<and> opt_str key \<noteq> [] \<and> k = opt_str key then Some v else map_of p k)"
  by (auto simp: set_if_def update_conv)

lemma map_of_update: "map_of (AList.update k v p) = (map_of p)(k \<mapsto> v)"
  by (rule update_conv')

lemma map_of_applyScalarParameters:
  "map_of (applyScalarParameters p config pe keys) k =
     (if pe_seed pe \<and> cfg_seed config \<noteq> None \<and> opt_str (sk_seed keys) \<noteq> [] \<and> k = opt_str (sk_seed keys)
      then Some (JNum (the (cfg_seed config)))
      else if pe_presence_penalty pe \<and> opt_str (sk_presencePenalty keys) \<noteq> [] \<and> k = opt_str (sk_presencePenalty keys)
      then Some (JNum (cfg_presence_penalty config))
      else if pe_frequency_penalty pe \<and> opt_str (sk_frequencyPenalty keys) \<noteq> [] \<and> k = opt_str (sk_frequencyPenalty keys)
      then Some (JNum (cfg_frequency_penalty config))
      else if pe_max_tokens pe \<and> opt_str (sk_maxTokens keys) \<noteq> [] \<and> k = opt_str (sk_maxTokens keys)
      then Some (JNum (cfg_max_tokens config))
      else if pe_top_p pe \<and> opt_str (sk_topP keys) \<noteq> [] \<and> k = opt_str (sk_topP keys)
      then Some (JNum (cfg_top_p config))
      else if pe_temperature pe \<and> opt_str (sk_temperature keys) \<noteq> [] \<and> k = opt_str (sk_temperature keys)
      then Some (JNum (cfg_temperature config))
      else map_of p k)"
  by (simp only: applyScalarParameters_def Let_def map_of_set_if conj_assoc)

lemmas scalar_keys_defs = openai_keys_def responses_keys_def anthropic_keys_def gemini_keys_def

definition sent_when :: "bool \<Rightarrow> jsnum \<Rightarrow> json option" where
  "sent_when enabled v = (if enabled then Some (JNum v) else None)"

lemma gemini_generationConfig:
  "jchain (map_of (buildGeminiPayload ms config pe) ''generationConfig'') k =
   map_of (applyScalarParameters [] config pe gemini_keys) k"
  by (simp add: buildGeminiPayload_def Let_def split_beta map_of_update)

lemmas parameter_lookup =
  map_of_applyScalarParameters scalar_keys_defs sent_when_def opt_str_def gemini_generationConfig
  buildOpenAIPayload_def buildResponsesPayload_def buildAnthropicPayload_def Let_def split_beta map_of_update


section \<open>Messages in the payload\<close>

definition system_text :: "ChatCompletionMessage \<Rightarrow> string option" where
  "system_text m = (case ccm_content m of
     ContentText s \<Rightarrow> if ccm_role m = SYSTEM \<and> js_trim s \<noteq> [] then Some s else None
   | ContentParts _ \<Rightarrow> None)"

lemma splitSystem_fold:
  "foldl splitSystemStep (instructions, rest) ms =
     (instructions @ List.map_filter system_text ms, rest @ filter (\<lambda>m. ccm_role m \<noteq> SYSTEM) ms)"
  by (induction ms arbitrary: instructions rest)
     (auto simp: splitSystemStep_def system_text_def List.map_filter_simps split: MessageContent.split)

lemma splitSystemMessages_eq:
  "splitSystemMessages ms =
     (js_join [CHR 0x0A, CHR 0x0A] (List.map_filter system_text ms), filter (\<lambda>m. ccm_role m \<noteq> SYSTEM) ms)"
  by (simp add: splitSystemMessages_def splitSystem_fold)

lemma system_text_nonempty: "x \<in> set (List.map_filter system_text ms) \<Longrightarrow> x \<noteq> []"
proof -
  have "system_text m \<noteq> Some []" for m
    by (cases "ccm_content m") (auto simp: system_text_def js_trim_def)
  then show "x \<in> set (List.map_filter system_text ms) \<Longrightarrow> x \<noteq> []" by (auto simp: set_map_filter)
qed

lemma join_eq_Nil: "[] \<notin> set xs \<Longrightarrow> js_join sep xs = [] \<longleftrightarrow> xs = []"
  by (cases xs) (auto simp: js_join_Cons)

lemma instructions_empty:
  "js_join sep (List.map_filter system_text ms) = [] \<longleftrightarrow> List.map_filter system_text ms = []"
  by (rule join_eq_Nil) (blast dest: system_text_nonempty)

definition system_instructions :: "ChatCompletionMessage list \<Rightarrow> string option" where
  "system_instructions ms =
     (let texts = List.map_filter system_text ms in
      if texts = [] then None else Some (js_join [CHR 0x0A, CHR 0x0A] texts))"

text \<open>
  C34. System messages: the OpenAI protocol gets all messages in their order; the other three
  get the messages of the user and the assistant in their order and no system message, and
  the texts of the system messages, separated by blank lines, as their instructions, which
  are left out when there are none.
\<close>

theorem payload_messages:
  "map_of (buildOpenAIPayload ms config pe) ''messages'' = Some (JArr (map message_json ms)) \<and>
   (let rest = filter (\<lambda>m. ccm_role m \<noteq> SYSTEM) ms; ins = system_instructions ms in
     map_of (buildResponsesPayload ms config pe) ''input'' = Some (JArr (map (\<lambda>m. JObj
       [(''role'', JStr (role_string (ccm_role m))), (''content'', toResponsesContent (ccm_content m))]) rest)) \<and>
     map_of (buildResponsesPayload ms config pe) ''instructions'' = map_option JStr ins \<and>
     map_of (buildAnthropicPayload ms config pe) ''messages'' = Some (JArr (map (\<lambda>m. JObj
       [(''role'', JStr (role_string (ccm_role m))), (''content'', toAnthropicContent (ccm_content m))]) rest)) \<and>
     map_of (buildAnthropicPayload ms config pe) ''system'' = map_option JStr ins \<and>
     map_of (buildGeminiPayload ms config pe) ''contents'' = Some (JArr (map (\<lambda>m. JObj
       [(''role'', JStr (if ccm_role m = ASSISTANT then ''model'' else ''user'')),
        (''parts'', JArr (toGeminiParts (ccm_content m)))]) rest)) \<and>
     map_of (buildGeminiPayload ms config pe) ''systemInstruction'' =
       map_option (\<lambda>i. JObj [(''parts'', JArr [JObj [(''text'', JStr i)]])]) ins)"
  unfolding Let_def system_instructions_def
  by (intro conjI; simp add: parameter_lookup buildGeminiPayload_def splitSystemMessages_eq instructions_empty)

lemma parseImageDataUrl_trim [simp]: "parseImageDataUrl (js_trim url) = parseImageDataUrl url"
  by (simp add: parseImageDataUrl_def js_trim_idem)

lemma parseImageDataUrl_nonblank: "parseImageDataUrl url = Some p \<Longrightarrow> js_trim url \<noteq> []"
  by (auto simp: parseImageDataUrl_def strip_prefix_def)

lemma content_of_images:
  assumes "urls \<noteq> []" and "\<forall>url \<in> set urls. parseImageDataUrl url = Some (img url)"
  shows "buildMessageContent s urls = ContentParts
    ((if s \<noteq> [] then [\<lparr>part_type = PART_TEXT, part_text = Some s, part_image_url = None\<rparr>] else []) @
     map (\<lambda>url. \<lparr>part_type = PART_IMAGE_URL, part_text = None, part_image_url = Some (js_trim url)\<rparr>) urls)"
proof -
  have "filter (\<lambda>url. js_trim url \<noteq> []) urls = urls"
    using assms(2) parseImageDataUrl_nonblank by (auto intro!: filter_True)
  then show ?thesis using assms(1) by (simp add: buildMessageContent_def)
qed

text \<open>
  A user message with images that were accepted on input reaches every protocol whole:
  its text, if any, comes first, and then every image in order, with its media type and data
  where the protocol takes them apart and with its trimmed URL where it does not.
\<close>

theorem payload_images:
  assumes "urls \<noteq> []" and "\<forall>url \<in> set urls. parseImageDataUrl url = Some (img url)"
  shows "toAnthropicContent (buildMessageContent s urls) = JArr
      ((if s \<noteq> [] then [JObj [(''type'', JStr ''text''), (''text'', JStr s)]] else []) @
       map (\<lambda>url. JObj [(''type'', JStr ''image''), (''source'', JObj [(''type'', JStr ''base64''),
         (''media_type'', JStr (piu_mediaType (img url))), (''data'', JStr (piu_data (img url)))])]) urls) \<and>
    toGeminiParts (buildMessageContent s urls) =
      (if s \<noteq> [] then [JObj [(''text'', JStr s)]] else []) @
       map (\<lambda>url. JObj [(''inlineData'', JObj [(''mimeType'', JStr (piu_mediaType (img url))),
         (''data'', JStr (piu_data (img url)))])]) urls \<and>
    toResponsesContent (buildMessageContent s urls) = JArr
      ((if s \<noteq> [] then [JObj [(''type'', JStr ''input_text''), (''text'', JStr s)]] else []) @
       map (\<lambda>url. JObj [(''type'', JStr ''input_image''), (''image_url'', JStr (js_trim url))]) urls)"
proof -
  let ?ps = "map (\<lambda>url. \<lparr>part_type = PART_IMAGE_URL, part_text = None, part_image_url = Some (js_trim url)\<rparr>) urls"
  have "List.map_filter anthropicPart ?ps = map (\<lambda>url. JObj [(''type'', JStr ''image''),
      (''source'', JObj [(''type'', JStr ''base64''), (''media_type'', JStr (piu_mediaType (img url))),
       (''data'', JStr (piu_data (img url)))])]) urls"
    using assms(2) by (intro map_filter_map_Some) (simp add: anthropicPart_def)
  moreover have "List.map_filter geminiPart ?ps = map (\<lambda>url. JObj [(''inlineData'', JObj
      [(''mimeType'', JStr (piu_mediaType (img url))), (''data'', JStr (piu_data (img url)))])]) urls"
    using assms(2) by (intro map_filter_map_Some) (simp add: geminiPart_def)
  moreover have "List.map_filter responsesPart ?ps = map (\<lambda>url. JObj [(''type'', JStr ''input_image''),
      (''image_url'', JStr (js_trim url))]) urls"
    using assms(2) parseImageDataUrl_nonblank
    by (intro map_filter_map_Some) (auto simp add: responsesPart_def opt_str_def)
  ultimately show ?thesis
    unfolding content_of_images [OF assms]
    using assms(1)
    by (simp add: toAnthropicContent_def toGeminiParts_def toResponsesContent_def List.map_filter_simps
        anthropicPart_def [of "\<lparr>part_type = PART_TEXT, part_text = Some s, part_image_url = None\<rparr>"]
        geminiPart_def [of "\<lparr>part_type = PART_TEXT, part_text = Some s, part_image_url = None\<rparr>"]
        responsesPart_def [of "\<lparr>part_type = PART_TEXT, part_text = Some s, part_image_url = None\<rparr>"] opt_str_def)
qed

theorem payload_images_witness:
  "toGeminiParts (buildMessageContent ''see'' ['' data:image/png;base64,QUJD'']) =
     [JObj [(''text'', JStr ''see'')],
      JObj [(''inlineData'', JObj [(''mimeType'', JStr ''image/png''), (''data'', JStr ''QUJD'')])]]"
proof -
  have "parseImageDataUrl '' data:image/png;base64,QUJD'' =
      Some \<lparr>piu_data = ''QUJD'', piu_mediaType = ''image/png''\<rparr>"
    by code_simp
  then show ?thesis
    using payload_images [of "['' data:image/png;base64,QUJD'']"
        "\<lambda>_. \<lparr>piu_data = ''QUJD'', piu_mediaType = ''image/png''\<rparr>" "''see''"]
    by simp
qed

section \<open>The request on the wire\<close>

definition config_ok :: "PlaygroundConfig \<Rightarrow> bool" where
  "config_ok c \<longleftrightarrow> is_decimal (cfg_temperature c) \<and> is_decimal (cfg_top_p c) \<and>
     is_decimal (cfg_max_tokens c) \<and> is_decimal (cfg_frequency_penalty c) \<and>
     is_decimal (cfg_presence_penalty c) \<and> (\<forall>s. cfg_seed c = Some s \<longrightarrow> is_decimal s)"

lemma json_ok_update:
  assumes "json_ok (JObj p)" and "json_ok v"
  shows "json_ok (JObj (AList.update k v p))"
proof -
  have "distinct (map fst (AList.update k v p))"
    using assms(1) by (simp add: distinct_update)
  moreover have "\<forall>kv \<in> set (AList.update k v p). snd kv = v \<or> kv \<in> set p"
    by (induction p) auto
  ultimately show ?thesis using assms by fastforce
qed

lemma json_ok_set_if:
  "json_ok (JObj p) \<Longrightarrow> (enabled \<Longrightarrow> json_ok v) \<Longrightarrow> json_ok (JObj (set_if enabled key v p))"
  unfolding set_if_def by (cases "enabled \<and> opt_str key \<noteq> []") (simp_all only: json_ok_update if_True if_False simp_thms)

lemma json_ok_applyScalarParameters:
  assumes "json_ok (JObj p)" and "config_ok config"
  shows "json_ok (JObj (applyScalarParameters p config pe keys))"
  unfolding applyScalarParameters_def Let_def
  using assms by (intro json_ok_set_if) (auto simp: config_ok_def)

lemma json_ok_map_filter:
  "(\<And>x y. f x = Some y \<Longrightarrow> json_ok y) \<Longrightarrow> \<forall>y \<in> set (List.map_filter f xs). json_ok y"
  by (auto simp: set_map_filter)

lemma json_ok_content [simp]:
  "json_ok (content_json c)" "json_ok (toAnthropicContent c)" "json_ok (toResponsesContent c)"
  "\<forall>y \<in> set (toGeminiParts c). json_ok y"
proof -
  have part: "json_ok (part_json p)" for p
    by (cases "part_text p"; cases "part_image_url p") (simp_all add: part_json_def json_opt_def)
  then show "json_ok (content_json c)" by (cases c) (simp_all add: content_json_def)
  have "anthropicPart x = Some y \<Longrightarrow> json_ok y" "geminiPart x = Some y \<Longrightarrow> json_ok y"
    "responsesPart x = Some y \<Longrightarrow> json_ok y" for x y
    by (auto simp: anthropicPart_def geminiPart_def responsesPart_def split: if_splits option.splits)
  note parts = json_ok_map_filter [of anthropicPart, OF this(1)] json_ok_map_filter [of geminiPart, OF this(2)]
    json_ok_map_filter [of responsesPart, OF this(3)]
  show "json_ok (toAnthropicContent c)" "json_ok (toResponsesContent c)"
    "\<forall>y \<in> set (toGeminiParts c). json_ok y"
    using parts by (cases c; simp add: toAnthropicContent_def toResponsesContent_def toGeminiParts_def Let_def)+
qed

lemma json_ok_payloads:
  assumes "config_ok config"
  shows "json_ok (JObj (buildOpenAIPayload ms config pe))"
    "json_ok (JObj (buildResponsesPayload ms config pe))"
    "json_ok (JObj (buildAnthropicPayload ms config pe))"
    "json_ok (JObj (buildGeminiPayload ms config pe))"
proof -
  have mt: "is_decimal (cfg_max_tokens config)" using assms by (simp add: config_ok_def)
  show "json_ok (JObj (buildOpenAIPayload ms config pe))"
    unfolding buildOpenAIPayload_def
    by (rule json_ok_applyScalarParameters [OF _ assms]) (simp add: message_json_def)
  show "json_ok (JObj (buildResponsesPayload ms config pe))"
    unfolding buildResponsesPayload_def Let_def split_beta
    by (rule json_ok_applyScalarParameters [OF _ assms]) (simp add: json_ok_update)
  show "json_ok (JObj (buildAnthropicPayload ms config pe))"
    unfolding buildAnthropicPayload_def Let_def split_beta
    by (rule json_ok_applyScalarParameters [OF _ assms]) (simp add: json_ok_update mt)
  have "json_ok (JObj (applyScalarParameters [] config pe gemini_keys))"
    by (rule json_ok_applyScalarParameters [OF _ assms]) simp
  then show "json_ok (JObj (buildGeminiPayload ms config pe))"
    unfolding buildGeminiPayload_def Let_def split_beta
    by (auto simp del: json_ok.simps(3) intro!: json_ok_update) (simp_all)
qed


lemma default_config_ok: "config_ok DEFAULT_CONFIG"
proof -
  have "is_decimal (7 / 10)" "is_decimal 1" "is_decimal 4096" "is_decimal 0" by code_simp+
  then show ?thesis by (simp add: config_ok_def DEFAULT_CONFIG_def)
qed


end
