(* ===== verification/Chat_Handler.thy ===== *)
theory Chat_Handler
  imports Stream_Controller Payload
begin

text \<open>
  The chat handler, \<open>hooks/use-chat-handler.ts\<close>: it sends requests, collects the chunks of a
  stream and writes them into the last message once per animation frame, and completes, fails
  or stops the answer. The refs of the hook are fields of the state.

  \<open>onMessageUpdate\<close> hands an updater to React. React runs updaters when it renders, in order,
  unless none is waiting, when it may run the first one at once: the argument \<open>eager\<close> of an
  operation tells, for each of its updates in order, whether React does so. An updater reads
  \<open>requestGenerationRef\<close> when it runs, so it is a function of the generation at that time.

  The argument \<open>clk\<close> gives the clocks of the updaters that an operation creates: site 0 for
  the reasoning chunk, 1 for the content chunk and 2 for the completion or the error.
\<close>

section \<open>State\<close>

type_synonym updater = "nat \<Rightarrow> Message list \<Rightarrow> Message list"

type_synonym clocks = "nat \<Rightarrow> clock"

record PendingStreamChunks =
  psc_generation :: nat
  psc_content :: string
  psc_reasoning :: string

record ChatState =
  ch_generation :: nat
  ch_pending :: PendingStreamChunks
  ch_timer :: "nat option"
  ch_abort :: "nat option"
  ch_aborted :: "nat list"
  ch_requesting :: bool
  ch_stream :: StreamCtl
  ch_owner :: "(nat \<times> nat) list"
  ch_requests :: "(nat \<times> PlaygroundRequest) list"
  ch_toasts :: "string list"
  ch_messages :: "Message list"
  ch_queue :: "updater list"

definition initial_chat :: "Message list \<Rightarrow> ChatState" where
  "initial_chat messages = \<lparr>ch_generation = 0,
     ch_pending = \<lparr>psc_generation = 0, psc_content = [], psc_reasoning = []\<rparr>,
     ch_timer = None, ch_abort = None, ch_aborted = [], ch_requesting = False, ch_stream = initial_ctl,
     ch_owner = [], ch_requests = [], ch_toasts = [], ch_messages = messages, ch_queue = []\<rparr>"

section \<open>React\<close>

definition onMessageUpdate :: "bool \<Rightarrow> updater \<Rightarrow> ChatState \<Rightarrow> ChatState" where
  "onMessageUpdate eager f st =
     (if eager \<and> ch_queue st = []
      then let result = f (ch_generation st) (ch_messages st) in st\<lparr>ch_queue := [\<lambda>_ _. result]\<rparr>
      else st\<lparr>ch_queue := ch_queue st @ [f]\<rparr>)"

definition run_updaters :: "nat \<Rightarrow> updater list \<Rightarrow> Message list \<Rightarrow> Message list" where
  "run_updaters g fs ms = foldl (\<lambda>ms f. f g ms) ms fs"

definition render_messages :: "ChatState \<Rightarrow> ChatState" where
  "render_messages st =
     st\<lparr>ch_messages := run_updaters (ch_generation st) (ch_queue st) (ch_messages st), ch_queue := []\<rparr>"

section \<open>Chunks\<close>

definition mergePendingStreamChunk :: "string \<Rightarrow> string \<Rightarrow> string" where
  "mergePendingStreamChunk currentChunk nextChunk =
     (if currentChunk = [] \<or> \<not> prefix currentChunk nextChunk then currentChunk @ nextChunk else nextChunk)"

definition no_chunks :: "nat \<Rightarrow> PendingStreamChunks" where
  "no_chunks generation = \<lparr>psc_generation = generation, psc_content = [], psc_reasoning = []\<rparr>"

definition discardPendingStreamUpdates :: "nat \<Rightarrow> ChatState \<Rightarrow> ChatState" where
  "discardPendingStreamUpdates generation st = st\<lparr>ch_timer := None, ch_pending := no_chunks generation\<rparr>"

text \<open>An updater that checks the generation and then changes the last assistant message.\<close>

definition guarded_update :: "nat \<Rightarrow> (Message \<Rightarrow> Message) \<Rightarrow> updater" where
  "guarded_update generation f current prev =
     (if generation \<noteq> current then prev else updateLastAssistantMessage prev f)"

definition apply_pending :: "clocks \<Rightarrow> PendingStreamChunks \<Rightarrow> Message \<Rightarrow> Message" where
  "apply_pending clk pendingChunks message =
     (let m1 = (if psc_reasoning pendingChunks \<noteq> []
            then applyStreamingChunk (clk 0) message REASONING (psc_reasoning pendingChunks) else message)
      in if psc_content pendingChunks \<noteq> []
         then applyStreamingChunk (clk 1) m1 CONTENT (psc_content pendingChunks) else m1)"

definition flushStreamUpdates :: "bool \<Rightarrow> clocks \<Rightarrow> nat \<Rightarrow> ChatState \<Rightarrow> ChatState" where
  "flushStreamUpdates eager clk generation st =
     (if generation \<noteq> ch_generation st then st
      else
        let st1 = st\<lparr>ch_timer := None\<rparr>;
            pendingChunks = ch_pending st1
        in if psc_generation pendingChunks \<noteq> generation then st1
           else if psc_reasoning pendingChunks = [] \<and> psc_content pendingChunks = [] then st1
           else onMessageUpdate eager (guarded_update generation (apply_pending clk pendingChunks))
                  (st1\<lparr>ch_pending := no_chunks generation\<rparr>))"

definition scheduleStreamFlush :: "nat \<Rightarrow> ChatState \<Rightarrow> ChatState" where
  "scheduleStreamFlush generation st =
     (if generation \<noteq> ch_generation st then st
      else if ch_timer st \<noteq> None then st
      else st\<lparr>ch_timer := Some generation\<rparr>)"

text \<open>The callback of \<open>requestAnimationFrame\<close>, with the generation it was scheduled for.\<close>

definition animation_frame :: "bool \<Rightarrow> clocks \<Rightarrow> ChatState \<Rightarrow> ChatState" where
  "animation_frame eager clk st =
     (case ch_timer st of
        None \<Rightarrow> st
      | Some generation \<Rightarrow> flushStreamUpdates eager clk generation (st\<lparr>ch_timer := None\<rparr>))"

section \<open>Events of a stream\<close>

definition KNOWN_ERROR_MESSAGES :: "string list" where
  "KNOWN_ERROR_MESSAGES = [API_REQUEST_ERROR, NETWORK_ERROR, PARSE_ERROR, STREAM_START_ERROR,
     CONNECTION_CLOSED, INTERRUPTED]"

definition getDisplayError :: "(string \<Rightarrow> string) \<Rightarrow> string \<Rightarrow> string" where
  "getDisplayError t error =
     (if error \<in> set KNOWN_ERROR_MESSAGES then t error
      else if suffix ('': '' @ CONNECTION_CLOSED) error
      then take (length error - length CONNECTION_CLOSED) error @ t CONNECTION_CLOSED
      else error)"

definition handleStreamUpdate :: "nat \<Rightarrow> StreamUpdateType \<Rightarrow> string \<Rightarrow> ChatState \<Rightarrow> ChatState" where
  "handleStreamUpdate generation ty chunk st =
     (if generation \<noteq> ch_generation st then st
      else if psc_generation (ch_pending st) \<noteq> generation then st
      else
        let p = ch_pending st;
            p1 = (case ty of
                REASONING \<Rightarrow> p\<lparr>psc_reasoning := mergePendingStreamChunk (psc_reasoning p) chunk\<rparr>
              | CONTENT \<Rightarrow> p\<lparr>psc_content := mergePendingStreamChunk (psc_content p) chunk\<rparr>)
        in scheduleStreamFlush generation (st\<lparr>ch_pending := p1\<rparr>))"

definition complete_unless_final :: "clock \<Rightarrow> Message \<Rightarrow> Message" where
  "complete_unless_final clk message =
     (if isAssistantMessageFinal message then message else completeAssistantMessage clk message)"

definition handleStreamComplete :: "(nat \<Rightarrow> bool) \<Rightarrow> clocks \<Rightarrow> nat \<Rightarrow> ChatState \<Rightarrow> ChatState" where
  "handleStreamComplete eager clk generation st =
     (if generation \<noteq> ch_generation st then st
      else onMessageUpdate (eager 1) (guarded_update generation (complete_unless_final (clk 2)))
             ((flushStreamUpdates (eager 0) clk generation st)\<lparr>ch_requesting := False\<rparr>))"

definition error_update :: "clock \<Rightarrow> nat \<Rightarrow> string \<Rightarrow> string option \<Rightarrow> string \<Rightarrow> updater" where
  "error_update clk generation errorMessage errorCode title current prev =
     (if generation \<noteq> current then prev
      else updateAssistantMessageWithError clk prev errorMessage errorCode title)"

definition handleStreamError ::
  "(string \<Rightarrow> string) \<Rightarrow> (nat \<Rightarrow> bool) \<Rightarrow> clocks \<Rightarrow> nat \<Rightarrow> string \<Rightarrow> string option \<Rightarrow> ChatState \<Rightarrow> ChatState" where
  "handleStreamError t eager clk generation error errorCode st =
     (if generation \<noteq> ch_generation st then st
      else
        let st1 = (flushStreamUpdates (eager 0) clk generation st)\<lparr>ch_requesting := False\<rparr>;
            displayError = getDisplayError t error;
            st2 = st1\<lparr>ch_toasts := ch_toasts st1 @ [displayError]\<rparr>
        in onMessageUpdate (eager 1)
             (error_update (clk 2) generation displayError errorCode (t API_REQUEST_ERROR)) st2)"

text \<open>
  The callbacks that \<open>sendStreamingChat\<close> gives to the controller: those of the controller's
  request \<open>r\<close> belong to the generation \<open>g\<close> of the handler. Chunks, errors and codes are
  strings by their declared types; other values are outside the model.
\<close>

definition dispatch_callback ::
  "(string \<Rightarrow> string) \<Rightarrow> (nat \<Rightarrow> bool) \<Rightarrow> clocks \<Rightarrow> js_error + ChatState \<Rightarrow> nat \<times> Callback \<Rightarrow> js_error + ChatState" where
  "dispatch_callback t eager clk res entry =
     (case res of
        Inl e \<Rightarrow> Inl e
      | Inr st \<Rightarrow>
          (case (map_of (ch_owner st) (fst entry), snd entry) of
             (None, _) \<Rightarrow> Inr st
           | (Some g, OnUpdate ty (JStr chunk)) \<Rightarrow> Inr (handleStreamUpdate g ty chunk st)
           | (Some g, OnUpdate _ _) \<Rightarrow> Inl IllTyped
           | (Some g, OnComplete) \<Rightarrow> Inr (handleStreamComplete eager clk g st)
           | (Some g, OnError (JStr e) None) \<Rightarrow> Inr (handleStreamError t eager clk g e None st)
           | (Some g, OnError (JStr e) (Some (JStr code))) \<Rightarrow>
               Inr (handleStreamError t eager clk g e (Some code) st)
           | (Some g, OnError _ _) \<Rightarrow> Inl IllTyped))"

text \<open>An event of the controller, with the callbacks it makes.\<close>

definition controller_event ::
  "(string \<Rightarrow> string) \<Rightarrow> (nat \<Rightarrow> bool) \<Rightarrow> clocks \<Rightarrow> (StreamCtl \<Rightarrow> StreamCtl) \<Rightarrow> ChatState \<Rightarrow> js_error + ChatState" where
  "controller_event t eager clk ev st =
     (let c = ev (ch_stream st)
      in foldl (dispatch_callback t eager clk) (Inr (st\<lparr>ch_stream := c\<rparr>))
           (drop (length (sc_log (ch_stream st))) (sc_log c)))"

section \<open>Requests\<close>

definition abort_current :: "ChatState \<Rightarrow> ChatState" where
  \<comment> \<open>\<open>abortControllerRef.current?.abort(); abortControllerRef.current = null\<close>\<close>
  "abort_current st =
     (case ch_abort st of
        None \<Rightarrow> st
      | Some a \<Rightarrow> st\<lparr>ch_aborted := ch_aborted st @ [a], ch_abort := None\<rparr>)"

definition stopStream :: "ChatState \<Rightarrow> ChatState" where
  "stopStream st = st\<lparr>ch_stream := stop_stream (ch_stream st)\<rparr>"

definition sendStreamingChat ::
  "PlaygroundConfig \<Rightarrow> ParameterEnabled \<Rightarrow> Message list \<Rightarrow> ChatState \<Rightarrow> ChatState" where
  "sendStreamingChat config pe messages st =
     (let generation = ch_generation st + 1;
          st1 = abort_current (st\<lparr>ch_generation := generation\<rparr>);
          st2 = (discardPendingStreamUpdates generation st1)\<lparr>ch_requesting := True\<rparr>;
          request = buildPlaygroundRequest messages config pe;
          c = send_start (ch_stream st2)
      in st2\<lparr>ch_stream := c, ch_owner := (sc_generation c, generation) # ch_owner st2,
             ch_requests := ch_requests st2 @ [(generation, request)]\<rparr>)"

text \<open>The abort controller of a plain request is known by the generation of the request.\<close>

definition sendNonStreamingChat ::
  "PlaygroundConfig \<Rightarrow> ParameterEnabled \<Rightarrow> Message list \<Rightarrow> ChatState \<Rightarrow> ChatState" where
  "sendNonStreamingChat config pe messages st =
     (let request = buildPlaygroundRequest messages config pe;
          generation = ch_generation st + 1;
          st1 = stopStream (st\<lparr>ch_generation := generation\<rparr>);
          st2 = abort_current (discardPendingStreamUpdates generation st1)
      in st2\<lparr>ch_abort := Some generation, ch_requesting := True,
             ch_requests := ch_requests st2 @ [(generation, request)]\<rparr>)"

definition finish_request :: "nat \<Rightarrow> ChatState \<Rightarrow> ChatState" where
  \<comment> \<open>the \<open>finally\<close> clause\<close>
  "finish_request generation st =
     (if ch_generation st = generation then st\<lparr>ch_abort := None, ch_requesting := False\<rparr> else st)"

definition response_update :: "clock \<Rightarrow> json option \<Rightarrow> Message \<Rightarrow> Message" where
  "response_update clk response message =
     (case applyChatCompletionResponse clk message response of
        Inr (Some updatedMessage) \<Rightarrow> updatedMessage
      | _ \<Rightarrow> message)"

definition well_typed_response :: "json option \<Rightarrow> bool" where
  "well_typed_response response \<longleftrightarrow>
     (case getPlaygroundAssistantOutput response of
        None \<Rightarrow> True
      | Some output \<Rightarrow> \<not> isl (typed_string (Some (pao_content output))) \<and>
          \<not> isl (typed_string (pao_reasoning output)))"

definition response_arrived ::
  "(string \<Rightarrow> string) \<Rightarrow> (nat \<Rightarrow> bool) \<Rightarrow> clocks \<Rightarrow> nat \<Rightarrow> json option \<Rightarrow> ChatState \<Rightarrow> js_error + ChatState" where
  "response_arrived t eager clk generation response st =
     (if generation \<in> set (ch_aborted st) \<or> ch_generation st \<noteq> generation
      then Inr (finish_request generation st)
      else if \<not> hasChatCompletionChoice response
      then Inr (finish_request generation
                 (handleStreamError t eager clk generation API_REQUEST_ERROR None st))
      else if \<not> well_typed_response response then Inl IllTyped
      else Inr (finish_request generation
                 (onMessageUpdate (eager 0) (guarded_update generation (response_update (clk 2) response)) st)))"

definition request_failed ::
  "(string \<Rightarrow> string) \<Rightarrow> (nat \<Rightarrow> bool) \<Rightarrow> clocks \<Rightarrow> nat \<Rightarrow> json option \<Rightarrow> ChatState \<Rightarrow> js_error + ChatState" where
  "request_failed t eager clk generation error st =
     (if generation \<in> set (ch_aborted st) \<or> ch_generation st \<noteq> generation
      then Inr (finish_request generation st)
      else
        let d = parseRequestErrorDetails error in
        (case (red_errorMessage d, typed_string (red_errorCode d)) of
           (JStr e, Inr code) \<Rightarrow>
             Inr (finish_request generation (handleStreamError t eager clk generation e code st))
         | _ \<Rightarrow> Inl IllTyped))"

definition sendChat :: "PlaygroundConfig \<Rightarrow> ParameterEnabled \<Rightarrow> Message list \<Rightarrow> ChatState \<Rightarrow> ChatState" where
  "sendChat config pe messages st =
     (if cfg_stream config then sendStreamingChat config pe messages st
      else sendNonStreamingChat config pe messages st)"

definition complete_if_pending :: "clock \<Rightarrow> Message \<Rightarrow> Message" where
  "complete_if_pending clk message =
     (if isAssistantMessagePending message then completeAssistantMessage clk message else message)"

definition stopGeneration :: "(nat \<Rightarrow> bool) \<Rightarrow> clocks \<Rightarrow> ChatState \<Rightarrow> ChatState" where
  "stopGeneration eager clk st =
     (let stoppedGeneration = ch_generation st;
          st1 = flushStreamUpdates (eager 0) clk stoppedGeneration st;
          idleGeneration = stoppedGeneration + 1;
          st2 = discardPendingStreamUpdates idleGeneration (st1\<lparr>ch_generation := idleGeneration\<rparr>);
          st3 = (abort_current (stopStream st2))\<lparr>ch_requesting := False\<rparr>
      in onMessageUpdate (eager 1) (guarded_update idleGeneration (complete_if_pending (clk 2))) st3)"

definition isGenerating :: "ChatState \<Rightarrow> bool" where
  "isGenerating st \<longleftrightarrow> sc_streaming (ch_stream st) \<or> ch_requesting st"

text \<open>The clean-up when the component goes away, after which no frame is due.\<close>

definition unmount :: "ChatState \<Rightarrow> ChatState" where
  "unmount st =
     abort_current (st\<lparr>ch_generation := ch_generation st + 1, ch_timer := None,
       ch_stream := dispose (ch_stream st)\<rparr>)"

section \<open>What the operations leave alone\<close>

lemma onMessageUpdate_fields [simp]:
  "ch_generation (onMessageUpdate eager f st) = ch_generation st"
  "ch_pending (onMessageUpdate eager f st) = ch_pending st"
  "ch_timer (onMessageUpdate eager f st) = ch_timer st"
  "ch_requesting (onMessageUpdate eager f st) = ch_requesting st"
  "ch_stream (onMessageUpdate eager f st) = ch_stream st"
  "ch_messages (onMessageUpdate eager f st) = ch_messages st"
  by (simp_all add: onMessageUpdate_def Let_def)

lemma flushStreamUpdates_fields [simp]:
  "ch_generation (flushStreamUpdates eager clk g st) = ch_generation st"
  "ch_requesting (flushStreamUpdates eager clk g st) = ch_requesting st"
  "ch_stream (flushStreamUpdates eager clk g st) = ch_stream st"
  "ch_messages (flushStreamUpdates eager clk g st) = ch_messages st"
  by (simp_all add: flushStreamUpdates_def Let_def)

lemma abort_current_fields [simp]:
  "ch_generation (abort_current st) = ch_generation st"
  "ch_pending (abort_current st) = ch_pending st"
  "ch_timer (abort_current st) = ch_timer st"
  "ch_requesting (abort_current st) = ch_requesting st"
  "ch_stream (abort_current st) = ch_stream st"
  "ch_messages (abort_current st) = ch_messages st"
  "ch_queue (abort_current st) = ch_queue st"
  by (simp_all add: abort_current_def split: option.split)

lemma next_generation:
  "ch_generation (stopGeneration e clk st) = ch_generation st + 1"
  "ch_generation (sendChat config pe ms st) = ch_generation st + 1"
  "ch_generation (unmount st) = ch_generation st + 1"
  by (simp_all add: stopGeneration_def sendChat_def sendStreamingChat_def sendNonStreamingChat_def
      unmount_def Let_def discardPendingStreamUpdates_def stopStream_def)

section \<open>Stale generations\<close>

text \<open>
  The updates that the handler itself has queued, for a request up to the generation \<open>G\<close>. The
  others are replacements of the whole list by the page, and results that React had computed
  when the update was made.
\<close>

definition handler_update :: "nat \<Rightarrow> updater \<Rightarrow> bool" where
  "handler_update G f \<longleftrightarrow> (\<exists>g \<le> G. (\<exists>h. f = guarded_update g h) \<or>
     (\<exists>clk err code title. f = error_update clk g err code title))"

definition kept_updates :: "ChatState \<Rightarrow> updater list" where
  "kept_updates st = filter (\<lambda>f. \<not> handler_update (ch_generation st) f) (ch_queue st)"

lemma run_updaters_simps [simp]:
  "run_updaters g [] ms = ms"
  "run_updaters g (f # fs) ms = run_updaters g fs (f g ms)"
  "run_updaters g (fs @ fs') ms = run_updaters g fs' (run_updaters g fs ms)"
  by (simp_all add: run_updaters_def)

lemma handler_update_stale: "handler_update G f \<Longrightarrow> G < g \<Longrightarrow> f g ms = ms"
  by (auto simp: handler_update_def guarded_update_def error_update_def)

lemma run_kept_updates:
  "run_updaters (ch_generation st + 1) (ch_queue st) ms = run_updaters (ch_generation st + 1) (kept_updates st) ms"
proof -
  have "run_updaters (G + 1) fs ms = run_updaters (G + 1) (filter (\<lambda>f. \<not> handler_update G f) fs) ms" for G fs
    by (induction fs arbitrary: ms) (simp_all add: handler_update_stale)
  then show ?thesis by (simp add: kept_updates_def)
qed

lemma sendChat_queue: "ch_queue (sendChat config pe ms st) = ch_queue st" "ch_messages (sendChat config pe ms st) = ch_messages st"
  by (simp_all add: sendChat_def sendStreamingChat_def sendNonStreamingChat_def Let_def discardPendingStreamUpdates_def
      stopStream_def abort_current_def split: option.split)

text \<open>What the last flush of a stopped answer leaves: its result if React computes it at once.\<close>

lemma flush_late:
  "run_updaters (ch_generation st + 1) (ch_queue (flushStreamUpdates eager clk (ch_generation st) st)) (ch_messages st) =
     (if ch_queue st = [] \<and> eager
      then ch_messages (render_messages (flushStreamUpdates True clk (ch_generation st) st))
      else run_updaters (ch_generation st + 1) (kept_updates st) (ch_messages st))"
proof -
  have stale: "guarded_update (ch_generation st) f (Suc (ch_generation st)) ms = ms" for f ms
    by (simp add: guarded_update_def)
  show ?thesis
    using run_kept_updates [of st "ch_messages st"]
    by (auto simp: flushStreamUpdates_def onMessageUpdate_def render_messages_def Let_def stale)
qed

lemma stopGeneration_rendered:
  "ch_messages (render_messages (stopGeneration e clk st)) =
     updateLastAssistantMessage
       (run_updaters (ch_generation st + 1) (ch_queue (flushStreamUpdates (e 0) clk (ch_generation st) st)) (ch_messages st))
       (complete_if_pending (clk 2))"
  by (auto simp: stopGeneration_def onMessageUpdate_def render_messages_def guarded_update_def Let_def
      discardPendingStreamUpdates_def stopStream_def abort_current_def split: option.split)



end
