(* ===== verification/Chat_Streaming.thy ===== *)
theory Chat_Streaming
  imports Chat_Handler
begin

text \<open>
  What the chat handler makes of a stream: the chunks that arrive between two animation frames
  are merged, each frame hands one update to React, and React runs the updates when it renders.

  The abstraction is the list of messages that rendering now would give (\<open>view\<close>) together
  with the text that is still waiting for a frame. For chunks that cannot be mistaken for
  snapshots the text of the answer does not depend on when frames and renderings happen; for
  other chunks it does, and stopping loses what has not been rendered.
\<close>

section \<open>The view\<close>

definition view :: "ChatState \<Rightarrow> Message list" where
  "view st = run_updaters (ch_generation st) (ch_queue st) (ch_messages st)"

lemma view_onMessageUpdate: "view (onMessageUpdate eager f st) = f (ch_generation st) (view st)"
  by (simp add: view_def onMessageUpdate_def Let_def)

lemma view_render: "view (render_messages st) = view st" "ch_messages (render_messages st) = view st"
  by (simp_all add: view_def render_messages_def)

lemma view_frame [simp]:
  "view (st\<lparr>ch_timer := x\<rparr>) = view st" "view (st\<lparr>ch_pending := p\<rparr>) = view st"
  "view (st\<lparr>ch_requesting := b\<rparr>) = view st"
  by (simp_all add: view_def)

lemma updateLast_snoc:
  "msg_from m = ASSISTANT \<Longrightarrow> updateLastAssistantMessage (ms @ [m]) f = ms @ [f m]"
  by (simp add: updateLastAssistantMessage_def)

section \<open>Chunks that are no snapshots\<close>

text \<open>
  No chunk starts with a run of chunks right before it, and no run of chunks starts with all
  the text before it.
\<close>

definition run_text :: "string list \<Rightarrow> nat \<Rightarrow> nat \<Rightarrow> string" where
  "run_text cs i j = concat (take (j - i) (drop i cs))"

definition unambiguous :: "string \<Rightarrow> string list \<Rightarrow> bool" where
  "unambiguous s cs \<longleftrightarrow>
     (\<forall>j < length cs. \<forall>i \<le> j. run_text cs i j = [] \<or> \<not> prefix (run_text cs i j) (cs ! j)) \<and>
     (\<forall>j \<le> length cs. \<forall>i \<le> j. run_text cs i j = [] \<or> s @ run_text cs 0 i = [] \<or>
        \<not> prefix (s @ run_text cs 0 i) (run_text cs i j))"

datatype ChatEvent =
    EvUpdate StreamUpdateType string
  | EvFrame bool clocks
  | EvRender

fun chat_event :: "nat \<Rightarrow> ChatEvent \<Rightarrow> ChatState \<Rightarrow> ChatState" where
  "chat_event g (EvUpdate ty chunk) st = handleStreamUpdate g ty chunk st"
| "chat_event g (EvFrame eager clk) st = animation_frame eager clk st"
| "chat_event g EvRender st = render_messages st"

definition chat_events :: "nat \<Rightarrow> ChatEvent list \<Rightarrow> ChatState \<Rightarrow> ChatState" where
  "chat_events g evs st = foldl (\<lambda>st ev. chat_event g ev st) st evs"

definition content_chunks :: "ChatEvent list \<Rightarrow> string list" where
  "content_chunks evs = List.map_filter (\<lambda>ev. case ev of EvUpdate CONTENT c \<Rightarrow> Some c | _ \<Rightarrow> None) evs"

text \<open>
  The state while the answer of generation \<open>g\<close> streams: the view ends in the message of the
  assistant, its text holds the chunks \<open>ds\<close> and the chunks \<open>es\<close> wait for the next frame.
\<close>

definition streaming_state :: "nat \<Rightarrow> Message list \<Rightarrow> string \<Rightarrow> string list \<Rightarrow> string list \<Rightarrow> ChatState \<Rightarrow> bool" where
  "streaming_state g pre s ds es st \<longleftrightarrow>
     ch_generation st = g \<and> psc_generation (ch_pending st) = g \<and>
     (\<forall>h. ch_timer st = Some h \<longrightarrow> h = g) \<and> psc_content (ch_pending st) = concat es \<and>
     (\<exists>m. view st = pre @ [m] \<and> msg_from m = ASSISTANT \<and>
        msg_status m \<noteq> Some ERROR \<and> msg_status m \<noteq> Some COMPLETE \<and> getMessageContent m = s @ concat ds)"

lemma apply_pending_effect:
  assumes "msg_status m \<noteq> Some ERROR"
  shows "getMessageContent (apply_pending clk p m) = (if psc_content p = [] then getMessageContent m
      else getMessageContent m @ getAppendableChunk (getMessageContent m) (psc_content p))"
    and "msg_from (apply_pending clk p m) = msg_from m"
    and "msg_status m \<noteq> Some COMPLETE \<Longrightarrow> msg_status (apply_pending clk p m) \<noteq> Some COMPLETE"
    and "msg_status (apply_pending clk p m) \<noteq> Some ERROR"
  using assms
  by (simp_all add: apply_pending_def Let_def applyStreamingChunk_CONTENT applyStreamingChunk_REASONING)

lemma flush_streaming_state:
  assumes "streaming_state g pre s ds es st"
    and "concat es = [] \<or> s @ concat ds = [] \<or> \<not> prefix (s @ concat ds) (concat es)"
  shows "streaming_state g pre s (ds @ es) [] (flushStreamUpdates eager clk g st)"
    and "psc_reasoning (ch_pending (flushStreamUpdates eager clk g st)) = []"
proof -
  from assms(1) obtain m where st: "ch_generation st = g" "psc_generation (ch_pending st) = g"
    "psc_content (ch_pending st) = concat es" and m: "view st = pre @ [m]" "msg_from m = ASSISTANT"
    "msg_status m \<noteq> Some ERROR" "msg_status m \<noteq> Some COMPLETE" "getMessageContent m = s @ concat ds"
    unfolding streaming_state_def by blast
  let ?p = "ch_pending st"
  have content: "getMessageContent (apply_pending clk ?p m) = s @ concat (ds @ es)"
    using assms(2) by (auto simp: apply_pending_effect [OF m(3)] m(5) st(3) getAppendable_delta)
  show "streaming_state g pre s (ds @ es) [] (flushStreamUpdates eager clk g st)"
  proof (cases "psc_reasoning ?p = [] \<and> psc_content ?p = []")
    case True
    then show ?thesis using st m
      by (auto simp: streaming_state_def flushStreamUpdates_def Let_def)
  next
    case False
    let ?st = "st\<lparr>ch_timer := None, ch_pending := no_chunks g\<rparr>"
    have flush: "flushStreamUpdates eager clk g st = onMessageUpdate eager (guarded_update g (apply_pending clk ?p)) ?st"
      using False st by (auto simp: flushStreamUpdates_def Let_def)
    have "view (flushStreamUpdates eager clk g st) = pre @ [apply_pending clk ?p m]"
      by (simp add: flush view_onMessageUpdate guarded_update_def st(1) m(1,2) updateLast_snoc)
    then show ?thesis
      using st content apply_pending_effect(2-4) [OF m(3), of clk ?p] m(2,4)
      by (auto simp: streaming_state_def flush no_chunks_def)
  qed
  show "psc_reasoning (ch_pending (flushStreamUpdates eager clk g st)) = []"
    using st by (simp add: flushStreamUpdates_def Let_def no_chunks_def)
qed

lemma update_streaming_state:
  assumes "streaming_state g pre s ds es st" and "concat es = [] \<or> \<not> prefix (concat es) chunk"
  shows "streaming_state g pre s ds (es @ [chunk]) (handleStreamUpdate g CONTENT chunk st)"
    and "streaming_state g pre s ds es (handleStreamUpdate g REASONING chunk' st)"
  using assms
  by (auto simp: streaming_state_def handleStreamUpdate_def Let_def scheduleStreamFlush_def
      mergePendingStreamChunk_def)

lemma content_chunks_simps [simp]:
  "content_chunks [] = []"
  "content_chunks (EvUpdate CONTENT c # evs) = c # content_chunks evs"
  "content_chunks (EvUpdate REASONING c # evs) = content_chunks evs"
  "content_chunks (EvFrame e clk # evs) = content_chunks evs"
  "content_chunks (EvRender # evs) = content_chunks evs"
  by (simp_all add: content_chunks_def List.map_filter_simps)

lemma chat_events_simps [simp]:
  "chat_events g [] st = st"
  "chat_events g (ev # evs) st = chat_events g evs (chat_event g ev st)"
  by (simp_all add: chat_events_def)

lemma unambiguous_flush:
  assumes "unambiguous s (ds @ es @ fs)"
  shows "concat es = [] \<or> s @ concat ds = [] \<or> \<not> prefix (s @ concat ds) (concat es)"
proof -
  let ?cs = "ds @ es @ fs" and ?j = "length ds + length es"
  have "run_text ?cs (length ds) ?j = concat es" "run_text ?cs 0 (length ds) = concat ds"
    by (simp_all add: run_text_def)
  moreover have "?j \<le> length ?cs" "length ds \<le> ?j" by simp_all
  ultimately show ?thesis using assms unfolding unambiguous_def by metis
qed

lemma unambiguous_merge:
  assumes "unambiguous s (ds @ es @ c # fs)"
  shows "concat es = [] \<or> \<not> prefix (concat es) c"
proof -
  let ?cs = "ds @ es @ c # fs" and ?j = "length ds + length es"
  have "run_text ?cs (length ds) ?j = concat es" "?cs ! ?j = c"
    by (simp_all add: run_text_def nth_append)
  moreover have "?j < length ?cs" "length ds \<le> ?j" by simp_all
  ultimately show ?thesis using assms unfolding unambiguous_def by metis
qed

lemma frame_streaming_state:
  assumes "streaming_state g pre s ds es st"
    and "concat es = [] \<or> s @ concat ds = [] \<or> \<not> prefix (s @ concat ds) (concat es)"
  shows "streaming_state g pre s (ds @ es) [] (animation_frame eager clk st) \<or>
    streaming_state g pre s ds es (animation_frame eager clk st)"
proof (cases "ch_timer st")
  case None
  then show ?thesis using assms(1) by (simp add: animation_frame_def)
next
  case (Some h)
  have "streaming_state g pre s ds es (st\<lparr>ch_timer := None\<rparr>)" "h = g"
    using assms(1) Some by (auto simp: streaming_state_def)
  from flush_streaming_state(1) [OF this(1) assms(2)] this(2) Some show ?thesis
    by (simp add: animation_frame_def)
qed

lemma render_streaming_state:
  "streaming_state g pre s ds es st \<Longrightarrow> streaming_state g pre s ds es (render_messages st)"
  by (auto simp: streaming_state_def view_render) (simp_all add: render_messages_def)

lemma chat_events_streaming:
  assumes "streaming_state g pre s ds es st" and "unambiguous s (ds @ es @ content_chunks evs)"
  shows "\<exists>ds' es'. streaming_state g pre s ds' es' (chat_events g evs st) \<and>
    ds' @ es' = ds @ es @ content_chunks evs"
  using assms
proof (induction evs arbitrary: ds es st)
  case Nil
  then show ?case by (auto simp: chat_events_def)
next
  case (Cons ev evs)
  consider (content) c where "ev = EvUpdate CONTENT c" | (reasoning) c where "ev = EvUpdate REASONING c"
    | (frame) e clk where "ev = EvFrame e clk" | (render) "ev = EvRender"
    by (cases ev) (auto intro: StreamChunkType.exhaust)
  then show ?case
  proof cases
    case content
    have "streaming_state g pre s ds (es @ [c]) (chat_event g ev st)"
      using update_streaming_state(1) [OF Cons.prems(1), of c] Cons.prems(2) unambiguous_merge content
      by fastforce
    from Cons.IH [OF this] Cons.prems(2) content show ?thesis by simp
  next
    case reasoning
    have "streaming_state g pre s ds es (chat_event g ev st)"
      using Cons.prems(1) reasoning
      by (auto simp: streaming_state_def handleStreamUpdate_def Let_def scheduleStreamFlush_def)
    from Cons.IH [OF this] Cons.prems(2) reasoning show ?thesis by simp
  next
    case frame
    have "streaming_state g pre s (ds @ es) [] (chat_event g ev st) \<or>
        streaming_state g pre s ds es (chat_event g ev st)"
      using frame_streaming_state [OF Cons.prems(1) unambiguous_flush] Cons.prems(2) frame by simp
    then show ?thesis
      using Cons.IH [of "ds @ es" "[]"] Cons.IH [of ds es] Cons.prems(2) frame by auto
  next
    case render
    have "streaming_state g pre s ds es (chat_event g ev st)"
      using render_streaming_state [OF Cons.prems(1)] render by simp
    from Cons.IH [OF this] Cons.prems(2) render show ?thesis by simp
  qed
qed

lemma complete_streaming_state:
  assumes "streaming_state g pre s ds es st"
    and "concat es = [] \<or> s @ concat ds = [] \<or> \<not> prefix (s @ concat ds) (concat es)"
  shows "\<exists>m. ch_messages (render_messages (handleStreamComplete eager clk g st)) = pre @ [m] \<and>
    getMessageContent m = tt_visibleContent (parseThinkTags (s @ concat (ds @ es))) \<and>
    msg_status m = Some COMPLETE"
proof -
  let ?st = "flushStreamUpdates (eager 0) clk g st"
  have g: "ch_generation st = g" using assms(1) by (simp add: streaming_state_def)
  from flush_streaming_state(1) [OF assms] obtain m where m: "view ?st = pre @ [m]"
    "msg_from m = ASSISTANT" "msg_status m \<noteq> Some ERROR" "msg_status m \<noteq> Some COMPLETE"
    "getMessageContent m = s @ concat (ds @ es)"
    unfolding streaming_state_def by blast
  have "view (handleStreamComplete eager clk g st) = pre @ [completeAssistantMessage (clk 2) m]"
    using g m(3,4) by (simp add: handleStreamComplete_def view_onMessageUpdate guarded_update_def m(1,2)
        updateLast_snoc complete_unless_final_def isAssistantMessageFinal_def)
  then show ?thesis
    by (simp add: view_render completeAssistantMessage_def m(5))
qed

lemma stream_completes:
  assumes "ch_generation st = g" and "ch_pending st = no_chunks g" and "ch_timer st = None"
    and "view st = pre @ [m]" and "msg_from m = ASSISTANT" and "isAssistantMessagePending m"
    and "unambiguous (getMessageContent m) (content_chunks evs)"
  shows "\<exists>m'. ch_messages (render_messages (handleStreamComplete eager clk g (chat_events g evs st))) = pre @ [m'] \<and>
    getMessageContent m' =
      tt_visibleContent (parseThinkTags (getMessageContent m @ concat (content_chunks evs))) \<and>
    msg_status m' = Some COMPLETE"
proof -
  have "streaming_state g pre (getMessageContent m) [] [] st"
    using assms(1-6) by (auto simp: streaming_state_def no_chunks_def isAssistantMessagePending_def)
  from chat_events_streaming [OF this, of evs] assms(7) obtain ds es where
    st: "streaming_state g pre (getMessageContent m) ds es (chat_events g evs st)"
    and all: "ds @ es = content_chunks evs" by auto
  have "concat es = [] \<or> getMessageContent m @ concat ds = [] \<or>
      \<not> prefix (getMessageContent m @ concat ds) (concat es)"
    using unambiguous_flush [of "getMessageContent m" ds es "[]"] assms(7) all by simp
  from complete_streaming_state [OF st this, of eager clk] show ?thesis
    unfolding concat_append [symmetric] all by blast
qed

text \<open>
  C2. The answer does not depend on timing: whatever frames and renderings come between the
  chunks, and whenever React runs the updates, a completed stream leaves the messages before
  the answer as they were and gives the visible part of the whole text, when no chunk can be
  mistaken for a snapshot of the text before it.
\<close>

theorem streaming_independent_of_frames:
  assumes "ch_generation st = g" and "ch_pending st = no_chunks g" and "ch_timer st = None"
    and "view st = pre @ [m]" and "msg_from m = ASSISTANT" and "isAssistantMessagePending m"
    and "unambiguous (getMessageContent m) (content_chunks evs)"
  shows "\<exists>m'. ch_messages (render_messages (handleStreamComplete eager clk g (chat_events g evs st))) = pre @ [m'] \<and>
    getMessageContent m' =
      tt_visibleContent (parseThinkTags (getMessageContent m @ concat (content_chunks evs))) \<and>
    msg_status m' = Some COMPLETE"
  by (rule stream_completes [OF assms])

definition stream_start :: ChatState where
  "stream_start = (initial_chat [witness_message])\<lparr>ch_generation := 1, ch_pending := no_chunks 1\<rparr>"

lemma stream_start_simps:
  "ch_generation stream_start = 1" "ch_pending stream_start = no_chunks 1" "ch_timer stream_start = None"
  "view stream_start = [] @ [witness_message]"
  by (simp_all add: stream_start_def initial_chat_def view_def)

definition witness_events :: "ChatEvent list" where
  "witness_events = [EvUpdate CONTENT ''He'', EvFrame False (\<lambda>_ _. 5), EvUpdate CONTENT ''l'',
     EvUpdate REASONING ''hm'', EvRender, EvUpdate CONTENT ''o'']"

theorem streaming_independent_of_frames_witness:
  "\<exists>m'. ch_messages (render_messages (handleStreamComplete (\<lambda>_. True) (\<lambda>_ _. 9) 1
      (chat_events 1 witness_events stream_start))) = [m'] \<and> getMessageContent m' = ''Helo''"
proof -
  have chunks: "content_chunks witness_events = [''He'', ''l'', ''o'']" by (simp add: witness_events_def)
  have "unambiguous [] [''He'', ''l'', ''o'']"
    unfolding unambiguous_def by (simp add: All_less_Suc le_Suc_eq All_less_Suc2 run_text_def)
  then have "unambiguous (getMessageContent witness_message) (content_chunks witness_events)"
    by (simp add: chunks witness_message_simps)
  moreover have "isAssistantMessagePending witness_message"
    by (simp add: isAssistantMessagePending_def witness_message_simps)
  moreover have "parseThinkTags ''Helo'' =
      \<lparr>tt_visibleContent = ''Helo'', tt_reasoning = [], tt_hasUnclosedTag = False\<rparr>"
    by (simp add: parseThinkTags_untagged js_includes_def)
  ultimately show ?thesis
    using streaming_independent_of_frames [OF stream_start_simps, of witness_events "\<lambda>_. True" "\<lambda>_ _. 9"]
    by (auto simp add: chunks witness_message_simps)
qed

section \<open>Chunks that look like snapshots\<close>

lemma update_snapshot:
  assumes "streaming_state g pre s ds es st" and "concat es \<noteq> []" and "prefix (concat es) chunk"
  shows "streaming_state g pre s ds [chunk] (handleStreamUpdate g CONTENT chunk st)"
  using assms
  by (auto simp: streaming_state_def handleStreamUpdate_def Let_def scheduleStreamFlush_def
      mergePendingStreamChunk_def)

lemma update_timer:
  "streaming_state g pre s ds es st \<Longrightarrow> ch_timer (handleStreamUpdate g ty chunk st) = Some g"
  by (auto simp: streaming_state_def handleStreamUpdate_def Let_def scheduleStreamFlush_def)

lemma frame_due:
  assumes "streaming_state g pre s ds es st" and "ch_timer st = Some g"
    and "concat es = [] \<or> s @ concat ds = [] \<or> \<not> prefix (s @ concat ds) (concat es)"
  shows "streaming_state g pre s (ds @ es) [] (animation_frame eager clk st)"
proof -
  have "streaming_state g pre s ds es (st\<lparr>ch_timer := None\<rparr>)"
    using assms(1) by (simp add: streaming_state_def)
  from flush_streaming_state(1) [OF this assms(3)] assms(2) show ?thesis
    by (simp add: animation_frame_def)
qed

lemma rendered_content:
  "streaming_state g pre s ds es st \<Longrightarrow>
     getMessageContent (last (ch_messages (render_messages st))) = s @ concat ds"
  by (auto simp: streaming_state_def view_render)

lemma stream_start_state: "streaming_state 1 [] [] [] [] stream_start"
  using stream_start_simps by (simp add: streaming_state_def no_chunks_def witness_message_simps)

text \<open>
  For other chunks the answer does depend on timing: the chunks 1, 0 and 0 of the number
  100 give 100 when a frame separates the last two and 10 when they fall into one frame,
  because a chunk that repeats the waiting text is taken for a snapshot of it.
\<close>

theorem streaming_depends_on_frames:
  "getMessageContent (last (ch_messages (render_messages (chat_events 1
     [EvUpdate CONTENT ''1'', EvUpdate CONTENT ''0'', EvFrame e1 clk1, EvUpdate CONTENT ''0'', EvFrame e2 clk2]
     stream_start)))) = ''100'' \<and>
   getMessageContent (last (ch_messages (render_messages (chat_events 1
     [EvUpdate CONTENT ''1'', EvFrame e1 clk1, EvUpdate CONTENT ''0'', EvUpdate CONTENT ''0'', EvFrame e2 clk2]
     stream_start)))) = ''10''"
proof
  let ?u = "handleStreamUpdate 1 CONTENT"
  have s1: "streaming_state 1 [] [] [] [''1''] (?u ''1'' stream_start)"
    using update_streaming_state(1) [OF stream_start_state] by simp
  have "streaming_state 1 [] [] [] [''1'', ''0''] (?u ''0'' (?u ''1'' stream_start))"
    using update_streaming_state(1) [OF s1, of "''0''"] by simp
  from frame_due [OF this update_timer [OF s1], of e1 clk1]
  have s2: "streaming_state 1 [] [] [''1'', ''0''] [] (animation_frame e1 clk1 (?u ''0'' (?u ''1'' stream_start)))"
    by simp
  from update_streaming_state(1) [OF s2, of "''0''"]
  have "streaming_state 1 [] [] [''1'', ''0''] [''0'']
      (?u ''0'' (animation_frame e1 clk1 (?u ''0'' (?u ''1'' stream_start))))" by simp
  from rendered_content [OF frame_due [OF this update_timer [OF s2], of e2 clk2]]
  show "getMessageContent (last (ch_messages (render_messages (chat_events 1
     [EvUpdate CONTENT ''1'', EvUpdate CONTENT ''0'', EvFrame e1 clk1, EvUpdate CONTENT ''0'', EvFrame e2 clk2]
     stream_start)))) = ''100''" by simp
  from frame_due [OF s1 update_timer [OF stream_start_state], of e1 clk1]
  have s3: "streaming_state 1 [] [] [''1''] [] (animation_frame e1 clk1 (?u ''1'' stream_start))" by simp
  from update_streaming_state(1) [OF s3, of "''0''"]
  have s4: "streaming_state 1 [] [] [''1''] [''0''] (?u ''0'' (animation_frame e1 clk1 (?u ''1'' stream_start)))"
    by simp
  from update_snapshot [OF s4, of "''0''"]
  have "streaming_state 1 [] [] [''1''] [''0'']
      (?u ''0'' (?u ''0'' (animation_frame e1 clk1 (?u ''1'' stream_start))))" by simp
  from rendered_content [OF frame_due [OF this update_timer [OF s4], of e2 clk2]]
  show "getMessageContent (last (ch_messages (render_messages (chat_events 1
     [EvUpdate CONTENT ''1'', EvFrame e1 clk1, EvUpdate CONTENT ''0'', EvUpdate CONTENT ''0'', EvFrame e2 clk2]
     stream_start)))) = ''10''" by simp
qed

section \<open>Stopping\<close>

definition stopped_messages :: "(nat \<Rightarrow> bool) \<Rightarrow> clocks \<Rightarrow> ChatState \<Rightarrow> Message list" where
  "stopped_messages eager clk st = ch_messages (render_messages (stopGeneration eager clk st))"

text \<open>The updates that wait when the completion is handed over, and what they give now.\<close>

definition before_stop :: "(nat \<Rightarrow> bool) \<Rightarrow> clocks \<Rightarrow> ChatState \<Rightarrow> Message list" where
  "before_stop eager clk st =
     run_updaters (ch_generation st + 1) (ch_queue (flushStreamUpdates (eager 0) clk (ch_generation st) st))
       (ch_messages st)"

lemma stopped_messages_eq:
  "stopped_messages eager clk st =
     updateLastAssistantMessage (before_stop eager clk st) (complete_if_pending (clk 2))"
  by (simp add: stopped_messages_def before_stop_def stopGeneration_rendered)

lemma updateLast_last:
  assumes "updateLastAssistantMessage ms f \<noteq> []"
  shows "last (updateLastAssistantMessage ms f) =
    (if msg_from (last ms) = ASSISTANT then f (last ms) else last ms)"
  using assms by (cases ms rule: rev_cases) (auto simp: updateLastAssistantMessage_def)

lemma complete_if_pending_final:
  "\<not> isAssistantMessagePending (complete_if_pending clk m)"
  by (auto simp: complete_if_pending_def isAssistantMessagePending_def completeAssistantMessage_def)

text \<open>
  Stopping always ends the answer: in every state, whatever is waiting and whenever
  React runs the updates, the conversation that is shown next does not end in a pending
  answer, nothing is generating, and no event source is active.
\<close>

theorem stopGeneration_settles:
  "(let ms = stopped_messages eager clk st in
      ms \<noteq> [] \<longrightarrow> \<not> isPendingAssistantMessage (Some (last ms))) \<and>
   \<not> isGenerating (stopGeneration eager clk st) \<and>
   sc_source (ch_stream (stopGeneration eager clk st)) = None"
proof (intro conjI)
  show "let ms = stopped_messages eager clk st in
      ms \<noteq> [] \<longrightarrow> \<not> isPendingAssistantMessage (Some (last ms))"
    using complete_if_pending_final [of "clk 2"]
    by (auto simp: stopped_messages_eq updateLast_last isPendingAssistantMessage_def split: if_splits)
  show "\<not> isGenerating (stopGeneration eager clk st)"
    "sc_source (ch_stream (stopGeneration eager clk st)) = None"
    by (simp_all add: isGenerating_def stopGeneration_def Let_def stopStream_def stop_stream_def cancel_def
        discardPendingStreamUpdates_def close_previous_fields)
qed

theorem stopGeneration_settles_witness:
  "stopped_messages (\<lambda>_. True) (\<lambda>_ _. 9) stream_start \<noteq> [] \<and>
   \<not> isPendingAssistantMessage (Some (last (stopped_messages (\<lambda>_. True) (\<lambda>_ _. 9) stream_start)))"
proof -
  have "stopped_messages (\<lambda>_. True) (\<lambda>_ _. 9) stream_start \<noteq> []"
    by (simp add: stopped_messages_eq before_stop_def flushStreamUpdates_def no_chunks_def stream_start_def
        initial_chat_def updateLastAssistantMessage_def)
  then show ?thesis
    using stopGeneration_settles [of "\<lambda>_. True" "\<lambda>_ _. 9" stream_start] by (simp add: Let_def)
qed

text \<open>
  Stopping can lose text. The flush that stopping starts with checks the generation when
  React runs it, and by then stopping has moved on to the next generation: unless React runs
  the update at once, the chunks that waited for a frame never reach the message, which is
  completed with the text it had.
\<close>

theorem stopGeneration_loses_pending:
  assumes "\<not> eager 0" and "ch_queue st = []" and "ch_messages st = pre @ [m]"
    and "msg_from m = ASSISTANT" and "isAssistantMessagePending m"
  shows "stopped_messages eager clk st = pre @ [completeAssistantMessage (clk 2) m]"
proof -
  let ?f = "guarded_update (ch_generation st) (apply_pending clk (ch_pending st))"
  have "ch_queue (flushStreamUpdates (eager 0) clk (ch_generation st) st) \<in> {[], [?f]}"
    using assms(1,2) by (simp add: flushStreamUpdates_def Let_def onMessageUpdate_def)
  then have "before_stop eager clk st = pre @ [m]"
    using assms(3) by (auto simp: before_stop_def guarded_update_def)
  then show ?thesis
    using assms(4,5) by (simp add: stopped_messages_eq updateLast_snoc complete_if_pending_def)
qed

theorem stopGeneration_loses_pending_witness:
  "psc_content (ch_pending (handleStreamUpdate 1 CONTENT ''lost'' stream_start)) = ''lost'' \<and>
   stopped_messages (\<lambda>_. False) (\<lambda>_ _. 9) (handleStreamUpdate 1 CONTENT ''lost'' stream_start) =
     [completeAssistantMessage (\<lambda>_. 9) witness_message]"
  using stopGeneration_loses_pending [of "\<lambda>_. False"
      "handleStreamUpdate 1 CONTENT ''lost'' stream_start" "[]" witness_message "\<lambda>_ _. 9"]
  by (simp add: stream_start_def initial_chat_def handleStreamUpdate_def no_chunks_def
      mergePendingStreamChunk_def scheduleStreamFlush_def witness_message_simps isAssistantMessagePending_def Let_def)

end
