(* ===== verification/Schema.thy ===== *)
theory Schema
  imports Conversation Payload "HOL-Library.Monad_Syntax"
begin

text \<open>
  The schemas of \<open>lib/storage/storage-schema.ts\<close> and the objects they describe.

  A schema is data, built from the constructors of the library \<open>zod\<close> that the source uses. The
  parser of the library is a parameter; the locale \<open>zod_parser\<close> states what its documentation
  promises (a value of the schema without unknown keys is returned as it is, and what is
  returned is a value of the schema), and is interpreted on a reference interpreter.

  Messages and configurations are encoded as the JSON objects that \<open>JSON.stringify\<close> sees, with
  their keys in the order of the schema, in which the parser returns them.
\<close>

section \<open>Schemas\<close>

datatype schema =
    ZString
  | ZNumber
  | ZBoolean
  | ZEnum "string list"
  | ZArray schema nat
  | ZObject "(string \<times> schema) list"
  | ZOptional schema
  | ZNullable schema

fun optional :: "schema \<Rightarrow> bool" where
  "optional (ZOptional _) = True"
| "optional _ = False"

text \<open>Schemas whose objects have no key twice.\<close>

fun wf_schema :: "schema \<Rightarrow> bool" where
  "wf_schema (ZArray S n) = wf_schema S"
| "wf_schema (ZObject fs) = (distinct (map fst fs) \<and> (\<forall>f \<in> set fs. wf_schema (snd f)))"
| "wf_schema (ZOptional S) = wf_schema S"
| "wf_schema (ZNullable S) = wf_schema S"
| "wf_schema _ = True"

text \<open>The values of a schema, with the keys of objects in the order of the schema.\<close>

function (sequential) conforms :: "schema \<Rightarrow> json \<Rightarrow> bool"
  and fields_conform :: "(string \<times> schema) list \<Rightarrow> (string \<times> json) list \<Rightarrow> bool" where
  "conforms ZString (JStr s) = True"
| "conforms ZNumber (JNum n) = True"
| "conforms ZBoolean (JBool b) = True"
| "conforms (ZEnum es) (JStr s) = (s \<in> set es)"
| "conforms (ZArray S n) (JArr xs) = (n \<le> length xs \<and> (\<forall>x \<in> set xs. conforms S x))"
| "conforms (ZObject fs) (JObj kvs) = fields_conform fs kvs"
| "conforms (ZOptional S) j = conforms S j"
| "conforms (ZNullable S) j = (j = JNull \<or> conforms S j)"
| "conforms _ _ = False"
| "fields_conform [] kvs = (kvs = [])"
| "fields_conform ((k, S) # fs) [] = (optional S \<and> fields_conform fs [])"
| "fields_conform ((k, S) # fs) ((k', v) # kvs) =
     (if k' = k then conforms S v \<and> fields_conform fs kvs
      else optional S \<and> fields_conform fs ((k', v) # kvs))"
  by pat_completeness auto
termination
  by (relation "measure (\<lambda>x. case x of Inl (S, j) \<Rightarrow> size S | Inr (fs, kvs) \<Rightarrow> size_list (\<lambda>x. Suc (size (snd x))) fs)")
     (auto simp: size_prod_simp)

section \<open>The reference interpreter\<close>

function (sequential) zod_ref :: "schema \<Rightarrow> json \<Rightarrow> json option"
  and zod_fields :: "(string \<times> schema) list \<Rightarrow> (string \<times> json) list \<Rightarrow> (string \<times> json) list option" where
  "zod_ref ZString (JStr s) = Some (JStr s)"
| "zod_ref ZNumber (JNum n) = Some (JNum n)"
| "zod_ref ZBoolean (JBool b) = Some (JBool b)"
| "zod_ref (ZEnum es) (JStr s) = (if s \<in> set es then Some (JStr s) else None)"
| "zod_ref (ZArray S n) (JArr xs) =
     (if n \<le> length xs then map_option JArr (those (map (zod_ref S) xs)) else None)"
| "zod_ref (ZObject fs) (JObj kvs) = map_option JObj (zod_fields fs kvs)"
| "zod_ref (ZOptional S) j = zod_ref S j"
| "zod_ref (ZNullable S) j = (if j = JNull then Some JNull else zod_ref S j)"
| "zod_ref _ _ = None"
| "zod_fields [] kvs = Some []"
| "zod_fields ((k, S) # fs) kvs =
     (case map_of kvs k of
        None \<Rightarrow> if optional S then zod_fields fs kvs else None
      | Some v \<Rightarrow>
          (case (zod_ref S v, zod_fields fs kvs) of
             (Some v', Some rest) \<Rightarrow> Some ((k, v') # rest)
           | _ \<Rightarrow> None))"
  by pat_completeness auto
termination
  by (relation "measure (\<lambda>x. case x of Inl (S, j) \<Rightarrow> size S | Inr (fs, kvs) \<Rightarrow> size_list (\<lambda>x. Suc (size (snd x))) fs)")
     (auto simp: size_prod_simp)

lemma those_map_Some: "\<forall>x \<in> set xs. f x = Some x \<Longrightarrow> those (map f xs) = Some xs"
  by (induction xs) auto

lemma those_Some_set:
  "those ys = Some zs \<Longrightarrow> length zs = length ys \<and> (\<forall>z \<in> set zs. Some z \<in> set ys)"
proof (induction ys arbitrary: zs)
  case (Cons y ys)
  then show ?case by (cases y) (auto split: option.splits)
qed simp

text \<open>Keys that the remaining schema does not have play no part.\<close>

lemma zod_fields_fresh: "k \<notin> fst ` set fs \<Longrightarrow> zod_fields fs ((k, v) # kvs) = zod_fields fs kvs"
  by (induction fs) (auto split: option.splits)

lemma fields_conform_keys: "fields_conform fs kvs \<Longrightarrow> fst ` set kvs \<subseteq> fst ` set fs"
proof (induction fs arbitrary: kvs)
  case (Cons f fs)
  note IH = Cons.IH and asm = Cons.prems
  obtain k S where f: "f = (k, S)" by fastforce
  show ?case
  proof (cases kvs)
    case (Cons kv rest)
    obtain k' v where kv: "kv = (k', v)" by fastforce
    show ?thesis
      using asm IH [of rest] IH [of kvs] by (auto simp: f kv Cons split: if_splits)
  qed simp
qed simp

lemma zod_ref_conforms:
  "wf_schema S \<Longrightarrow> conforms S j \<Longrightarrow> zod_ref S j = Some j"
  "distinct (map fst fs) \<Longrightarrow> \<forall>f \<in> set fs. wf_schema (snd f) \<Longrightarrow> fields_conform fs kvs \<Longrightarrow>
     zod_fields fs kvs = Some kvs"
proof (induction S j and fs kvs rule: conforms_fields_conform.induct)
  case (5 S n xs)
  then show ?case by (simp add: those_map_Some)
next
  case (11 k S fs)
  then show ?case by simp
next
  case (12 k S fs k' v kvs)
  show ?case
  proof (cases "k' = k")
    case True
    have "k \<notin> fst ` set fs" using "12.prems"(1) by simp
    then show ?thesis using True 12 by (simp add: zod_fields_fresh)
  next
    case False
    have "k \<notin> fst ` set ((k', v) # kvs)"
      using False "12.prems" fields_conform_keys [of fs "(k', v) # kvs"] by auto
    then have "map_of ((k', v) # kvs) k = None" by (metis map_of_eq_None_iff)
    then show ?thesis using False 12 by simp
  qed
qed auto

lemma zod_ref_returns:
  "wf_schema S \<Longrightarrow> zod_ref S j = Some j' \<Longrightarrow> conforms S j'"
  "distinct (map fst fs) \<Longrightarrow> \<forall>f \<in> set fs. wf_schema (snd f) \<Longrightarrow> zod_fields fs kvs = Some kvs' \<Longrightarrow>
     fields_conform fs kvs' \<and> fst ` set kvs' \<subseteq> fst ` set fs"
proof (induction S j and fs kvs arbitrary: j' and kvs' rule: zod_ref_zod_fields.induct)
  case (5 S n xs)
  then show ?case by (fastforce split: if_splits dest!: those_Some_set)
next
  case (11 k S fs kvs)
  show ?case
  proof (cases "map_of kvs k")
    case None
    then have "optional S" "zod_fields fs kvs = Some kvs'" using "11.prems"(3) by (auto split: if_splits)
    with 11 None have "fields_conform fs kvs' \<and> fst ` set kvs' \<subseteq> fst ` set fs" by simp
    moreover then have "k \<notin> fst ` set kvs'" using "11.prems"(1) by auto
    ultimately show ?thesis using \<open>optional S\<close> by (cases kvs') auto
  next
    case (Some v)
    then obtain v' rest where "zod_ref S v = Some v'" "zod_fields fs kvs = Some rest" "kvs' = (k, v') # rest"
      using "11.prems"(3) by (auto split: option.splits)
    moreover from this have "conforms S v'" "fields_conform fs rest \<and> fst ` set rest \<subseteq> fst ` set fs"
      using 11 Some by auto
    ultimately show ?thesis by auto
  qed
qed (auto split: if_splits)

section \<open>The contract\<close>

locale zod_parser =
  fixes zparse :: "schema \<Rightarrow> json \<Rightarrow> json option"
  assumes accepts: "wf_schema S \<Longrightarrow> conforms S j \<Longrightarrow> zparse S j = Some j"
    and returns: "wf_schema S \<Longrightarrow> zparse S j = Some j' \<Longrightarrow> conforms S j'"

interpretation zod_reference: zod_parser zod_ref
  by unfold_locales (simp_all add: zod_ref_conforms zod_ref_returns)

section \<open>The schemas of the storage\<close>

definition STORAGE_VERSION :: jsnum where "STORAGE_VERSION = 1"

definition MAX_STORED_MESSAGES :: nat where "MAX_STORED_MESSAGES = 100"

definition MAX_STORED_MESSAGES_BYTES :: nat where "MAX_STORED_MESSAGES_BYTES = 1024 * 1024"

definition MAX_LOADED_MESSAGES_CHARS :: nat where "MAX_LOADED_MESSAGES_CHARS = 120000"

definition MAX_LOADED_MESSAGE_CHARS :: nat where "MAX_LOADED_MESSAGE_CHARS = 40000"

definition playgroundConfigSchema :: schema where
  "playgroundConfigSchema = ZObject
     [(''model'', ZOptional ZString),
      (''endpointType'', ZOptional (ZEnum [''openai'', ''openai-response'', ''anthropic'', ''gemini''])),
      (''temperature'', ZOptional ZNumber), (''top_p'', ZOptional ZNumber),
      (''max_tokens'', ZOptional ZNumber), (''frequency_penalty'', ZOptional ZNumber),
      (''presence_penalty'', ZOptional ZNumber), (''seed'', ZOptional (ZNullable ZNumber)),
      (''stream'', ZOptional ZBoolean)]"

definition parameterEnabledSchema :: schema where
  "parameterEnabledSchema = ZObject
     [(''temperature'', ZOptional ZBoolean), (''top_p'', ZOptional ZBoolean),
      (''max_tokens'', ZOptional ZBoolean), (''frequency_penalty'', ZOptional ZBoolean),
      (''presence_penalty'', ZOptional ZBoolean), (''seed'', ZOptional ZBoolean)]"

definition messageRoleSchema :: schema where
  "messageRoleSchema = ZEnum [''user'', ''assistant'', ''system'']"

definition messageStatusSchema :: schema where
  "messageStatusSchema = ZEnum [''loading'', ''streaming'', ''complete'', ''error'']"

definition messageVersionSchema :: schema where
  "messageVersionSchema = ZObject [(''id'', ZString), (''content'', ZString)]"

definition sourceSchema :: schema where
  "sourceSchema = ZObject [(''href'', ZString), (''title'', ZString)]"

definition reasoningSchema :: schema where
  "reasoningSchema = ZObject [(''content'', ZString), (''duration'', ZNumber),
     (''startedAt'', ZOptional ZNumber), (''completedAt'', ZOptional ZNumber), (''durationMs'', ZOptional ZNumber)]"

definition imageSchema :: schema where
  "imageSchema = ZObject [(''url'', ZString), (''mediaType'', ZString), (''filename'', ZOptional ZString)]"

definition messageSchema :: schema where
  "messageSchema = ZObject
     [(''key'', ZString), (''from'', messageRoleSchema), (''versions'', ZArray messageVersionSchema 1),
      (''createdAt'', ZOptional ZNumber), (''startedAt'', ZOptional ZNumber),
      (''completedAt'', ZOptional ZNumber), (''durationMs'', ZOptional ZNumber),
      (''images'', ZOptional (ZArray imageSchema 0)), (''sources'', ZOptional (ZArray sourceSchema 0)),
      (''reasoning'', ZOptional reasoningSchema), (''isReasoningStreaming'', ZOptional ZBoolean),
      (''isReasoningComplete'', ZOptional ZBoolean), (''isContentComplete'', ZOptional ZBoolean),
      (''status'', ZOptional messageStatusSchema), (''errorCode'', ZOptional (ZNullable ZString))]"

definition messagesSchema :: schema where "messagesSchema = ZArray messageSchema 0"

lemmas schema_defs =
  playgroundConfigSchema_def parameterEnabledSchema_def messageRoleSchema_def messageStatusSchema_def
  messageVersionSchema_def sourceSchema_def reasoningSchema_def imageSchema_def messageSchema_def
  messagesSchema_def

lemma wf_schemas [simp]:
  "wf_schema playgroundConfigSchema" "wf_schema parameterEnabledSchema" "wf_schema messagesSchema"
  by (simp_all add: schema_defs)

section \<open>Objects\<close>

definition status_string :: "MessageStatus \<Rightarrow> string" where
  "status_string s = (case s of LOADING \<Rightarrow> ''loading'' | STREAMING \<Rightarrow> ''streaming''
     | COMPLETE \<Rightarrow> ''complete'' | ERROR \<Rightarrow> ''error'')"

definition version_json :: "MessageVersion \<Rightarrow> json" where
  "version_json v = JObj [(''id'', JStr (ver_id v)), (''content'', JStr (ver_content v))]"

definition image_json :: "PlaygroundImageAttachment \<Rightarrow> json" where
  "image_json i = JObj ([(''url'', JStr (img_url i)), (''mediaType'', JStr (img_mediaType i))] @
     json_opt ''filename'' (map_option JStr (img_filename i)))"

definition source_json :: "MessageSource \<Rightarrow> json" where
  "source_json s = JObj [(''href'', JStr (src_href s)), (''title'', JStr (src_title s))]"

definition reasoning_json :: "Reasoning \<Rightarrow> json" where
  "reasoning_json r = JObj ([(''content'', JStr (rsn_content r)), (''duration'', JNum (rsn_duration r))] @
     json_opt ''startedAt'' (map_option JNum (rsn_startedAt r)) @
     json_opt ''completedAt'' (map_option JNum (rsn_completedAt r)) @
     json_opt ''durationMs'' (map_option JNum (rsn_durationMs r)))"

definition null_or :: "string option \<Rightarrow> json" where
  "null_or x = (case x of None \<Rightarrow> JNull | Some s \<Rightarrow> JStr s)"

definition stored_message :: "Message \<Rightarrow> json" where
  "stored_message m = JObj
     ([(''key'', JStr (msg_key m)), (''from'', JStr (role_string (msg_from m))),
       (''versions'', JArr (map version_json (msg_versions m)))] @
      json_opt ''createdAt'' (map_option JNum (msg_createdAt m)) @
      json_opt ''startedAt'' (map_option JNum (msg_startedAt m)) @
      json_opt ''completedAt'' (map_option JNum (msg_completedAt m)) @
      json_opt ''durationMs'' (map_option JNum (msg_durationMs m)) @
      json_opt ''images'' (map_option (\<lambda>is. JArr (map image_json is)) (msg_images m)) @
      json_opt ''sources'' (map_option (\<lambda>ss. JArr (map source_json ss)) (msg_sources m)) @
      json_opt ''reasoning'' (map_option reasoning_json (msg_reasoning m)) @
      json_opt ''isReasoningStreaming'' (map_option JBool (msg_isReasoningStreaming m)) @
      json_opt ''isReasoningComplete'' (map_option JBool (msg_isReasoningComplete m)) @
      json_opt ''isContentComplete'' (map_option JBool (msg_isContentComplete m)) @
      json_opt ''status'' (map_option (\<lambda>s. JStr (status_string s)) (msg_status m)) @
      json_opt ''errorCode'' (map_option null_or (msg_errorCode m)))"

definition stored_messages :: "Message list \<Rightarrow> json" where
  "stored_messages ms = JArr (map stored_message ms)"

text \<open>
  The other direction reads a parsed value as the message that the source casts it to; it is
  defined on all values of the schema.
\<close>

definition dec_string :: "json \<Rightarrow> string option" where
  "dec_string j = (case j of JStr s \<Rightarrow> Some s | _ \<Rightarrow> None)"

definition dec_num :: "json \<Rightarrow> jsnum option" where
  "dec_num j = (case j of JNum n \<Rightarrow> Some n | _ \<Rightarrow> None)"

definition dec_bool :: "json \<Rightarrow> bool option" where
  "dec_bool j = (case j of JBool b \<Rightarrow> Some b | _ \<Rightarrow> None)"

definition dec_list :: "(json \<Rightarrow> 'a option) \<Rightarrow> json \<Rightarrow> 'a list option" where
  "dec_list d j = (case j of JArr xs \<Rightarrow> those (map d xs) | _ \<Rightarrow> None)"

definition dec_role :: "json \<Rightarrow> MessageRole option" where
  "dec_role j = (if j = JStr ''user'' then Some USER else if j = JStr ''assistant'' then Some ASSISTANT
     else if j = JStr ''system'' then Some SYSTEM else None)"

definition dec_status :: "json \<Rightarrow> MessageStatus option" where
  "dec_status j = (if j = JStr ''loading'' then Some LOADING else if j = JStr ''streaming'' then Some STREAMING
     else if j = JStr ''complete'' then Some COMPLETE else if j = JStr ''error'' then Some ERROR else None)"

definition dec_null_or :: "json \<Rightarrow> string option option" where
  "dec_null_or j = (if j = JNull then Some None else map_option Some (dec_string j))"

definition req_field :: "json \<Rightarrow> string \<Rightarrow> (json \<Rightarrow> 'a option) \<Rightarrow> 'a option" where
  "req_field j k d = Option.bind (jget j k) d"

definition opt_field :: "json \<Rightarrow> string \<Rightarrow> (json \<Rightarrow> 'a option) \<Rightarrow> 'a option option" where
  "opt_field j k d = (case jget j k of None \<Rightarrow> Some None | Some v \<Rightarrow> map_option Some (d v))"

definition dec_version :: "json \<Rightarrow> MessageVersion option" where
  "dec_version j = do {
     i \<leftarrow> req_field j ''id'' dec_string;
     c \<leftarrow> req_field j ''content'' dec_string;
     Some \<lparr>ver_id = i, ver_content = c\<rparr> }"

definition dec_image :: "json \<Rightarrow> PlaygroundImageAttachment option" where
  "dec_image j = do {
     u \<leftarrow> req_field j ''url'' dec_string;
     t \<leftarrow> req_field j ''mediaType'' dec_string;
     f \<leftarrow> opt_field j ''filename'' dec_string;
     Some \<lparr>img_url = u, img_mediaType = t, img_filename = f\<rparr> }"

definition dec_source :: "json \<Rightarrow> MessageSource option" where
  "dec_source j = do {
     h \<leftarrow> req_field j ''href'' dec_string;
     t \<leftarrow> req_field j ''title'' dec_string;
     Some \<lparr>src_href = h, src_title = t\<rparr> }"

definition dec_reasoning :: "json \<Rightarrow> Reasoning option" where
  "dec_reasoning j = do {
     c \<leftarrow> req_field j ''content'' dec_string;
     d \<leftarrow> req_field j ''duration'' dec_num;
     s \<leftarrow> opt_field j ''startedAt'' dec_num;
     e \<leftarrow> opt_field j ''completedAt'' dec_num;
     m \<leftarrow> opt_field j ''durationMs'' dec_num;
     Some \<lparr>rsn_content = c, rsn_duration = d, rsn_startedAt = s, rsn_completedAt = e, rsn_durationMs = m\<rparr> }"

definition dec_message :: "json \<Rightarrow> Message option" where
  "dec_message j = do {
     key \<leftarrow> req_field j ''key'' dec_string;
     role \<leftarrow> req_field j ''from'' dec_role;
     vs \<leftarrow> req_field j ''versions'' (dec_list dec_version);
     created \<leftarrow> opt_field j ''createdAt'' dec_num;
     started \<leftarrow> opt_field j ''startedAt'' dec_num;
     completed \<leftarrow> opt_field j ''completedAt'' dec_num;
     duration \<leftarrow> opt_field j ''durationMs'' dec_num;
     images \<leftarrow> opt_field j ''images'' (dec_list dec_image);
     sources \<leftarrow> opt_field j ''sources'' (dec_list dec_source);
     reasoning \<leftarrow> opt_field j ''reasoning'' dec_reasoning;
     rs \<leftarrow> opt_field j ''isReasoningStreaming'' dec_bool;
     rc \<leftarrow> opt_field j ''isReasoningComplete'' dec_bool;
     cc \<leftarrow> opt_field j ''isContentComplete'' dec_bool;
     st \<leftarrow> opt_field j ''status'' dec_status;
     code \<leftarrow> opt_field j ''errorCode'' dec_null_or;
     Some \<lparr>msg_key = key, msg_from = role, msg_versions = vs, msg_createdAt = created, msg_startedAt = started,
       msg_completedAt = completed, msg_durationMs = duration, msg_images = images, msg_sources = sources,
       msg_reasoning = reasoning, msg_isReasoningStreaming = rs, msg_isReasoningComplete = rc,
       msg_isContentComplete = cc, msg_status = st, msg_errorCode = code\<rparr> }"

end
