(* ===== verification/Schema_Objects.thy ===== *)
theory Schema_Objects
  imports Schema
begin

text \<open>
  Messages and their stored objects: reading a stored message gives the message back, a stored
  message is a value of its schema, and every value of the schema can be read.
\<close>

section \<open>Reading back\<close>

lemma map_of_json_opt: "map_of (json_opt k v) x = (if x = k then v else None)"
  by (cases v) (auto simp: json_opt_def)

lemmas object_reads =
  req_field_def opt_field_def map_of_json_opt map_add_def dec_string_def dec_num_def dec_bool_def option.case_eq_if

lemma opt_field_option:
  "jget j k = map_option f x \<Longrightarrow> (\<And>a. x = Some a \<Longrightarrow> d (f a) = Some a) \<Longrightarrow> opt_field j k d = Some x"
  by (cases x) (simp_all add: opt_field_def)

lemma dec_list_map: "(\<And>x. x \<in> set xs \<Longrightarrow> d (f x) = Some x) \<Longrightarrow> dec_list d (JArr (map f xs)) = Some xs"
  by (induction xs) (auto simp: dec_list_def)

lemma dec_version_json [simp]: "dec_version (version_json v) = Some v"
  by (simp add: dec_version_def version_json_def object_reads)

lemma dec_source_json [simp]: "dec_source (source_json s) = Some s"
  by (simp add: dec_source_def source_json_def object_reads)

lemma dec_image_json [simp]: "dec_image (image_json i) = Some i"
proof -
  have "opt_field (image_json i) ''filename'' dec_string = Some (img_filename i)"
    by (rule opt_field_option [where f = JStr]) (simp_all add: image_json_def object_reads)
  then show ?thesis by (simp add: dec_image_def) (simp add: image_json_def object_reads)
qed

lemma dec_reasoning_json [simp]: "dec_reasoning (reasoning_json r) = Some r"
proof -
  have "opt_field (reasoning_json r) ''startedAt'' dec_num = Some (rsn_startedAt r)"
    "opt_field (reasoning_json r) ''completedAt'' dec_num = Some (rsn_completedAt r)"
    "opt_field (reasoning_json r) ''durationMs'' dec_num = Some (rsn_durationMs r)"
    by (rule opt_field_option [where f = JNum]; simp add: reasoning_json_def object_reads)+
  then show ?thesis by (simp add: dec_reasoning_def) (simp add: reasoning_json_def object_reads)
qed

lemma dec_role_string [simp]: "dec_role (JStr (role_string r)) = Some r"
  by (cases r) (simp_all add: dec_role_def role_string_def)

lemma dec_status_string [simp]: "dec_status (JStr (status_string s)) = Some s"
  by (cases s) (simp_all add: dec_status_def status_string_def)

lemma dec_null_or_json [simp]: "dec_null_or (null_or x) = Some x"
  by (cases x) (simp_all add: dec_null_or_def null_or_def dec_string_def)

lemma dec_num_JNum [simp]: "dec_num (JNum n) = Some n" and dec_bool_JBool [simp]: "dec_bool (JBool b) = Some b"
  by (simp_all add: dec_num_def dec_bool_def)

text \<open>The properties of a stored message, one by one.\<close>

lemma stored_message_get:
  "jget (stored_message m) ''key'' = Some (JStr (msg_key m))"
  "jget (stored_message m) ''from'' = Some (JStr (role_string (msg_from m)))"
  "jget (stored_message m) ''versions'' = Some (JArr (map version_json (msg_versions m)))"
  "jget (stored_message m) ''createdAt'' = map_option JNum (msg_createdAt m)"
  "jget (stored_message m) ''startedAt'' = map_option JNum (msg_startedAt m)"
  "jget (stored_message m) ''completedAt'' = map_option JNum (msg_completedAt m)"
  "jget (stored_message m) ''durationMs'' = map_option JNum (msg_durationMs m)"
  "jget (stored_message m) ''images'' = map_option (\<lambda>is. JArr (map image_json is)) (msg_images m)"
  "jget (stored_message m) ''sources'' = map_option (\<lambda>ss. JArr (map source_json ss)) (msg_sources m)"
  "jget (stored_message m) ''reasoning'' = map_option reasoning_json (msg_reasoning m)"
  "jget (stored_message m) ''isReasoningStreaming'' = map_option JBool (msg_isReasoningStreaming m)"
  "jget (stored_message m) ''isReasoningComplete'' = map_option JBool (msg_isReasoningComplete m)"
  "jget (stored_message m) ''isContentComplete'' = map_option JBool (msg_isContentComplete m)"
  "jget (stored_message m) ''status'' = map_option (\<lambda>s. JStr (status_string s)) (msg_status m)"
  "jget (stored_message m) ''errorCode'' = map_option null_or (msg_errorCode m)"
  by (simp_all add: stored_message_def map_of_json_opt map_add_def option.case_eq_if)

lemma dec_message_stored: "dec_message (stored_message m) = Some m"
proof -
  note o = opt_field_option [OF stored_message_get(4)] opt_field_option [OF stored_message_get(5)]
    opt_field_option [OF stored_message_get(6)] opt_field_option [OF stored_message_get(7)]
    opt_field_option [OF stored_message_get(8)] opt_field_option [OF stored_message_get(9)]
    opt_field_option [OF stored_message_get(10)] opt_field_option [OF stored_message_get(11)]
    opt_field_option [OF stored_message_get(12)] opt_field_option [OF stored_message_get(13)]
    opt_field_option [OF stored_message_get(14)] opt_field_option [OF stored_message_get(15)]
  show ?thesis
    unfolding dec_message_def req_field_def stored_message_get(1-3)
    by (simp add: o dec_list_map) (simp add: dec_string_def)
qed

lemma dec_messages_stored: "dec_list dec_message (stored_messages ms) = Some ms"
  unfolding stored_messages_def by (rule dec_list_map) (rule dec_message_stored)

section \<open>Values of the schema\<close>

lemma fields_conform_opt:
  assumes "optional S" and "\<And>j. v = Some j \<Longrightarrow> conforms S j" and "k \<notin> fst ` set r" and "fields_conform fs r"
  shows "fields_conform ((k, S) # fs) (json_opt k v @ r)"
proof (cases v)
  case None
  then show ?thesis using assms by (cases r) (auto simp: json_opt_def)
next
  case (Some j)
  then show ?thesis using assms by (simp add: json_opt_def)
qed

lemma fields_conform_opt_last:
  assumes "optional S" and "\<And>j. v = Some j \<Longrightarrow> conforms S j"
  shows "fields_conform [(k, S)] (json_opt k v)"
  using fields_conform_opt [OF assms, where k = k and r = "[]" and fs = "[]"] by simp

lemma json_opt_set [simp]: "(x, j) \<in> set (json_opt k v) \<longleftrightarrow> x = k \<and> v = Some j"
  by (cases v) (auto simp: json_opt_def)

lemma stored_message_conforms:
  assumes "msg_versions m \<noteq> []"
  shows "conforms messageSchema (stored_message m)"
proof -
  have "conforms messageRoleSchema (JStr (role_string r))" for r
    by (cases r) (simp_all add: messageRoleSchema_def role_string_def)
  moreover have "conforms messageStatusSchema (JStr (status_string r))" for r
    by (cases r) (simp_all add: messageStatusSchema_def status_string_def)
  moreover have "conforms imageSchema (image_json i)" for i
    unfolding image_json_def imageSchema_def
    by (auto intro!: fields_conform_opt_last)
  moreover have "conforms reasoningSchema (reasoning_json r)" for r
    unfolding reasoning_json_def reasoningSchema_def
    by (auto intro!: fields_conform_opt_last fields_conform_opt simp: image_Un)
  ultimately show ?thesis
    using assms unfolding stored_message_def messageSchema_def
    by (auto intro!: fields_conform_opt_last fields_conform_opt
        simp: image_Un version_json_def messageVersionSchema_def source_json_def sourceSchema_def null_or_def
        Suc_le_eq split: option.splits)
qed

lemma stored_messages_conform:
  "\<forall>m \<in> set ms. msg_versions m \<noteq> [] \<Longrightarrow> conforms messagesSchema (stored_messages ms)"
  by (auto simp: messagesSchema_def stored_messages_def stored_message_conforms)

text \<open>What the schema says about one key of an object.\<close>

lemma fields_conform_lookup:
  assumes "fields_conform fs kvs" and "distinct (map fst fs)" and "(k, S) \<in> set fs"
  shows "case map_of kvs k of None \<Rightarrow> optional S | Some v \<Rightarrow> conforms S v"
  using assms
proof (induction fs arbitrary: kvs)
  case (Cons f fs)
  note IH = Cons.IH and asm = Cons.prems
  obtain k0 S0 where f: "f = (k0, S0)" by fastforce
  have fresh: "k0 \<notin> fst ` set fs" "distinct (map fst fs)" using asm(2) by (simp_all add: f)
  show ?case
  proof (cases kvs)
    case Nil
    then show ?thesis using asm IH [of "[]"] fresh(2) by (auto simp: f)
  next
    case (Cons kv rest)
    obtain k' v where kv: "kv = (k', v)" by fastforce
    show ?thesis
    proof (cases "k' = k0")
      case True
      have "map_of rest k0 = None"
        using asm(1) fresh(1) fields_conform_keys [of fs rest] by (auto simp: f kv Cons True map_of_eq_None_iff)
      then show ?thesis using asm IH [of rest] fresh by (force simp: f kv Cons True)
    next
      case False
      then have *: "optional S0" "fields_conform fs kvs" using asm(1) by (auto simp: f kv Cons)
      have "map_of kvs k0 = None"
        using fields_conform_keys [OF *(2)] fresh(1) by (auto simp: map_of_eq_None_iff)
      then show ?thesis using asm(3) * IH [of kvs] fresh(2) by (auto simp: f)
    qed
  qed
qed simp

lemma conforms_cases:
  "conforms ZString j \<longleftrightarrow> (\<exists>s. j = JStr s)" "conforms ZNumber j \<longleftrightarrow> (\<exists>n. j = JNum n)"
  "conforms ZBoolean j \<longleftrightarrow> (\<exists>b. j = JBool b)" "conforms (ZEnum es) j \<longleftrightarrow> (\<exists>s \<in> set es. j = JStr s)"
  "conforms (ZArray S n) j \<longleftrightarrow> (\<exists>xs. j = JArr xs \<and> n \<le> length xs \<and> (\<forall>x \<in> set xs. conforms S x))"
  "conforms (ZObject fs) j \<longleftrightarrow> (\<exists>kvs. j = JObj kvs \<and> fields_conform fs kvs)"
  by (cases j; auto)+

definition readable :: "schema \<Rightarrow> (json \<Rightarrow> 'a option) \<Rightarrow> bool" where
  "readable S d \<longleftrightarrow> (\<forall>v. conforms S v \<longrightarrow> d v \<noteq> None)"

lemma req_field_ok:
  assumes "conforms (ZObject fs) j" and "distinct (map fst fs)" and "(k, S) \<in> set fs" and "\<not> optional S"
    and "readable S d"
  shows "\<exists>x. req_field j k d = Some x"
  using assms fields_conform_lookup [of fs _ k S]
  by (fastforce simp: readable_def conforms_cases req_field_def split: option.splits)

lemma opt_field_ok:
  assumes "conforms (ZObject fs) j" and "distinct (map fst fs)" and "(k, ZOptional S) \<in> set fs"
    and "readable S d"
  shows "\<exists>x. opt_field j k d = Some x"
  using assms fields_conform_lookup [of fs _ k "ZOptional S"]
  by (fastforce simp: readable_def conforms_cases opt_field_def split: option.splits)

lemma readable_list:
  assumes "readable S d" shows "readable (ZArray S n) (dec_list d)"
  unfolding readable_def
proof (intro allI impI)
  fix j assume "conforms (ZArray S n) j"
  then obtain xs where j: "j = JArr xs" "\<forall>x \<in> set xs. conforms S x" by (auto simp: conforms_cases)
  have "those (map d xs) \<noteq> None" using j(2)
  proof (induction xs)
    case (Cons x xs)
    then have "d x \<noteq> None" using assms by (simp add: readable_def)
    then show ?case using Cons by (auto split: option.splits)
  qed simp
  then show "dec_list d j \<noteq> None" by (simp add: j(1) dec_list_def)
qed

lemma readable_scalars:
  "readable ZString dec_string" "readable ZNumber dec_num" "readable ZBoolean dec_bool"
  "readable messageRoleSchema dec_role" "readable messageStatusSchema dec_status"
  "readable (ZNullable ZString) dec_null_or"
  by (auto simp: readable_def conforms_cases dec_string_def dec_num_def dec_bool_def messageRoleSchema_def
      dec_role_def messageStatusSchema_def dec_status_def dec_null_or_def)

lemma readable_version: "readable messageVersionSchema dec_version"
  unfolding readable_def messageVersionSchema_def
proof (intro allI impI)
  fix j assume c: "conforms (ZObject [(''id'', ZString), (''content'', ZString)]) j"
  obtain a b where "req_field j ''id'' dec_string = Some a" "req_field j ''content'' dec_string = Some b"
    using req_field_ok [OF c _ _ _ readable_scalars(1), of "''id''"]
      req_field_ok [OF c _ _ _ readable_scalars(1), of "''content''"] by auto
  then show "dec_version j \<noteq> None" by (simp add: dec_version_def)
qed

lemma readable_source: "readable sourceSchema dec_source"
  unfolding readable_def sourceSchema_def
proof (intro allI impI)
  fix j assume c: "conforms (ZObject [(''href'', ZString), (''title'', ZString)]) j"
  obtain a b where "req_field j ''href'' dec_string = Some a" "req_field j ''title'' dec_string = Some b"
    using req_field_ok [OF c _ _ _ readable_scalars(1), of "''href''"]
      req_field_ok [OF c _ _ _ readable_scalars(1), of "''title''"] by auto
  then show "dec_source j \<noteq> None" by (simp add: dec_source_def)
qed

lemma readable_image: "readable imageSchema dec_image"
  unfolding readable_def imageSchema_def
proof (intro allI impI)
  fix j assume c: "conforms (ZObject [(''url'', ZString), (''mediaType'', ZString), (''filename'', ZOptional ZString)]) j"
  obtain a b f where "req_field j ''url'' dec_string = Some a" "req_field j ''mediaType'' dec_string = Some b"
    "opt_field j ''filename'' dec_string = Some f"
    using req_field_ok [OF c _ _ _ readable_scalars(1), of "''url''"]
      req_field_ok [OF c _ _ _ readable_scalars(1), of "''mediaType''"]
      opt_field_ok [OF c _ _ readable_scalars(1), of "''filename''"] by auto
  then show "dec_image j \<noteq> None" by (simp add: dec_image_def)
qed

lemma readable_reasoning: "readable reasoningSchema dec_reasoning"
  unfolding readable_def reasoningSchema_def
proof (intro allI impI)
  fix j assume c: "conforms (ZObject [(''content'', ZString), (''duration'', ZNumber),
     (''startedAt'', ZOptional ZNumber), (''completedAt'', ZOptional ZNumber), (''durationMs'', ZOptional ZNumber)]) j"
  obtain a b s e d where "req_field j ''content'' dec_string = Some a" "req_field j ''duration'' dec_num = Some b"
    "opt_field j ''startedAt'' dec_num = Some s" "opt_field j ''completedAt'' dec_num = Some e"
    "opt_field j ''durationMs'' dec_num = Some d"
    using req_field_ok [OF c _ _ _ readable_scalars(1), of "''content''"]
      req_field_ok [OF c _ _ _ readable_scalars(2), of "''duration''"]
      opt_field_ok [OF c _ _ readable_scalars(2), of "''startedAt''"]
      opt_field_ok [OF c _ _ readable_scalars(2), of "''completedAt''"]
      opt_field_ok [OF c _ _ readable_scalars(2), of "''durationMs''"] by auto
  then show "dec_reasoning j \<noteq> None" by (simp add: dec_reasoning_def)
qed

lemma readable_message: "readable messageSchema dec_message"
  unfolding readable_def
proof (intro allI impI)
  fix j assume "conforms messageSchema j"
  note c = this [unfolded messageSchema_def]
  obtain x1 where f1: "req_field j ''key'' dec_string = Some x1"
    using req_field_ok [OF c _ _ _ readable_scalars(1), of "''key''"] by auto
  obtain x2 where f2: "req_field j ''from'' dec_role = Some x2"
    using req_field_ok [OF c _ _ _ readable_scalars(4), of "''from''"] by (auto simp: messageRoleSchema_def)
  obtain x3 where f3: "req_field j ''versions'' (dec_list dec_version) = Some x3"
    using req_field_ok [OF c _ _ _ readable_list [OF readable_version], of "''versions''"] by auto
  obtain x4 where f4: "opt_field j ''createdAt'' dec_num = Some x4"
    using opt_field_ok [OF c _ _ readable_scalars(2), of "''createdAt''"] by auto
  obtain x5 where f5: "opt_field j ''startedAt'' dec_num = Some x5"
    using opt_field_ok [OF c _ _ readable_scalars(2), of "''startedAt''"] by auto
  obtain x6 where f6: "opt_field j ''completedAt'' dec_num = Some x6"
    using opt_field_ok [OF c _ _ readable_scalars(2), of "''completedAt''"] by auto
  obtain x7 where f7: "opt_field j ''durationMs'' dec_num = Some x7"
    using opt_field_ok [OF c _ _ readable_scalars(2), of "''durationMs''"] by auto
  obtain x8 where f8: "opt_field j ''images'' (dec_list dec_image) = Some x8"
    using opt_field_ok [OF c _ _ readable_list [OF readable_image], of "''images''"] by auto
  obtain x9 where f9: "opt_field j ''sources'' (dec_list dec_source) = Some x9"
    using opt_field_ok [OF c _ _ readable_list [OF readable_source], of "''sources''"] by auto
  obtain x10 where f10: "opt_field j ''reasoning'' dec_reasoning = Some x10"
    using opt_field_ok [OF c _ _ readable_reasoning, of "''reasoning''"] by auto
  obtain x11 where f11: "opt_field j ''isReasoningStreaming'' dec_bool = Some x11"
    using opt_field_ok [OF c _ _ readable_scalars(3), of "''isReasoningStreaming''"] by auto
  obtain x12 where f12: "opt_field j ''isReasoningComplete'' dec_bool = Some x12"
    using opt_field_ok [OF c _ _ readable_scalars(3), of "''isReasoningComplete''"] by auto
  obtain x13 where f13: "opt_field j ''isContentComplete'' dec_bool = Some x13"
    using opt_field_ok [OF c _ _ readable_scalars(3), of "''isContentComplete''"] by auto
  obtain x14 where f14: "opt_field j ''status'' dec_status = Some x14"
    using opt_field_ok [OF c _ _ readable_scalars(5), of "''status''"] by auto
  obtain x15 where f15: "opt_field j ''errorCode'' dec_null_or = Some x15"
    using opt_field_ok [OF c _ _ readable_scalars(6), of "''errorCode''"] by auto
  show "dec_message j \<noteq> None"
    by (simp add: dec_message_def f1 f2 f3 f4 f5 f6 f7 f8 f9 f10 f11 f12 f13 f14 f15)
qed

lemma dec_messages_ok: "conforms messagesSchema j \<Longrightarrow> \<exists>ms. dec_list dec_message j = Some ms"
  using readable_list [OF readable_message, of 0] by (auto simp: readable_def messagesSchema_def)

section \<open>Printable messages\<close>

definition opt_decimal :: "jsnum option \<Rightarrow> bool" where
  "opt_decimal x \<longleftrightarrow> (case x of None \<Rightarrow> True | Some n \<Rightarrow> is_decimal n)"

definition message_ok :: "Message \<Rightarrow> bool" where
  "message_ok m \<longleftrightarrow> msg_versions m \<noteq> [] \<and> opt_decimal (msg_createdAt m) \<and> opt_decimal (msg_startedAt m) \<and>
     opt_decimal (msg_completedAt m) \<and> opt_decimal (msg_durationMs m) \<and>
     (\<forall>r. msg_reasoning m = Some r \<longrightarrow> is_decimal (rsn_duration r) \<and> opt_decimal (rsn_startedAt r) \<and>
        opt_decimal (rsn_completedAt r) \<and> opt_decimal (rsn_durationMs r))"

lemma fields_conform_distinct:
  "fields_conform fs kvs \<Longrightarrow> distinct (map fst fs) \<Longrightarrow> distinct (map fst kvs)"
proof (induction fs arbitrary: kvs)
  case (Cons f fs)
  note IH = Cons.IH and asm = Cons.prems
  obtain k S where f: "f = (k, S)" by fastforce
  show ?case
  proof (cases kvs)
    case (Cons kv rest)
    obtain k' v where kv: "kv = (k', v)" by fastforce
    show ?thesis
      using asm IH [of rest] IH [of kvs] fields_conform_keys [of fs rest]
      by (auto simp: f kv Cons split: if_splits)
  qed simp
qed simp

lemma json_opt_ok: "(\<forall>kv \<in> set (json_opt k v). json_ok (snd kv)) \<longleftrightarrow> (\<forall>j. v = Some j \<longrightarrow> json_ok j)"
  by (cases v) (auto simp: json_opt_def)

lemma json_ok_parts:
  "json_ok (version_json v)" "json_ok (image_json i)" "json_ok (source_json s)" "json_ok (null_or x)"
  by (auto simp: version_json_def image_json_def source_json_def null_or_def json_opt_def split: option.split)

lemma json_ok_reasoning:
  assumes "is_decimal (rsn_duration r)" "opt_decimal (rsn_startedAt r)" "opt_decimal (rsn_completedAt r)"
    "opt_decimal (rsn_durationMs r)"
  shows "json_ok (reasoning_json r)"
  using assms by (cases "rsn_startedAt r"; cases "rsn_completedAt r"; cases "rsn_durationMs r")
     (simp_all add: reasoning_json_def opt_decimal_def json_opt_def)

lemma opt_decimal_ok: "opt_decimal x \<Longrightarrow> map_option JNum x = Some j \<Longrightarrow> json_ok j"
  by (auto simp: opt_decimal_def)

lemma json_ok_stored_message:
  assumes "message_ok m" shows "json_ok (stored_message m)"
proof -
  have numbers: "opt_decimal (msg_createdAt m)" "opt_decimal (msg_startedAt m)"
    "opt_decimal (msg_completedAt m)" "opt_decimal (msg_durationMs m)"
    and reasoning: "\<And>r. msg_reasoning m = Some r \<Longrightarrow> json_ok (reasoning_json r)"
    using assms json_ok_reasoning by (auto simp: message_ok_def)
  obtain kvs where kvs: "stored_message m = JObj kvs" by (simp add: stored_message_def)
  have "distinct (map fst kvs)"
    using stored_message_conforms [of m] assms fields_conform_distinct
    by (auto simp: kvs message_ok_def messageSchema_def)
  moreover have "\<forall>kv \<in> set kvs. json_ok (snd kv)"
    using kvs numbers [THEN opt_decimal_ok] reasoning
    by (simp add: stored_message_def) (elim subst, simp add: ball_Un json_opt_ok json_ok_parts,
      intro conjI; auto simp: json_ok_parts)
  ultimately show ?thesis by (simp add: kvs)
qed

lemma json_ok_stored_messages: "\<forall>m \<in> set ms. message_ok m \<Longrightarrow> json_ok (stored_messages ms)"
  by (simp add: stored_messages_def json_ok_stored_message)

end
