(* ===== verification/Stored_Text.thy ===== *)
theory Stored_Text
  imports Schema_Objects
begin

text \<open>
  The texts of stored messages, from \<open>lib/storage/storage.ts\<close>: truncation, and the collapse of
  answers in which a provider has sent the same numbered sections again and again.

  The regular expression of a section heading is matched by hand. A run of \<open>#\<close>, a run of
  digits and the text up to the end of the line each end before a character outside their
  class, so only the white space before the title can give characters back: when the text ends
  in that white space, the longest part is taken that leaves a character for the title.
\<close>

section \<open>Truncation\<close>

definition TRUNCATED_CONTENT_SUFFIX :: string where
  "TRUNCATED_CONTENT_SUFFIX = [CHR 0x0A, CHR 0x0A] @ ''[...]''"

definition truncateText :: "string \<Rightarrow> nat \<Rightarrow> string" where
  "truncateText s maxLength =
     (if length s \<le> maxLength then s
      else if maxLength \<le> length TRUNCATED_CONTENT_SUFFIX then take maxLength s
      else take (maxLength - length TRUNCATED_CONTENT_SUFFIX) s @ TRUNCATED_CONTENT_SUFFIX)"

lemma truncateText_bound: "length (truncateText s n) \<le> n"
  by (auto simp: truncateText_def)

lemma truncateText_unchanged [simp]: "length s \<le> n \<Longrightarrow> truncateText s n = s"
  by (simp add: truncateText_def)

lemma truncateText_idem [simp]: "truncateText (truncateText s n) n = truncateText s n"
  by (rule truncateText_unchanged) (rule truncateText_bound)

section \<open>Section headings\<close>

definition MIN_PREFIX_COLLAPSE_LENGTH :: nat where "MIN_PREFIX_COLLAPSE_LENGTH = 2000"

definition MIN_REPEATED_SECTION_COUNT :: nat where "MIN_REPEATED_SECTION_COUNT = 3"

definition line_end :: "char \<Rightarrow> bool" where
  "line_end c \<longleftrightarrow> c = CHR 0x0A \<or> c = CHR 0x0D"

text \<open>
  The white space and the title after the dot: the number of characters matched. In the last
  branch the text ends in white space \<open>w\<close>.
\<close>

fun last_title_start :: "string \<Rightarrow> nat \<Rightarrow> nat option" where
  "last_title_start w 0 = None"
| "last_title_start w (Suc i) =
     (if i = 0 then None else if \<not> line_end (w ! i) then Some i else last_title_start w i)"

definition match_title :: "string \<Rightarrow> nat option" where
  "match_title s =
     (let w = takeWhile js_ws s; r = dropWhile js_ws s in
      if w = [] then None
      else if r \<noteq> [] then Some (length w + length (takeWhile (\<lambda>c. \<not> line_end c) r))
      else map_option (\<lambda>i. i + length (takeWhile (\<lambda>c. \<not> line_end c) (drop i w)))
             (last_title_start w (length w)))"

text \<open>The match of \<open>SECTION_HEADING_LINE_PATTERN\<close> at the start of a line, by its length.\<close>

definition match_heading :: "string \<Rightarrow> nat option" where
  "match_heading s =
     (let hashes = takeWhile (\<lambda>c. c = CHR ''#'') s;
          s1 = dropWhile (\<lambda>c. c = CHR ''#'') s;
          gap = takeWhile js_ws s1;
          s2 = dropWhile js_ws s1;
          digits = takeWhile is_digit s2;
          s3 = dropWhile is_digit s2
      in if length hashes < 2 \<or> 6 < length hashes \<or> gap = [] \<or> digits = [] then None
         else case s3 of
             CHR ''.'' # s4 \<Rightarrow>
               map_option (\<lambda>n. length hashes + length gap + length digits + 1 + n) (match_title s4)
           | _ \<Rightarrow> None)"

record SectionOccurrence =
  sec_heading :: string
  sec_index :: nat

text \<open>
  \<open>matchAll\<close> from an index on; \<open>start\<close> tells whether a line starts there. A match ends in a
  character of the title, so no line starts right after it.
\<close>

function scan_headings :: "bool \<Rightarrow> nat \<Rightarrow> string \<Rightarrow> SectionOccurrence list" where
  "scan_headings start i [] = []"
| "scan_headings start i (c # s) =
     (case (if start then match_heading (c # s) else None) of
        None \<Rightarrow> scan_headings (line_end c) (i + 1) s
      | Some n \<Rightarrow> \<lparr>sec_heading = take n (c # s), sec_index = i\<rparr> #
          scan_headings False (i + max n 1) (drop (max n 1) (c # s)))"
  by pat_completeness auto
termination
  by (relation "measure (\<lambda>(start, i, s). length s)") (auto simp: max_def)

definition getSectionOccurrences :: "string \<Rightarrow> SectionOccurrence list" where
  "getSectionOccurrences s = scan_headings True 0 s"

definition getHeadingCounts :: "SectionOccurrence list \<Rightarrow> (string \<times> nat) list" where
  "getHeadingCounts occurrences =
     foldl (\<lambda>counts occurrence. AList.update (sec_heading occurrence)
        (nullish (map_of counts (sec_heading occurrence)) 0 + 1) counts) [] occurrences"

text \<open>The loop from the last occurrence to the first, with the headings seen and the indices found.\<close>

fun lastRepeatedIndexes ::
  "(string \<times> nat) list \<Rightarrow> string list \<Rightarrow> SectionOccurrence list \<Rightarrow> nat list" where
  "lastRepeatedIndexes headingCounts seenHeadings [] = []"
| "lastRepeatedIndexes headingCounts seenHeadings (occurrence # rest) =
     (if nullish (map_of headingCounts (sec_heading occurrence)) 0 < MIN_REPEATED_SECTION_COUNT \<or>
         sec_heading occurrence \<in> set seenHeadings
      then lastRepeatedIndexes headingCounts seenHeadings rest
      else sec_index occurrence #
        lastRepeatedIndexes headingCounts (sec_heading occurrence # seenHeadings) rest)"

definition findLastRepeatedSectionRunStart :: "string \<Rightarrow> nat option" where
  \<comment> \<open>\<open>None\<close> is the result -1\<close>
  "findLastRepeatedSectionRunStart s =
     (let occurrences = getSectionOccurrences s;
          indexes = lastRepeatedIndexes (getHeadingCounts occurrences) [] (rev occurrences)
      in if length indexes = 0 then None else Some (Min (set indexes)))"

definition collapseRepeatedSectionSnapshots :: "string \<Rightarrow> string" where
  "collapseRepeatedSectionSnapshots s =
     (if length s < MIN_PREFIX_COLLAPSE_LENGTH then s
      else case findLastRepeatedSectionRunStart s of
          None \<Rightarrow> s
        | Some lastRepeatedRunStart \<Rightarrow> drop lastRepeatedRunStart s)"

section \<open>What the collapse keeps\<close>

lemma getHeadingCounts_count:
  "nullish (map_of (getHeadingCounts occs) h) 0 = count_list (map sec_heading occs) h"
proof -
  have "nullish (map_of (foldl (\<lambda>counts occurrence. AList.update (sec_heading occurrence)
        (nullish (map_of counts (sec_heading occurrence)) 0 + 1) counts) al occs) h) 0 =
      nullish (map_of al h) 0 + count_list (map sec_heading occs) h" for al
    by (induction occs arbitrary: al) (auto simp: update_conv)
  then show ?thesis by (simp add: getHeadingCounts_def)
qed

lemma set_lastRepeatedIndexes:
  "set (lastRepeatedIndexes counts seen xs) =
     {sec_index x | x before after. xs = before @ x # after \<and>
        MIN_REPEATED_SECTION_COUNT \<le> nullish (map_of counts (sec_heading x)) 0 \<and>
        sec_heading x \<notin> set seen \<and> sec_heading x \<notin> sec_heading ` set before}"
  (is "_ = ?R seen xs")
proof (induction xs arbitrary: seen)
  case (Cons x xs)
  have split: "?R seen (x # xs) =
      (if MIN_REPEATED_SECTION_COUNT \<le> nullish (map_of counts (sec_heading x)) 0 \<and> sec_heading x \<notin> set seen
       then {sec_index x} else {}) \<union>
      {sec_index y | y before after. xs = before @ y # after \<and>
        MIN_REPEATED_SECTION_COUNT \<le> nullish (map_of counts (sec_heading y)) 0 \<and>
        sec_heading y \<notin> set seen \<and> sec_heading y \<notin> sec_heading ` set (x # before)}"
    (is "?L = ?A \<union> ?B")
  proof (intro equalityI subsetI)
    fix i assume "i \<in> ?L"
    then obtain y before after where y: "i = sec_index y" "x # xs = before @ y # after"
      "MIN_REPEATED_SECTION_COUNT \<le> nullish (map_of counts (sec_heading y)) 0"
      "sec_heading y \<notin> set seen" "sec_heading y \<notin> sec_heading ` set before" by blast
    then show "i \<in> ?A \<union> ?B" by (cases before) auto
  next
    fix i assume "i \<in> ?A \<union> ?B"
    then consider "i \<in> ?A" | "i \<in> ?B" by blast
    then show "i \<in> ?L"
    proof cases
      case 1
      then show ?thesis
        by (intro CollectI exI [of _ x] exI [of _ "[]"] exI [of _ xs]) (auto split: if_splits)
    next
      case 2
      then obtain y before after where "i = sec_index y" "xs = before @ y # after"
        "MIN_REPEATED_SECTION_COUNT \<le> nullish (map_of counts (sec_heading y)) 0"
        "sec_heading y \<notin> set seen" "sec_heading y \<notin> sec_heading ` set (x # before)" by blast
      then show ?thesis by (intro CollectI exI [of _ y] exI [of _ "x # before"] exI [of _ after]) auto
    qed
  qed
  show ?case
  proof (cases "nullish (map_of counts (sec_heading x)) 0 < MIN_REPEATED_SECTION_COUNT \<or>
      sec_heading x \<in> set seen")
    case True
    have eq: "(MIN_REPEATED_SECTION_COUNT \<le> nullish (map_of counts (sec_heading y)) 0 \<and>
        sec_heading y \<notin> set seen \<and> sec_heading y \<notin> sec_heading ` set (x # before)) =
      (MIN_REPEATED_SECTION_COUNT \<le> nullish (map_of counts (sec_heading y)) 0 \<and>
        sec_heading y \<notin> set seen \<and> sec_heading y \<notin> sec_heading ` set before)" for y before
      using True by auto
    have "?B = ?R seen xs" by (simp only: eq)
    then show ?thesis unfolding split using True Cons [of seen] by auto
  next
    case False
    have eq: "(sec_heading y \<notin> set seen \<and> sec_heading y \<notin> sec_heading ` set (x # before)) =
      (sec_heading y \<notin> set (sec_heading x # seen) \<and> sec_heading y \<notin> sec_heading ` set before)" for y before
      by auto
    have "?B = ?R (sec_heading x # seen) xs" by (simp only: eq)
    then show ?thesis unfolding split using False Cons [of "sec_heading x # seen"] by auto
  qed
qed simp

text \<open>The positions of the last occurrences of the headings that occur at least three times.\<close>

definition last_repeated_positions :: "SectionOccurrence list \<Rightarrow> nat set" where
  "last_repeated_positions occs =
     {sec_index x | x before after. occs = before @ x # after \<and> sec_heading x \<notin> sec_heading ` set after \<and>
        3 \<le> count_list (map sec_heading occs) (sec_heading x)}"

lemma rev_split: "rev xs = before @ x # after \<longleftrightarrow> xs = rev after @ x # rev before"
  by (metis append.assoc append_Cons append_Nil rev.simps(2) rev_append rev_rev_ident)

text \<open>
  The collapse of repeated sections keeps the last run: the index that the backward loop
  with its table of counts and its set of seen headings finds is the least of the positions
  at which a heading that occurs at least three times occurs for the last time, and there is
  none exactly when no heading occurs three times.
\<close>

theorem findLastRepeatedSectionRunStart_spec:
  "findLastRepeatedSectionRunStart s =
     (let L = last_repeated_positions (getSectionOccurrences s)
      in if L = {} then None else Some (Min L))"
proof -
  let ?occs = "getSectionOccurrences s"
  let ?is = "lastRepeatedIndexes (getHeadingCounts ?occs) [] (rev ?occs)"
  have "set ?is = last_repeated_positions ?occs"
    unfolding set_lastRepeatedIndexes getHeadingCounts_count rev_split last_repeated_positions_def
      MIN_REPEATED_SECTION_COUNT_def
  proof (intro Collect_cong iffI; elim exE conjE)
    fix i x before after
    assume "i = sec_index x" "?occs = rev after @ x # rev before"
      "3 \<le> count_list (map sec_heading ?occs) (sec_heading x)" "sec_heading x \<notin> sec_heading ` set before"
    then show "\<exists>x before after. i = sec_index x \<and> ?occs = before @ x # after \<and>
        sec_heading x \<notin> sec_heading ` set after \<and> 3 \<le> count_list (map sec_heading ?occs) (sec_heading x)"
      by (intro exI [of _ x] exI [of _ "rev after"] exI [of _ "rev before"]) simp
  next
    fix i x before after
    assume "i = sec_index x" "?occs = before @ x # after"
      "3 \<le> count_list (map sec_heading ?occs) (sec_heading x)" "sec_heading x \<notin> sec_heading ` set after"
    then show "\<exists>x before after. i = sec_index x \<and> ?occs = rev after @ x # rev before \<and>
        3 \<le> count_list (map sec_heading ?occs) (sec_heading x) \<and> sec_heading x \<notin> set [] \<and>
        sec_heading x \<notin> sec_heading ` set before"
      by (intro exI [of _ x] exI [of _ "rev after"] exI [of _ "rev before"]) simp
  qed
  then show ?thesis
    unfolding findLastRepeatedSectionRunStart_def Let_def by (metis length_0_conv set_empty)
qed

lemma collapse_suffix: "suffix (collapseRepeatedSectionSnapshots s) s"
  by (simp add: collapseRepeatedSectionSnapshots_def suffix_drop split: option.split)

lemma collapse_length: "length (collapseRepeatedSectionSnapshots s) \<le> length s"
  using collapse_suffix by (rule suffix_length_le)

end
