(* ===== verification/Storage.thy ===== *)
theory Storage
  imports Stored_Text
begin

text \<open>
  The playground's data in the local storage of the browser: \<open>lib/storage/storage.ts\<close> and
  \<open>lib/state/playground-state-utils.ts\<close>.

  The local storage is a map from keys to strings. Its quota belongs to the browser: the
  argument \<open>fits\<close> tells whether a value can be stored, and \<open>setItem\<close> throws when it cannot.
  The parser of the schemas is the argument \<open>zparse\<close>. Every function catches what it throws,
  so a thrown exception is the value of its catch clause.
\<close>

section \<open>The local storage\<close>

type_synonym storage = "string \<Rightarrow> string option"

type_synonym quota = "storage \<Rightarrow> string \<Rightarrow> string \<Rightarrow> bool"

definition KEY_CONFIG :: string where "KEY_CONFIG = ''playground_config''"

definition KEY_MESSAGES :: string where "KEY_MESSAGES = ''playground_messages''"

definition KEY_PARAMETER_ENABLED :: string where "KEY_PARAMETER_ENABLED = ''playground_parameter_enabled''"

lemmas storage_keys = KEY_CONFIG_def KEY_MESSAGES_def KEY_PARAMETER_ENABLED_def

definition setItem :: "quota \<Rightarrow> string \<Rightarrow> string \<Rightarrow> storage \<Rightarrow> storage option" where
  "setItem fits key v st = (if fits st key v then Some (st(key \<mapsto> v)) else None)"

definition removeItem :: "string \<Rightarrow> storage \<Rightarrow> storage" where
  "removeItem key st = st(key := None)"

definition readStoredValue :: "string \<Rightarrow> storage \<Rightarrow> js_error + json option" where
  "readStoredValue key st =
     (if opt_str (st key) = [] then Inr None
      else case json_parse (opt_str (st key)) of None \<Rightarrow> Inl SyntaxError | Some j \<Rightarrow> Inr (Some j))"

definition readStoredMessagesValue :: "storage \<Rightarrow> (js_error + json option) \<times> storage" where
  "readStoredMessagesValue st =
     (let saved = opt_str (st KEY_MESSAGES) in
      if saved = [] then (Inr None, st)
      else if length saved > MAX_STORED_MESSAGES_BYTES then (Inr None, removeItem KEY_MESSAGES st)
      else (case json_parse saved of None \<Rightarrow> Inl SyntaxError | Some j \<Rightarrow> Inr (Some j), st))"

definition unwrapStoredValue :: "json \<Rightarrow> json" where
  "unwrapStoredValue v =
     (if jget v ''version'' \<noteq> None \<and> jget v ''data'' \<noteq> None then the (jget v ''data'') else v)"

definition envelope :: "json \<Rightarrow> json" where
  "envelope data = JObj [(''version'', JNum STORAGE_VERSION), (''data'', data)]"

definition writeStoredValue :: "quota \<Rightarrow> string \<Rightarrow> json \<Rightarrow> storage \<Rightarrow> storage option" where
  "writeStoredValue fits key data st = setItem fits key (json_stringify (envelope data)) st"

section \<open>Messages\<close>

definition trimMessages :: "Message list \<Rightarrow> Message list" where
  "trimMessages messages =
     (if length messages \<le> MAX_STORED_MESSAGES then messages else last_n MAX_STORED_MESSAGES messages)"

definition stripMessageImages :: "Message \<Rightarrow> Message" where
  "stripMessageImages message =
     (if nullish (map_option length (msg_images message)) 0 = 0 then message else message\<lparr>msg_images := None\<rparr>)"

definition envelopeSize :: "Message list \<Rightarrow> nat" where
  "envelopeSize data = length (json_stringify (envelope (stored_messages data)))"

function fit_loop :: "Message list \<Rightarrow> nat \<Rightarrow> Message list" where
  "fit_loop fitted index =
     (if index < length fitted then
        (if envelopeSize fitted \<le> MAX_STORED_MESSAGES_BYTES then fitted
         else fit_loop (fitted[index := stripMessageImages (fitted ! index)]) (index + 1))
      else fitted)"
  by pat_completeness auto
termination
  by (relation "measure (\<lambda>(fitted, index). length fitted - index)") auto

declare fit_loop.simps [simp del]

definition fitMessagesIntoStorageBudget :: "Message list \<Rightarrow> Message list" where
  "fitMessagesIntoStorageBudget messages =
     (let trimmed = trimMessages messages in
      if envelopeSize trimmed \<le> MAX_STORED_MESSAGES_BYTES then trimmed else fit_loop trimmed 0)"

definition getMessageSize :: "Message \<Rightarrow> nat" where
  "getMessageSize message =
     sum_list (map (\<lambda>v. length (ver_content v)) (msg_versions message)) +
     nullish (map_option (\<lambda>r. length (rsn_content r)) (msg_reasoning message)) 0 +
     sum_list (map (\<lambda>i. length (img_url i) + nullish (map_option length (img_filename i)) 0)
       (nullish (msg_images message) []))"

text \<open>
  The second component tells whether a new object is returned, which the caller compares by
  identity. Site 2 of the clock is the \<open>Date.now()\<close> of this function.
\<close>

definition normalizeStoredMessageForLoad :: "clock \<Rightarrow> Message \<Rightarrow> Message \<times> bool" where
  "normalizeStoredMessageForLoad clk message =
     (let versions = map (\<lambda>version.
            let content = truncateText (collapseRepeatedSectionSnapshots (ver_content version))
                  MAX_LOADED_MESSAGE_CHARS
            in if content = ver_content version \<and>
                  collapseRepeatedSectionSnapshots (ver_content version) = ver_content version
               then version else version\<lparr>ver_content := content\<rparr>) (msg_versions message);
          versionsChanged = (\<exists>version \<in> set (msg_versions message).
            \<not> (truncateText (collapseRepeatedSectionSnapshots (ver_content version)) MAX_LOADED_MESSAGE_CHARS =
                ver_content version \<and>
               collapseRepeatedSectionSnapshots (ver_content version) = ver_content version));
          reasoning = map_option (\<lambda>r. r\<lparr>rsn_content := truncateText (rsn_content r) MAX_LOADED_MESSAGE_CHARS\<rparr>)
            (msg_reasoning message);
          changed = (versionsChanged \<or>
            map_option rsn_content reasoning \<noteq> map_option rsn_content (msg_reasoning message));
          normalized = (if changed then message\<lparr>msg_versions := versions, msg_reasoning := reasoning\<rparr> else message)
      in if \<not> isAssistantMessagePending normalized then (normalized, changed)
         else if \<not> hasMessageContent normalized \<and> js_trim (reasoningText normalized) = [] then (normalized, changed)
         else
           let completedAt = nullish (nullish_opt (nullish_opt (nullish_opt (msg_completedAt normalized)
                 (Option.bind (msg_reasoning normalized) rsn_completedAt)) (msg_startedAt normalized))
                 (msg_createdAt normalized)) (clk 2)
           in (completeAssistantTiming ((finalizeMessage clk normalized None)
                 \<lparr>msg_status := Some COMPLETE, msg_isReasoningStreaming := Some False\<rparr>) completedAt, True))"

text \<open>The loop from the last message; the kept messages come out in order.\<close>

fun trim_size_loop :: "nat \<Rightarrow> Message list \<Rightarrow> Message list \<Rightarrow> Message list" where
  "trim_size_loop totalSize result [] = result"
| "trim_size_loop totalSize result (message # before) =
     (if length result > 0 \<and> totalSize + getMessageSize message > MAX_LOADED_MESSAGES_CHARS then result
      else trim_size_loop (totalSize + getMessageSize message) (result @ [message]) before)"

definition trimMessagesByContentSize :: "Message list \<Rightarrow> Message list" where
  "trimMessagesByContentSize messages = rev (trim_size_loop 0 [] (rev messages))"

section \<open>Loading and saving\<close>

definition loadObject :: "(schema \<Rightarrow> json \<Rightarrow> json option) \<Rightarrow> string \<Rightarrow> schema \<Rightarrow> storage \<Rightarrow> json" where
  \<comment> \<open>the common body of \<open>loadConfig\<close> and \<open>loadParameterEnabled\<close>\<close>
  "loadObject zparse key S st =
     (case readStoredValue key st of
        Inl _ \<Rightarrow> JObj []
      | Inr saved \<Rightarrow>
          if \<not> truthy saved then JObj []
          else nullish (zparse S (unwrapStoredValue (the saved))) (JObj []))"

definition loadConfig :: "(schema \<Rightarrow> json \<Rightarrow> json option) \<Rightarrow> storage \<Rightarrow> json" where
  "loadConfig zparse = loadObject zparse KEY_CONFIG playgroundConfigSchema"

definition loadParameterEnabled :: "(schema \<Rightarrow> json \<Rightarrow> json option) \<Rightarrow> storage \<Rightarrow> json" where
  "loadParameterEnabled zparse = loadObject zparse KEY_PARAMETER_ENABLED parameterEnabledSchema"

definition saveObject ::
  "(schema \<Rightarrow> json \<Rightarrow> json option) \<Rightarrow> quota \<Rightarrow> string \<Rightarrow> schema \<Rightarrow> json \<Rightarrow> storage \<Rightarrow> storage" where
  "saveObject zparse fits key S data st =
     (case zparse S data of
        None \<Rightarrow> st
      | Some parsed \<Rightarrow> nullish (writeStoredValue fits key parsed st) st)"

definition saveConfig :: "(schema \<Rightarrow> json \<Rightarrow> json option) \<Rightarrow> quota \<Rightarrow> json \<Rightarrow> storage \<Rightarrow> storage" where
  "saveConfig zparse fits config = saveObject zparse fits KEY_CONFIG playgroundConfigSchema config"

definition saveParameterEnabled ::
  "(schema \<Rightarrow> json \<Rightarrow> json option) \<Rightarrow> quota \<Rightarrow> json \<Rightarrow> storage \<Rightarrow> storage" where
  "saveParameterEnabled zparse fits parameterEnabled =
     saveObject zparse fits KEY_PARAMETER_ENABLED parameterEnabledSchema parameterEnabled"

definition saveMessages ::
  "(schema \<Rightarrow> json \<Rightarrow> json option) \<Rightarrow> quota \<Rightarrow> Message list \<Rightarrow> storage \<Rightarrow> storage" where
  "saveMessages zparse fits messages st =
     saveObject zparse fits KEY_MESSAGES messagesSchema
       (stored_messages (fitMessagesIntoStorageBudget messages)) st"

text \<open>
  \<open>clks i\<close> is the clock of the message with index \<open>i\<close>. \<open>trimMessagesByContentSize\<close> always
  returns a new array, so its comparison by identity is always true. A parsed value that is
  no list of messages cannot come from the parser; it would be the catch clause.
\<close>

definition loadMessages ::
  "(schema \<Rightarrow> json \<Rightarrow> json option) \<Rightarrow> quota \<Rightarrow> (string \<Rightarrow> string) \<Rightarrow> (nat \<Rightarrow> clock) \<Rightarrow> clock \<Rightarrow> storage \<Rightarrow>
   Message list option \<times> storage" where
  "loadMessages zparse fits t clks clk st =
     (case readStoredMessagesValue st of
        (Inl _, st1) \<Rightarrow> (None, st1)
      | (Inr saved, st1) \<Rightarrow>
          if \<not> truthy saved then (None, st1)
          else (case Option.bind (zparse messagesSchema (unwrapStoredValue (the saved))) (dec_list dec_message) of
             None \<Rightarrow> (None, st1)
           | Some parsed \<Rightarrow>
               let results = map (\<lambda>(i, m). normalizeStoredMessageForLoad (clks i) m)
                     (List.enumerate 0 parsed);
                   normalized = map fst results;
                   normalizedChanged = (\<exists>r \<in> set results. snd r);
                   trimmed = trimMessages normalized;
                   sizeTrimmed = trimMessagesByContentSize trimmed;
                   sizeTrimmedChanged = True;
                   sanitized = sanitizeMessagesOnLoad t clk sizeTrimmed
               in (Some sanitized,
                   if normalizedChanged \<or> length normalized > MAX_STORED_MESSAGES \<or> sizeTrimmedChanged \<or>
                      last_pending sizeTrimmed (length sizeTrimmed) \<noteq> None
                   then saveMessages zparse fits sanitized st1 else st1)))"

definition clearPlaygroundData :: "storage \<Rightarrow> storage" where
  "clearPlaygroundData st =
     removeItem KEY_MESSAGES (removeItem KEY_PARAMETER_ENABLED (removeItem KEY_CONFIG st))"

section \<open>Initial state\<close>

definition ep_string :: "PlaygroundEndpointType \<Rightarrow> string" where
  "ep_string e = (case e of EP_OPENAI \<Rightarrow> ''openai'' | EP_OPENAI_RESPONSE \<Rightarrow> ''openai-response''
     | EP_ANTHROPIC \<Rightarrow> ''anthropic'' | EP_GEMINI \<Rightarrow> ''gemini'')"

definition dec_ep :: "json \<Rightarrow> PlaygroundEndpointType option" where
  "dec_ep j = (if j = JStr ''openai'' then Some EP_OPENAI
     else if j = JStr ''openai-response'' then Some EP_OPENAI_RESPONSE
     else if j = JStr ''anthropic'' then Some EP_ANTHROPIC
     else if j = JStr ''gemini'' then Some EP_GEMINI else None)"

definition dec_seed :: "json \<Rightarrow> jsnum option option" where
  "dec_seed j = (if j = JNull then Some None else map_option Some (dec_num j))"

definition own_or :: "json \<Rightarrow> string \<Rightarrow> (json \<Rightarrow> 'a option) \<Rightarrow> 'a \<Rightarrow> 'a" where
  \<comment> \<open>a property of \<open>{ ...defaults, ...object }\<close>\<close>
  "own_or j k d dflt = nullish (Option.bind (jget j k) d) dflt"

definition spread_config :: "PlaygroundConfig \<Rightarrow> json \<Rightarrow> PlaygroundConfig" where
  "spread_config c j = \<lparr>cfg_model = own_or j ''model'' dec_string (cfg_model c),
     cfg_endpointType = own_or j ''endpointType'' dec_ep (cfg_endpointType c),
     cfg_temperature = own_or j ''temperature'' dec_num (cfg_temperature c),
     cfg_top_p = own_or j ''top_p'' dec_num (cfg_top_p c),
     cfg_max_tokens = own_or j ''max_tokens'' dec_num (cfg_max_tokens c),
     cfg_frequency_penalty = own_or j ''frequency_penalty'' dec_num (cfg_frequency_penalty c),
     cfg_presence_penalty = own_or j ''presence_penalty'' dec_num (cfg_presence_penalty c),
     cfg_seed = own_or j ''seed'' dec_seed (cfg_seed c),
     cfg_stream = own_or j ''stream'' dec_bool (cfg_stream c)\<rparr>"

definition spread_enabled :: "ParameterEnabled \<Rightarrow> json \<Rightarrow> ParameterEnabled" where
  "spread_enabled p j = \<lparr>pe_temperature = own_or j ''temperature'' dec_bool (pe_temperature p),
     pe_top_p = own_or j ''top_p'' dec_bool (pe_top_p p),
     pe_max_tokens = own_or j ''max_tokens'' dec_bool (pe_max_tokens p),
     pe_frequency_penalty = own_or j ''frequency_penalty'' dec_bool (pe_frequency_penalty p),
     pe_presence_penalty = own_or j ''presence_penalty'' dec_bool (pe_presence_penalty p),
     pe_seed = own_or j ''seed'' dec_bool (pe_seed p)\<rparr>"

definition config_json :: "PlaygroundConfig \<Rightarrow> json" where
  "config_json c = JObj [(''model'', JStr (cfg_model c)), (''endpointType'', JStr (ep_string (cfg_endpointType c))),
     (''temperature'', JNum (cfg_temperature c)), (''top_p'', JNum (cfg_top_p c)),
     (''max_tokens'', JNum (cfg_max_tokens c)), (''frequency_penalty'', JNum (cfg_frequency_penalty c)),
     (''presence_penalty'', JNum (cfg_presence_penalty c)),
     (''seed'', case cfg_seed c of None \<Rightarrow> JNull | Some s \<Rightarrow> JNum s), (''stream'', JBool (cfg_stream c))]"

definition enabled_json :: "ParameterEnabled \<Rightarrow> json" where
  "enabled_json p = JObj [(''temperature'', JBool (pe_temperature p)), (''top_p'', JBool (pe_top_p p)),
     (''max_tokens'', JBool (pe_max_tokens p)), (''frequency_penalty'', JBool (pe_frequency_penalty p)),
     (''presence_penalty'', JBool (pe_presence_penalty p)), (''seed'', JBool (pe_seed p))]"

definition getInitialPlaygroundConfig :: "(schema \<Rightarrow> json \<Rightarrow> json option) \<Rightarrow> storage \<Rightarrow> PlaygroundConfig" where
  "getInitialPlaygroundConfig zparse st = spread_config DEFAULT_CONFIG (loadConfig zparse st)"

definition getInitialParameterEnabled :: "(schema \<Rightarrow> json \<Rightarrow> json option) \<Rightarrow> storage \<Rightarrow> ParameterEnabled" where
  "getInitialParameterEnabled zparse st =
     spread_enabled DEFAULT_PARAMETER_ENABLED (loadParameterEnabled zparse st)"

definition getInitialMessages ::
  "(schema \<Rightarrow> json \<Rightarrow> json option) \<Rightarrow> quota \<Rightarrow> (string \<Rightarrow> string) \<Rightarrow> (nat \<Rightarrow> clock) \<Rightarrow> clock \<Rightarrow> storage \<Rightarrow>
   Message list \<times> storage" where
  "getInitialMessages zparse fits t clks clk st =
     (case loadMessages zparse fits t clks clk st of (ms, st1) \<Rightarrow> (nullish ms [], st1))"

datatype MessageStateUpdater =
    SetMessages "Message list"
  | UpdateMessages "Message list \<Rightarrow> Message list"

definition applyMessageStateUpdate :: "Message list \<Rightarrow> MessageStateUpdater \<Rightarrow> Message list" where
  "applyMessageStateUpdate previousMessages upd =
     (case upd of SetMessages ms \<Rightarrow> ms | UpdateMessages f \<Rightarrow> f previousMessages)"

end
