(* ===== verification/Storage_Proofs.thy ===== *)
theory Storage_Proofs
  imports Storage
begin

text \<open>
  What the storage of the playground guarantees: what is saved is what is loaded, the budgets
  of the loops that trim the conversation, and what happens beyond the budget.
\<close>

section \<open>Values in the local storage\<close>

lemma unwrap_envelope [simp]: "unwrapStoredValue (envelope j) = j"
  by (simp add: unwrapStoredValue_def envelope_def)

lemma truthy_envelope [simp]: "truthy (Some (envelope j))"
  by (simp add: envelope_def)

lemma envelope_ok: "json_ok j \<Longrightarrow> json_ok (envelope j)"
proof -
  have "is_decimal 1" by code_simp
  then show "json_ok j \<Longrightarrow> json_ok (envelope j)" by (simp add: envelope_def STORAGE_VERSION_def)
qed

lemma envelope_nonempty: "json_stringify (envelope j) \<noteq> []"
  by (simp add: envelope_def)

lemma read_saved:
  assumes "json_ok j" and "st key = Some (json_stringify (envelope j))"
  shows "readStoredValue key st = Inr (Some (envelope j))"
  using assms envelope_nonempty
  by (simp add: readStoredValue_def json_parse_stringify [OF envelope_ok] del: json_stringify.simps)

context zod_parser
begin

lemma saveObject_stores:
  assumes "wf_schema S" and "conforms S j" and "fits st key (json_stringify (envelope j))"
  shows "saveObject zparse fits key S j st = st(key \<mapsto> json_stringify (envelope j))"
  using assms accepts [OF assms(1,2)]
  by (simp add: saveObject_def writeStoredValue_def setItem_def)

lemma load_saved:
  assumes "wf_schema S" and "conforms S j" and "json_ok j" and "fits st key (json_stringify (envelope j))"
  shows "loadObject zparse key S (saveObject zparse fits key S j st) = j"
proof -
  have "readStoredValue key (saveObject zparse fits key S j st) = Inr (Some (envelope j))"
    by (rule read_saved [OF assms(3)]) (simp add: saveObject_stores [where fits = fits, OF assms(1,2,4)])
  then show ?thesis using accepts [OF assms(1,2)] by (simp add: loadObject_def)
qed

end

section \<open>Configuration\<close>

lemma config_json_conforms: "conforms playgroundConfigSchema (config_json c)"
  by (cases "cfg_endpointType c"; cases "cfg_seed c")
     (simp_all add: playgroundConfigSchema_def config_json_def ep_string_def)

lemma enabled_json_conforms: "conforms parameterEnabledSchema (enabled_json p)"
  by (simp add: parameterEnabledSchema_def enabled_json_def)

lemma config_json_ok: "config_ok c \<Longrightarrow> json_ok (config_json c)"
  by (cases "cfg_seed c") (simp_all add: config_ok_def config_json_def)

lemma dec_ep_string: "dec_ep (JStr (ep_string e)) = Some e"
  by (cases e) (simp_all add: dec_ep_def ep_string_def)

lemma spread_config_json: "spread_config d (config_json c) = c"
  by (cases "cfg_seed c")
     (simp_all add: spread_config_def config_json_def own_or_def dec_ep_string dec_string_def dec_seed_def)

lemma spread_enabled_json: "spread_enabled d (enabled_json p) = p"
  by (simp add: spread_enabled_def enabled_json_def own_or_def)

text \<open>
  The settings survive a reload: with a parser that keeps its contract and room in the
  storage, the configuration and the enabled parameters that are saved are those the next
  session starts with, whatever the storage held before, and neither save touches the stored
  conversation.
\<close>

theorem settings_roundtrip:
  assumes "zod_parser zparse" and "\<And>st k v. fits st k v" and "config_ok c"
    and "st' = saveParameterEnabled zparse fits (enabled_json p) (saveConfig zparse fits (config_json c) st)"
  shows "getInitialPlaygroundConfig zparse st' = c \<and> getInitialParameterEnabled zparse st' = p \<and>
    st' KEY_MESSAGES = st KEY_MESSAGES"
proof -
  let ?st1 = "saveConfig zparse fits (config_json c) st"
  note stores = zod_parser.saveObject_stores [where fits = fits, OF assms(1) _ _ assms(2)]
  have p: "loadParameterEnabled zparse st' = enabled_json p"
    unfolding assms(4) loadParameterEnabled_def saveParameterEnabled_def
    by (rule zod_parser.load_saved [where fits = fits, OF assms(1) _ enabled_json_conforms _ assms(2)])
       (simp_all add: enabled_json_def)
  have c: "loadConfig zparse ?st1 = config_json c"
    unfolding loadConfig_def saveConfig_def
    by (rule zod_parser.load_saved [where fits = fits, OF assms(1) _ config_json_conforms config_json_ok [OF assms(3)] assms(2)])
       simp
  have st': "st' = ?st1(KEY_PARAMETER_ENABLED \<mapsto> json_stringify (envelope (enabled_json p)))"
    unfolding assms(4) saveParameterEnabled_def by (rule stores [OF _ enabled_json_conforms]) simp
  have st1: "?st1 = st(KEY_CONFIG \<mapsto> json_stringify (envelope (config_json c)))"
    unfolding saveConfig_def by (rule stores [OF _ config_json_conforms]) simp
  have "st' KEY_CONFIG = ?st1 KEY_CONFIG" by (simp add: st' storage_keys)
  then have "loadConfig zparse st' = loadConfig zparse ?st1"
    by (simp add: loadConfig_def loadObject_def readStoredValue_def)
  moreover have "st' KEY_MESSAGES = st KEY_MESSAGES" unfolding st' st1 by (simp add: storage_keys)
  ultimately show ?thesis
    using c p by (simp add: getInitialPlaygroundConfig_def getInitialParameterEnabled_def spread_config_json
        spread_enabled_json)
qed

theorem settings_roundtrip_witness:
  "getInitialPlaygroundConfig zod_ref (saveParameterEnabled zod_ref (\<lambda>_ _ _. True)
      (enabled_json DEFAULT_PARAMETER_ENABLED) (saveConfig zod_ref (\<lambda>_ _ _. True)
        (config_json (DEFAULT_CONFIG\<lparr>cfg_model := ''m''\<rparr>)) (\<lambda>_. None))) = DEFAULT_CONFIG\<lparr>cfg_model := ''m''\<rparr>"
proof -
  have "config_ok (DEFAULT_CONFIG\<lparr>cfg_model := ''m''\<rparr>)"
    using default_config_ok by (simp add: config_ok_def)
  from settings_roundtrip [OF zod_reference.zod_parser_axioms _ this refl, of "\<lambda>_ _ _. True"]
  show ?thesis by blast
qed

section \<open>Budgets\<close>

definition total_size :: "Message list \<Rightarrow> nat" where
  "total_size ms = sum_list (map getMessageSize ms)"

lemma total_size_Nil: "total_size [] = 0"
  by (simp add: total_size_def)

lemma trim_size_loop_spec:
  assumes "total_size result \<le> MAX_LOADED_MESSAGES_CHARS \<or> length result = 1 \<or> result = []"
  shows "\<exists>n \<le> length xs. trim_size_loop (total_size result) result xs = result @ take n xs \<and>
    (result = [] \<and> xs \<noteq> [] \<longrightarrow> n > 0) \<and>
    (total_size (result @ take n xs) \<le> MAX_LOADED_MESSAGES_CHARS \<or> length (result @ take n xs) = 1 \<or>
       result @ take n xs = []) \<and>
    (n < length xs \<longrightarrow> total_size (result @ take (Suc n) xs) > MAX_LOADED_MESSAGES_CHARS)"
  using assms
proof (induction xs arbitrary: result)
  case Nil
  then show ?case by auto
next
  case (Cons m xs)
  show ?case
  proof (cases "length result > 0 \<and> total_size result + getMessageSize m > MAX_LOADED_MESSAGES_CHARS")
    case True
    then show ?thesis
      using Cons.prems by (intro exI [of _ 0]) (auto simp: total_size_def)
  next
    case False
    have t: "total_size (result @ [m]) = total_size result + getMessageSize m" by (simp add: total_size_def)
    have "total_size (result @ [m]) \<le> MAX_LOADED_MESSAGES_CHARS \<or> length (result @ [m]) = 1 \<or> result @ [m] = []"
      using False by (cases "result = []") (auto simp: t)
    from Cons.IH [OF this] obtain n where n: "n \<le> length xs"
      "trim_size_loop (total_size (result @ [m])) (result @ [m]) xs = (result @ [m]) @ take n xs"
      "total_size ((result @ [m]) @ take n xs) \<le> MAX_LOADED_MESSAGES_CHARS \<or>
        length ((result @ [m]) @ take n xs) = 1 \<or> (result @ [m]) @ take n xs = []"
      "n < length xs \<longrightarrow> total_size ((result @ [m]) @ take (Suc n) xs) > MAX_LOADED_MESSAGES_CHARS" by blast
    show ?thesis
      by (intro exI [of _ "Suc n"]) (use n False t in auto)
  qed
qed

lemma total_size_rev: "total_size (rev ms) = total_size ms"
  by (simp add: total_size_def rev_map [symmetric])

lemma trimMessagesByContentSize_spec:
  "\<exists>dropped. ms = dropped @ trimMessagesByContentSize ms \<and>
     (ms \<noteq> [] \<longrightarrow> trimMessagesByContentSize ms \<noteq> []) \<and>
     (total_size (trimMessagesByContentSize ms) \<le> MAX_LOADED_MESSAGES_CHARS \<or>
        length (trimMessagesByContentSize ms) \<le> 1) \<and>
     (dropped \<noteq> [] \<longrightarrow> total_size (last dropped # trimMessagesByContentSize ms) > MAX_LOADED_MESSAGES_CHARS)"
proof -
  obtain n where n: "n \<le> length ms" "trim_size_loop 0 [] (rev ms) = take n (rev ms)"
    "ms \<noteq> [] \<longrightarrow> n > 0"
    "total_size (take n (rev ms)) \<le> MAX_LOADED_MESSAGES_CHARS \<or> length (take n (rev ms)) = 1 \<or> take n (rev ms) = []"
    "n < length ms \<longrightarrow> total_size (take (Suc n) (rev ms)) > MAX_LOADED_MESSAGES_CHARS"
    using trim_size_loop_spec [of "[]" "rev ms"] unfolding length_rev append_Nil rev_is_Nil_conv
    by (metis length_0_conv list.size(3) total_size_Nil)
  define kept where "kept = rev (take n (rev ms))"
  have trim: "trimMessagesByContentSize ms = kept"
    by (simp add: trimMessagesByContentSize_def n(2) kept_def)
  have split: "ms = rev (drop n (rev ms)) @ kept"
    unfolding kept_def rev_append [symmetric] by simp
  have "total_size (last (rev (drop n (rev ms))) # kept) > MAX_LOADED_MESSAGES_CHARS"
    if "rev (drop n (rev ms)) \<noteq> []"
  proof -
    have "n < length (rev ms)" using that by simp
    then have "take (Suc n) (rev ms) = take n (rev ms) @ [hd (drop n (rev ms))]"
      by (simp add: take_Suc_conv_app_nth hd_drop_conv_nth)
    then have "total_size (take (Suc n) (rev ms)) = total_size (last (rev (drop n (rev ms))) # kept)"
      using that total_size_rev [of "take n (rev ms)"] by (simp add: total_size_def kept_def last_rev)
    then show ?thesis using n(5) that by simp
  qed
  moreover have "total_size kept \<le> MAX_LOADED_MESSAGES_CHARS \<or> length kept \<le> 1"
    using n(4) total_size_rev [of "take n (rev ms)"] by (auto simp: kept_def)
  moreover have "ms \<noteq> [] \<longrightarrow> kept \<noteq> []" using n(3) by (auto simp: kept_def)
  ultimately show ?thesis unfolding trim using split by blast
qed

text \<open>
  The budget on loading: what is kept are the last messages, at least one if there are
  any; their texts and images stay within 120000 characters unless it is a single message,
  and one message more would not fit.
\<close>

theorem trimMessagesByContentSize_budget:
  "\<exists>dropped. ms = dropped @ trimMessagesByContentSize ms \<and>
     (ms \<noteq> [] \<longrightarrow> trimMessagesByContentSize ms \<noteq> []) \<and>
     (total_size (trimMessagesByContentSize ms) \<le> MAX_LOADED_MESSAGES_CHARS \<or>
        length (trimMessagesByContentSize ms) \<le> 1) \<and>
     (dropped \<noteq> [] \<longrightarrow> total_size (last dropped # trimMessagesByContentSize ms) > MAX_LOADED_MESSAGES_CHARS)"
  by (rule trimMessagesByContentSize_spec)

theorem trimMessagesByContentSize_budget_witness:
  "trimMessagesByContentSize [witness_message] \<noteq> []"
  using trimMessagesByContentSize_budget [of "[witness_message]"] by auto

lemma stripMessageImages_fields [simp]:
  "msg_key (stripMessageImages m) = msg_key m" "msg_versions (stripMessageImages m) = msg_versions m"
  "stripMessageImages (stripMessageImages m) = stripMessageImages m"
  by (simp_all add: stripMessageImages_def)

lemma fit_loop_spec:
  assumes "fitted = map stripMessageImages (take i ms) @ drop i ms" and "i \<le> length ms"
  shows "\<exists>n \<ge> i. n \<le> length ms \<and> fit_loop fitted i = map stripMessageImages (take n ms) @ drop n ms \<and>
    (envelopeSize (fit_loop fitted i) \<le> MAX_STORED_MESSAGES_BYTES \<or> n = length ms) \<and>
    (\<forall>j. i \<le> j \<and> j < n \<longrightarrow>
       envelopeSize (map stripMessageImages (take j ms) @ drop j ms) > MAX_STORED_MESSAGES_BYTES)"
  using assms
proof (induction fitted i rule: fit_loop.induct)
  case (1 fitted i)
  show ?case
  proof (cases "i < length ms \<and> envelopeSize fitted > MAX_STORED_MESSAGES_BYTES")
    case False
    have "length fitted = length ms" using "1.prems" by simp
    then have "fit_loop fitted i = fitted" using False by (auto simp: fit_loop.simps [of fitted i])
    then show ?thesis
      using "1.prems" False by (intro exI [of _ i]) auto
  next
    case True
    let ?next = "fitted[i := stripMessageImages (fitted ! i)]"
    have len: "length fitted = length ms" using "1.prems" by simp
    have "fitted ! i = ms ! i" using "1.prems" True by (simp add: nth_append)
    then have "?next = map stripMessageImages (take (i + 1) ms) @ drop (i + 1) ms"
      using "1.prems"(1) True
      by (intro nth_equalityI) (auto simp: nth_list_update nth_append less_Suc_eq)
    with "1.IH" len True obtain n where n: "n \<ge> i + 1" "n \<le> length ms"
      "fit_loop ?next (i + 1) = map stripMessageImages (take n ms) @ drop n ms"
      "envelopeSize (fit_loop ?next (i + 1)) \<le> MAX_STORED_MESSAGES_BYTES \<or> n = length ms"
      "\<forall>j. i + 1 \<le> j \<and> j < n \<longrightarrow>
        envelopeSize (map stripMessageImages (take j ms) @ drop j ms) > MAX_STORED_MESSAGES_BYTES"
      by fastforce
    have "fit_loop fitted i = fit_loop ?next (i + 1)" using True len by (simp add: fit_loop.simps [of fitted i])
    moreover have "\<forall>j. i \<le> j \<and> j < n \<longrightarrow>
        envelopeSize (map stripMessageImages (take j ms) @ drop j ms) > MAX_STORED_MESSAGES_BYTES"
    proof (intro allI impI)
      fix j assume "i \<le> j \<and> j < n"
      then show "envelopeSize (map stripMessageImages (take j ms) @ drop j ms) > MAX_STORED_MESSAGES_BYTES"
        using n(5) True "1.prems"(1) by (cases "j = i") auto
    qed
    ultimately show ?thesis using n by (intro exI [of _ n]) auto
  qed
qed

text \<open>
  The budget on saving: the stored messages are the last hundred, with the images of the
  oldest ones left out, of as few as possible; the budget is met, or no images are left.
\<close>

theorem fitMessagesIntoStorageBudget_images:
  "\<exists>n \<le> length (trimMessages ms). fitMessagesIntoStorageBudget ms =
       map stripMessageImages (take n (trimMessages ms)) @ drop n (trimMessages ms) \<and>
     (envelopeSize (fitMessagesIntoStorageBudget ms) \<le> MAX_STORED_MESSAGES_BYTES \<or> n = length (trimMessages ms)) \<and>
     (\<forall>j < n. envelopeSize (map stripMessageImages (take j (trimMessages ms)) @ drop j (trimMessages ms)) >
        MAX_STORED_MESSAGES_BYTES) \<and>
     suffix (map msg_key (fitMessagesIntoStorageBudget ms)) (map msg_key ms) \<and>
     length (fitMessagesIntoStorageBudget ms) \<le> MAX_STORED_MESSAGES"
proof -
  let ?t = "trimMessages ms"
  have suf: "suffix ?t ms" and len: "length ?t \<le> MAX_STORED_MESSAGES"
    by (simp_all add: trimMessages_def suffix_last_n length_last_n)
  have "\<exists>n \<le> length ?t. fitMessagesIntoStorageBudget ms = map stripMessageImages (take n ?t) @ drop n ?t \<and>
     (envelopeSize (fitMessagesIntoStorageBudget ms) \<le> MAX_STORED_MESSAGES_BYTES \<or> n = length ?t) \<and>
     (\<forall>j < n. envelopeSize (map stripMessageImages (take j ?t) @ drop j ?t) > MAX_STORED_MESSAGES_BYTES)"
  proof (cases "envelopeSize ?t \<le> MAX_STORED_MESSAGES_BYTES")
    case True
    then show ?thesis by (intro exI [of _ 0]) (simp add: fitMessagesIntoStorageBudget_def)
  next
    case False
    then show ?thesis using fit_loop_spec [of ?t 0 ?t] by (auto simp: fitMessagesIntoStorageBudget_def)
  qed
  then obtain n where n: "n \<le> length ?t"
    "fitMessagesIntoStorageBudget ms = map stripMessageImages (take n ?t) @ drop n ?t"
    "envelopeSize (fitMessagesIntoStorageBudget ms) \<le> MAX_STORED_MESSAGES_BYTES \<or> n = length ?t"
    "\<forall>j < n. envelopeSize (map stripMessageImages (take j ?t) @ drop j ?t) > MAX_STORED_MESSAGES_BYTES" by blast
  have "map msg_key (fitMessagesIntoStorageBudget ms) = map msg_key (take n ?t @ drop n ?t)"
    unfolding n(2) by (simp del: append_take_drop_id)
  then have "map msg_key (fitMessagesIntoStorageBudget ms) = map msg_key ?t" by simp
  moreover have "suffix (map msg_key ?t) (map msg_key ms)" using suf by (rule map_mono_suffix)
  moreover have "length (fitMessagesIntoStorageBudget ms) \<le> MAX_STORED_MESSAGES" using n(1,2) len by simp
  ultimately show ?thesis using n by (intro exI [of _ n]) simp
qed

theorem fitMessagesIntoStorageBudget_images_witness:
  "length (fitMessagesIntoStorageBudget (replicate 200 witness_message)) \<le> 100"
  using fitMessagesIntoStorageBudget_images [of "replicate 200 witness_message"]
  by (auto simp: MAX_STORED_MESSAGES_def)

section \<open>The conversation\<close>

text \<open>A message that loading leaves as it is, and a conversation within all budgets.\<close>

definition settled :: "Message \<Rightarrow> bool" where
  "settled m \<longleftrightarrow> message_ok m \<and> \<not> isAssistantMessagePending m \<and>
     (\<forall>v \<in> set (msg_versions m). length (ver_content v) \<le> MAX_LOADED_MESSAGE_CHARS \<and>
        collapseRepeatedSectionSnapshots (ver_content v) = ver_content v) \<and>
     length (reasoningText m) \<le> MAX_LOADED_MESSAGE_CHARS"

definition storable :: "Message list \<Rightarrow> bool" where
  "storable ms \<longleftrightarrow> (\<forall>m \<in> set ms. settled m) \<and> length ms \<le> MAX_STORED_MESSAGES \<and>
     total_size ms \<le> MAX_LOADED_MESSAGES_CHARS \<and> envelopeSize ms \<le> MAX_STORED_MESSAGES_BYTES"

lemma normalize_settled:
  assumes "settled m" shows "normalizeStoredMessageForLoad clk m = (m, False)"
proof -
  have r: "map_option (\<lambda>r. r\<lparr>rsn_content := truncateText (rsn_content r) MAX_LOADED_MESSAGE_CHARS\<rparr>) (msg_reasoning m) =
      msg_reasoning m"
    using assms by (cases "msg_reasoning m") (simp_all add: settled_def reasoningText_def)
  show ?thesis
    using assms unfolding normalizeStoredMessageForLoad_def Let_def r
    by (auto simp: settled_def)
qed

lemma trim_size_unchanged:
  assumes "total_size ms \<le> MAX_LOADED_MESSAGES_CHARS"
  shows "trimMessagesByContentSize ms = ms"
proof -
  obtain dropped where d: "ms = dropped @ trimMessagesByContentSize ms"
    "dropped \<noteq> [] \<longrightarrow> total_size (last dropped # trimMessagesByContentSize ms) > MAX_LOADED_MESSAGES_CHARS"
    using trimMessagesByContentSize_spec by blast
  have "dropped = []"
  proof (rule ccontr)
    assume ne: "dropped \<noteq> []"
    have "ms = (butlast dropped @ [last dropped]) @ trimMessagesByContentSize ms"
      using d(1) unfolding append_butlast_last_id [OF ne] .
    then have "ms = butlast dropped @ last dropped # trimMessagesByContentSize ms"
      unfolding append.assoc by simp
    then have "total_size ms = total_size (butlast dropped @ last dropped # trimMessagesByContentSize ms)"
      by (rule arg_cong)
    then have "total_size (last dropped # trimMessagesByContentSize ms) \<le> total_size ms"
      by (simp add: total_size_def)
    then show False using d(2) ne assms by simp
  qed
  then show ?thesis using d(1) by simp
qed

lemma sanitize_settled:
  assumes "\<forall>m \<in> set ms. settled m" shows "sanitizeMessagesOnLoad t clk ms = ms"
proof -
  have "last_pending ms n = None" if "n \<le> length ms" for n
    using that assms by (induction n) (auto simp: isPendingAssistantMessage_def settled_def)
  then show ?thesis by (simp add: sanitizeMessagesOnLoad_def)
qed

lemma load_results_settled:
  assumes "\<forall>m \<in> set ms. settled m"
  shows "map (\<lambda>(i, m). normalizeStoredMessageForLoad (clks i) m) (List.enumerate k ms) = map (\<lambda>m. (m, False)) ms"
  using assms by (induction ms arbitrary: k) (auto simp: normalize_settled)

lemma stored_text_read:
  assumes "json_ok (stored_messages ms)" and "envelopeSize ms \<le> MAX_STORED_MESSAGES_BYTES"
    and "st KEY_MESSAGES = Some (json_stringify (envelope (stored_messages ms)))"
  shows "readStoredMessagesValue st = (Inr (Some (envelope (stored_messages ms))), st)"
  using assms envelope_nonempty
  by (simp add: readStoredMessagesValue_def envelopeSize_def json_parse_stringify [OF envelope_ok]
      del: json_stringify.simps)

lemma load_saved_conversation:
  assumes "zod_parser zparse" and "\<And>st k v. fits st k v" and "storable ms"
    and "st' = saveMessages zparse fits ms st"
  shows "loadMessages zparse fits t clks clk st' = (Some ms, st')"
proof -
  have ok: "\<forall>m \<in> set ms. settled m" "\<forall>m \<in> set ms. message_ok m" "\<forall>m \<in> set ms. msg_versions m \<noteq> []"
    and len: "length ms \<le> MAX_STORED_MESSAGES" and size: "total_size ms \<le> MAX_LOADED_MESSAGES_CHARS"
    and env: "envelopeSize ms \<le> MAX_STORED_MESSAGES_BYTES"
    using assms(3) by (auto simp: storable_def settled_def message_ok_def)
  have fit: "fitMessagesIntoStorageBudget ms = ms"
    using len env by (simp add: fitMessagesIntoStorageBudget_def trimMessages_def)
  note stores = zod_parser.saveObject_stores [where fits = fits, OF assms(1) _ stored_messages_conform [OF ok(3)] assms(2)]
  have saved: "saveMessages zparse fits ms st1 = st1(KEY_MESSAGES \<mapsto> json_stringify (envelope (stored_messages ms)))" for st1
    unfolding saveMessages_def fit by (rule stores) simp
  have st': "st' = st(KEY_MESSAGES \<mapsto> json_stringify (envelope (stored_messages ms)))"
    unfolding assms(4) by (rule saved)
  then have get: "st' KEY_MESSAGES = Some (json_stringify (envelope (stored_messages ms)))" by simp
  have again: "saveMessages zparse fits ms st' = st'" unfolding saved [of st'] by (simp add: st')
  have read: "readStoredMessagesValue st' = (Inr (Some (envelope (stored_messages ms))), st')"
    by (rule stored_text_read [where ms = ms and st = st', OF json_ok_stored_messages [OF ok(2)] env get])
  have "zparse messagesSchema (stored_messages ms) = Some (stored_messages ms)"
    by (rule zod_parser.accepts [OF assms(1) _ stored_messages_conform [OF ok(3)]]) simp
  then show ?thesis
    using len size again load_results_settled [OF ok(1), of clks 0]
    by (simp add: loadMessages_def read dec_messages_stored Let_def trimMessages_def o_def trim_size_unchanged
        sanitize_settled [OF ok(1)])
qed


definition stored_witness :: Message where
  "stored_witness = witness_message\<lparr>msg_status := Some COMPLETE,
     msg_versions := [\<lparr>ver_id = ''v'', ver_content = ''Hello''\<rparr>]\<rparr>"

lemma storable_witness: "storable [stored_witness]"
proof -
  have "is_decimal 1000" by code_simp
  then have ok: "settled stored_witness"
    by (simp add: settled_def message_ok_def opt_decimal_def stored_witness_def witness_message_def
        createLoadingAssistantMessage_def createMessageVersion_def isAssistantMessagePending_def
        MAX_LOADED_MESSAGE_CHARS_def collapseRepeatedSectionSnapshots_def MIN_PREFIX_COLLAPSE_LENGTH_def reasoningText_def)
  have "envelopeSize [stored_witness] \<le> 400" by code_simp
  then show ?thesis
    using ok by (simp add: storable_def MAX_STORED_MESSAGES_def MAX_STORED_MESSAGES_BYTES_def
        MAX_LOADED_MESSAGES_CHARS_def total_size_def getMessageSize_def stored_witness_def witness_message_def
        createLoadingAssistantMessage_def)
qed


section \<open>Beyond the budget\<close>

lemma length_quote: "length s \<le> length (quote s)"
proof -
  have "length s \<le> length (concat (map escape_char s))"
    by (induction s) (auto simp: escape_char_def)
  then show ?thesis by (simp add: quote_def)
qed

lemma content_le_envelope:
  "length (ver_content v) \<le> envelopeSize [m\<lparr>msg_versions := [v]\<rparr>]"
  using length_quote [of "ver_content v"]
  by (simp add: envelopeSize_def envelope_def stored_messages_def stored_message_def version_json_def)

lemma fit_without_images:
  assumes "\<forall>m \<in> set ms. stripMessageImages m = m" and "length ms \<le> MAX_STORED_MESSAGES"
  shows "fitMessagesIntoStorageBudget ms = ms"
proof -
  have "map stripMessageImages (take n ms) = take n ms" for n
    using assms(1) by (intro map_idI) (auto dest: in_set_takeD)
  moreover obtain n where "fit_loop ms 0 = map stripMessageImages (take n ms) @ drop n ms"
    using fit_loop_spec [of ms 0 ms] by auto
  ultimately have "fit_loop ms 0 = ms" by simp
  then show ?thesis using assms(2) by (simp add: fitMessagesIntoStorageBudget_def trimMessages_def Let_def)
qed

text \<open>
  Beyond the budget: when leaving out images does not bring the conversation below the
  limit, saving stores it all the same, and the next load finds it too long, deletes it and
  starts with no conversation.
\<close>

theorem oversized_conversation_lost:
  assumes "zod_parser zparse" and "\<And>st k v. fits st k v" and "\<forall>m \<in> set ms. msg_versions m \<noteq> []"
    and "envelopeSize (fitMessagesIntoStorageBudget ms) > MAX_STORED_MESSAGES_BYTES"
  shows "saveMessages zparse fits ms st KEY_MESSAGES \<noteq> None \<and>
    loadMessages zparse fits t clks clk (saveMessages zparse fits ms st) = (None, st(KEY_MESSAGES := None))"
proof -
  let ?f = "fitMessagesIntoStorageBudget ms"
  have "trimMessages ms \<noteq> [] \<longrightarrow> set (trimMessages ms) \<subseteq> set ms"
    using suffix_last_n [of MAX_STORED_MESSAGES ms] by (auto simp: trimMessages_def dest: set_mono_suffix)
  then have tv: "\<forall>m \<in> set (trimMessages ms). msg_versions m \<noteq> []" using assms(3) by (cases "trimMessages ms = []") auto
  obtain n where "fit_loop (trimMessages ms) 0 = map stripMessageImages (take n (trimMessages ms)) @ drop n (trimMessages ms)"
    using fit_loop_spec [of "trimMessages ms" 0 "trimMessages ms"] by auto
  then have "\<forall>m \<in> set ?f. msg_versions m \<noteq> []"
    using tv by (auto simp: fitMessagesIntoStorageBudget_def Let_def dest: in_set_takeD in_set_dropD)
  note stores = zod_parser.saveObject_stores [where fits = fits, OF assms(1) _ stored_messages_conform [OF this] assms(2)]
  have saved: "saveMessages zparse fits ms st = st(KEY_MESSAGES \<mapsto> json_stringify (envelope (stored_messages ?f)))"
    unfolding saveMessages_def by (rule stores) simp
  have "readStoredMessagesValue (saveMessages zparse fits ms st) = (Inr None, st(KEY_MESSAGES := None))"
    using assms(4) envelope_nonempty
    by (simp add: saved readStoredMessagesValue_def envelopeSize_def removeItem_def del: json_stringify.simps)
  then show ?thesis by (simp add: loadMessages_def saved)
qed

theorem oversized_conversation_lost_witness:
  "loadMessages zod_ref (\<lambda>_ _ _. True) (\<lambda>s. s) (\<lambda>_ _. 0) (\<lambda>_. 0)
     (saveMessages zod_ref (\<lambda>_ _ _. True)
        [witness_message\<lparr>msg_versions := [\<lparr>ver_id = ''v'', ver_content = replicate (2 * 1024 * 1024) CHR ''x''\<rparr>]\<rparr>]
        (\<lambda>_. None)) = (None, \<lambda>_. None)"
proof -
  let ?m = "witness_message\<lparr>msg_versions := [\<lparr>ver_id = ''v'', ver_content = replicate (2 * 1024 * 1024) CHR ''x''\<rparr>]\<rparr>"
  have "fitMessagesIntoStorageBudget [?m] = [?m]"
    by (rule fit_without_images) (simp_all add: stripMessageImages_def witness_message_def
        createLoadingAssistantMessage_def MAX_STORED_MESSAGES_def)
  moreover have "2 * 1024 * 1024 \<le> envelopeSize [?m]"
    using content_le_envelope [of "\<lparr>ver_id = ''v'', ver_content = replicate (2 * 1024 * 1024) CHR ''x''\<rparr>" witness_message] by simp
  ultimately have "envelopeSize (fitMessagesIntoStorageBudget [?m]) > MAX_STORED_MESSAGES_BYTES"
    by (simp add: MAX_STORED_MESSAGES_BYTES_def)
  from oversized_conversation_lost [OF zod_reference.zod_parser_axioms _ _ this, of "\<lambda>_ _ _. True"]
  have "loadMessages zod_ref (\<lambda>_ _ _. True) (\<lambda>s. s) (\<lambda>_ _. 0) (\<lambda>_. 0)
     (saveMessages zod_ref (\<lambda>_ _ _. True) [?m] (\<lambda>_. None)) = (None, (\<lambda>_. None)(KEY_MESSAGES := None))" by simp
  then show ?thesis by (simp add: fun_upd_idem)
qed

end
