(* ===== verification/Playground_Parameters.thy ===== *)
theory Playground_Parameters
  imports Payload Json_Roundtrip
begin

text \<open>
  The controls of the sampling parameters, \<open>lib/parameters/playground-parameters.ts\<close>: the range
  and the step of each parameter and what becomes of a number that the user enters.

  \<open>Number.parseFloat\<close> is modelled on the grammar of the language: white space is skipped and
  the longest decimal literal is read. Numbers are rationals, as everywhere, with the two
  infinities and NaN as values of their own.
\<close>

section \<open>Numbers of the language\<close>

datatype js_float = NaN | PosInfinity | NegInfinity | Finite jsnum

text \<open>The exponent is read only if it has digits; otherwise the literal ends before it.\<close>

definition float_exponent :: "string \<Rightarrow> int" where
  "float_exponent s = (case parse_exp s of Some (e, _) \<Rightarrow> e | None \<Rightarrow> 0)"

definition unsigned_float :: "string \<Rightarrow> js_float" where
  "unsigned_float s =
     (if prefix ''Infinity'' s then PosInfinity
      else
        let ip = takeWhile is_digit s;
            rest = dropWhile is_digit s;
            dot = (rest \<noteq> [] \<and> hd rest = CHR ''.'');
            fp = (if dot then takeWhile is_digit (tl rest) else []);
            after = (if dot then dropWhile is_digit (tl rest) else rest)
        in if ip = [] \<and> fp = [] then NaN
           else Finite (of_int (digits_val (ip @ fp)) * 10 powi (float_exponent after - int (length fp))))"

fun negate_float :: "js_float \<Rightarrow> js_float" where
  "negate_float NaN = NaN"
| "negate_float PosInfinity = NegInfinity"
| "negate_float NegInfinity = PosInfinity"
| "negate_float (Finite x) = Finite (- x)"

definition parseFloat :: "string \<Rightarrow> js_float" where
  "parseFloat s =
     (case dropWhile js_ws s of
        [] \<Rightarrow> NaN
      | c # t \<Rightarrow> if c = CHR ''-'' then negate_float (unsigned_float t)
          else if c = CHR ''+'' then unsigned_float t
          else unsigned_float (c # t))"

fun clamp :: "jsnum \<Rightarrow> jsnum \<Rightarrow> js_float \<Rightarrow> jsnum" where
  \<comment> \<open>\<open>Math.min(hi, Math.max(lo, x))\<close> where \<open>x\<close> is not NaN\<close>
  "clamp lo hi (Finite x) = min hi (max lo x)"
| "clamp lo hi PosInfinity = hi"
| "clamp lo hi NegInfinity = min hi lo"
| "clamp lo hi NaN = lo"

definition js_trunc :: "jsnum \<Rightarrow> jsnum" where
  "js_trunc x = (if x < 0 then - of_int \<lfloor>- x\<rfloor> else of_int \<lfloor>x\<rfloor>)"

text \<open>The number that the text of \<open>x.toFixed(p)\<close> denotes; ties round away from zero.\<close>

definition toFixed :: "nat \<Rightarrow> jsnum \<Rightarrow> jsnum" where
  "toFixed p x =
     (if x < 0 then - (of_int \<lfloor>- x * 10 ^ p + 1 / 2\<rfloor> / 10 ^ p) else of_int \<lfloor>x * 10 ^ p + 1 / 2\<rfloor> / 10 ^ p)"

section \<open>Controls\<close>

datatype PlaygroundParameterKey =
    PK_TEMPERATURE | PK_TOP_P | PK_MAX_TOKENS | PK_FREQUENCY_PENALTY | PK_PRESENCE_PENALTY | PK_SEED

datatype ParameterValueType = VT_SLIDER | VT_NUMBER

record PlaygroundParameterControl =
  ppc_key :: PlaygroundParameterKey
  ppc_labelKey :: string
  ppc_descriptionKey :: string
  ppc_valueType :: ParameterValueType
  ppc_min :: jsnum
  ppc_max :: jsnum
  ppc_step :: jsnum

definition PLAYGROUND_PARAMETER_CONTROLS :: "PlaygroundParameterControl list" where
  "PLAYGROUND_PARAMETER_CONTROLS = [
     \<lparr>ppc_key = PK_TEMPERATURE, ppc_labelKey = ''Temperature'',
      ppc_descriptionKey = ''Controls randomness and creativity'', ppc_valueType = VT_SLIDER,
      ppc_min = 1 / 10, ppc_max = 1, ppc_step = 1 / 10\<rparr>,
     \<lparr>ppc_key = PK_TOP_P, ppc_labelKey = ''Top P'',
      ppc_descriptionKey = ''Limits token selection to a probability mass'', ppc_valueType = VT_SLIDER,
      ppc_min = 1 / 10, ppc_max = 1, ppc_step = 1 / 10\<rparr>,
     \<lparr>ppc_key = PK_FREQUENCY_PENALTY, ppc_labelKey = ''Frequency Penalty'',
      ppc_descriptionKey = ''Reduces repeated wording'', ppc_valueType = VT_SLIDER,
      ppc_min = - 2, ppc_max = 2, ppc_step = 1 / 10\<rparr>,
     \<lparr>ppc_key = PK_PRESENCE_PENALTY, ppc_labelKey = ''Presence Penalty'',
      ppc_descriptionKey = ''Encourages new topics'', ppc_valueType = VT_SLIDER,
      ppc_min = - 2, ppc_max = 2, ppc_step = 1 / 10\<rparr>,
     \<lparr>ppc_key = PK_MAX_TOKENS, ppc_labelKey = ''Max Tokens'',
      ppc_descriptionKey = ''Caps the response length'', ppc_valueType = VT_NUMBER,
      ppc_min = 0, ppc_max = 200000, ppc_step = 1\<rparr>,
     \<lparr>ppc_key = PK_SEED, ppc_labelKey = ''Seed'',
      ppc_descriptionKey = ''Keeps compatible responses more repeatable'', ppc_valueType = VT_NUMBER,
      ppc_min = 0, ppc_max = 2147483647, ppc_step = 1\<rparr>]"

datatype ParameterInput = InString string | InNumber js_float

definition parsed_input :: "ParameterInput \<Rightarrow> js_float" where
  "parsed_input v = (case v of InNumber x \<Rightarrow> x | InString s \<Rightarrow> parseFloat s)"

definition step_precision :: "jsnum \<Rightarrow> nat" where
  "step_precision s =
     (case js_split CHR ''.'' (number_string s) of _ # d # _ \<Rightarrow> length d | _ \<Rightarrow> 0)"

definition no_number :: "PlaygroundParameterKey \<Rightarrow> jsnum option" where
  "no_number key = (if key = PK_SEED then None else Some 0)"

definition normalizeParameterNumberValue :: "PlaygroundParameterKey \<Rightarrow> ParameterInput \<Rightarrow> jsnum option" where
  "normalizeParameterNumberValue key v =
     (if v = InString [] then no_number key
      else
        let control = List.find (\<lambda>item. ppc_key item = key) PLAYGROUND_PARAMETER_CONTROLS;
            parsed = parsed_input v
        in case control of
            None \<Rightarrow> no_number key
          | Some c \<Rightarrow>
              if parsed = NaN then no_number key
              else
                let clamped = clamp (ppc_min c) (ppc_max c) parsed in
                if ppc_step c \<ge> 1 then Some (js_trunc clamped)
                else Some (toFixed (step_precision (ppc_step c)) clamped))"

text \<open>The value of a parameter is a number, or null for the seed.\<close>

definition getParameterControlValueText :: "PlaygroundParameterKey \<Rightarrow> jsnum option \<Rightarrow> string" where
  "getParameterControlValueText key v =
     (if key = PK_SEED \<and> v = None then ''Not set''
      else case v of None \<Rightarrow> ''null'' | Some n \<Rightarrow> number_string n)"

section \<open>Ranges and steps\<close>

definition parameter_control :: "PlaygroundParameterKey \<Rightarrow> PlaygroundParameterControl" where
  "parameter_control key = the (List.find (\<lambda>item. ppc_key item = key) PLAYGROUND_PARAMETER_CONTROLS)"

lemma parameter_control_found:
  "List.find (\<lambda>item. ppc_key item = key) PLAYGROUND_PARAMETER_CONTROLS = Some (parameter_control key)"
  by (cases key) (simp_all add: parameter_control_def PLAYGROUND_PARAMETER_CONTROLS_def)

lemma step_precision_tenth: "step_precision (1 / 10) = 1"
  by code_simp

lemma parameter_control_cases:
  "(ppc_step (parameter_control key) = 1 \<and> ppc_min (parameter_control key) = 0) \<or>
   (ppc_step (parameter_control key) = 1 / 10 \<and>
      10 * ppc_min (parameter_control key) \<in> \<int> \<and> 10 * ppc_max (parameter_control key) \<in> \<int>)"
  by (cases key) (simp_all add: parameter_control_def PLAYGROUND_PARAMETER_CONTROLS_def)

lemma parameter_range: "ppc_min (parameter_control key) \<le> ppc_max (parameter_control key)"
  by (cases key) (simp_all add: parameter_control_def PLAYGROUND_PARAMETER_CONTROLS_def)

lemma clamp_bounds: "lo \<le> hi \<Longrightarrow> lo \<le> clamp lo hi x \<and> clamp lo hi x \<le> hi"
  by (cases x) auto

lemma js_trunc_spec:
  assumes "0 \<le> x"
  shows "0 \<le> js_trunc x \<and> js_trunc x \<le> x \<and> x < js_trunc x + 1 \<and> js_trunc x \<in> \<int>"
  using assms floor_correct [of x] by (simp add: js_trunc_def)

lemma round_tenth:
  fixes x hi :: jsnum
  assumes "0 \<le> x" and "x \<le> hi" and "10 * hi \<in> \<int>"
  shows "of_int \<lfloor>x * 10 + 1 / 2\<rfloor> / 10 \<le> hi \<and> \<bar>of_int \<lfloor>x * 10 + 1 / 2\<rfloor> / 10 - x\<bar> \<le> 1 / 20"
proof -
  obtain h where h: "10 * hi = of_int h" using assms(3) Ints_cases by blast
  have "x * 10 + 1 / 2 < of_int (h + 1)" using assms(2) h by simp
  then have "\<lfloor>x * 10 + 1 / 2\<rfloor> < h + 1" by (simp only: floor_less_iff)
  then have "of_int \<lfloor>x * 10 + 1 / 2\<rfloor> \<le> (of_int h :: jsnum)" by simp
  moreover define r :: jsnum where "r = of_int \<lfloor>x * 10 + 1 / 2\<rfloor>"
  ultimately have "r \<le> 10 * hi" using h by simp
  moreover have "r \<le> x * 10 + 1 / 2" "x * 10 + 1 / 2 < r + 1"
    using floor_correct [of "x * 10 + 1 / 2"] by (simp_all add: r_def)
  ultimately have "r / 10 \<le> hi" "r / 10 - x \<le> 1 / 20" "- (r / 10 - x) \<le> 1 / 20" by linarith+
  then show ?thesis unfolding r_def abs_le_iff by blast
qed

lemma toFixed_spec:
  assumes "lo \<le> x" and "x \<le> hi" and "10 * lo \<in> \<int>" and "10 * hi \<in> \<int>"
  shows "lo \<le> toFixed 1 x \<and> toFixed 1 x \<le> hi \<and> \<bar>toFixed 1 x - x\<bar> \<le> 1 / 20 \<and> 10 * toFixed 1 x \<in> \<int>"
proof -
  define neg where "neg = - x * 10 + 1 / 2"
  define pos where "pos = x * 10 + 1 / 2"
  obtain l h where l: "10 * lo = of_int l" and h: "10 * hi = of_int h"
    using assms(3,4) Ints_cases by metis
  show ?thesis
  proof (cases "x < 0")
    case True
    then have eq: "toFixed 1 x = - (of_int \<lfloor>neg\<rfloor> / 10)" by (simp add: toFixed_def neg_def)
    have "of_int (- h) \<le> neg" "0 \<le> neg" using assms(2) h True by (simp_all add: neg_def)
    then have "- h \<le> \<lfloor>neg\<rfloor>" by (simp only: le_floor_iff)
    then have "of_int (- h) \<le> (of_int \<lfloor>neg\<rfloor> :: jsnum)" by (simp only: of_int_le_iff)
    then have "toFixed 1 x \<le> hi" using h unfolding eq by simp
    moreover have "of_int \<lfloor>neg\<rfloor> / 10 \<le> - lo \<and> \<bar>of_int \<lfloor>neg\<rfloor> / 10 - (- x)\<bar> \<le> 1 / 20"
      unfolding neg_def using assms(1,3) True by (intro round_tenth) auto
    ultimately show ?thesis unfolding eq abs_le_iff by simp
  next
    case False
    then have eq: "toFixed 1 x = of_int \<lfloor>pos\<rfloor> / 10" by (simp add: toFixed_def pos_def)
    have "of_int l \<le> pos" using assms(1) l by (simp add: pos_def)
    then have "l \<le> \<lfloor>pos\<rfloor>" by (simp only: le_floor_iff)
    then have "of_int l \<le> (of_int \<lfloor>pos\<rfloor> :: jsnum)" by (simp only: of_int_le_iff)
    then have "lo \<le> toFixed 1 x" using l unfolding eq by simp
    moreover have "of_int \<lfloor>pos\<rfloor> / 10 \<le> hi \<and> \<bar>of_int \<lfloor>pos\<rfloor> / 10 - x\<bar> \<le> 1 / 20"
      unfolding pos_def using assms(2,4) False by (intro round_tenth) auto
    ultimately show ?thesis unfolding eq by simp
  qed
qed

text \<open>
  What the user enters for a parameter: text that is no number gives 0, or no value for
  the seed; anything else gives a number within the range of the parameter, on its grid and
  less than one step away from the number entered, moved into the range. A slider rounds to the
  nearest step.
\<close>

theorem normalizeParameterNumberValue_range:
  "(parsed_input v = NaN \<longrightarrow> normalizeParameterNumberValue key v = no_number key) \<and>
   (parsed_input v \<noteq> NaN \<longrightarrow> (\<exists>n. normalizeParameterNumberValue key v = Some n \<and>
      ppc_min (parameter_control key) \<le> n \<and> n \<le> ppc_max (parameter_control key) \<and>
      n / ppc_step (parameter_control key) \<in> \<int> \<and>
      (let entered = clamp (ppc_min (parameter_control key)) (ppc_max (parameter_control key)) (parsed_input v) in
       \<bar>n - entered\<bar> < ppc_step (parameter_control key) \<and>
       (ppc_step (parameter_control key) < 1 \<longrightarrow> \<bar>n - entered\<bar> \<le> ppc_step (parameter_control key) / 2))))"
proof -
  let ?c = "parameter_control key"
  have empty: "parsed_input (InString []) = NaN" by (simp add: parsed_input_def parseFloat_def)
  let ?x = "clamp (ppc_min ?c) (ppc_max ?c) (parsed_input v)"
  have x: "ppc_min ?c \<le> ?x" "?x \<le> ppc_max ?c" using clamp_bounds [OF parameter_range] by auto
  have norm: "normalizeParameterNumberValue key v =
      (if ppc_step ?c \<ge> 1 then Some (js_trunc ?x) else Some (toFixed (step_precision (ppc_step ?c)) ?x))"
    if "parsed_input v \<noteq> NaN"
    using that empty by (auto simp: normalizeParameterNumberValue_def parameter_control_found Let_def)
  have "\<exists>n. normalizeParameterNumberValue key v = Some n \<and> ppc_min ?c \<le> n \<and> n \<le> ppc_max ?c \<and>
      n / ppc_step ?c \<in> \<int> \<and> \<bar>n - ?x\<bar> < ppc_step ?c \<and> (ppc_step ?c < 1 \<longrightarrow> \<bar>n - ?x\<bar> \<le> ppc_step ?c / 2)"
    if v: "parsed_input v \<noteq> NaN"
    using parameter_control_cases [of key]
  proof
    assume c: "ppc_step ?c = 1 \<and> ppc_min ?c = 0"
    then show ?thesis using js_trunc_spec [of ?x] x by (auto simp: norm [OF v])
  next
    assume c: "ppc_step ?c = 1 / 10 \<and> 10 * ppc_min ?c \<in> \<int> \<and> 10 * ppc_max ?c \<in> \<int>"
    then have step: "ppc_step ?c = 1 / 10" by blast
    have some: "normalizeParameterNumberValue key v = Some (toFixed 1 ?x)"
      unfolding norm [OF v] step step_precision_tenth by simp
    define n where "n = toFixed 1 ?x"
    have "ppc_min ?c \<le> n \<and> n \<le> ppc_max ?c \<and> \<bar>n - ?x\<bar> \<le> 1 / 20 \<and> 10 * n \<in> \<int>"
      unfolding n_def using c by (intro toFixed_spec x) auto
    then show ?thesis unfolding some n_def [symmetric] step by (auto simp: mult.commute)
  qed
  moreover have "normalizeParameterNumberValue key v = no_number key" if "parsed_input v = NaN"
    using that by (simp add: normalizeParameterNumberValue_def parameter_control_found)
  ultimately show ?thesis unfolding Let_def by blast
qed

theorem normalizeParameterNumberValue_range_witness:
  "\<exists>n. normalizeParameterNumberValue PK_TEMPERATURE (InString '' 3.14x'') = Some n \<and> n \<le> 1"
proof -
  have "parsed_input (InString '' 3.14x'') \<noteq> NaN" by code_simp
  moreover have "ppc_max (parameter_control PK_TEMPERATURE) = 1" by code_simp
  ultimately show ?thesis
    using normalizeParameterNumberValue_range [of "InString '' 3.14x''" PK_TEMPERATURE] by auto
qed

lemma normalize_examples:
  "normalizeParameterNumberValue PK_TOP_P (InString ''0.25'') = Some (3 / 10)"
  "normalizeParameterNumberValue PK_MAX_TOKENS (InString ''12.9e1'') = Some 129"
  "normalizeParameterNumberValue PK_FREQUENCY_PENALTY (InString ''-Infinity'') = Some (- 2)"
  "normalizeParameterNumberValue PK_TEMPERATURE (InString []) = Some 0"
  by code_simp+

end
