(* ===== verification/Playground_State.thy ===== *)
theory Playground_State
  imports Storage_Proofs Playground_Parameters
begin

text \<open>
  The state of the playground page, \<open>hooks/use-playground-state.ts\<close>: the settings, which every
  change writes to the storage, and the conversation, which is loaded after the first rendering
  and saved half a second after the last change or when the page is left.

  React runs the updaters of the conversation in order and some time after they are handed to
  it: they wait in \<open>ps_queue\<close>, and \<open>run_update\<close> runs the first one. The updaters of the
  settings are run when they are handed over. The timeouts of the window are the identifiers in
  \<open>ps_timeouts\<close>; \<open>ps_loadPending\<close> is the timeout that loads the conversation.
\<close>

section \<open>State\<close>

record ModelOption =
  mo_label :: string
  mo_value :: string
  mo_supportedEndpointTypes :: "string list option"
  mo_inputModalities :: "string list option"
  mo_capabilities :: "string list option"
  mo_icon :: "string option"
  mo_vendorName :: "string option"
  mo_outputModalities :: "string list option"

datatype StateUpdate =
    LoadedMessages "Message list"
  | QueuedUpdate MessageStateUpdater

record PlaygroundState =
  ps_config :: PlaygroundConfig
  ps_parameterEnabled :: ParameterEnabled
  ps_messages :: "Message list"
  ps_queue :: "StateUpdate list"
  ps_isLoadingMessages :: bool
  ps_messagesSaveTimer :: "nat option"
  ps_timeouts :: "nat list"
  ps_nextTimeout :: nat
  ps_latestMessages :: "Message list"
  ps_hasLoadedMessages :: bool
  ps_cancelled :: bool
  ps_loadPending :: bool
  ps_models :: "ModelOption list"
  ps_storage :: storage

definition initial_playground :: "(schema \<Rightarrow> json \<Rightarrow> json option) \<Rightarrow> storage \<Rightarrow> PlaygroundState" where
  "initial_playground zparse st = \<lparr>ps_config = getInitialPlaygroundConfig zparse st,
     ps_parameterEnabled = getInitialParameterEnabled zparse st, ps_messages = [], ps_queue = [],
     ps_isLoadingMessages = True, ps_messagesSaveTimer = None, ps_timeouts = [], ps_nextTimeout = 0,
     ps_latestMessages = [], ps_hasLoadedMessages = False, ps_cancelled = False, ps_loadPending = True,
     ps_models = [], ps_storage = st\<rparr>"

section \<open>The conversation\<close>

definition clearTimeout :: "nat option \<Rightarrow> PlaygroundState \<Rightarrow> PlaygroundState" where
  "clearTimeout timer s =
     (case timer of None \<Rightarrow> s | Some i \<Rightarrow> s\<lparr>ps_timeouts := removeAll i (ps_timeouts s)\<rparr>)"

definition persistMessages :: "Message list \<Rightarrow> PlaygroundState \<Rightarrow> PlaygroundState" where
  "persistMessages messagesToSave s =
     (let s1 = s\<lparr>ps_latestMessages := messagesToSave\<rparr> in
      if \<not> ps_hasLoadedMessages s1 then s1
      else
        let s2 = clearTimeout (ps_messagesSaveTimer s1) s1
        in s2\<lparr>ps_messagesSaveTimer := Some (ps_nextTimeout s2),
              ps_timeouts := ps_timeouts s2 @ [ps_nextTimeout s2], ps_nextTimeout := ps_nextTimeout s2 + 1\<rparr>)"

text \<open>The callback of the timeout that \<open>persistMessages\<close> sets.\<close>

definition save_timeout ::
  "(schema \<Rightarrow> json \<Rightarrow> json option) \<Rightarrow> quota \<Rightarrow> nat \<Rightarrow> PlaygroundState \<Rightarrow> PlaygroundState" where
  "save_timeout zparse fits i s =
     (if i \<in> set (ps_timeouts s)
      then s\<lparr>ps_timeouts := removeAll i (ps_timeouts s), ps_messagesSaveTimer := None,
             ps_storage := saveMessages zparse fits (ps_latestMessages s) (ps_storage s)\<rparr>
      else s)"

definition load_timeout ::
  "(schema \<Rightarrow> json \<Rightarrow> json option) \<Rightarrow> quota \<Rightarrow> (string \<Rightarrow> string) \<Rightarrow> (nat \<Rightarrow> clock) \<Rightarrow> clock \<Rightarrow>
   PlaygroundState \<Rightarrow> PlaygroundState" where
  "load_timeout zparse fits t clks clk s =
     (if \<not> ps_loadPending s then s
      else case loadMessages zparse fits t clks clk (ps_storage s) of (loaded, st1) \<Rightarrow>
        let loadedMessages = nullish loaded [];
            s1 = s\<lparr>ps_loadPending := False, ps_storage := st1\<rparr>
        in if ps_cancelled s1 then s1
           else s1\<lparr>ps_latestMessages := loadedMessages, ps_hasLoadedMessages := True,
                   ps_queue := ps_queue s1 @ [LoadedMessages loadedMessages],
                   ps_isLoadingMessages := False\<rparr>)"

definition leave_page :: "(schema \<Rightarrow> json \<Rightarrow> json option) \<Rightarrow> quota \<Rightarrow> PlaygroundState \<Rightarrow> PlaygroundState" where
  \<comment> \<open>the clean-up functions of the two effects\<close>
  "leave_page zparse fits s =
     (let s1 = s\<lparr>ps_cancelled := True\<rparr> in
      if ps_messagesSaveTimer s1 \<noteq> None
      then (clearTimeout (ps_messagesSaveTimer s1) s1)
        \<lparr>ps_storage := saveMessages zparse fits (ps_latestMessages s1) (ps_storage s1)\<rparr>
      else s1)"

definition updateMessages :: "MessageStateUpdater \<Rightarrow> PlaygroundState \<Rightarrow> PlaygroundState" where
  "updateMessages upd s = s\<lparr>ps_queue := ps_queue s @ [QueuedUpdate upd]\<rparr>"

definition run_update :: "PlaygroundState \<Rightarrow> PlaygroundState" where
  "run_update s =
     (case ps_queue s of
        [] \<Rightarrow> s
      | LoadedMessages ms # q \<Rightarrow> s\<lparr>ps_messages := ms, ps_queue := q\<rparr>
      | QueuedUpdate upd # q \<Rightarrow>
          let newMessages = applyMessageStateUpdate (ps_messages s) upd
          in persistMessages newMessages (s\<lparr>ps_messages := newMessages, ps_queue := q\<rparr>))"

definition clearMessages :: "PlaygroundState \<Rightarrow> PlaygroundState" where
  "clearMessages = updateMessages (SetMessages [])"

section \<open>Settings\<close>

datatype ConfigUpdate =
    SetModel string | SetEndpointType PlaygroundEndpointType | SetTemperature jsnum | SetTopP jsnum
  | SetMaxTokens jsnum | SetFrequencyPenalty jsnum | SetPresencePenalty jsnum | SetSeed "jsnum option"
  | SetStream bool

fun set_config :: "ConfigUpdate \<Rightarrow> PlaygroundConfig \<Rightarrow> PlaygroundConfig" where
  "set_config (SetModel v) c = c\<lparr>cfg_model := v\<rparr>"
| "set_config (SetEndpointType v) c = c\<lparr>cfg_endpointType := v\<rparr>"
| "set_config (SetTemperature v) c = c\<lparr>cfg_temperature := v\<rparr>"
| "set_config (SetTopP v) c = c\<lparr>cfg_top_p := v\<rparr>"
| "set_config (SetMaxTokens v) c = c\<lparr>cfg_max_tokens := v\<rparr>"
| "set_config (SetFrequencyPenalty v) c = c\<lparr>cfg_frequency_penalty := v\<rparr>"
| "set_config (SetPresencePenalty v) c = c\<lparr>cfg_presence_penalty := v\<rparr>"
| "set_config (SetSeed v) c = c\<lparr>cfg_seed := v\<rparr>"
| "set_config (SetStream v) c = c\<lparr>cfg_stream := v\<rparr>"

fun set_enabled :: "PlaygroundParameterKey \<Rightarrow> bool \<Rightarrow> ParameterEnabled \<Rightarrow> ParameterEnabled" where
  "set_enabled PK_TEMPERATURE b p = p\<lparr>pe_temperature := b\<rparr>"
| "set_enabled PK_TOP_P b p = p\<lparr>pe_top_p := b\<rparr>"
| "set_enabled PK_MAX_TOKENS b p = p\<lparr>pe_max_tokens := b\<rparr>"
| "set_enabled PK_FREQUENCY_PENALTY b p = p\<lparr>pe_frequency_penalty := b\<rparr>"
| "set_enabled PK_PRESENCE_PENALTY b p = p\<lparr>pe_presence_penalty := b\<rparr>"
| "set_enabled PK_SEED b p = p\<lparr>pe_seed := b\<rparr>"

definition updateConfig ::
  "(schema \<Rightarrow> json \<Rightarrow> json option) \<Rightarrow> quota \<Rightarrow> ConfigUpdate \<Rightarrow> PlaygroundState \<Rightarrow> PlaygroundState" where
  "updateConfig zparse fits upd s =
     (let updated = set_config upd (ps_config s)
      in s\<lparr>ps_config := updated, ps_storage := saveConfig zparse fits (config_json updated) (ps_storage s)\<rparr>)"

definition updateParameterEnabled ::
  "(schema \<Rightarrow> json \<Rightarrow> json option) \<Rightarrow> quota \<Rightarrow> PlaygroundParameterKey \<Rightarrow> bool \<Rightarrow> PlaygroundState \<Rightarrow> PlaygroundState" where
  "updateParameterEnabled zparse fits key v s =
     (let updated = set_enabled key v (ps_parameterEnabled s)
      in s\<lparr>ps_parameterEnabled := updated,
           ps_storage := saveParameterEnabled zparse fits (enabled_json updated) (ps_storage s)\<rparr>)"

definition resetConfig :: "(schema \<Rightarrow> json \<Rightarrow> json option) \<Rightarrow> quota \<Rightarrow> PlaygroundState \<Rightarrow> PlaygroundState" where
  "resetConfig zparse fits s =
     s\<lparr>ps_config := DEFAULT_CONFIG, ps_parameterEnabled := DEFAULT_PARAMETER_ENABLED,
       ps_storage := saveParameterEnabled zparse fits (enabled_json DEFAULT_PARAMETER_ENABLED)
         (saveConfig zparse fits (config_json DEFAULT_CONFIG) (ps_storage s))\<rparr>"

section \<open>Runs\<close>

datatype PageEvent =
    PgUpdate MessageStateUpdater
  | PgRun
  | PgClear
  | PgSaveTimeout nat
  | PgLoad "string \<Rightarrow> string" "nat \<Rightarrow> clock" clock
  | PgConfig ConfigUpdate
  | PgEnabled PlaygroundParameterKey bool
  | PgReset
  | PgModels "ModelOption list"

fun page_event ::
  "(schema \<Rightarrow> json \<Rightarrow> json option) \<Rightarrow> quota \<Rightarrow> PlaygroundState \<Rightarrow> PageEvent \<Rightarrow> PlaygroundState" where
  "page_event zparse fits s (PgUpdate upd) = updateMessages upd s"
| "page_event zparse fits s PgRun = run_update s"
| "page_event zparse fits s PgClear = clearMessages s"
| "page_event zparse fits s (PgSaveTimeout i) = save_timeout zparse fits i s"
| "page_event zparse fits s (PgLoad t clks clk) = load_timeout zparse fits t clks clk s"
| "page_event zparse fits s (PgConfig upd) = updateConfig zparse fits upd s"
| "page_event zparse fits s (PgEnabled key v) = updateParameterEnabled zparse fits key v s"
| "page_event zparse fits s PgReset = resetConfig zparse fits s"
| "page_event zparse fits s (PgModels ms) = s\<lparr>ps_models := ms\<rparr>"

definition page_run ::
  "(schema \<Rightarrow> json \<Rightarrow> json option) \<Rightarrow> quota \<Rightarrow> PageEvent list \<Rightarrow> PlaygroundState \<Rightarrow> PlaygroundState" where
  "page_run zparse fits es s = foldl (page_event zparse fits) s es"

section \<open>What the next session loads\<close>

definition reloads :: "(schema \<Rightarrow> json \<Rightarrow> json option) \<Rightarrow> quota \<Rightarrow> storage \<Rightarrow> Message list \<Rightarrow> bool" where
  "reloads zparse fits st ms \<longleftrightarrow>
     (\<forall>t clks clk. fst (getInitialMessages zparse fits t clks clk st) = ms)"

lemma load_depends_on_key:
  assumes "st KEY_MESSAGES = st' KEY_MESSAGES"
  shows "fst (loadMessages zparse fits t clks clk st) = fst (loadMessages zparse fits t clks clk st')"
  using assms by (simp add: loadMessages_def readStoredMessagesValue_def Let_def split: option.splits sum.splits)

lemma reloads_key: "reloads zparse fits st ms \<Longrightarrow> st KEY_MESSAGES = st' KEY_MESSAGES \<Longrightarrow> reloads zparse fits st' ms"
  using load_depends_on_key [of st st'] by (simp add: reloads_def getInitialMessages_def case_prod_beta)

lemma load_nothing:
  assumes "loadMessages zparse fits t clks clk st = (None, st1)"
  shows "fst (loadMessages zparse fits t' clks' clk' st1) = None"
  using assms
  by (auto simp: loadMessages_def readStoredMessagesValue_def removeItem_def Let_def
      split: option.splits sum.splits if_splits)

lemma load_something:
  assumes "loadMessages zparse fits t clks clk st = (Some ms, st1)"
  shows "\<exists>st0. st1 = saveMessages zparse fits ms st0"
  using assms
  by (auto simp: loadMessages_def Let_def split: option.splits sum.splits prod.splits if_splits)

lemma saveObject_other: "key \<noteq> key' \<Longrightarrow> saveObject zparse fits key S j st key' = st key'"
  by (simp add: saveObject_def writeStoredValue_def setItem_def split: option.split)

lemma settings_keep_messages [simp]:
  "saveConfig zparse fits j st KEY_MESSAGES = st KEY_MESSAGES"
  "saveParameterEnabled zparse fits j st KEY_MESSAGES = st KEY_MESSAGES"
  by (simp_all add: saveConfig_def saveParameterEnabled_def saveObject_other storage_keys)

lemma reloads_saved:
  assumes "zod_parser zparse" and "\<And>st k v. fits st k v" and "storable ms"
  shows "reloads zparse fits (saveMessages zparse fits ms st) ms"
  using load_saved_conversation [OF assms refl] by (simp add: reloads_def getInitialMessages_def)

lemma reloads_loaded:
  assumes "zod_parser zparse" and "\<And>st k v. fits st k v"
    and "loadMessages zparse fits t clks clk st = (loaded, st1)" and "storable (nullish loaded [])"
  shows "reloads zparse fits st1 (nullish loaded [])"
proof (cases loaded)
  case None
  then show ?thesis
    using load_nothing assms(3) by (simp add: reloads_def getInitialMessages_def case_prod_beta)
next
  case (Some ms)
  then obtain st0 where "st1 = saveMessages zparse fits ms st0" using load_something assms(3) by blast
  then show ?thesis using reloads_saved [OF assms(1,2)] assms(4) Some by simp
qed

section \<open>Invariant of the page\<close>

text \<open>The updates that are handed over, in order.\<close>

fun page_updates :: "PageEvent list \<Rightarrow> MessageStateUpdater list" where
  "page_updates [] = []"
| "page_updates (PgUpdate upd # es) = upd # page_updates es"
| "page_updates (PgClear # es) = SetMessages [] # page_updates es"
| "page_updates (_ # es) = page_updates es"

text \<open>
  After loading \<open>ms0\<close> and handing over the updates \<open>us\<close>: those that React has run give the
  messages of the page, which are the latest messages; the save timer is the only timeout; and
  without one the storage is up to date.
\<close>

definition queue_inv ::
  "Message list \<Rightarrow> MessageStateUpdater list \<Rightarrow> StateUpdate list \<Rightarrow> Message list \<Rightarrow> Message list \<Rightarrow> bool" where
  "queue_inv ms0 us q shown latest \<longleftrightarrow>
     q = LoadedMessages ms0 # map QueuedUpdate us \<and> latest = ms0 \<or>
     (\<exists>ran rest. us = ran @ rest \<and> q = map QueuedUpdate rest \<and>
        shown = foldl applyMessageStateUpdate ms0 ran \<and> latest = shown)"

definition page_inv ::
  "(schema \<Rightarrow> json \<Rightarrow> json option) \<Rightarrow> quota \<Rightarrow> Message list \<Rightarrow> MessageStateUpdater list \<Rightarrow> PlaygroundState \<Rightarrow> bool" where
  "page_inv zparse fits ms0 us s \<longleftrightarrow>
     ps_hasLoadedMessages s \<and> \<not> ps_loadPending s \<and>
     ps_timeouts s = (case ps_messagesSaveTimer s of None \<Rightarrow> [] | Some i \<Rightarrow> [i]) \<and>
     (ps_messagesSaveTimer s = None \<and> storable (ps_latestMessages s) \<longrightarrow>
        reloads zparse fits (ps_storage s) (ps_latestMessages s)) \<and>
     queue_inv ms0 us (ps_queue s) (ps_messages s) (ps_latestMessages s)"

lemma queue_inv_add: "queue_inv ms0 us q ms l \<Longrightarrow> queue_inv ms0 (us @ [upd]) (q @ [QueuedUpdate upd]) ms l"
proof -
  assume "queue_inv ms0 us q ms l"
  then consider "q = LoadedMessages ms0 # map QueuedUpdate us" "l = ms0"
    | ran rest where "us = ran @ rest" "q = map QueuedUpdate rest" "ms = foldl applyMessageStateUpdate ms0 ran" "l = ms"
    unfolding queue_inv_def by blast
  then show "queue_inv ms0 (us @ [upd]) (q @ [QueuedUpdate upd]) ms l"
  proof cases
    case 1
    then show ?thesis by (simp add: queue_inv_def)
  next
    case 2
    then have "us @ [upd] = ran @ (rest @ [upd])" "q @ [QueuedUpdate upd] = map QueuedUpdate (rest @ [upd])" by simp_all
    then show ?thesis using 2(3,4) unfolding queue_inv_def by blast
  qed
qed

lemma queue_inv_loaded: "queue_inv ms0 us (LoadedMessages ms # q) shown l \<Longrightarrow> queue_inv ms0 us q ms l"
  unfolding queue_inv_def by (auto intro: exI [of _ "[]"])

lemma queue_inv_run:
  assumes "queue_inv ms0 us (QueuedUpdate upd # q) ms l"
  shows "queue_inv ms0 us q (applyMessageStateUpdate ms upd) (applyMessageStateUpdate ms upd)"
proof -
  obtain ran rest where "us = ran @ upd # rest" "q = map QueuedUpdate rest" "ms = foldl applyMessageStateUpdate ms0 ran"
    using assms by (auto simp: queue_inv_def)
  then have "us = (ran @ [upd]) @ rest \<and> q = map QueuedUpdate rest \<and>
      applyMessageStateUpdate ms upd = foldl applyMessageStateUpdate ms0 (ran @ [upd])" by simp
  then show ?thesis unfolding queue_inv_def by blast
qed

lemma queue_inv_empty: "queue_inv ms0 us [] ms l \<longleftrightarrow> ms = foldl applyMessageStateUpdate ms0 us \<and> l = ms"
  by (auto simp: queue_inv_def)

lemma page_inv_update:
  "page_inv zparse fits ms0 us s \<Longrightarrow> page_inv zparse fits ms0 (us @ [upd]) (updateMessages upd s)"
  by (simp add: page_inv_def updateMessages_def queue_inv_add)

lemma page_inv_save:
  assumes "zod_parser zparse" and "\<And>st k v. fits st k v" and "page_inv zparse fits ms0 us s"
  shows "page_inv zparse fits ms0 us (save_timeout zparse fits i s)"
  using assms(3) reloads_saved [OF assms(1,2)]
  by (auto simp: page_inv_def save_timeout_def split: option.splits)

lemma page_inv_settings:
  assumes "page_inv zparse fits ms0 us s" and "st KEY_MESSAGES = ps_storage s KEY_MESSAGES"
  shows "page_inv zparse fits ms0 us (s\<lparr>ps_config := c, ps_storage := st\<rparr>)"
    and "page_inv zparse fits ms0 us (s\<lparr>ps_parameterEnabled := p, ps_storage := st\<rparr>)"
    and "page_inv zparse fits ms0 us (s\<lparr>ps_config := c, ps_parameterEnabled := p, ps_storage := st\<rparr>)"
  using assms reloads_key [of zparse fits "ps_storage s" _ st] by (auto simp: page_inv_def)

lemma page_inv_run:
  assumes "page_inv zparse fits ms0 us s"
  shows "page_inv zparse fits ms0 us (run_update s)"
proof (cases "ps_queue s")
  case Nil
  then show ?thesis using assms by (simp add: run_update_def)
next
  case (Cons u q)
  show ?thesis
  proof (cases u)
    case (LoadedMessages ms)
    then show ?thesis using assms Cons queue_inv_loaded by (auto simp: page_inv_def run_update_def)
  next
    case (QueuedUpdate upd)
    have inv: "ps_timeouts s = (case ps_messagesSaveTimer s of None \<Rightarrow> [] | Some i \<Rightarrow> [i])" "ps_hasLoadedMessages s"
      "\<not> ps_loadPending s" "queue_inv ms0 us (QueuedUpdate upd # q) (ps_messages s) (ps_latestMessages s)"
      using assms Cons QueuedUpdate by (simp_all add: page_inv_def)
    then show ?thesis
      using queue_inv_run [OF inv(4)] Cons QueuedUpdate
      by (simp add: page_inv_def run_update_def persistMessages_def clearTimeout_def Let_def split: option.splits)
  qed
qed

lemma page_inv_event:
  assumes "zod_parser zparse" and "\<And>st k v. fits st k v" and "page_inv zparse fits ms0 us s"
  shows "page_inv zparse fits ms0 (us @ page_updates [e]) (page_event zparse fits s e)"
proof (cases e)
  case (PgSaveTimeout i)
  then show ?thesis using page_inv_save [OF assms] by simp
next
  case (PgLoad t clks clk)
  have "\<not> ps_loadPending s" using assms(3) by (simp add: page_inv_def)
  then show ?thesis using PgLoad assms(3) by (simp add: load_timeout_def)
next
  case (PgModels ms)
  then show ?thesis using assms(3) by (auto simp: page_inv_def)
qed (use assms(3) in \<open>simp_all add: page_inv_update page_inv_run clearMessages_def updateConfig_def
      updateParameterEnabled_def resetConfig_def Let_def page_inv_settings\<close>)

lemma page_updates_Cons: "page_updates (e # es) = page_updates [e] @ page_updates es"
  by (cases e) simp_all

lemma page_inv_events:
  assumes "zod_parser zparse" and "\<And>st k v. fits st k v" and "page_inv zparse fits ms0 us s"
  shows "page_inv zparse fits ms0 (us @ page_updates es) (page_run zparse fits es s)"
  using assms(3)
proof (induction es arbitrary: us s)
  case Nil
  then show ?case by (simp add: page_run_def)
next
  case (Cons e es)
  from Cons.IH [OF page_inv_event [OF assms(1,2) Cons.prems, of e]]
  show ?case by (simp add: page_run_def page_updates_Cons [of e es])
qed

text \<open>Before the conversation is loaded nothing waits.\<close>

definition page_fresh :: "PlaygroundState \<Rightarrow> bool" where
  "page_fresh s \<longleftrightarrow> \<not> ps_hasLoadedMessages s \<and> ps_loadPending s \<and> \<not> ps_cancelled s \<and> ps_queue s = [] \<and>
     ps_messagesSaveTimer s = None \<and> ps_timeouts s = []"

definition before_load :: "PageEvent \<Rightarrow> bool" where
  "before_load e \<longleftrightarrow> page_updates [e] = [] \<and> (\<forall>t clks clk. e \<noteq> PgLoad t clks clk)"

lemma page_fresh_run:
  "page_fresh s \<Longrightarrow> \<forall>e \<in> set es. before_load e \<Longrightarrow> page_fresh (page_run zparse fits es s) \<and>
     ps_storage (page_run zparse fits es s) KEY_MESSAGES = ps_storage s KEY_MESSAGES"
proof (induction es arbitrary: s)
  case Nil
  then show ?case by (simp add: page_run_def)
next
  case (Cons e es)
  have "page_fresh (page_event zparse fits s e) \<and>
      ps_storage (page_event zparse fits s e) KEY_MESSAGES = ps_storage s KEY_MESSAGES"
    using Cons.prems by (cases e) (simp_all add: before_load_def page_fresh_def run_update_def save_timeout_def
        updateConfig_def updateParameterEnabled_def resetConfig_def Let_def)
  then show ?case using Cons.IH [of "page_event zparse fits s e"] Cons.prems(2) by (simp add: page_run_def)
qed

lemma page_inv_load:
  assumes "zod_parser zparse" and "\<And>st k v. fits st k v" and "page_fresh s"
    and "fst (getInitialMessages zparse fits t clks clk (ps_storage s)) = ms0"
  shows "page_inv zparse fits ms0 [] (load_timeout zparse fits t clks clk s)"
proof -
  obtain loaded st1 where load: "loadMessages zparse fits t clks clk (ps_storage s) = (loaded, st1)" by fastforce
  then have "nullish loaded [] = ms0" using assms(4) by (simp add: getInitialMessages_def)
  then show ?thesis
    using reloads_loaded [OF assms(1,2) load] assms(3) load
    by (auto simp: page_inv_def page_fresh_def load_timeout_def Let_def queue_inv_def)
qed



end
