(* ===== verification/Playground_Options.thy ===== *)
theory Playground_Options
  imports Playground_State
begin

text \<open>
  Models and protocols on offer: \<open>lib/options/playground-endpoint-utils.ts\<close>,
  \<open>playground-model-utils.ts\<close>, \<open>playground-option-utils.ts\<close>, \<open>getUserModels\<close> of \<open>api.ts\<close>, the
  effect of \<open>hooks/use-playground-options.ts\<close> that brings the settings in line with the models,
  and the handlers of \<open>index.tsx\<close> that change model and protocol. Objects that serve as tables
  are read by their own properties only.
\<close>

section \<open>Protocols\<close>

definition PLAYGROUND_ENDPOINT_TYPES :: "PlaygroundEndpointType list" where
  "PLAYGROUND_ENDPOINT_TYPES = [EP_OPENAI, EP_OPENAI_RESPONSE, EP_ANTHROPIC, EP_GEMINI]"

definition isPlaygroundEndpointType :: "string \<Rightarrow> bool" where
  "isPlaygroundEndpointType v \<longleftrightarrow> v \<in> set (map ep_string PLAYGROUND_ENDPOINT_TYPES)"

text \<open>A string that passes the test, as a protocol.\<close>

definition ep_of_string :: "string \<Rightarrow> PlaygroundEndpointType option" where
  "ep_of_string v = List.find (\<lambda>e. ep_string e = v) PLAYGROUND_ENDPOINT_TYPES"

fun collect_endpoints :: "PlaygroundEndpointType list \<Rightarrow> string list \<Rightarrow> PlaygroundEndpointType list" where
  "collect_endpoints available [] = available"
| "collect_endpoints available (item # items) =
     (case ep_of_string item of
        None \<Rightarrow> collect_endpoints available items
      | Some e \<Rightarrow>
          if e \<in> set available then collect_endpoints available items
          else collect_endpoints (available @ [e]) items)"

definition getPlaygroundEndpointTypes :: "string list option \<Rightarrow> PlaygroundEndpointType list" where
  "getPlaygroundEndpointTypes advertised =
     (case advertised of
        None \<Rightarrow> PLAYGROUND_ENDPOINT_TYPES
      | Some items \<Rightarrow> if items = [] then PLAYGROUND_ENDPOINT_TYPES else collect_endpoints [] items)"

definition resolvePlaygroundEndpointType :: "string list option \<Rightarrow> string \<Rightarrow> PlaygroundEndpointType" where
  "resolvePlaygroundEndpointType advertised current =
     (case getPlaygroundEndpointTypes advertised of
        [] \<Rightarrow> EP_OPENAI
      | first # rest \<Rightarrow>
          (case ep_of_string current of
             Some e \<Rightarrow> if e \<in> set (first # rest) then e else first
           | None \<Rightarrow> first))"

definition getPlaygroundEndpointLabel :: "(string \<Rightarrow> string) \<Rightarrow> PlaygroundEndpointType \<Rightarrow> string" where
  "getPlaygroundEndpointLabel t endpointType =
     (case endpointType of
        EP_OPENAI_RESPONSE \<Rightarrow> t ''OpenAI Responses''
      | EP_ANTHROPIC \<Rightarrow> t ''Anthropic Messages''
      | EP_GEMINI \<Rightarrow> t ''Gemini Generate Content''
      | _ \<Rightarrow> t ''OpenAI Chat Completions'')"

definition find_model :: "ModelOption list \<Rightarrow> string \<Rightarrow> ModelOption option" where
  "find_model models modelValue = List.find (\<lambda>model. mo_value model = modelValue) models"

definition getModelEndpointTypes :: "ModelOption list \<Rightarrow> string \<Rightarrow> PlaygroundEndpointType list" where
  "getModelEndpointTypes models modelValue =
     (if models = [] then []
      else getPlaygroundEndpointTypes (Option.bind (find_model models modelValue) mo_supportedEndpointTypes))"

section \<open>Models\<close>

definition getModelCapabilities :: "ModelOption list \<Rightarrow> string \<Rightarrow> string list" where
  "getModelCapabilities models modelValue = nullish (Option.bind (find_model models modelValue) mo_capabilities) []"

definition modelSupportsWebSearch :: "ModelOption list \<Rightarrow> string \<Rightarrow> bool" where
  "modelSupportsWebSearch models modelValue \<longleftrightarrow> ''web_search'' \<in> set (getModelCapabilities models modelValue)"

record PlaygroundModelSpec =
  pms_labelKey :: string
  pms_values :: "string list"

record PlaygroundModelCard =
  pmc_icon :: "string option"
  pmc_label :: string
  pmc_specs :: "PlaygroundModelSpec list"
  pmc_value :: string
  pmc_vendorName :: "string option"

definition CAPABILITY_LABEL_KEYS :: "(string \<times> string) list" where
  "CAPABILITY_LABEL_KEYS = [(''tools'', ''Tools''), (''web_search'', ''Web search'')]"

definition MODALITY_LABEL_KEYS :: "(string \<times> string) list" where
  "MODALITY_LABEL_KEYS = [(''audio'', ''Audio''), (''file'', ''File''), (''image'', ''Image''),
     (''text'', ''Text''), (''video'', ''Video'')]"

definition getPlaygroundSpecValueLabel :: "string \<Rightarrow> string" where
  "getPlaygroundSpecValueLabel v =
     nullish (map_of CAPABILITY_LABEL_KEYS v)
       (nullish (map_of MODALITY_LABEL_KEYS v) (map (\<lambda>c. if c = CHR ''_'' then CHR 0x20 else c) v))"

definition getPlaygroundModelCard :: "ModelOption list \<Rightarrow> string \<Rightarrow> PlaygroundModelCard option" where
  "getPlaygroundModelCard models modelValue =
     (case find_model models modelValue of
        None \<Rightarrow> None
      | Some model \<Rightarrow>
          let specs = filter (\<lambda>spec. length (pms_values spec) > 0)
            [\<lparr>pms_labelKey = ''Input'', pms_values = nullish (mo_inputModalities model) []\<rparr>,
             \<lparr>pms_labelKey = ''Output'', pms_values = nullish (mo_outputModalities model) []\<rparr>,
             \<lparr>pms_labelKey = ''Capabilities'', pms_values = nullish (mo_capabilities model) []\<rparr>,
             \<lparr>pms_labelKey = ''Protocols'', pms_values = nullish (mo_supportedEndpointTypes model) []\<rparr>]
          in Some \<lparr>pmc_icon = mo_icon model, pmc_label = mo_label model, pmc_specs = specs,
               pmc_value = mo_value model, pmc_vendorName = mo_vendorName model\<rparr>)"

definition getModelFallback :: "ModelOption list \<Rightarrow> string \<Rightarrow> string option" where
  "getModelFallback models currentModel =
     (if (\<exists>model \<in> set models. mo_value model = currentModel) \<or> models = [] then None
      else Some (mo_value (hd models)))"

text \<open>An \<open>Error\<close> is given by its message; any other value that is thrown by none.\<close>

definition getOptionLoadErrorMessage :: "string option \<Rightarrow> string \<Rightarrow> string" where
  "getOptionLoadErrorMessage error fallbackMessage = nullish error fallbackMessage"

section \<open>The list of models from the server\<close>

definition table_entry :: "json \<Rightarrow> string \<Rightarrow> string \<Rightarrow> json option" where
  \<comment> \<open>\<open>(data.field ?? {})[model]\<close>\<close>
  "table_entry data field model = jchain (jget data field) model"

definition list_entry :: "json \<Rightarrow> string \<Rightarrow> string \<Rightarrow> string list option" where
  \<comment> \<open>the entry \<open>?? []\<close>, where the value has the declared type\<close>
  "list_entry data field model =
     (case table_entry data field model of
        None \<Rightarrow> Some [] | Some JNull \<Rightarrow> Some [] | Some j \<Rightarrow> dec_list dec_string j)"

definition string_entry :: "json \<Rightarrow> string \<Rightarrow> string \<Rightarrow> string option option" where
  "string_entry data field model =
     (case table_entry data field model of None \<Rightarrow> Some None | Some j \<Rightarrow> map_option Some (dec_string j))"

definition user_model :: "json \<Rightarrow> json \<Rightarrow> ModelOption option" where
  "user_model data j =
     Option.bind (dec_string j) (\<lambda>model.
     Option.bind (list_entry data ''supported_endpoint_types'' model) (\<lambda>endpoints.
     Option.bind (list_entry data ''input_modalities'' model) (\<lambda>inputs.
     Option.bind (list_entry data ''output_modalities'' model) (\<lambda>outputs.
     Option.bind (list_entry data ''capabilities'' model) (\<lambda>capabilities.
     Option.bind (string_entry data ''model_icons'' model) (\<lambda>icon.
     Option.bind (string_entry data ''vendor_names'' model) (\<lambda>vendor.
       Some \<lparr>mo_label = model, mo_value = model, mo_supportedEndpointTypes = Some endpoints,
         mo_inputModalities = Some inputs, mo_capabilities = Some capabilities, mo_icon = icon,
         mo_vendorName = vendor, mo_outputModalities = Some outputs\<rparr>)))))))"

definition getUserModels :: "json option \<Rightarrow> js_error + ModelOption list" where
  "getUserModels data =
     (case data of
        None \<Rightarrow> Inl TypeError
      | Some JNull \<Rightarrow> Inl TypeError
      | Some d \<Rightarrow>
          if \<not> truthy (jget d ''success'') then Inr []
          else (case jget d ''data'' of
             Some (JArr models) \<Rightarrow>
               (case those (map (user_model d) models) of None \<Rightarrow> Inl IllTyped | Some ms \<Rightarrow> Inr ms)
           | _ \<Rightarrow> Inr []))"

section \<open>Keeping the settings in line\<close>

text \<open>
  The effect runs on the models of the server; it reads model and protocol of the last
  rendering and calls \<open>setModels\<close> and \<open>updateConfig\<close>.
\<close>

definition options_effect ::
  "(schema \<Rightarrow> json \<Rightarrow> json option) \<Rightarrow> quota \<Rightarrow> ModelOption list option \<Rightarrow> PlaygroundState \<Rightarrow> PlaygroundState" where
  "options_effect zparse fits modelsData s =
     (case modelsData of
        None \<Rightarrow> s
      | Some models \<Rightarrow>
          let currentModel = cfg_model (ps_config s);
              currentEndpointType = cfg_endpointType (ps_config s);
              s1 = s\<lparr>ps_models := models\<rparr>;
              fallback = getModelFallback models currentModel;
              nextModel = nullish fallback currentModel;
              selected = find_model models nextModel;
              nextEndpoint = resolvePlaygroundEndpointType (Option.bind selected mo_supportedEndpointTypes)
                (if opt_str fallback \<noteq> [] then [] else ep_string currentEndpointType);
              s2 = (if opt_str fallback \<noteq> [] then updateConfig zparse fits (SetModel (opt_str fallback)) s1
                else if currentModel \<noteq> [] \<and> \<not> (\<exists>model \<in> set models. mo_value model = currentModel)
                then updateConfig zparse fits (SetModel []) s1 else s1)
          in if nextEndpoint \<noteq> currentEndpointType
             then updateConfig zparse fits (SetEndpointType nextEndpoint) s2 else s2)"

definition handleModelChange ::
  "(schema \<Rightarrow> json \<Rightarrow> json option) \<Rightarrow> quota \<Rightarrow> string \<Rightarrow> PlaygroundState \<Rightarrow> PlaygroundState" where
  "handleModelChange zparse fits v s =
     (let s1 = updateConfig zparse fits (SetModel v) s;
          selected = find_model (ps_models s) v
      in updateConfig zparse fits
           (SetEndpointType (resolvePlaygroundEndpointType (Option.bind selected mo_supportedEndpointTypes) [])) s1)"

section \<open>Protocols that are offered\<close>

lemma ep_string_inj [simp]: "ep_string e = ep_string e' \<longleftrightarrow> e = e'"
  by (cases e; cases e') (simp_all add: ep_string_def)

lemma ep_of_string_iff: "ep_of_string v = Some e \<longleftrightarrow> v = ep_string e"
  by (cases e) (auto simp: ep_of_string_def PLAYGROUND_ENDPOINT_TYPES_def ep_string_def)

lemma ep_of_string_ep [simp]: "ep_of_string (ep_string e) = Some e"
  by (simp add: ep_of_string_iff)

lemma isPlaygroundEndpointType_iff: "isPlaygroundEndpointType v \<longleftrightarrow> ep_of_string v \<noteq> None"
  by (auto simp: isPlaygroundEndpointType_def ep_of_string_def find_None_iff)

lemma ep_of_string_None: "ep_of_string v = None \<longleftrightarrow> (\<forall>e. v \<noteq> ep_string e)"
  by (metis ep_of_string_iff not_Some_eq)

lemma collect_endpoints_set:
  "set (collect_endpoints available items) = set available \<union> {e. ep_string e \<in> set items}"
  by (induction available items rule: collect_endpoints.induct)
     (auto simp: ep_of_string_iff ep_of_string_None split: option.splits)

lemma collect_endpoints_distinct: "distinct available \<Longrightarrow> distinct (collect_endpoints available items)"
  by (induction available items rule: collect_endpoints.induct) (auto split: option.split)

lemma endpoint_types_distinct: "distinct (getPlaygroundEndpointTypes advertised)"
  by (auto simp: getPlaygroundEndpointTypes_def PLAYGROUND_ENDPOINT_TYPES_def collect_endpoints_distinct
      split: option.split)

lemma endpoint_types_set:
  "set (getPlaygroundEndpointTypes advertised) =
     {e. advertised = None \<or> advertised = Some [] \<or> (\<exists>items. advertised = Some items \<and> ep_string e \<in> set items)}"
proof -
  have "e \<in> set PLAYGROUND_ENDPOINT_TYPES" for e by (cases e) (simp_all add: PLAYGROUND_ENDPOINT_TYPES_def)
  then show ?thesis by (auto simp: getPlaygroundEndpointTypes_def collect_endpoints_set split: option.splits)
qed

lemma resolve_offered:
  "getPlaygroundEndpointTypes advertised \<noteq> [] \<Longrightarrow>
     resolvePlaygroundEndpointType advertised current \<in> set (getPlaygroundEndpointTypes advertised)"
  by (cases "getPlaygroundEndpointTypes advertised")
     (auto simp: resolvePlaygroundEndpointType_def split: option.split)

lemma resolve_stable:
  "resolvePlaygroundEndpointType advertised (ep_string (resolvePlaygroundEndpointType advertised current)) =
     resolvePlaygroundEndpointType advertised current"
  by (cases "getPlaygroundEndpointTypes advertised")
     (auto simp: resolvePlaygroundEndpointType_def split: option.split)

section \<open>The effect comes to rest\<close>

lemma find_model_Some: "find_model models v = Some m \<Longrightarrow> m \<in> set models \<and> mo_value m = v"
  by (auto simp: find_model_def find_Some_iff)

lemma find_model_None: "find_model models v = None \<longleftrightarrow> (\<forall>m \<in> set models. mo_value m \<noteq> v)"
  by (auto simp: find_model_def find_None_iff)

lemma options_effect_config:
  "ps_config (options_effect zparse fits (Some models) s) = (ps_config s)
     \<lparr>cfg_model := (if find_model models (cfg_model (ps_config s)) \<noteq> None then cfg_model (ps_config s)
        else if models = [] then [] else mo_value (hd models)),
      cfg_endpointType := resolvePlaygroundEndpointType
        (Option.bind (find_model models (nullish (getModelFallback models (cfg_model (ps_config s))) (cfg_model (ps_config s))))
          mo_supportedEndpointTypes)
        (if opt_str (getModelFallback models (cfg_model (ps_config s))) \<noteq> [] then []
         else ep_string (cfg_endpointType (ps_config s)))\<rparr>"
  by (auto simp: options_effect_def Let_def updateConfig_def getModelFallback_def find_model_None opt_str_def)

text \<open>What the effect establishes.\<close>

definition options_settled :: "ModelOption list \<Rightarrow> PlaygroundConfig \<Rightarrow> bool" where
  "options_settled models c \<longleftrightarrow>
     (if models = [] then cfg_model c = [] else find_model models (cfg_model c) \<noteq> None) \<and>
     (let offered = getPlaygroundEndpointTypes (Option.bind (find_model models (cfg_model c)) mo_supportedEndpointTypes)
      in if offered = [] then cfg_endpointType c = EP_OPENAI else cfg_endpointType c \<in> set offered)"

lemma resolve_settled:
  "let offered = getPlaygroundEndpointTypes advertised;
       e = resolvePlaygroundEndpointType advertised current
   in if offered = [] then e = EP_OPENAI else e \<in> set offered"
  using resolve_offered [of advertised current] by (auto simp: Let_def resolvePlaygroundEndpointType_def)

lemma find_model_hd: "models \<noteq> [] \<Longrightarrow> find_model models (mo_value (hd models)) = Some (hd models)"
  by (cases models) (simp_all add: find_model_def)

lemma options_effect_settled: "options_settled models (ps_config (options_effect zparse fits (Some models) s))"
proof -
  let ?m = "cfg_model (ps_config s)"
  show ?thesis
  proof (cases "find_model models ?m = None")
    case True
    then have "getModelFallback models ?m = (if models = [] then None else Some (mo_value (hd models)))"
      by (auto simp: getModelFallback_def find_model_None)
    moreover have "find_model [] v = None" for v by (simp add: find_model_None)
    ultimately show ?thesis
      using True resolve_settled [of "Option.bind (find_model models (if models = [] then ?m else mo_value (hd models)))
          mo_supportedEndpointTypes"]
      by (cases "models = []") (simp_all add: options_settled_def options_effect_config find_model_hd Let_def)
  next
    case False
    then have "getModelFallback models ?m = None"
      by (auto simp: getModelFallback_def find_model_None)
    moreover have "models \<noteq> []" using False by (auto simp: find_model_None)
    ultimately show ?thesis
      using False resolve_settled [of "Option.bind (find_model models ?m) mo_supportedEndpointTypes"]
      by (simp add: options_settled_def options_effect_config Let_def opt_str_def)
  qed
qed

lemma options_effect_rest:
  assumes "options_settled models (ps_config s)" and "ps_models s = models"
  shows "options_effect zparse fits (Some models) s = s"
proof -
  let ?c = "ps_config s"
  have none: "getModelFallback models (cfg_model ?c) = None"
    using assms(1) by (auto simp: options_settled_def getModelFallback_def find_model_None)
  have same: "resolvePlaygroundEndpointType (Option.bind (find_model models (cfg_model ?c)) mo_supportedEndpointTypes)
      (ep_string (cfg_endpointType ?c)) = cfg_endpointType ?c"
    using assms(1) by (auto simp: options_settled_def resolvePlaygroundEndpointType_def Let_def
        split: list.split if_splits)
  have keep: "cfg_model ?c = [] \<or> (\<exists>m \<in> set models. mo_value m = cfg_model ?c)"
    using assms(1) by (auto simp: options_settled_def find_model_None split: if_splits)
  show ?thesis using assms(2) none same keep by (auto simp: options_effect_def Let_def opt_str_def)
qed


lemma handleModelChange_settled:
  assumes "find_model (ps_models s) v \<noteq> None"
  shows "options_settled (ps_models s) (ps_config (handleModelChange zparse fits v s))"
proof -
  have "ps_models s \<noteq> []" using assms by (auto simp: find_model_None)
  then show ?thesis
    using assms resolve_settled [of "Option.bind (find_model (ps_models s) v) mo_supportedEndpointTypes" "[]"]
    by (simp add: options_settled_def handleModelChange_def updateConfig_def Let_def)
qed

end
