(* ===== verification/Attachments.thy ===== *)
theory Attachments
  imports Playground_Options
begin

text \<open>
  The input of the playground: \<open>lib/file-accept.ts\<close>, \<open>lib/input/playground-attachment-utils.ts\<close>,
  \<open>input-control-utils.ts\<close> and \<open>input-tool-utils.ts\<close>: which files the picker offers for a
  model, which files the page takes, and when a message can be submitted. The icons of the
  actions are left out.
\<close>

section \<open>Files and accept lists\<close>

definition js_lower_char :: "char \<Rightarrow> char" where
  "js_lower_char c =
     (let n = of_char c :: nat in
      if 65 \<le> n \<and> n \<le> 90 \<or> 192 \<le> n \<and> n \<le> 222 \<and> n \<noteq> 215 then char_of (n + 32) else c)"

definition js_toLowerCase :: "string \<Rightarrow> string" where
  "js_toLowerCase s = map js_lower_char s"

definition EXTENSION_MIME_MAP :: "(string \<times> string) list" where
  "EXTENSION_MIME_MAP = [(''.txt'', ''text/plain''), (''.md'', ''text/markdown''), (''.csv'', ''text/csv''),
     (''.json'', ''application/json''), (''.pdf'', ''application/pdf''), (''.html'', ''text/html''),
     (''.htm'', ''text/html''), (''.xml'', ''application/xml''), (''.yaml'', ''text/yaml''),
     (''.yml'', ''text/yaml''), (''.py'', ''text/x-python''), (''.js'', ''text/javascript''),
     (''.jsx'', ''text/javascript''), (''.ts'', ''text/typescript''), (''.tsx'', ''text/typescript''),
     (''.java'', ''text/x-java-source''), (''.go'', ''text/x-go''), (''.rs'', ''text/x-rust''),
     (''.c'', ''text/x-c''), (''.cpp'', ''text/x-c++''), (''.h'', ''text/x-c''), (''.css'', ''text/css''),
     (''.doc'', ''application/msword''),
     (''.docx'', ''application/vnd.openxmlformats-officedocument.wordprocessingml.document''),
     (''.xls'', ''application/vnd.ms-excel''),
     (''.xlsx'', ''application/vnd.openxmlformats-officedocument.spreadsheetml.sheet''),
     (''.zip'', ''application/zip'')]"

record FileInfo =
  file_name :: string
  file_type :: string

definition getFileExtension :: "string \<Rightarrow> string" where
  "getFileExtension filename =
     (case js_findIndex (\<lambda>c. c = CHR ''.'') (rev filename) of
        None \<Rightarrow> []
      | Some k \<Rightarrow>
          let index = length filename - 1 - k
          in if index \<le> 0 then [] else js_toLowerCase (drop index filename))"

definition resolveFileMimeType :: "FileInfo \<Rightarrow> string" where
  "resolveFileMimeType file =
     (if js_trim (file_type file) \<noteq> [] then file_type file
      else nullish (map_of EXTENSION_MIME_MAP (getFileExtension (file_name file))) [])"

definition token_matches :: "string \<Rightarrow> string \<Rightarrow> string \<Rightarrow> bool" where
  "token_matches mimeType extension token =
     (if token = ''*/*'' then True
      else if prefix ''.'' token then extension = js_toLowerCase token
      else if suffix ''/*'' token then prefix (butlast token) mimeType
      else mimeType = token)"

definition accept_tokens :: "string \<Rightarrow> string list" where
  "accept_tokens accept = js_segments CHR '','' accept"

definition fileMatchesAccept :: "FileInfo \<Rightarrow> string option \<Rightarrow> bool" where
  "fileMatchesAccept file accept =
     (if js_trim (opt_str accept) = [] then True
      else
        let mimeType = resolveFileMimeType file;
            extension = getFileExtension (file_name file)
        in list_ex (token_matches mimeType extension) (accept_tokens (opt_str accept)))"

section \<open>Kinds of input\<close>

datatype PlaygroundInputModality = MOD_TEXT | MOD_IMAGE | MOD_AUDIO | MOD_VIDEO | MOD_FILE

definition PLAYGROUND_INPUT_MODALITIES :: "(string \<times> PlaygroundInputModality) list" where
  "PLAYGROUND_INPUT_MODALITIES = [(''text'', MOD_TEXT), (''image'', MOD_IMAGE), (''audio'', MOD_AUDIO),
     (''video'', MOD_VIDEO), (''file'', MOD_FILE)]"

definition PLAYGROUND_DEFAULT_INPUT_MODALITIES :: "PlaygroundInputModality list" where
  "PLAYGROUND_DEFAULT_INPUT_MODALITIES = [MOD_TEXT, MOD_IMAGE, MOD_FILE]"

datatype AttachmentActionKind = UPLOAD_PHOTO | UPLOAD_FILE

record AttachmentAction =
  aa_action :: AttachmentActionKind
  aa_label :: string

definition ATTACHMENT_ACTIONS :: "AttachmentAction list" where
  "ATTACHMENT_ACTIONS = [\<lparr>aa_action = UPLOAD_PHOTO, aa_label = ''Image''\<rparr>,
     \<lparr>aa_action = UPLOAD_FILE, aa_label = ''File''\<rparr>]"

definition getSearchActionNotice :: string where
  "getSearchActionNotice = ''Search feature in development''"

fun ATTACHMENT_ACTION_MODALITIES :: "AttachmentActionKind \<Rightarrow> PlaygroundInputModality list" where
  "ATTACHMENT_ACTION_MODALITIES UPLOAD_PHOTO = [MOD_IMAGE]"
| "ATTACHMENT_ACTION_MODALITIES UPLOAD_FILE = [MOD_FILE, MOD_AUDIO, MOD_VIDEO]"

definition document_tokens :: "string list" where
  "document_tokens = [''text/*'', ''application/pdf'', ''application/json'', ''application/xml'',
     ''application/zip'', ''application/msword'',
     ''application/vnd.openxmlformats-officedocument.wordprocessingml.document'',
     ''application/vnd.ms-excel'', ''application/vnd.openxmlformats-officedocument.spreadsheetml.sheet'',
     ''.txt'', ''.md'', ''.pdf'', ''.csv'', ''.json'', ''.html'', ''.xml'', ''.yaml'', ''.yml'', ''.py'',
     ''.js'', ''.ts'', ''.jsx'', ''.tsx'', ''.java'', ''.go'', ''.rs'', ''.c'', ''.cpp'', ''.h'', ''.doc'',
     ''.docx'', ''.xls'', ''.xlsx'', ''.zip'']"

definition PLAYGROUND_DOCUMENT_ACCEPT :: string where
  "PLAYGROUND_DOCUMENT_ACCEPT = js_join '','' document_tokens"

definition isPlaygroundInputModality :: "string \<Rightarrow> bool" where
  "isPlaygroundInputModality v \<longleftrightarrow> map_of PLAYGROUND_INPUT_MODALITIES v \<noteq> None"

fun collect_modalities :: "PlaygroundInputModality list \<Rightarrow> string list \<Rightarrow> PlaygroundInputModality list" where
  "collect_modalities normalized [] = normalized"
| "collect_modalities normalized (modality # modalities) =
     (case map_of PLAYGROUND_INPUT_MODALITIES modality of
        None \<Rightarrow> collect_modalities normalized modalities
      | Some md \<Rightarrow> collect_modalities (if md \<in> set normalized then normalized else normalized @ [md]) modalities)"

definition normalizeInputModalities :: "string list option \<Rightarrow> PlaygroundInputModality list" where
  "normalizeInputModalities modalities =
     (case modalities of
        None \<Rightarrow> [MOD_TEXT]
      | Some ms \<Rightarrow>
          if ms = [] then [MOD_TEXT]
          else let normalized = collect_modalities [] ms
               in if normalized \<noteq> [] then normalized else [MOD_TEXT])"

definition getModelInputModalities :: "ModelOption list \<Rightarrow> string \<Rightarrow> PlaygroundInputModality list" where
  "getModelInputModalities models modelValue =
     (case Option.bind (find_model models modelValue) mo_inputModalities of
        None \<Rightarrow> PLAYGROUND_DEFAULT_INPUT_MODALITIES
      | Some ms \<Rightarrow> if ms = [] then PLAYGROUND_DEFAULT_INPUT_MODALITIES else normalizeInputModalities (Some ms))"

definition modelSupportsAttachments :: "PlaygroundInputModality list \<Rightarrow> bool" where
  "modelSupportsAttachments modalities = list_ex (\<lambda>modality. modality \<noteq> MOD_TEXT) modalities"

definition getPlaygroundAttachmentActions :: "PlaygroundInputModality list \<Rightarrow> AttachmentAction list" where
  "getPlaygroundAttachmentActions modalities =
     filter (\<lambda>action. list_ex (\<lambda>modality. modality \<in> set modalities)
       (ATTACHMENT_ACTION_MODALITIES (aa_action action))) ATTACHMENT_ACTIONS"

definition join_accepts :: "string list \<Rightarrow> string option" where
  "join_accepts accepts = (if length accepts > 0 then Some (js_join '','' accepts) else None)"

definition getPlaygroundAttachmentAccept :: "PlaygroundInputModality list \<Rightarrow> string option" where
  "getPlaygroundAttachmentAccept modalities =
     join_accepts
       ((if MOD_IMAGE \<in> set modalities then [''image/*''] else []) @
        (if MOD_AUDIO \<in> set modalities then [''audio/*''] else []) @
        (if MOD_VIDEO \<in> set modalities then [''video/*''] else []) @
        (if MOD_FILE \<in> set modalities then [PLAYGROUND_DOCUMENT_ACCEPT] else []))"

definition getPlaygroundAttachmentAcceptForAction :: "PlaygroundInputModality list \<Rightarrow> string \<Rightarrow> string option" where
  "getPlaygroundAttachmentAcceptForAction modalities action =
     (if action = ''upload-photo'' then (if MOD_IMAGE \<in> set modalities then Some ''image/*'' else None)
      else if action = ''upload-file'' then
        join_accepts
          ((if MOD_FILE \<in> set modalities then [PLAYGROUND_DOCUMENT_ACCEPT] else []) @
           (if MOD_AUDIO \<in> set modalities then [''audio/*''] else []) @
           (if MOD_VIDEO \<in> set modalities then [''video/*''] else []))
      else getPlaygroundAttachmentAccept modalities)"

definition effective_type :: "string option \<Rightarrow> string option \<Rightarrow> string" where
  "effective_type mediaType filename =
     str_or (js_trim (opt_str mediaType))
       (if opt_str filename \<noteq> [] then resolveFileMimeType \<lparr>file_name = opt_str filename, file_type = []\<rparr> else [])"

definition fileMatchesPlaygroundModalities ::
  "string option \<Rightarrow> PlaygroundInputModality list \<Rightarrow> string option \<Rightarrow> bool" where
  "fileMatchesPlaygroundModalities mediaType modalities filename =
     (let effectiveType = effective_type mediaType filename in
      if effectiveType = [] \<and> opt_str filename = [] then False
      else if prefix ''image/'' effectiveType then MOD_IMAGE \<in> set modalities
      else if prefix ''audio/'' effectiveType then MOD_AUDIO \<in> set modalities
      else if prefix ''video/'' effectiveType then MOD_VIDEO \<in> set modalities
      else if MOD_FILE \<in> set modalities then
        (if effectiveType = [] then
           let extension = (if opt_str filename \<noteq> [] then getFileExtension (opt_str filename) else [])
           in extension \<noteq> [] \<and> js_includes PLAYGROUND_DOCUMENT_ACCEPT extension
         else fileMatchesAccept \<lparr>file_name = nullish filename ''attachment'', file_type = effectiveType\<rparr>
                (Some PLAYGROUND_DOCUMENT_ACCEPT))
      else False)"

section \<open>Submitting\<close>

record SubmittableInputMessage =
  sim_files :: "ImageFilePart list option"
  sim_text :: "string option"

record PlaygroundSubmitPayload =
  psp_images :: "PlaygroundImageAttachment list"
  psp_text :: string

definition getPlaygroundSubmitPayload :: "SubmittableInputMessage \<Rightarrow> bool \<Rightarrow> PlaygroundSubmitPayload option" where
  "getPlaygroundSubmitPayload message disabled =
     (if disabled then None
      else
        let images = extractPlaygroundImages (nullish (sim_files message) []);
            hasFiles = nullish (map_option length (sim_files message)) 0 > 0
        in if js_trim (opt_str (sim_text message)) = [] \<and> images = [] \<and> \<not> hasFiles then None
           else Some \<lparr>psp_images = images, psp_text = nullish (sim_text message) []\<rparr>)"

record InputControlState =
  ics_canSubmit :: bool
  ics_isSelectorDisabled :: bool
  ics_shouldShowStop :: bool

definition getInputControlState ::
  "bool \<Rightarrow> bool \<Rightarrow> bool \<Rightarrow> bool \<Rightarrow> bool \<Rightarrow> ModelOption list \<Rightarrow> string \<Rightarrow> InputControlState" where
  "getInputControlState disabled hasAttachments hasStopHandler generating isModelLoading models txt' =
     (let hasModels = length models > 0
      in \<lparr>ics_canSubmit = (\<not> disabled \<and> hasModels \<and> (length (js_trim txt') > 0 \<or> hasAttachments)),
          ics_isSelectorDisabled = (disabled \<or> isModelLoading \<or> \<not> hasModels),
          ics_shouldShowStop = (generating \<and> hasStopHandler)\<rparr>)"

section \<open>The picker and the page\<close>

lemma collect_modalities_distinct:
  "distinct normalized \<Longrightarrow> distinct (collect_modalities normalized modalities)"
  by (induction normalized modalities rule: collect_modalities.induct) (auto split: option.split)

lemma modelSupportsAttachments_actions:
  "modelSupportsAttachments modalities \<longleftrightarrow> getPlaygroundAttachmentActions modalities \<noteq> []"
proof -
  have "getPlaygroundAttachmentActions modalities \<noteq> [] \<longleftrightarrow>
      MOD_IMAGE \<in> set modalities \<or> MOD_FILE \<in> set modalities \<or> MOD_AUDIO \<in> set modalities \<or> MOD_VIDEO \<in> set modalities"
    by (auto simp: getPlaygroundAttachmentActions_def ATTACHMENT_ACTIONS_def)
  also have "\<dots> \<longleftrightarrow> (\<exists>modality \<in> set modalities. modality \<noteq> MOD_TEXT)"
    by (metis PlaygroundInputModality.exhaust PlaygroundInputModality.distinct(1,3,5,7))
  finally show ?thesis by (simp add: modelSupportsAttachments_def list_ex_iff)
qed

lemma accept_tokens_join: "accept_tokens (js_join '','' xs) = concat (map accept_tokens xs)"
  unfolding accept_tokens_def by (rule js_segments_join)

lemma accept_tokens_simps:
  "accept_tokens ''image/*'' = [''image/*'']" "accept_tokens ''audio/*'' = [''audio/*'']"
  "accept_tokens ''video/*'' = [''video/*'']"
  by code_simp+

lemma document_accept_tokens: "accept_tokens PLAYGROUND_DOCUMENT_ACCEPT = document_tokens"
  by code_simp

lemma attachment_accept_tokens:
  "accept_tokens (opt_str (getPlaygroundAttachmentAccept modalities)) =
     (if MOD_IMAGE \<in> set modalities then [''image/*''] else []) @
     (if MOD_AUDIO \<in> set modalities then [''audio/*''] else []) @
     (if MOD_VIDEO \<in> set modalities then [''video/*''] else []) @
     (if MOD_FILE \<in> set modalities then document_tokens else [])"
proof -
  have join: "opt_str (join_accepts xs) = js_join '','' xs" for xs
    by (simp add: join_accepts_def opt_str_def)
  show ?thesis
    unfolding getPlaygroundAttachmentAccept_def join accept_tokens_join
    by (simp add: accept_tokens_simps document_accept_tokens)
qed

lemma wildcard_token:
  "prefix (kind @ ''/'') mimeType \<Longrightarrow> kind \<noteq> ''*'' \<Longrightarrow> hd (kind @ ''/'') \<noteq> CHR ''.'' \<Longrightarrow>
     token_matches mimeType extension (kind @ ''/*'')"
proof -
  assume "prefix (kind @ ''/'') mimeType" "kind \<noteq> ''*''" "hd (kind @ ''/'') \<noteq> CHR ''.''"
  moreover have "suffix ''/*'' (kind @ ''/*'')" by (simp add: suffix_def)
  ultimately show "token_matches mimeType extension (kind @ ''/*'')"
    by (cases kind) (auto simp: token_matches_def butlast_append)
qed

lemma effective_type_trimmed:
  "effective_type mediaType filename \<noteq> [] \<Longrightarrow> js_trim (effective_type mediaType filename) \<noteq> []"
proof -
  assume ne: "effective_type mediaType filename \<noteq> []"
  have known: "js_trim v \<noteq> []" if "(k, v) \<in> set EXTENSION_MIME_MAP" for k v
  proof -
    have "list_all (\<lambda>(k, v). js_trim v \<noteq> []) EXTENSION_MIME_MAP" by code_simp
    then show ?thesis using that by (auto simp: list_all_iff)
  qed
  show "js_trim (effective_type mediaType filename) \<noteq> []"
  proof (cases "js_trim (opt_str mediaType) = []")
    case False
    then show ?thesis by (simp add: effective_type_def str_or_def)
  next
    case True
    then obtain k v where "(k, v) \<in> set EXTENSION_MIME_MAP" "effective_type mediaType filename = v"
      using ne by (auto simp: effective_type_def str_or_def resolveFileMimeType_def nullish_def js_trim_def
          split: if_splits option.splits dest: map_of_SomeD)
    then show ?thesis using known by simp
  qed
qed

text \<open>What the page takes is in the accept list of the file picker.\<close>

lemma picker_offers_accepted_files:
  assumes "fileMatchesPlaygroundModalities mediaType modalities filename"
    and "effective_type mediaType filename \<noteq> []"
  shows "fileMatchesAccept \<lparr>file_name = nullish filename ''attachment'',
      file_type = effective_type mediaType filename\<rparr> (getPlaygroundAttachmentAccept modalities)"
proof -
  let ?e = "effective_type mediaType filename"
  let ?f = "\<lparr>file_name = nullish filename ''attachment'', file_type = ?e\<rparr>"
  have mime: "resolveFileMimeType ?f = ?e"
    using effective_type_trimmed [OF assms(2)] by (simp add: resolveFileMimeType_def)
  have doc: "js_trim (opt_str (Some PLAYGROUND_DOCUMENT_ACCEPT)) \<noteq> []" by code_simp
  consider "prefix (''image'' @ ''/'') ?e" "MOD_IMAGE \<in> set modalities"
    | "prefix (''audio'' @ ''/'') ?e" "MOD_AUDIO \<in> set modalities"
    | "prefix (''video'' @ ''/'') ?e" "MOD_VIDEO \<in> set modalities"
    | "MOD_FILE \<in> set modalities" "fileMatchesAccept ?f (Some PLAYGROUND_DOCUMENT_ACCEPT)"
    using assms by (auto simp: fileMatchesPlaygroundModalities_def Let_def split: if_splits)
  then have "list_ex (token_matches ?e (getFileExtension (file_name ?f)))
      (accept_tokens (opt_str (getPlaygroundAttachmentAccept modalities)))"
  proof cases
    case 4
    then have "list_ex (token_matches ?e (getFileExtension (file_name ?f))) document_tokens"
      using doc unfolding fileMatchesAccept_def Let_def mime
      by (simp add: document_accept_tokens opt_str_def)
    then show ?thesis using 4(1) by (simp add: attachment_accept_tokens)
  next
    case 1
    then show ?thesis using wildcard_token [of "''image''"] by (simp add: attachment_accept_tokens)
  next
    case 2
    then show ?thesis using wildcard_token [of "''audio''"] by (simp add: attachment_accept_tokens)
  next
    case 3
    then show ?thesis using wildcard_token [of "''video''"] by (simp add: attachment_accept_tokens)
  qed
  then show ?thesis unfolding fileMatchesAccept_def Let_def mime by simp
qed

text \<open>
  The list is searched as a string when the type is unknown, so a part of an extension counts.
\<close>

lemma partial_extension_accepted:
  "fileMatchesPlaygroundModalities None [MOD_FILE] (Some ''notes.do'') \<and>
   \<not> fileMatchesAccept \<lparr>file_name = ''notes.do'', file_type = []\<rparr> (Some PLAYGROUND_DOCUMENT_ACCEPT)"
  by code_simp

lemma submit_payload_valid_images:
  "getPlaygroundSubmitPayload message disabled = Some p \<Longrightarrow> img \<in> set (psp_images p) \<Longrightarrow>
     prefix ''image/'' (img_mediaType img) \<and> parseImageDataUrl (img_url img) \<noteq> None"
  by (auto simp: getPlaygroundSubmitPayload_def Let_def split: if_splits dest: extractPlaygroundImages_valid)

end
