(* ===== verification/Playground_Page.thy ===== *)
theory Playground_Page
  imports Chat_Streaming Conversation Attachments
begin

text \<open>
  The page puts the parts together, \<open>hooks/use-playground-conversation.ts\<close>,
  \<open>hooks/use-message-action-guard.ts\<close> and \<open>index.tsx\<close>: each action of the user computes a new
  conversation, hands it to React and, where it asks for an answer, to the chat handler. The
  handlers read the messages of the last rendering, \<open>ch_messages\<close>.
\<close>

section \<open>Actions\<close>

record Page =
  pg_chat :: ChatState
  pg_editingMessageKey :: "string option"

definition set_and_send ::
  "bool \<Rightarrow> PlaygroundConfig \<Rightarrow> ParameterEnabled \<Rightarrow> Message list \<Rightarrow> ChatState \<Rightarrow> ChatState" where
  \<comment> \<open>\<open>updateMessages(nextMessages); sendChat(nextMessages)\<close>\<close>
  "set_and_send eager config pe nextMessages st =
     sendChat config pe nextMessages (onMessageUpdate eager (\<lambda>_ _. nextMessages) st)"

definition handleSendMessage ::
  "(nat \<Rightarrow> string) \<Rightarrow> nat \<Rightarrow> jsnum \<Rightarrow> bool \<Rightarrow> PlaygroundConfig \<Rightarrow> ParameterEnabled \<Rightarrow> string \<Rightarrow>
   PlaygroundImageAttachment list option \<Rightarrow> Page \<Rightarrow> Page" where
  "handleSendMessage nanoid k now eager config pe content images pg =
     (let nextMessages = appendUserMessagePair nanoid k now (ch_messages (pg_chat pg)) content images
      in pg\<lparr>pg_chat := set_and_send eager config pe nextMessages (pg_chat pg)\<rparr>)"

definition handleRegenerateMessage ::
  "(nat \<Rightarrow> string) \<Rightarrow> nat \<Rightarrow> jsnum \<Rightarrow> bool \<Rightarrow> PlaygroundConfig \<Rightarrow> ParameterEnabled \<Rightarrow> Message \<Rightarrow> Page \<Rightarrow> Page" where
  "handleRegenerateMessage nanoid k now eager config pe message pg =
     (case createRegeneratedMessages nanoid k now (ch_messages (pg_chat pg)) (msg_key message) of
        None \<Rightarrow> pg
      | Some nextMessages \<Rightarrow> pg\<lparr>pg_chat := set_and_send eager config pe nextMessages (pg_chat pg)\<rparr>)"

definition handleEditMessage :: "Message \<Rightarrow> Page \<Rightarrow> Page" where
  "handleEditMessage message pg = pg\<lparr>pg_editingMessageKey := Some (msg_key message)\<rparr>"

definition handleEditOpenChange :: "bool \<Rightarrow> Page \<Rightarrow> Page" where
  "handleEditOpenChange isOpen pg = (if \<not> isOpen then pg\<lparr>pg_editingMessageKey := None\<rparr> else pg)"

definition applyEdit ::
  "(nat \<Rightarrow> string) \<Rightarrow> nat \<Rightarrow> jsnum \<Rightarrow> bool \<Rightarrow> PlaygroundConfig \<Rightarrow> ParameterEnabled \<Rightarrow> string \<Rightarrow> bool \<Rightarrow> Page \<Rightarrow> Page" where
  "applyEdit nanoid k now eager config pe newContent shouldSubmit pg =
     (if opt_str (pg_editingMessageKey pg) = [] then pg
      else case applyMessageEdit nanoid k now (ch_messages (pg_chat pg)) (opt_str (pg_editingMessageKey pg))
             newContent shouldSubmit of
          None \<Rightarrow> pg
        | Some (messages, shouldSend) \<Rightarrow>
            let st1 = onMessageUpdate eager (\<lambda>_ _. messages) (pg_chat pg)
            in \<lparr>pg_chat = (if shouldSend then sendChat config pe messages st1 else st1),
                pg_editingMessageKey = None\<rparr>)"

definition handleDeleteMessage :: "bool \<Rightarrow> Message \<Rightarrow> Page \<Rightarrow> Page" where
  "handleDeleteMessage eager message pg =
     pg\<lparr>pg_chat := onMessageUpdate eager (\<lambda>_ previousMessages. removeMessageByKey previousMessages (msg_key message))
       (pg_chat pg)\<rparr>"

definition handleClearMessages :: "bool \<Rightarrow> Page \<Rightarrow> Page" where
  "handleClearMessages eager pg =
     (let pg1 = handleEditOpenChange False pg
      in pg1\<lparr>pg_chat := onMessageUpdate eager (\<lambda>_ _. []) (pg_chat pg1)\<rparr>)"

definition WAIT_GENERATION :: string where
  "WAIT_GENERATION = ''Please wait for the current generation to complete''"

definition guardAction :: "(string \<Rightarrow> string) \<Rightarrow> (Page \<Rightarrow> Page) \<Rightarrow> Page \<Rightarrow> Page" where
  "guardAction t action pg =
     (if isGenerating (pg_chat pg)
      then pg\<lparr>pg_chat := (pg_chat pg)\<lparr>ch_toasts := ch_toasts (pg_chat pg) @ [t WAIT_GENERATION]\<rparr>\<rparr>
      else action pg)"

section \<open>From the question to the answer\<close>

lemma abort_current_view [simp]:
  "view (abort_current st) = view st" "ch_generation (abort_current st) = ch_generation st"
  "ch_requests (abort_current st) = ch_requests st"
  by (simp_all add: abort_current_def view_def split: option.split)

lemma onMessageUpdate_requests [simp]:
  "ch_generation (onMessageUpdate eager f st) = ch_generation st"
  "ch_requests (onMessageUpdate eager f st) = ch_requests st"
  by (simp_all add: onMessageUpdate_def Let_def)

lemma set_and_send_streaming:
  assumes "cfg_stream config"
  shows "ch_generation (set_and_send eager config pe nextMessages st) = ch_generation st + 1"
    and "ch_pending (set_and_send eager config pe nextMessages st) = no_chunks (ch_generation st + 1)"
    and "ch_timer (set_and_send eager config pe nextMessages st) = None"
    and "ch_requests (set_and_send eager config pe nextMessages st) =
      ch_requests st @ [(ch_generation st + 1, buildPlaygroundRequest nextMessages config pe)]"
    and "ch_requesting (set_and_send eager config pe nextMessages st)"
  using assms
  by (simp_all add: set_and_send_def sendChat_def sendStreamingChat_def Let_def discardPendingStreamUpdates_def)

lemma view_generation: "view (onMessageUpdate eager (\<lambda>_ _. ms) st\<lparr>ch_generation := g\<rparr>) = ms"
  by (simp add: view_def onMessageUpdate_def Let_def)

lemma view_cong: "ch_queue st = ch_queue st' \<Longrightarrow> ch_messages st = ch_messages st' \<Longrightarrow> ch_generation st = ch_generation st' \<Longrightarrow>
    view st = view st'"
  by (simp add: view_def)

lemma set_and_send_view:
  assumes "cfg_stream config"
  shows "view (set_and_send eager config pe nextMessages st) = nextMessages"
proof -
  let ?st = "onMessageUpdate eager (\<lambda>_ _. nextMessages) st"
  have "view (set_and_send eager config pe nextMessages st) = view (?st\<lparr>ch_generation := ch_generation st + 1\<rparr>)"
    using assms
    by (intro view_cong) (simp_all add: set_and_send_def sendChat_def sendStreamingChat_def Let_def
        discardPendingStreamUpdates_def abort_current_def split: option.split)
  then show ?thesis by (simp add: view_generation)
qed

text \<open>Every action that asks for an answer hands over a conversation that ends in an empty loading answer.\<close>

lemma send_answered:
  assumes "cfg_stream config" and "st' = set_and_send eager config pe (pre @ [createLoadingAssistantMessage nanoid k now]) st"
    and "g = ch_generation st + 1" and "unambiguous [] (content_chunks evs)"
  shows "\<exists>answer. ch_messages (render_messages (handleStreamComplete eagers clk g (chat_events g evs st'))) = pre @ [answer] \<and>
    getMessageContent answer = tt_visibleContent (parseThinkTags (concat (content_chunks evs))) \<and>
    msg_status answer = Some COMPLETE"
proof -
  let ?m = "createLoadingAssistantMessage nanoid k now"
  have m: "msg_from ?m = ASSISTANT" "isAssistantMessagePending ?m" "getMessageContent ?m = []"
    by (simp_all add: createLoadingAssistantMessage_def isAssistantMessagePending_def getMessageContent_def
        getCurrentVersion_def createMessageVersion_def)
  have "\<exists>m'. ch_messages (render_messages (handleStreamComplete eagers clk g (chat_events g evs st'))) = pre @ [m'] \<and>
    getMessageContent m' = tt_visibleContent (parseThinkTags (getMessageContent ?m @ concat (content_chunks evs))) \<and>
    msg_status m' = Some COMPLETE"
    by (rule stream_completes)
       (simp_all add: assms(2,3) set_and_send_streaming [OF assms(1)] set_and_send_view [OF assms(1)] m assms(4))
  then show ?thesis by (simp add: m(3))
qed



end
