(* ===== verification/Status_Codes.thy ===== *)
theory Status_Codes
  imports Json_Roundtrip "HOL-Library.Product_Lexorder" "HOL-Library.List_Lexorder" "HOL-Library.Char_ord"
begin

text \<open>
  Rules on HTTP status codes: \<open>lib/http-status-code-rules.ts\<close>, which reads and normalises lists
  of codes and ranges, and \<open>features/channels/lib/status-code-risk-guard.ts\<close>, which checks the
  mapping of status codes of a channel.

  Characters are code units below 256, so the full-width comma, which the source replaces by a
  comma, does not occur.
\<close>

section \<open>Lists of codes and ranges\<close>

record StatusCodeRange =
  scr_start :: int
  scr_end :: int

record ParsedHttpStatusCodeRules =
  phr_ok :: bool
  phr_ranges :: "StatusCodeRange list"
  phr_tokens :: "string list"
  phr_normalized :: string
  phr_invalidTokens :: "string list"

definition isNumber :: "string \<Rightarrow> bool" where
  "isNumber s \<longleftrightarrow> s \<noteq> [] \<and> list_all is_digit s"

definition isValidCode :: "int \<Rightarrow> bool" where
  "isValidCode code \<longleftrightarrow> code \<ge> 100 \<and> code \<le> 599"

text \<open>Of the parts between dashes the first two are read.\<close>

definition parseToken :: "string \<Rightarrow> StatusCodeRange option" where
  "parseToken token =
     (let cleaned = filter (\<lambda>c. \<not> js_ws c) (js_trim token) in
      if cleaned = [] then None
      else if CHR ''-'' \<in> set cleaned then
        (case js_split CHR ''-'' cleaned of
           a # b # _ \<Rightarrow>
             if \<not> isNumber a \<or> \<not> isNumber b then None
             else
               let start = digits_val a; end' = digits_val b
               in if \<not> isValidCode start \<or> \<not> isValidCode end' \<or> start > end' then None
                  else Some \<lparr>scr_start = start, scr_end = end'\<rparr>
         | _ \<Rightarrow> None)
      else if \<not> isNumber cleaned then None
      else
        let code = digits_val cleaned
        in if \<not> isValidCode code then None else Some \<lparr>scr_start = code, scr_end = code\<rparr>)"

definition merge_step :: "StatusCodeRange list \<Rightarrow> StatusCodeRange \<Rightarrow> StatusCodeRange list" where
  "merge_step merged current =
     (if merged = [] \<or> scr_start current > scr_end (last merged) + 1 then merged @ [current]
      else butlast merged @ [(last merged)\<lparr>scr_end := max (scr_end (last merged)) (scr_end current)\<rparr>])"

definition range_key :: "StatusCodeRange \<Rightarrow> int \<times> int" where
  "range_key r = (scr_start r, scr_end r)"

definition mergeRanges :: "StatusCodeRange list \<Rightarrow> StatusCodeRange list" where
  "mergeRanges ranges = foldl merge_step [] (sort_key range_key ranges)"

definition range_token :: "StatusCodeRange \<Rightarrow> string" where
  "range_token r =
     (if scr_start r = scr_end r then int_digits (scr_start r)
      else int_digits (scr_start r) @ ''-'' @ int_digits (scr_end r))"

definition raw_rules :: "json option \<Rightarrow> string" where
  \<comment> \<open>\<open>(input ?? '').toString().trim()\<close>\<close>
  "raw_rules inp = js_trim (case inp of None \<Rightarrow> [] | Some JNull \<Rightarrow> [] | Some j \<Rightarrow> js_String j)"

definition parseHttpStatusCodeRules :: "json option \<Rightarrow> ParsedHttpStatusCodeRules" where
  "parseHttpStatusCodeRules inp =
     (let raw = raw_rules inp in
      if length raw = 0
      then \<lparr>phr_ok = True, phr_ranges = [], phr_tokens = [], phr_normalized = [], phr_invalidTokens = []\<rparr>
      else
        let segments = js_segments CHR '','' raw;
            ranges = List.map_filter parseToken segments;
            invalidTokens = filter (\<lambda>segment. parseToken segment = None) segments
        in if length invalidTokens > 0
           then \<lparr>phr_ok = False, phr_ranges = [], phr_tokens = [], phr_normalized = raw,
                 phr_invalidTokens = invalidTokens\<rparr>
           else
             let merged = mergeRanges ranges;
                 tokens = map range_token merged
             in \<lparr>phr_ok = True, phr_ranges = merged, phr_tokens = tokens, phr_normalized = js_join '','' tokens,
                 phr_invalidTokens = []\<rparr>)"

section \<open>Mappings of status codes\<close>

definition NON_REDIRECTABLE_STATUS_CODES :: "int list" where
  "NON_REDIRECTABLE_STATUS_CODES = [504, 524]"

definition three_digit_code :: "string \<Rightarrow> bool" where
  \<comment> \<open>\<open>/^[1-5]\d{2}$/\<close>\<close>
  "three_digit_code s \<longleftrightarrow>
     (case s of [a, b, c] \<Rightarrow> a \<in> set ''12345'' \<and> is_digit b \<and> is_digit c | _ \<Rightarrow> False)"

definition parseStatusCodeKey :: "string \<Rightarrow> int option" where
  "parseStatusCodeKey rawKey =
     (let normalized = js_trim rawKey
      in if \<not> three_digit_code normalized then None else Some (digits_val normalized))"

definition parseStatusCodeMappingTarget :: "json \<Rightarrow> int option" where
  "parseStatusCodeMappingTarget rawValue =
     (case rawValue of
        JNum n \<Rightarrow> if n = of_int \<lfloor>n\<rfloor> then (if \<lfloor>n\<rfloor> \<ge> 100 \<and> \<lfloor>n\<rfloor> \<le> 599 then Some \<lfloor>n\<rfloor> else None) else None
      | JStr s \<Rightarrow>
          let normalized = js_trim s
          in if \<not> three_digit_code normalized then None
             else let code = digits_val normalized in if code \<ge> 100 \<and> code \<le> 599 then Some code else None
      | _ \<Rightarrow> None)"

text \<open>
  \<open>Object.entries\<close> gives the keys that are array indices first, in ascending order, and then
  the others in the order of the text.
\<close>

definition is_index_key :: "string \<Rightarrow> bool" where
  "is_index_key k \<longleftrightarrow> isNumber k \<and> (k = ''0'' \<or> hd k \<noteq> CHR ''0'') \<and> digits_val k < 4294967295"

definition object_entries :: "(string \<times> json) list \<Rightarrow> (string \<times> json) list" where
  "object_entries kvs = sort_key (\<lambda>kv. digits_val (fst kv)) (filter (\<lambda>kv. is_index_key (fst kv)) kvs) @
     filter (\<lambda>kv. \<not> is_index_key (fst kv)) kvs"

definition mapping_entries :: "string \<Rightarrow> (string \<times> json) list option" where
  "mapping_entries s =
     (if js_trim s = [] then None
      else case json_parse s of Some (JObj kvs) \<Rightarrow> Some (object_entries kvs) | _ \<Rightarrow> None)"

text \<open>
  An invalid entry is reported as key and value around an arrow outside the character range of
  the model; the entry itself stands for the text.
\<close>

definition collectInvalidStatusCodeEntries :: "string \<Rightarrow> (string \<times> json) list" where
  "collectInvalidStatusCodeEntries statusCodeMappingStr =
     (case mapping_entries statusCodeMappingStr of
        None \<Rightarrow> []
      | Some entries \<Rightarrow>
          filter (\<lambda>(rawKey, rawValue). parseStatusCodeKey rawKey = None \<or>
            parseStatusCodeMappingTarget rawValue = None) entries)"

definition risky_mapping :: "string \<times> json \<Rightarrow> string option" where
  "risky_mapping entry =
     (case (parseStatusCodeKey (fst entry), parseStatusCodeMappingTarget (snd entry)) of
        (Some fromCode, Some toCode) \<Rightarrow>
          if fromCode \<notin> set NON_REDIRECTABLE_STATUS_CODES then None
          else if fromCode = toCode then None
          else Some (int_digits fromCode @ '' -> '' @ int_digits toCode)
      | _ \<Rightarrow> None)"

definition collectDisallowedStatusCodeRedirects :: "string \<Rightarrow> string list" where
  "collectDisallowedStatusCodeRedirects statusCodeMappingStr =
     (case mapping_entries statusCodeMappingStr of
        None \<Rightarrow> []
      | Some entries \<Rightarrow> sort (remdups (List.map_filter risky_mapping entries)))"

definition collectNewDisallowedStatusCodeRedirects :: "string \<Rightarrow> string \<Rightarrow> string list" where
  "collectNewDisallowedStatusCodeRedirects originalStr currentStr =
     (let currentRisky = collectDisallowedStatusCodeRedirects currentStr in
      if length currentRisky = 0 then []
      else
        let originalRiskySet = set (collectDisallowedStatusCodeRedirects originalStr)
        in filter (\<lambda>mapping. mapping \<notin> originalRiskySet) currentRisky)"

section \<open>Merging\<close>

definition covered :: "StatusCodeRange list \<Rightarrow> int set" where
  "covered rs = (\<Union>r \<in> set rs. {scr_start r..scr_end r})"

lemma covered_simps [simp]: "covered [] = {}" "covered (r # rs) = {scr_start r..scr_end r} \<union> covered rs"
  by (simp_all add: covered_def)

text \<open>Ranges in ascending order with at least one code between them.\<close>

definition canonical :: "StatusCodeRange list \<Rightarrow> bool" where
  "canonical rs \<longleftrightarrow> (\<forall>r \<in> set rs. scr_start r \<le> scr_end r) \<and>
     sorted_wrt (\<lambda>r r'. scr_end r + 1 < scr_start r') rs"

lemma merge_step_covered:
  assumes "canonical merged" and "\<forall>r \<in> set merged. scr_start r \<le> scr_start c" and "scr_start c \<le> scr_end c"
  shows "covered (merge_step merged c) = covered merged \<union> {scr_start c..scr_end c}"
proof (cases "merged = [] \<or> scr_start c > scr_end (last merged) + 1")
  case True
  then show ?thesis by (auto simp: merge_step_def covered_def)
next
  case False
  then obtain ms l where m: "merged = ms @ [l]" by (metis rev_exhaust)
  have "scr_start l \<le> scr_start c" "scr_start c \<le> scr_end l + 1" using assms(2) False m by auto
  then have "{scr_start l..max (scr_end l) (scr_end c)} = {scr_start l..scr_end l} \<union> {scr_start c..scr_end c}"
    using assms(3) by auto
  moreover have "covered (merge_step merged c) = covered ms \<union> {scr_start l..max (scr_end l) (scr_end c)}"
    using False by (simp add: merge_step_def m covered_def Un_commute)
  ultimately show ?thesis by (auto simp: m covered_def)
qed

lemma merge_step_canonical:
  assumes "canonical merged" and "\<forall>r \<in> set merged. scr_start r \<le> scr_start c" and "scr_start c \<le> scr_end c"
  shows "canonical (merge_step merged c)"
proof (cases "merged = [] \<or> scr_start c > scr_end (last merged) + 1")
  case True
  have "scr_end r + 1 < scr_start c" if "r \<in> set merged" for r
  proof -
    have "merged \<noteq> []" using that by auto
    then obtain ms l where m: "merged = ms @ [l]" by (metis rev_exhaust)
    then show ?thesis using that True assms(1) by (auto simp: canonical_def sorted_wrt_append)
  qed
  then show ?thesis using True assms(1,3) by (auto simp: merge_step_def canonical_def sorted_wrt_append)
next
  case False
  then obtain ms l where m: "merged = ms @ [l]" by (metis rev_exhaust)
  then show ?thesis
    using False assms by (auto simp: merge_step_def canonical_def sorted_wrt_append)
qed

lemma merge_step_starts:
  "\<forall>r \<in> set merged. scr_start r \<le> scr_start c \<Longrightarrow> scr_start c \<le> x \<Longrightarrow>
     \<forall>r \<in> set (merge_step merged c). scr_start r \<le> x"
proof -
  assume a: "\<forall>r \<in> set merged. scr_start r \<le> scr_start c" "scr_start c \<le> x"
  have "scr_start r \<le> x" if "r \<in> set (merge_step merged c)" for r
  proof (cases "merged = []")
    case True
    then show ?thesis using that a by (simp add: merge_step_def)
  next
    case False
    then have "scr_start (last merged) \<le> x" using a last_in_set [OF False] by (meson order_trans)
    then show ?thesis using that a by (fastforce simp: merge_step_def split: if_splits dest: in_set_butlastD)
  qed
  then show ?thesis by blast
qed

lemma merge_fold:
  assumes "canonical merged" and "\<forall>r \<in> set merged. \<forall>c \<in> set cs. scr_start r \<le> scr_start c"
    and "sorted (map range_key cs)" and "\<forall>c \<in> set cs. scr_start c \<le> scr_end c"
  shows "canonical (foldl merge_step merged cs) \<and> covered (foldl merge_step merged cs) = covered merged \<union> covered cs"
  using assms
proof (induction cs arbitrary: merged)
  case Nil
  then show ?case by (simp add: covered_def)
next
  case (Cons c cs)
  have c: "\<forall>r \<in> set merged. scr_start r \<le> scr_start c" "scr_start c \<le> scr_end c" using Cons.prems by auto
  have le: "scr_start c \<le> scr_start d" if "d \<in> set cs" for d
    using Cons.prems(3) that by (auto simp: range_key_def less_eq_prod_def)
  have "canonical (merge_step merged c)" by (rule merge_step_canonical [OF Cons.prems(1) c])
  moreover have "\<forall>r \<in> set (merge_step merged c). \<forall>d \<in> set cs. scr_start r \<le> scr_start d"
    using merge_step_starts [OF c(1)] le by blast
  ultimately have "canonical (foldl merge_step (merge_step merged c) cs) \<and>
      covered (foldl merge_step (merge_step merged c) cs) = covered (merge_step merged c) \<union> covered cs"
    using Cons.IH Cons.prems(3,4) by simp
  then show ?case by (simp add: merge_step_covered [OF Cons.prems(1) c] Un_assoc)
qed

lemma mergeRanges_canonical:
  assumes "\<forall>r \<in> set rs. scr_start r \<le> scr_end r"
  shows "canonical (mergeRanges rs)" and "covered (mergeRanges rs) = covered rs"
proof -
  have "sorted (map range_key (sort_key range_key rs))" by simp
  from merge_fold [OF _ _ this, of "[]"] assms
  show "canonical (mergeRanges rs)" "covered (mergeRanges rs) = covered rs"
    by (simp_all add: mergeRanges_def canonical_def covered_def)
qed

text \<open>A set of codes has at most one canonical list of ranges.\<close>

lemma canonical_start:
  assumes "canonical (r # rs)"
  shows "scr_start r \<in> covered (r # rs)" and "x \<in> covered (r # rs) \<Longrightarrow> scr_start r \<le> x"
  using assms by (force simp: canonical_def covered_def)+

lemma canonical_end:
  assumes "canonical (r # rs)"
  shows "{scr_start r..scr_end r} \<subseteq> covered (r # rs)" and "scr_end r + 1 \<notin> covered (r # rs)"
    and "covered rs = covered (r # rs) - {scr_start r..scr_end r}"
  using assms by (force simp: canonical_def covered_def)+

lemma canonical_unique: "canonical rs \<Longrightarrow> canonical rs' \<Longrightarrow> covered rs = covered rs' \<Longrightarrow> rs = rs'"
proof (induction rs arbitrary: rs')
  case Nil
  then show ?case using canonical_start(1) [of "hd rs'" "tl rs'"] by (cases rs') (simp_all del: covered_simps(2))
next
  case (Cons r rs)
  obtain r' rs'' where rs': "rs' = r' # rs''"
    using canonical_start(1) [OF Cons.prems(1)] Cons.prems(3) by (cases rs') (simp_all del: covered_simps(2))
  note can = Cons.prems(1) Cons.prems(2) [unfolded rs'] and cov = Cons.prems(3) [unfolded rs']
  have start: "scr_start r = scr_start r'"
  proof (rule order_antisym)
    show "scr_start r \<le> scr_start r'"
      using canonical_start(2) [OF can(1)] canonical_start(1) [OF can(2)] unfolding cov .
    show "scr_start r' \<le> scr_start r"
      using canonical_start(2) [OF can(2)] canonical_start(1) [OF can(1)] unfolding cov .
  qed
  have le: "scr_start r \<le> scr_end r" "scr_start r' \<le> scr_end r'" using can by (simp_all add: canonical_def)
  have ne: "\<not> scr_end p < scr_end q"
    if "canonical (p # ps)" "canonical (q # qs)" "covered (p # ps) = covered (q # qs)" "scr_start p = scr_start q"
      "scr_start p \<le> scr_end p" for p q ps qs
  proof
    assume "scr_end p < scr_end q"
    then have "scr_end p + 1 \<in> {scr_start q..scr_end q}" using that(4,5) by simp
    then show False using canonical_end(1) [OF that(2)] canonical_end(2) [OF that(1)] that(3) by blast
  qed
  have "\<not> scr_end r < scr_end r'" by (rule ne [OF can cov start le(1)])
  moreover have "\<not> scr_end r' < scr_end r" by (rule ne [OF can(2,1) cov [symmetric] start [symmetric] le(2)])
  ultimately have "scr_end r = scr_end r'" by simp
  then have eq: "r = r'" using start by simp
  have "covered rs = covered rs''"
    unfolding canonical_end(3) [OF can(1)] canonical_end(3) [OF can(2)] cov unfolding eq ..
  moreover have "canonical rs" "canonical rs''" using can by (simp_all add: canonical_def)
  ultimately have "rs = rs''" using Cons.IH by blast
  then show ?case using eq rs' by simp
qed

text \<open>
  C14. Merging gives the normal form of a set of codes: the ranges are in order with at least
  one code between them, they cover the same codes, and two lists are merged to the same ranges
  exactly when they cover the same codes.
\<close>

theorem mergeRanges_normal_form:
  assumes "\<forall>r \<in> set rs \<union> set rs'. scr_start r \<le> scr_end r"
  shows "canonical (mergeRanges rs) \<and> covered (mergeRanges rs) = covered rs \<and>
    (mergeRanges rs = mergeRanges rs' \<longleftrightarrow> covered rs = covered rs')"
proof -
  have v: "\<forall>r \<in> set rs. scr_start r \<le> scr_end r" "\<forall>r \<in> set rs'. scr_start r \<le> scr_end r" using assms by auto
  note can = mergeRanges_canonical [OF v(1)] mergeRanges_canonical [OF v(2)]
  have "mergeRanges rs = mergeRanges rs'" if "covered rs = covered rs'"
    by (rule canonical_unique [OF can(1,3)]) (simp add: can that)
  moreover have "covered rs = covered rs'" if "mergeRanges rs = mergeRanges rs'" using can that by metis
  ultimately show ?thesis using can by blast
qed

theorem mergeRanges_normal_form_witness:
  "mergeRanges [\<lparr>scr_start = 500, scr_end = 503\<rparr>, \<lparr>scr_start = 401, scr_end = 401\<rparr>, \<lparr>scr_start = 504, scr_end = 599\<rparr>] =
   mergeRanges [\<lparr>scr_start = 401, scr_end = 401\<rparr>, \<lparr>scr_start = 500, scr_end = 599\<rparr>]"
proof -
  have "{500..503} \<union> {504..599} = {500..599 :: int}" by auto
  then have "covered [\<lparr>scr_start = 500, scr_end = 503\<rparr>, \<lparr>scr_start = 401, scr_end = 401\<rparr>, \<lparr>scr_start = 504, scr_end = 599\<rparr>] =
      covered [\<lparr>scr_start = 401, scr_end = 401\<rparr>, \<lparr>scr_start = 500, scr_end = 599\<rparr>]" by auto
  then show ?thesis
    using mergeRanges_normal_form [of "[\<lparr>scr_start = 500, scr_end = 503\<rparr>, \<lparr>scr_start = 401, scr_end = 401\<rparr>,
        \<lparr>scr_start = 504, scr_end = 599\<rparr>]" "[\<lparr>scr_start = 401, scr_end = 401\<rparr>, \<lparr>scr_start = 500, scr_end = 599\<rparr>]"]
    by simp
qed

section \<open>Printing and reading rules\<close>

definition valid_range :: "StatusCodeRange \<Rightarrow> bool" where
  "valid_range r \<longleftrightarrow> 100 \<le> scr_start r \<and> scr_start r \<le> scr_end r \<and> scr_end r \<le> 599"

lemma parseToken_valid: "parseToken s = Some r \<Longrightarrow> valid_range r"
  by (auto simp: parseToken_def valid_range_def isValidCode_def Let_def split: if_splits list.splits)

lemma digits_plain:
  assumes "0 \<le> n"
  shows "int_digits n \<noteq> []" "CHR ''-'' \<notin> set (int_digits n)" "CHR '','' \<notin> set (int_digits n)"
    "\<forall>c \<in> set (int_digits n). \<not> js_ws c" "isNumber (int_digits n)" "digits_val (int_digits n) = n"
proof -
  have d: "\<forall>c \<in> set (int_digits n). is_digit c" using int_digits_digits [OF assms] .
  show "int_digits n \<noteq> []" using int_digits_nonempty [OF assms] .
  have "\<not> is_digit CHR ''-''" "\<not> is_digit CHR '',''" by (simp_all add: is_digit_def)
  then show "CHR ''-'' \<notin> set (int_digits n)" "CHR '','' \<notin> set (int_digits n)" using d by blast+
  have "\<not> js_ws c" if "is_digit c" for c
    using that unfolding is_digit_def by (auto simp: js_ws_def)
  then show "\<forall>c \<in> set (int_digits n). \<not> js_ws c" using d by blast
  show "isNumber (int_digits n)" using d \<open>int_digits n \<noteq> []\<close> by (simp add: isNumber_def list_all_iff)
  show "digits_val (int_digits n) = n" using int_digits_val [OF assms] .
qed

lemma range_token_plain:
  assumes "valid_range r"
  shows "range_token r \<noteq> []" "CHR '','' \<notin> set (range_token r)" "\<forall>c \<in> set (range_token r). \<not> js_ws c"
proof -
  have "0 \<le> scr_start r" "0 \<le> scr_end r" using assms by (simp_all add: valid_range_def)
  note p = digits_plain [OF this(1)] digits_plain [OF this(2)]
  show "range_token r \<noteq> []" "CHR '','' \<notin> set (range_token r)" "\<forall>c \<in> set (range_token r). \<not> js_ws c"
    using p(1,3,4,7,9,10) by (simp_all add: range_token_def js_ws_def ball_Un)
qed

lemma no_ws_trim: "\<forall>c \<in> set s. \<not> js_ws c \<Longrightarrow> js_trim s = s \<and> filter (\<lambda>c. \<not> js_ws c) s = s"
proof -
  assume ws: "\<forall>c \<in> set s. \<not> js_ws c"
  have "dropWhile js_ws s = s" "dropWhile js_ws (rev s) = rev s"
    using ws by (metis dropWhile_eq_self_iff list.set_sel(1) set_rev)+
  then show ?thesis using ws by (simp add: js_trim_def)
qed

lemma parseToken_range_token:
  assumes "valid_range r" shows "parseToken (range_token r) = Some r"
proof -
  have n: "0 \<le> scr_start r" "0 \<le> scr_end r" "isValidCode (scr_start r)" "isValidCode (scr_end r)"
    "scr_start r \<le> scr_end r" using assms by (simp_all add: valid_range_def isValidCode_def)
  note p = digits_plain [OF n(1)] digits_plain [OF n(2)]
  have clean: "filter (\<lambda>c. \<not> js_ws c) (js_trim (range_token r)) = range_token r"
    using no_ws_trim [OF range_token_plain(3) [OF assms]] by simp
  show ?thesis
  proof (cases "scr_start r = scr_end r")
    case True
    then have "range_token r = int_digits (scr_start r)" by (simp add: range_token_def)
    then show ?thesis using p n True clean unfolding parseToken_def by (simp add: Let_def)
  next
    case False
    then have t: "range_token r = int_digits (scr_start r) @ CHR ''-'' # int_digits (scr_end r)"
      by (simp add: range_token_def)
    then have "js_split CHR ''-'' (range_token r) = [int_digits (scr_start r), int_digits (scr_end r)]"
      using p by (simp add: js_split_append js_split_none)
    then show ?thesis using p n clean unfolding parseToken_def by (simp add: Let_def t)
  qed
qed

lemma parse_tokens:
  assumes "\<forall>r \<in> set rs. valid_range r"
  shows "js_segments CHR '','' (js_join '','' (map range_token rs)) = map range_token rs"
    and "List.map_filter parseToken (map range_token rs) = rs"
    and "filter (\<lambda>s. parseToken s = None) (map range_token rs) = []"
proof -
  have "js_segments CHR '','' (range_token r) = [range_token r]" if "r \<in> set rs" for r
    using assms that by (intro js_segments_word range_token_plain) auto
  then have "concat (map (js_segments CHR '','') (map range_token rs)) = map range_token rs"
    by (induction rs) auto
  then show "js_segments CHR '','' (js_join '','' (map range_token rs)) = map range_token rs"
    unfolding js_segments_join .
  show "List.map_filter parseToken (map range_token rs) = rs"
    using assms by (induction rs) (simp_all add: parseToken_range_token)
  show "filter (\<lambda>s. parseToken s = None) (map range_token rs) = []"
    using assms by (induction rs) (simp_all add: parseToken_range_token)
qed

lemma canonical_valid:
  assumes "canonical rs" and "covered rs \<subseteq> {100..599}" and "r \<in> set rs"
  shows "valid_range r"
proof -
  have "scr_start r \<le> scr_end r" using assms(1,3) by (simp add: canonical_def)
  then have "scr_start r \<in> covered rs" "scr_end r \<in> covered rs" using assms(3) by (auto simp: covered_def)
  then show ?thesis using assms(2) \<open>scr_start r \<le> scr_end r\<close> by (auto simp: valid_range_def)
qed

lemma mergeRanges_valid:
  assumes "\<forall>r \<in> set rs. valid_range r"
  shows "\<forall>r \<in> set (mergeRanges rs). valid_range r" and "mergeRanges (mergeRanges rs) = mergeRanges rs"
proof -
  have le: "\<forall>r \<in> set rs. scr_start r \<le> scr_end r" using assms by (simp add: valid_range_def)
  note can = mergeRanges_canonical [OF le]
  have "covered rs \<subseteq> {100..599}" using assms by (force simp: covered_def valid_range_def)
  then show valid: "\<forall>r \<in> set (mergeRanges rs). valid_range r" using canonical_valid [OF can(1)] can(2) by simp
  then have "\<forall>r \<in> set (mergeRanges rs). scr_start r \<le> scr_end r" by (simp add: valid_range_def)
  from mergeRanges_canonical [OF this] show "mergeRanges (mergeRanges rs) = mergeRanges rs"
    by (intro canonical_unique can(1)) simp_all
qed

text \<open>
  C38. Normalising is idempotent: the normalised text of rules that are accepted is accepted,
  and reading it gives the same ranges, tokens and text; all codes are between 100 and 599.
\<close>

theorem parse_normalized_rules:
  assumes "phr_ok (parseHttpStatusCodeRules inp)"
  shows "parseHttpStatusCodeRules (Some (JStr (phr_normalized (parseHttpStatusCodeRules inp)))) =
      parseHttpStatusCodeRules inp \<and>
    covered (phr_ranges (parseHttpStatusCodeRules inp)) \<subseteq> {100..599}"
proof -
  obtain rs where valid: "\<forall>r \<in> set rs. valid_range r" and merged: "mergeRanges rs = rs"
    and res: "parseHttpStatusCodeRules inp = \<lparr>phr_ok = True, phr_ranges = rs, phr_tokens = map range_token rs,
      phr_normalized = js_join '','' (map range_token rs), phr_invalidTokens = []\<rparr>"
  proof (cases "raw_rules inp = []")
    case True
    then show ?thesis using that [of "[]"] by (simp add: parseHttpStatusCodeRules_def mergeRanges_def)
  next
    case False
    define segs where "segs = js_segments CHR '','' (raw_rules inp)"
    define rs where "rs = List.map_filter parseToken segs"
    have "\<forall>r \<in> set rs. valid_range r" by (auto simp: rs_def set_map_filter parseToken_valid)
    note v = mergeRanges_valid [OF this]
    have "filter (\<lambda>segment. parseToken segment = None) segs = []"
      using assms False
      by (simp add: parseHttpStatusCodeRules_def Let_def segs_def [symmetric] split: if_split_asm)
    then have "parseHttpStatusCodeRules inp = \<lparr>phr_ok = True, phr_ranges = mergeRanges rs,
        phr_tokens = map range_token (mergeRanges rs),
        phr_normalized = js_join '','' (map range_token (mergeRanges rs)), phr_invalidTokens = []\<rparr>"
      using False by (simp add: parseHttpStatusCodeRules_def Let_def segs_def [symmetric] rs_def [symmetric])
    then show ?thesis by (rule that [OF v])
  qed
  have comma: "\<not> js_ws CHR '',''" by (simp add: js_ws_def)
  have plain: "\<forall>c \<in> set (js_join '','' ts). \<not> js_ws c" if "\<forall>t \<in> set ts. \<forall>c \<in> set t. \<not> js_ws c" for ts
    using that comma by (induction ts) (simp_all add: js_join_Cons ball_Un)
  have trim: "js_trim (js_join '','' (map range_token rs)) = js_join '','' (map range_token rs)"
    using no_ws_trim [OF plain [of "map range_token rs"]] range_token_plain(3) valid by auto
  have "js_join '','' (map range_token rs) = [] \<longleftrightarrow> rs = []"
    using valid range_token_plain(1) by (cases rs) (auto simp: js_join_Cons)
  then have "parseHttpStatusCodeRules (Some (JStr (js_join '','' (map range_token rs)))) =
      \<lparr>phr_ok = True, phr_ranges = rs, phr_tokens = map range_token rs,
       phr_normalized = js_join '','' (map range_token rs), phr_invalidTokens = []\<rparr>"
    using parse_tokens [OF valid] merged trim by (simp add: parseHttpStatusCodeRules_def raw_rules_def Let_def)
  moreover have "covered rs \<subseteq> {100..599}" using valid by (force simp: covered_def valid_range_def)
  ultimately show ?thesis by (simp add: res)
qed

theorem parse_normalized_rules_witness:
  "parseHttpStatusCodeRules (Some (JStr (phr_normalized (parseHttpStatusCodeRules (Some (JStr '' 500-503, 401,504 '')))))) =
   parseHttpStatusCodeRules (Some (JStr '' 500-503, 401,504 ''))"
proof -
  have "phr_ok (parseHttpStatusCodeRules (Some (JStr '' 500-503, 401,504 '')))" by code_simp
  then show ?thesis using parse_normalized_rules by blast
qed

text \<open>What follows a second dash is ignored.\<close>

lemma parseToken_second_dash: "parseToken ''100-200-300'' = Some \<lparr>scr_start = 100, scr_end = 200\<rparr>"
  by code_simp

section \<open>The guard on mappings\<close>

lemma three_digit_code_range: "three_digit_code s \<Longrightarrow> 100 \<le> digits_val s \<and> digits_val s \<le> 599"
proof -
  assume "three_digit_code s"
  then obtain a b c where s: "s = [a, b, c]" "a \<in> set ''12345''" "is_digit b" "is_digit c"
    by (auto simp: three_digit_code_def split: list.splits)
  have "0 \<le> digit_val d \<and> digit_val d \<le> 9" if "is_digit d" for d
    using that by (auto simp: is_digit_def digit_val_def)
  from this [OF s(3)] this [OF s(4)] have "0 \<le> digit_val b" "digit_val b \<le> 9" "0 \<le> digit_val c" "digit_val c \<le> 9"
    by auto
  moreover have "1 \<le> digit_val a \<and> digit_val a \<le> 5" using s(2) by (auto simp: digit_val_def)
  ultimately show ?thesis by (simp add: s(1) digits_val_def)
qed

lemma new_redirects_none:
  "collectNewDisallowedStatusCodeRedirects originalStr currentStr = [] \<longleftrightarrow>
     set (collectDisallowedStatusCodeRedirects currentStr) \<subseteq> set (collectDisallowedStatusCodeRedirects originalStr)"
  by (auto simp: collectNewDisallowedStatusCodeRedirects_def Let_def filter_empty_conv)

lemma disallowed_redirects:
  "distinct (collectDisallowedStatusCodeRedirects s)" "sorted (collectDisallowedStatusCodeRedirects s)"
  by (simp_all add: collectDisallowedStatusCodeRedirects_def split: option.split)

end
