(* ===== verification/Url.thy ===== *)
theory Url
  imports Json
begin

text \<open>
  The class \<open>URL\<close> of the platform, for the schemes http and https: the parser and the
  serialisation of the WHATWG URL standard with its percent-encode sets, dot segments, ports
  and relative references. The source uses them in \<open>features/auth/lib/auth-redirect.ts\<close> and
  \<open>routes/guards.tsx\<close>.

  The host parser, which rests on the tables of Unicode, is a parameter; \<open>host_parser\<close>
  collects what the standard promises of it, and \<open>ascii_host\<close> is its restriction to plain
  ASCII domain names. The source rejects every other scheme, whether the text parses or not,
  so the parser stops at such a scheme with \<open>OtherScheme\<close>. User name and password of a URL
  occur in none of the properties the source reads and are dropped.
\<close>

section \<open>Characters\<close>

definition c0_space :: "char \<Rightarrow> bool" where
  "c0_space c \<longleftrightarrow> (of_char c :: nat) \<le> 32"

definition tab_newline :: "char \<Rightarrow> bool" where
  "tab_newline c \<longleftrightarrow> c \<in> {CHR 0x09, CHR 0x0A, CHR 0x0D}"

definition is_lower :: "char \<Rightarrow> bool" where
  "is_lower c \<longleftrightarrow> 97 \<le> (of_char c :: nat) \<and> (of_char c :: nat) \<le> 122"

definition is_upper :: "char \<Rightarrow> bool" where
  "is_upper c \<longleftrightarrow> 65 \<le> (of_char c :: nat) \<and> (of_char c :: nat) \<le> 90"

definition is_alpha :: "char \<Rightarrow> bool" where
  "is_alpha c \<longleftrightarrow> is_lower c \<or> is_upper c"

definition ascii_lower :: "char \<Rightarrow> char" where
  "ascii_lower c = (if is_upper c then char_of ((of_char c :: nat) + 32) else c)"

definition scheme_char :: "char \<Rightarrow> bool" where
  "scheme_char c \<longleftrightarrow> is_alpha c \<or> is_digit c \<or> c \<in> {CHR ''+'', CHR ''-'', CHR ''.''}"

definition is_slash :: "char \<Rightarrow> bool" where
  "is_slash c \<longleftrightarrow> c = CHR ''/'' \<or> c = CHR 0x5C"

section \<open>Percent encoding\<close>

definition utf8 :: "char \<Rightarrow> nat list" where
  "utf8 c = (let n = of_char c in if n < 128 then [n] else [192 + n div 64, 128 + n mod 64])"

definition upper_hex :: "nat \<Rightarrow> char" where
  "upper_hex d = ''0123456789ABCDEF'' ! d"

definition percent_byte :: "nat \<Rightarrow> string" where
  "percent_byte n = [CHR ''%'', upper_hex (n div 16), upper_hex (n mod 16)]"

definition percent_encode :: "(char \<Rightarrow> bool) \<Rightarrow> string \<Rightarrow> string" where
  "percent_encode P s = concat (map (\<lambda>c. if P c then concat (map percent_byte (utf8 c)) else [c]) s)"

definition c0_set :: "char \<Rightarrow> bool" where
  "c0_set c \<longleftrightarrow> (of_char c :: nat) < 32 \<or> 126 < (of_char c :: nat)"

definition fragment_set :: "char \<Rightarrow> bool" where
  "fragment_set c \<longleftrightarrow> c0_set c \<or> c \<in> {CHR 0x20, CHR 0x22, CHR ''<'', CHR ''>'', CHR 0x60}"

definition query_set :: "char \<Rightarrow> bool" where
  "query_set c \<longleftrightarrow> c0_set c \<or> c \<in> {CHR 0x20, CHR 0x22, CHR ''#'', CHR ''<'', CHR ''>''}"

definition special_query_set :: "char \<Rightarrow> bool" where
  "special_query_set c \<longleftrightarrow> query_set c \<or> c = CHR 0x27"

definition path_set :: "char \<Rightarrow> bool" where
  "path_set c \<longleftrightarrow> query_set c \<or> c \<in> {CHR ''?'', CHR 0x5E, CHR 0x60, CHR ''{'', CHR ''}''}"

section \<open>The parser\<close>

record Url =
  url_scheme :: string
  url_host :: string
  url_port :: "nat option"
  url_path :: "string list"
  url_query :: "string option"
  url_fragment :: "string option"

datatype UrlResult = Failure | OtherScheme string | Http Url

definition url_clean :: "string \<Rightarrow> string" where
  "url_clean s = filter (\<lambda>c. \<not> tab_newline c) (rev (dropWhile c0_space (rev (dropWhile c0_space s))))"

definition split_scheme :: "string \<Rightarrow> (string \<times> string) option" where
  "split_scheme s =
     (case (s, dropWhile scheme_char s) of
        (c # _, d # r) \<Rightarrow>
          if is_alpha c \<and> d = CHR '':'' then Some (map ascii_lower (takeWhile scheme_char s), r) else None
      | _ \<Rightarrow> None)"

definition cut :: "char \<Rightarrow> string \<Rightarrow> string \<times> string option" where
  "cut c s = (takeWhile (\<lambda>x. x \<noteq> c) s, case dropWhile (\<lambda>x. x \<noteq> c) s of [] \<Rightarrow> None | _ # t \<Rightarrow> Some t)"

fun split_slash :: "string \<Rightarrow> string list" where
  "split_slash [] = [[]]"
| "split_slash (c # s) =
     (if is_slash c then [] # split_slash s
      else (case split_slash s of [] \<Rightarrow> [[c]] | w # ws \<Rightarrow> (c # w) # ws))"

definition single_dot :: "string \<Rightarrow> bool" where
  "single_dot s \<longleftrightarrow> map ascii_lower s \<in> {''.'', ''%2e''}"

definition double_dot :: "string \<Rightarrow> bool" where
  "double_dot s \<longleftrightarrow> map ascii_lower s \<in> {''..'', ''.%2e'', ''%2e.'', ''%2e%2e''}"

text \<open>The path state, on the segments of the input; only the last one ends without a slash.\<close>

fun path_loop :: "string list \<Rightarrow> string list \<Rightarrow> string list" where
  "path_loop path [] = path"
| "path_loop path (s # ss) =
     (if double_dot s then path_loop (butlast path @ (if ss = [] then [[]] else [])) ss
      else if single_dot s then path_loop (path @ (if ss = [] then [[]] else [])) ss
      else path_loop (path @ [s]) ss)"

definition parse_path :: "string list \<Rightarrow> string \<Rightarrow> string list" where
  "parse_path path s = path_loop path (map (percent_encode path_set) (split_slash s))"

text \<open>Path, query and fragment after the authority or after the slash of a relative reference.\<close>

definition parse_tail :: "string \<Rightarrow> Url \<Rightarrow> Url" where
  "parse_tail s u =
     (case cut CHR ''#'' s of (front, f) \<Rightarrow>
        (case cut CHR ''?'' front of (p, q) \<Rightarrow>
           u\<lparr>url_path := parse_path [] p, url_query := map_option (percent_encode special_query_set) q,
             url_fragment := map_option (percent_encode fragment_set) f\<rparr>))"

definition drop_slash :: "string \<Rightarrow> string" where
  "drop_slash s = (case s of [] \<Rightarrow> [] | c # t \<Rightarrow> if is_slash c then t else s)"

fun split_port :: "bool \<Rightarrow> string \<Rightarrow> string \<times> string option" where
  "split_port inside [] = ([], None)"
| "split_port inside (c # s) =
     (if c = CHR '':'' \<and> \<not> inside then ([], Some s)
      else (case split_port (if c = CHR ''['' then True else if c = CHR '']'' then False else inside) s of
              (h, p) \<Rightarrow> (c # h, p)))"

definition default_port :: "string \<Rightarrow> nat" where
  "default_port scheme = (if scheme = ''https'' then 443 else 80)"

text \<open>The port of an authority; \<open>None\<close> is a failure.\<close>

definition parse_port :: "string \<Rightarrow> string option \<Rightarrow> nat option option" where
  "parse_port scheme p =
     (case p of
        None \<Rightarrow> Some None
      | Some ds \<Rightarrow>
          if list_ex (\<lambda>c. \<not> is_digit c) ds \<or> 65535 < digits_val ds then None
          else if ds = [] \<or> nat (digits_val ds) = default_port scheme then Some None
          else Some (Some (nat (digits_val ds))))"

definition authority_end :: "char \<Rightarrow> bool" where
  "authority_end c \<longleftrightarrow> is_slash c \<or> c = CHR ''?'' \<or> c = CHR ''#''"

definition after_credentials :: "string \<Rightarrow> string" where
  "after_credentials a = rev (takeWhile (\<lambda>c. c \<noteq> CHR ''@'') (rev a))"

definition parse_authority :: "(string \<Rightarrow> string option) \<Rightarrow> string \<Rightarrow> string \<Rightarrow> UrlResult" where
  "parse_authority hp scheme s =
     (case split_port False (after_credentials (takeWhile (\<lambda>c. \<not> authority_end c) s)) of (h, p) \<Rightarrow>
        if h = [] then Failure
        else (case (hp h, parse_port scheme p) of
            (Some host, Some port) \<Rightarrow>
              Http (parse_tail (drop_slash (dropWhile (\<lambda>c. \<not> authority_end c) s))
                \<lparr>url_scheme = scheme, url_host = host, url_port = port, url_path = [], url_query = None,
                 url_fragment = None\<rparr>)
          | _ \<Rightarrow> Failure))"

text \<open>A relative reference without a leading slash keeps the directory of the base.\<close>

definition parse_relative_path :: "Url \<Rightarrow> string \<Rightarrow> Url" where
  "parse_relative_path b s =
     (case cut CHR ''#'' s of (front, f) \<Rightarrow>
        (case cut CHR ''?'' front of (p, q) \<Rightarrow>
           b\<lparr>url_path := (if p = [] then url_path b else parse_path (butlast (url_path b)) p),
             url_query := (if p = [] \<and> q = None then url_query b else map_option (percent_encode special_query_set) q),
             url_fragment := map_option (percent_encode fragment_set) f\<rparr>))"

definition parse_relative :: "(string \<Rightarrow> string option) \<Rightarrow> Url \<Rightarrow> string \<Rightarrow> UrlResult" where
  "parse_relative hp b s =
     (case s of
        c # t \<Rightarrow>
          if is_slash c then
            (if t \<noteq> [] \<and> is_slash (hd t) then parse_authority hp (url_scheme b) (dropWhile is_slash t)
             else Http (parse_tail t b))
          else Http (parse_relative_path b s)
      | [] \<Rightarrow> Http (parse_relative_path b s))"

definition parse_url :: "(string \<Rightarrow> string option) \<Rightarrow> Url option \<Rightarrow> string \<Rightarrow> UrlResult" where
  "parse_url hp base input =
     (let s = url_clean input in
      case split_scheme s of
        Some (scheme, r) \<Rightarrow>
          if scheme \<noteq> ''http'' \<and> scheme \<noteq> ''https'' then OtherScheme scheme
          else (case base of
              Some b \<Rightarrow> if url_scheme b = scheme \<and> \<not> prefix ''//'' r then parse_relative hp b r
                else parse_authority hp scheme (dropWhile is_slash r)
            | None \<Rightarrow> parse_authority hp scheme (dropWhile is_slash r))
      | None \<Rightarrow> (case base of None \<Rightarrow> Failure | Some b \<Rightarrow> parse_relative hp b s))"

text \<open>
  \<open>new URL(input, base)\<close>. A reference that is relative to a base of another scheme takes that
  scheme, if it parses at all.
\<close>

definition new_URL :: "(string \<Rightarrow> string option) \<Rightarrow> string \<Rightarrow> string option \<Rightarrow> UrlResult" where
  "new_URL hp input base =
     (case base of
        None \<Rightarrow> parse_url hp None input
      | Some b \<Rightarrow>
          (case parse_url hp None b of
             Http u \<Rightarrow> parse_url hp (Some u) input
           | Failure \<Rightarrow> Failure
           | OtherScheme scheme \<Rightarrow>
               (case split_scheme (url_clean input) of
                  Some _ \<Rightarrow> parse_url hp None input
                | None \<Rightarrow> OtherScheme scheme)))"

section \<open>The properties of a URL\<close>

definition url_protocol :: "Url \<Rightarrow> string" where
  "url_protocol u = url_scheme u @ '':''"

definition url_origin :: "Url \<Rightarrow> string" where
  "url_origin u = url_scheme u @ ''://'' @ url_host u @
     (case url_port u of None \<Rightarrow> [] | Some n \<Rightarrow> CHR '':'' # int_digits (int n))"

definition url_pathname :: "Url \<Rightarrow> string" where
  "url_pathname u = concat (map (\<lambda>s. CHR ''/'' # s) (url_path u))"

definition with_mark :: "char \<Rightarrow> string option \<Rightarrow> string" where
  "with_mark c x = (case x of None \<Rightarrow> [] | Some s \<Rightarrow> c # s)"

definition nonempty_part :: "string option \<Rightarrow> string option" where
  "nonempty_part x = (if x = Some [] then None else x)"

definition url_search :: "Url \<Rightarrow> string" where
  "url_search u = with_mark CHR ''?'' (nonempty_part (url_query u))"

definition url_hash :: "Url \<Rightarrow> string" where
  "url_hash u = with_mark CHR ''#'' (nonempty_part (url_fragment u))"

definition url_href :: "Url \<Rightarrow> string" where
  "url_href u = url_origin u @ url_pathname u @ with_mark CHR ''?'' (url_query u) @
     with_mark CHR ''#'' (url_fragment u)"

definition ascii_host :: "string \<Rightarrow> string option" where
  \<comment> \<open>ASCII domain names whose last label begins with a letter and that hold no Punycode.\<close>
  "ascii_host h =
     (let l = map ascii_lower h in
      if l \<noteq> [] \<and> list_all (\<lambda>c. is_lower c \<or> is_digit c \<or> c = CHR ''-'' \<or> c = CHR ''.'') l \<and>
         is_alpha (hd (last (js_split CHR ''.'' l) @ ''0'')) \<and> \<not> js_includes l ''xn--''
      then Some l else None)"

end
