(* ===== verification/Url_Proofs.thy ===== *)
theory Url_Proofs
  imports Url Json_Roundtrip
begin

text \<open>
  What the parser of \<open>Url\<close> guarantees: every URL it returns is in normal form, and a URL in
  normal form is read back from its serialisation, as a whole from \<open>url_href\<close> and relative to
  a base from path, search and hash.
\<close>

section \<open>Percent encoding\<close>

definition encoded_char :: "char \<Rightarrow> bool" where
  "encoded_char c \<longleftrightarrow> c \<in> set ''%0123456789ABCDEF''"

lemma upper_hex_encoded: "d < 16 \<Longrightarrow> encoded_char (upper_hex d)"
proof -
  assume "d < 16"
  then have "upper_hex d \<in> set ''0123456789ABCDEF''" unfolding upper_hex_def by (intro nth_mem) simp
  then show ?thesis by (auto simp: encoded_char_def)
qed

lemma utf8_bytes: "n \<in> set (utf8 c) \<Longrightarrow> n < 256"
proof -
  have "(of_char c :: nat) div 64 < 4" using less_mult_imp_div_less [of "of_char c" 4 64] by simp
  then show "n \<in> set (utf8 c) \<Longrightarrow> n < 256" by (auto simp: utf8_def Let_def split: if_splits)
qed

lemma percent_byte_encoded: "n < 256 \<Longrightarrow> c \<in> set (percent_byte n) \<Longrightarrow> encoded_char c"
  using upper_hex_encoded [of "n div 16"] upper_hex_encoded [of "n mod 16"]
  by (auto simp: percent_byte_def encoded_char_def [of "CHR ''%''"])

lemma percent_encode_chars:
  "c \<in> set (percent_encode P s) \<Longrightarrow> encoded_char c \<or> (c \<in> set s \<and> \<not> P c)"
  by (auto simp: percent_encode_def split: if_splits dest!: utf8_bytes dest: percent_byte_encoded)

lemma percent_encode_id: "\<forall>c \<in> set s. \<not> P c \<Longrightarrow> percent_encode P s = s"
  by (induction s) (auto simp: percent_encode_def)

lemma encoded_char_plain:
  assumes "encoded_char c"
  shows "\<not> path_set c" "\<not> special_query_set c" "\<not> fragment_set c" "\<not> is_slash c"
  using assms
  by (auto simp: encoded_char_def path_set_def special_query_set_def fragment_set_def query_set_def c0_set_def
      is_slash_def)

text \<open>A character that a part of a URL holds is neither white space nor a control character.\<close>

definition visible :: "char \<Rightarrow> bool" where
  "visible c \<longleftrightarrow> 32 < (of_char c :: nat) \<and> (of_char c :: nat) < 127"

lemma c0_space_char: "c0_set c \<or> c = CHR 0x20 \<or> visible c"
proof -
  have "char_of (32 :: nat) = CHR 0x20" by code_simp
  then have "of_char c = (32 :: nat) \<Longrightarrow> c = CHR 0x20" by (metis char_of_char)
  then show ?thesis by (cases "of_char c = (32 :: nat)") (simp, auto simp: c0_set_def visible_def)
qed

lemma visible_char:
  "\<not> path_set c \<Longrightarrow> visible c" "\<not> special_query_set c \<Longrightarrow> visible c" "\<not> fragment_set c \<Longrightarrow> visible c"
  using c0_space_char [of c] by (auto simp: path_set_def special_query_set_def query_set_def fragment_set_def)

lemma visible_clean: "\<forall>c \<in> set s. visible c \<Longrightarrow> url_clean s = s"
proof -
  assume s: "\<forall>c \<in> set s. visible c"
  have "\<not> c0_space c" "\<not> tab_newline c" if "visible c" for c
    using that by (auto simp: visible_def c0_space_def tab_newline_def)
  then have "\<forall>c \<in> set s. \<not> c0_space c \<and> \<not> tab_newline c" using s by blast
  then have "\<forall>c \<in> set s. \<not> c0_space c" "\<forall>c \<in> set s. \<not> tab_newline c" by blast+
  moreover from this(1) have "dropWhile c0_space s = s" "dropWhile c0_space (rev s) = rev s"
    by (metis dropWhile_eq_self_iff list.set_sel(1) set_rev)+
  ultimately show "url_clean s = s" by (simp add: url_clean_def)
qed

section \<open>Paths\<close>

definition seg_ok :: "string \<Rightarrow> bool" where
  "seg_ok s \<longleftrightarrow> (\<forall>c \<in> set s. \<not> is_slash c \<and> \<not> path_set c) \<and> \<not> single_dot s \<and> \<not> double_dot s"

definition path_ok :: "string list \<Rightarrow> bool" where
  "path_ok path \<longleftrightarrow> path \<noteq> [] \<and> (\<forall>s \<in> set path. seg_ok s)"

lemma seg_ok_Nil: "seg_ok []"
  by (simp add: seg_ok_def single_dot_def double_dot_def)

lemma split_slash_nonempty [simp]: "split_slash s \<noteq> []"
  by (cases s) (auto split: list.split)

lemma split_slash_chars: "\<forall>w \<in> set (split_slash s). \<forall>c \<in> set w. \<not> is_slash c"
proof (induction s)
  case (Cons x s)
  then show ?case by (cases "split_slash s") (auto split: if_splits)
qed simp

lemma split_slash_join:
  assumes "\<forall>c \<in> set s. \<not> is_slash c" and "\<forall>x \<in> set xs. \<forall>c \<in> set x. \<not> is_slash c"
  shows "split_slash (s @ concat (map (\<lambda>x. CHR ''/'' # x) xs)) = s # xs"
  using assms
proof (induction xs arbitrary: s)
  case Nil
  then show ?case by (induction s) auto
next
  case (Cons x xs)
  have slash: "is_slash CHR ''/''" by (simp add: is_slash_def)
  from Cons.prems(1) show ?case
  proof (induction s)
    case Nil
    then show ?case using Cons.IH [of x] Cons.prems(2) slash by simp
  next
    case (Cons c s)
    then show ?case by simp
  qed
qed

lemma path_loop_ok:
  assumes "\<forall>s \<in> set path. seg_ok s" and "\<forall>s \<in> set ss. \<forall>c \<in> set s. \<not> is_slash c \<and> \<not> path_set c"
  shows "\<forall>s \<in> set (path_loop path ss). seg_ok s"
  using assms
proof (induction ss arbitrary: path)
  case (Cons s ss)
  have IH: "\<forall>x \<in> set (path_loop p ss). seg_ok x" if "\<forall>x \<in> set p. seg_ok x" for p
    using Cons.IH [OF that] Cons.prems(2) by simp
  have path: "\<forall>x \<in> set (butlast path). seg_ok x" using Cons.prems(1) by (blast dest: in_set_butlastD)
  show ?case
  proof (cases "double_dot s")
    case True
    have "\<forall>x \<in> set (butlast path @ (if ss = [] then [[]] else [])). seg_ok x" using path by (auto simp: seg_ok_Nil)
    from IH [OF this] show ?thesis using True by (simp only: path_loop.simps if_True)
  next
    case double: False
    show ?thesis
    proof (cases "single_dot s")
      case True
      have "\<forall>x \<in> set (path @ (if ss = [] then [[]] else [])). seg_ok x" using Cons.prems(1) by (auto simp: seg_ok_Nil)
      from IH [OF this] show ?thesis using double True by (simp only: path_loop.simps if_True if_False)
    next
      case False
      have "\<forall>x \<in> set (path @ [s]). seg_ok x" using Cons.prems double False by (simp add: seg_ok_def)
      from IH [OF this] show ?thesis using double False by (simp only: path_loop.simps if_False)
    qed
  qed
qed simp

lemma path_loop_nonempty: "ss \<noteq> [] \<Longrightarrow> path_loop path ss \<noteq> []"
proof (induction ss arbitrary: path)
  case (Cons s ss)
  then show ?case by (cases ss) auto
qed simp

lemma path_loop_id: "\<forall>s \<in> set ss. seg_ok s \<Longrightarrow> path_loop path ss = path @ ss"
  by (induction ss arbitrary: path) (simp_all add: seg_ok_def)

lemma parse_path_ok:
  assumes "\<forall>s \<in> set path. seg_ok s"
  shows "path_ok (parse_path path s)"
proof -
  have "\<forall>w \<in> set (map (percent_encode path_set) (split_slash s)). \<forall>c \<in> set w. \<not> is_slash c \<and> \<not> path_set c"
    using split_slash_chars [of s] by (auto dest!: percent_encode_chars dest: encoded_char_plain)
  moreover have "map (percent_encode path_set) (split_slash s) \<noteq> []" by simp
  ultimately show ?thesis
    unfolding path_ok_def parse_path_def by (intro conjI path_loop_nonempty path_loop_ok [OF assms])
qed

lemma parse_path_join:
  assumes "path_ok (s # ss)"
  shows "parse_path [] (s @ concat (map (\<lambda>x. CHR ''/'' # x) ss)) = s # ss"
proof -
  have ok: "\<forall>x \<in> set (s # ss). seg_ok x" using assms by (simp add: path_ok_def)
  then have split: "split_slash (s @ concat (map (\<lambda>x. CHR ''/'' # x) ss)) = s # ss"
    by (intro split_slash_join) (auto simp: seg_ok_def)
  have "map (percent_encode path_set) (s # ss) = s # ss"
    using ok by (intro map_idI percent_encode_id) (auto simp: seg_ok_def)
  then show ?thesis using path_loop_id [OF ok, of "[]"] unfolding parse_path_def split by simp
qed

section \<open>The contract of the host parser\<close>

text \<open>
  What the standard says of the host parser followed by the host serialiser: the result is not
  empty, holds none of the characters that end an authority, has colons only between
  brackets, and is read back as itself.
\<close>

definition host_char :: "char \<Rightarrow> bool" where
  "host_char c \<longleftrightarrow> visible c \<and> \<not> authority_end c \<and> c \<noteq> CHR ''@''"

definition host_text :: "string \<Rightarrow> bool" where
  "host_text h \<longleftrightarrow> h \<noteq> [] \<and> (\<forall>c \<in> set h. host_char c) \<and>
     (CHR '':'' \<notin> set h \<and> CHR ''['' \<notin> set h \<or>
      (\<exists>v. h = CHR ''['' # v @ '']'' \<and> CHR ''['' \<notin> set v \<and> CHR '']'' \<notin> set v))"

definition port_ok :: "string \<Rightarrow> nat option \<Rightarrow> bool" where
  "port_ok scheme port = (case port of None \<Rightarrow> True | Some n \<Rightarrow> n \<le> 65535 \<and> n \<noteq> default_port scheme)"

definition wf_url :: "(string \<Rightarrow> string option) \<Rightarrow> Url \<Rightarrow> bool" where
  "wf_url hp u \<longleftrightarrow> url_scheme u \<in> {''http'', ''https''} \<and> hp (url_host u) = Some (url_host u) \<and>
     port_ok (url_scheme u) (url_port u) \<and>
     path_ok (url_path u) \<and>
     (\<forall>q. url_query u = Some q \<longrightarrow> (\<forall>c \<in> set q. \<not> special_query_set c)) \<and>
     (\<forall>f. url_fragment u = Some f \<longrightarrow> (\<forall>c \<in> set f. \<not> fragment_set c))"

section \<open>Path, query and fragment\<close>

lemma cut_mark: "c \<notin> set s \<Longrightarrow> cut c (s @ with_mark c x) = (s, x)"
proof -
  assume "c \<notin> set s"
  then have "takeWhile (\<lambda>y. y \<noteq> c) (s @ with_mark c x) = s"
      "dropWhile (\<lambda>y. y \<noteq> c) (s @ with_mark c x) = with_mark c x"
    by (induction s) (auto simp: with_mark_def split: option.split)
  then show ?thesis by (auto simp: cut_def with_mark_def split: option.split)
qed

text \<open>The text of a path without its first slash.\<close>

definition path_text :: "string list \<Rightarrow> string" where
  "path_text path = hd path @ concat (map (\<lambda>x. CHR ''/'' # x) (tl path))"

lemma pathname_text: "path_ok (url_path u) \<Longrightarrow> url_pathname u = CHR ''/'' # path_text (url_path u)"
  by (cases "url_path u") (simp_all add: path_ok_def url_pathname_def path_text_def)

lemma path_text_chars:
  assumes "path_ok path" and "c \<in> set (path_text path)"
  shows "c = CHR ''/'' \<or> \<not> path_set c \<and> \<not> is_slash c"
  using assms by (cases path) (auto simp: path_ok_def path_text_def seg_ok_def split: if_splits)

lemma parse_tail_text:
  assumes "path_ok path" and "\<forall>s. q = Some s \<longrightarrow> (\<forall>c \<in> set s. \<not> special_query_set c)"
    and "\<forall>s. f = Some s \<longrightarrow> (\<forall>c \<in> set s. \<not> fragment_set c)"
  shows "parse_tail (path_text path @ with_mark CHR ''?'' q @ with_mark CHR ''#'' f) u =
    u\<lparr>url_path := path, url_query := q, url_fragment := f\<rparr>"
proof -
  have marks: "path_set CHR ''?''" "path_set CHR ''#''" "special_query_set CHR ''#''"
    by (simp_all add: path_set_def query_set_def special_query_set_def)
  then have "CHR ''#'' \<notin> set (path_text path @ with_mark CHR ''?'' q)"
    using path_text_chars [OF assms(1), of "CHR ''#''"] assms(2) by (auto simp: with_mark_def split: option.splits)
  then have front: "cut CHR ''#'' (path_text path @ with_mark CHR ''?'' q @ with_mark CHR ''#'' f) =
      (path_text path @ with_mark CHR ''?'' q, f)"
    using cut_mark [of "CHR ''#''" "path_text path @ with_mark CHR ''?'' q" f] by simp
  have "CHR ''?'' \<notin> set (path_text path)"
    using path_text_chars [OF assms(1), of "CHR ''?''"] marks by auto
  then have inner: "cut CHR ''?'' (path_text path @ with_mark CHR ''?'' q) = (path_text path, q)"
    by (rule cut_mark)
  have "parse_path [] (path_text path) = path"
    using assms(1) parse_path_join [of "hd path" "tl path"] by (cases path) (simp_all add: path_text_def path_ok_def)
  moreover have "map_option (percent_encode special_query_set) q = q"
      "map_option (percent_encode fragment_set) f = f"
    using assms(2,3) by (cases q; cases f; simp add: percent_encode_id)+
  ultimately show ?thesis by (simp add: parse_tail_def front inner)
qed

lemma encoded_query: "c \<in> set (percent_encode special_query_set s) \<Longrightarrow> \<not> special_query_set c"
  by (auto dest!: percent_encode_chars dest: encoded_char_plain)

lemma encoded_fragment: "c \<in> set (percent_encode fragment_set s) \<Longrightarrow> \<not> fragment_set c"
  by (auto dest!: percent_encode_chars dest: encoded_char_plain)

text \<open>What the parts of a base leave open is filled in normal form.\<close>

definition wf_site :: "(string \<Rightarrow> string option) \<Rightarrow> Url \<Rightarrow> bool" where
  "wf_site hp u \<longleftrightarrow> wf_url hp (u\<lparr>url_path := [[]], url_query := None, url_fragment := None\<rparr>)"

lemma wf_site: "wf_url hp u \<Longrightarrow> wf_site hp u"
  by (simp add: wf_site_def wf_url_def path_ok_def seg_ok_Nil)

lemma parse_tail_wf: "wf_site hp u \<Longrightarrow> wf_url hp (parse_tail s u)"
  by (auto simp: parse_tail_def wf_site_def wf_url_def parse_path_ok encoded_query encoded_fragment split: prod.split)

lemma parse_relative_path_wf: "wf_url hp b \<Longrightarrow> wf_url hp (parse_relative_path b s)"
proof -
  assume b: "wf_url hp b"
  then have "\<forall>x \<in> set (butlast (url_path b)). seg_ok x" by (auto simp: wf_url_def path_ok_def dest: in_set_butlastD)
  then have "path_ok (parse_path (butlast (url_path b)) p)" for p by (rule parse_path_ok)
  with b show ?thesis
    by (auto simp: parse_relative_path_def wf_url_def encoded_query encoded_fragment split: prod.split)
qed

section \<open>Authorities\<close>

definition port_text :: "nat option \<Rightarrow> string" where
  "port_text port = with_mark CHR '':'' (map_option (\<lambda>n. int_digits (int n)) port)"

lemma split_port_plain:
  "CHR '':'' \<notin> set h \<Longrightarrow> CHR ''['' \<notin> set h \<Longrightarrow> split_port False (h @ with_mark CHR '':'' x) = (h, x)"
  by (induction h) (auto simp: with_mark_def split: option.split)

lemma split_port_inside:
  "CHR '']'' \<notin> set v \<Longrightarrow> split_port True (v @ CHR '']'' # s) = (case split_port False s of (h, p) \<Rightarrow> (v @ CHR '']'' # h, p))"
  by (induction v) (auto split: prod.split)

lemma split_port_text:
  assumes "host_text h"
  shows "split_port False (h @ with_mark CHR '':'' x) = (h, x)"
proof (cases "CHR '':'' \<notin> set h \<and> CHR ''['' \<notin> set h")
  case True
  then show ?thesis by (simp add: split_port_plain)
next
  case False
  with assms obtain v where h: "h = CHR ''['' # v @ '']''" and v: "CHR '']'' \<notin> set v" by (auto simp: host_text_def)
  have "split_port True (v @ CHR '']'' # with_mark CHR '':'' x) = (v @ '']'', x)"
    using split_port_inside [OF v] split_port_plain [of "[]" x] by simp
  then show ?thesis by (simp add: h)
qed

lemma parse_port_text: "port_ok scheme port \<Longrightarrow> parse_port scheme (map_option (\<lambda>n. int_digits (int n)) port) = Some port"
proof (cases port)
  case (Some n)
  assume "port_ok scheme port"
  then have "n \<le> 65535" "n \<noteq> default_port scheme" by (simp_all add: Some port_ok_def)
  moreover have "int_digits (int n) \<noteq> []" "\<not> list_ex (\<lambda>c. \<not> is_digit c) (int_digits (int n))"
    using int_digits_ok [of "int n"] by (auto simp: list_ex_iff)
  ultimately show ?thesis using int_digits_val [of "int n"] by (simp add: Some parse_port_def)
qed (simp add: parse_port_def)

lemma parse_port_ok: "parse_port scheme p = Some port \<Longrightarrow> port_ok scheme port"
  by (auto simp: parse_port_def port_ok_def split: option.splits if_splits)

lemma port_text_chars: "c \<in> set (port_text port) \<Longrightarrow> c = CHR '':'' \<or> is_digit c"
  using int_digits_ok [of "int (the port)"] by (auto simp: port_text_def with_mark_def split: option.splits)

lemma digit_host_char: "is_digit c \<Longrightarrow> host_char c" "host_char CHR '':''"
  by (auto simp: is_digit_def host_char_def visible_def authority_end_def is_slash_def)

lemma parse_authority_text:
  assumes h: "host_text h" and port: "port_ok scheme port" and hp: "hp h = Some h"
    and rest: "rest = [] \<or> authority_end (hd rest)"
  shows "parse_authority hp scheme (h @ port_text port @ rest) = Http (parse_tail (drop_slash rest)
    \<lparr>url_scheme = scheme, url_host = h, url_port = port, url_path = [], url_query = None, url_fragment = None\<rparr>)"
proof -
  define a where "a = h @ port_text port"
  have chars: "\<forall>c \<in> set a. host_char c"
    using h port_text_chars digit_host_char by (auto simp: a_def host_text_def)
  then have "\<forall>c \<in> set a. \<not> authority_end c" by (simp add: host_char_def)
  then have cut: "takeWhile (\<lambda>c. \<not> authority_end c) (a @ rest) = a" "dropWhile (\<lambda>c. \<not> authority_end c) (a @ rest) = rest"
    using rest by (cases rest; simp add: takeWhile_append dropWhile_append3)+
  have "takeWhile (\<lambda>c. c \<noteq> CHR ''@'') (rev a) = rev a" using chars by (auto simp: takeWhile_eq_all_conv host_char_def)
  then have "after_credentials a = a" unfolding after_credentials_def by (simp only: rev_rev_ident)
  moreover have "split_port False a = (h, map_option (\<lambda>n. int_digits (int n)) port)"
    unfolding a_def port_text_def by (rule split_port_text [OF h])
  moreover have "h \<noteq> []" using h by (simp add: host_text_def)
  ultimately have "parse_authority hp scheme (a @ rest) = Http (parse_tail (drop_slash rest)
      \<lparr>url_scheme = scheme, url_host = h, url_port = port, url_path = [], url_query = None, url_fragment = None\<rparr>)"
    by (simp add: parse_authority_def cut parse_port_text [OF port] hp)
  then show ?thesis by (simp add: a_def)
qed

section \<open>Reading back\<close>

lemma scheme_split:
  assumes "scheme \<in> {''http'', ''https''}"
  shows "split_scheme (scheme @ CHR '':'' # r) = Some (scheme, r)"
  using assms by (auto simp: split_scheme_def scheme_char_def is_alpha_def is_lower_def is_upper_def is_digit_def
      ascii_lower_def)

lemma url_origin_text: "url_origin u = url_scheme u @ ''://'' @ url_host u @ port_text (url_port u)"
  by (simp add: url_origin_def port_text_def with_mark_def split: option.split)

lemma wf_parts:
  assumes "wf_url hp u"
  shows "q = url_query u \<or> q = None \<Longrightarrow> \<forall>s. q = Some s \<longrightarrow> (\<forall>c \<in> set s. \<not> special_query_set c)"
    and "f = url_fragment u \<or> f = None \<Longrightarrow> \<forall>s. f = Some s \<longrightarrow> (\<forall>c \<in> set s. \<not> fragment_set c)"
  using assms unfolding wf_url_def by (elim disjE; simp)+

locale host_parser =
  fixes hp :: "string \<Rightarrow> string option"
  assumes host_text: "hp h = Some h' \<Longrightarrow> host_text h'"
    and host_idem: "hp h = Some h' \<Longrightarrow> hp h' = Some h'"
begin

lemma authority_wf:
  assumes scheme: "scheme \<in> {''http'', ''https''}" and parsed: "parse_authority hp scheme s = Http u"
  shows "wf_url hp u"
proof -
  from parsed obtain host port h p t where "hp h = Some host" "parse_port scheme p = Some port"
    and u: "u = parse_tail t \<lparr>url_scheme = scheme, url_host = host, url_port = port, url_path = [], url_query = None,
      url_fragment = None\<rparr>"
    by (auto simp: parse_authority_def split: prod.splits if_splits option.splits)
  then have "wf_site hp \<lparr>url_scheme = scheme, url_host = host, url_port = port, url_path = [], url_query = None,
      url_fragment = None\<rparr>"
    using scheme by (simp add: wf_site_def wf_url_def path_ok_def seg_ok_Nil host_idem parse_port_ok)
  then show ?thesis unfolding u by (rule parse_tail_wf)
qed

lemma relative_wf:
  assumes b: "wf_url hp b" and parsed: "parse_relative hp b s = Http u"
  shows "wf_url hp u"
proof -
  have "url_scheme b \<in> {''http'', ''https''}" using b by (simp add: wf_url_def)
  note auth = authority_wf [OF this]
  have "wf_url hp (parse_tail t b)" "wf_url hp (parse_relative_path b t)" for t
    by (rule parse_tail_wf [OF wf_site [OF b]], rule parse_relative_path_wf [OF b])
  with parsed auth show ?thesis by (auto simp: parse_relative_def split: list.splits if_splits)
qed

lemma url_wf:
  assumes parsed: "parse_url hp base s = Http u" and base: "\<And>b. base = Some b \<Longrightarrow> wf_url hp b"
  shows "wf_url hp u"
proof (cases "split_scheme (url_clean s)")
  case None
  with parsed show ?thesis by (auto simp: parse_url_def split: option.splits intro: relative_wf [OF base])
next
  case (Some x)
  obtain scheme r where x: "x = (scheme, r)" by (cases x)
  with parsed Some have scheme: "scheme \<in> {''http'', ''https''}" by (auto simp: parse_url_def split: if_splits)
  show ?thesis
  proof (cases "\<exists>b. base = Some b \<and> url_scheme b = scheme \<and> \<not> prefix ''//'' r")
    case True
    then obtain b where "base = Some b" "parse_relative hp b r = Http u"
      using parsed Some x scheme by (auto simp: parse_url_def split: if_splits)
    then show ?thesis using relative_wf [OF base] by blast
  next
    case False
    then have "parse_authority hp scheme (dropWhile is_slash r) = Http u"
      using parsed Some x scheme by (auto simp: parse_url_def split: option.splits if_splits)
    then show ?thesis by (rule authority_wf [OF scheme])
  qed
qed

lemma site_text:
  assumes u: "wf_url hp u" and rest: "rest = [] \<or> rest = CHR ''/'' # t" and clean: "\<forall>c \<in> set rest. visible c"
  shows "parse_url hp None (url_origin u @ rest) = Http (parse_tail (drop_slash rest) u)"
proof -
  have host: "host_text (url_host u)" and hp: "hp (url_host u) = Some (url_host u)"
    using u host_text [of "url_host u"] by (simp_all add: wf_url_def)
  have scheme: "url_scheme u \<in> {''http'', ''https''}" and port: "port_ok (url_scheme u) (url_port u)"
    using u by (simp_all add: wf_url_def)
  define a where "a = url_host u @ port_text (url_port u) @ rest"
  have "\<forall>c \<in> set (port_text (url_port u)). host_char c" using port_text_chars digit_host_char by blast
  then have "\<forall>c \<in> set a. visible c" using host clean by (auto simp: a_def host_text_def host_char_def)
  moreover have "\<forall>c \<in> set (url_scheme u @ ''://''). visible c" using scheme by (auto simp: visible_def)
  ultimately have vis: "\<forall>c \<in> set (url_origin u @ rest). visible c" by (auto simp: url_origin_text a_def)
  have "\<not> is_slash (hd a)" using host by (cases "url_host u") (auto simp: a_def host_text_def host_char_def authority_end_def)
  moreover have slash: "is_slash CHR ''/''" by (simp add: is_slash_def)
  ultimately have drop: "dropWhile is_slash (CHR ''/'' # CHR ''/'' # a) = a" by (simp add: dropWhile_eq_self_iff)
  have "authority_end CHR ''/''" by (simp add: authority_end_def is_slash_def)
  then have "rest = [] \<or> authority_end (hd rest)" using rest by auto
  from parse_authority_text [where hp = hp, OF host port hp this]
  have "parse_authority hp (url_scheme u) a = Http (parse_tail (drop_slash rest) \<lparr>url_scheme = url_scheme u,
      url_host = url_host u, url_port = url_port u, url_path = [], url_query = None, url_fragment = None\<rparr>)"
    unfolding a_def .
  moreover have "parse_tail (drop_slash rest) \<lparr>url_scheme = url_scheme u, url_host = url_host u,
      url_port = url_port u, url_path = [], url_query = None, url_fragment = None\<rparr> = parse_tail (drop_slash rest) u"
    by (simp add: parse_tail_def split: prod.split)
  moreover have "url_origin u @ rest = url_scheme u @ CHR '':'' # CHR ''/'' # CHR ''/'' # a"
    by (simp add: url_origin_text a_def)
  ultimately show ?thesis
    unfolding parse_url_def Let_def visible_clean [OF vis] using scheme drop by (simp add: scheme_split [OF scheme])
qed

lemma origin_read: "wf_url hp u \<Longrightarrow>
  parse_url hp None (url_origin u) = Http (u\<lparr>url_path := [[]], url_query := None, url_fragment := None\<rparr>)"
  using site_text [of u "[]"] parse_tail_text [of "[[]]" None None u]
  by (simp add: drop_slash_def path_ok_def seg_ok_Nil path_text_def with_mark_def)

lemma reference_visible:
  assumes u: "wf_url hp u"
    and q: "q = url_query u \<or> q = None" and f: "f = url_fragment u \<or> f = None"
  shows "\<forall>c \<in> set (url_pathname u @ with_mark CHR ''?'' q @ with_mark CHR ''#'' f). visible c"
proof -
  have "visible c" if "c \<in> set (path_text (url_path u))" for c
    using path_text_chars [of "url_path u" c] that u visible_char [of c] by (auto simp: wf_url_def visible_def)
  moreover have "visible c" if "q = Some s" "c \<in> set s" for s c
    using that wf_parts(1) [OF u q] visible_char(2) by blast
  moreover have "visible c" if "f = Some s" "c \<in> set s" for s c
    using that wf_parts(2) [OF u f] visible_char(3) by blast
  moreover have "visible CHR ''/''" "visible CHR ''?''" "visible CHR ''#''" by (simp_all add: visible_def)
  ultimately show ?thesis using u pathname_text [of u] by (auto simp: wf_url_def with_mark_def split: option.splits)
qed

lemma href_read:
  assumes u: "wf_url hp u"
  shows "parse_url hp None (url_href u) = Http u"
proof -
  define rest where "rest = url_pathname u @ with_mark CHR ''?'' (url_query u) @ with_mark CHR ''#'' (url_fragment u)"
  have ok: "path_ok (url_path u)" using u by (simp add: wf_url_def)
  have rest: "rest = CHR ''/'' # path_text (url_path u) @ with_mark CHR ''?'' (url_query u) @ with_mark CHR ''#'' (url_fragment u)"
    using pathname_text [OF ok] by (simp add: rest_def)
  have "\<forall>c \<in> set rest. visible c" unfolding rest_def by (rule reference_visible [OF u]) simp_all
  with rest have "parse_url hp None (url_origin u @ rest) = Http (parse_tail (drop_slash rest) u)"
    by (intro site_text [OF u]) blast+
  moreover have "parse_tail (drop_slash rest) u = u"
    using parse_tail_text [OF ok, of "url_query u" "url_fragment u" u] u by (simp add: rest drop_slash_def is_slash_def wf_url_def)
  ultimately show ?thesis by (simp add: url_href_def rest_def)
qed

text \<open>Path, search and hash are read back relative to a base unless the path begins with two slashes.\<close>

lemma reference_read:
  assumes u: "wf_url hp u" and b: "wf_url hp b" and single: "\<not> prefix ''//'' (url_pathname u)"
    and q: "q = url_query u \<or> q = None" and f: "f = url_fragment u \<or> f = None"
  shows "parse_url hp (Some b) (url_pathname u @ with_mark CHR ''?'' q @ with_mark CHR ''#'' f) =
    Http (b\<lparr>url_path := url_path u, url_query := q, url_fragment := f\<rparr>)"
proof -
  define t where "t = path_text (url_path u) @ with_mark CHR ''?'' q @ with_mark CHR ''#'' f"
  have ok: "path_ok (url_path u)" using u by (simp add: wf_url_def)
  have whole: "url_pathname u @ with_mark CHR ''?'' q @ with_mark CHR ''#'' f = CHR ''/'' # t"
    using pathname_text [OF ok] by (simp add: t_def)
  have clean: "url_clean (CHR ''/'' # t) = CHR ''/'' # t"
    using reference_visible [OF u q f] unfolding whole by (rule visible_clean)
  have "\<not> is_slash (hd t)" if "t \<noteq> []"
  proof (cases "path_text (url_path u)")
    case Nil
    then show ?thesis using that by (auto simp: t_def with_mark_def is_slash_def split: option.splits)
  next
    case (Cons c cs)
    have "c \<noteq> CHR ''/''" using single pathname_text [OF ok] by (simp add: Cons)
    then have "\<not> is_slash c" using path_text_chars [OF ok, of c] by (simp add: Cons)
    then show ?thesis by (simp add: t_def Cons)
  qed
  then have "parse_relative hp b (CHR ''/'' # t) = Http (parse_tail t b)" by (auto simp: parse_relative_def is_slash_def)
  moreover have "parse_tail t b = b\<lparr>url_path := url_path u, url_query := q, url_fragment := f\<rparr>"
    unfolding t_def by (rule parse_tail_text [OF ok wf_parts [OF u]]) (rule q, rule f)
  moreover have "split_scheme (CHR ''/'' # t) = None"
    by (simp add: split_scheme_def is_alpha_def is_lower_def is_upper_def split: list.split)
  ultimately show ?thesis unfolding whole by (simp add: parse_url_def clean)
qed

end

section \<open>ASCII domain names\<close>

lemma ascii_lower_lower: "is_lower c \<or> is_digit c \<or> c = CHR ''-'' \<or> c = CHR ''.'' \<Longrightarrow> ascii_lower c = c"
  by (auto simp: ascii_lower_def is_lower_def is_upper_def is_digit_def)

lemma ascii_host_chars: "is_lower c \<or> is_digit c \<or> c = CHR ''-'' \<or> c = CHR ''.'' \<Longrightarrow>
  host_char c \<and> c \<noteq> CHR '':'' \<and> c \<noteq> CHR ''[''"
  by (auto simp: is_lower_def is_digit_def host_char_def visible_def authority_end_def is_slash_def)

interpretation ascii: host_parser ascii_host
proof
  fix h h'
  assume "ascii_host h = Some h'"
  then have h': "h' = map ascii_lower h" and ne: "h' \<noteq> []"
    and chars: "\<forall>c \<in> set h'. is_lower c \<or> is_digit c \<or> c = CHR ''-'' \<or> c = CHR ''.''"
    and tail: "is_alpha (hd (last (js_split CHR ''.'' h') @ ''0''))" "\<not> js_includes h' ''xn--''"
    by (auto simp: ascii_host_def Let_def list_all_iff split: if_splits)
  show "host_text h'" using ne chars ascii_host_chars unfolding host_text_def by blast
  have "map ascii_lower h' = h'" using chars ascii_lower_lower by (simp add: map_idI)
  then show "ascii_host h' = Some h'" using ne chars tail by (auto simp: ascii_host_def Let_def list_all_iff)
qed

end
