(* ===== verification/Search_Params.thy ===== *)
theory Search_Params
  imports Url_Proofs
begin

text \<open>
  Search strings: \<open>URLSearchParams\<close> and \<open>encodeURIComponent\<close> of the platform, and the
  functions of \<open>lib/router.tsx\<close> that read a search string as a record, write a record as a
  search string, fill the parameters of a path and resolve the target of a navigation.

  A decoded text with a code point above 255, or one that is not UTF-8, has no \<open>string\<close>;
  decoding gives \<open>None\<close> for it. A record is the list of its entries in insertion order; its
  keys are no array indices, which JavaScript would move to the front.
\<close>

section \<open>Decoding\<close>

fun percent_decode :: "string \<Rightarrow> nat list" where
  "percent_decode [] = []"
| "percent_decode (c # s) =
     (if c = CHR ''%'' then
        (case s of
           a # b # t \<Rightarrow>
             (case (hex_val a, hex_val b) of
                (Some x, Some y) \<Rightarrow> (16 * x + y) # percent_decode t
              | _ \<Rightarrow> 37 # percent_decode s)
         | _ \<Rightarrow> 37 # percent_decode s)
      else utf8 c @ percent_decode s)"

fun utf8_decode :: "nat list \<Rightarrow> string option" where
  "utf8_decode [] = Some []"
| "utf8_decode (n # bs) =
     (if n < 128 then map_option ((#) (char_of n)) (utf8_decode bs)
      else (case bs of
              m # t \<Rightarrow>
                if (n = 194 \<or> n = 195) \<and> 128 \<le> m \<and> m < 192
                then map_option ((#) (char_of (64 * (n - 192) + (m - 128)))) (utf8_decode t) else None
            | [] \<Rightarrow> None))"

definition plus_to_space :: "string \<Rightarrow> string" where
  "plus_to_space s = map (\<lambda>c. if c = CHR ''+'' then CHR 0x20 else c) s"

definition form_decode :: "string \<Rightarrow> string option" where
  "form_decode s = utf8_decode (percent_decode (plus_to_space s))"

section \<open>Encoding\<close>

definition is_alnum :: "char \<Rightarrow> bool" where
  "is_alnum c \<longleftrightarrow> is_alpha c \<or> is_digit c"

definition component_set :: "char \<Rightarrow> bool" where
  "component_set c \<longleftrightarrow> \<not> is_alnum c \<and> c \<notin> set (''-_.!~*()'' @ [CHR 0x27])"

definition encodeURIComponent :: "string \<Rightarrow> string" where
  "encodeURIComponent s = percent_encode component_set s"

definition form_set :: "char \<Rightarrow> bool" where
  "form_set c \<longleftrightarrow> \<not> is_alnum c \<and> c \<notin> set ''*-._''"

definition form_encode :: "string \<Rightarrow> string" where
  "form_encode s = concat (map (\<lambda>c. if c = CHR 0x20 then ''+'' else percent_encode form_set [c]) s)"

section \<open>URLSearchParams\<close>

text \<open>The constructor drops one leading question mark.\<close>

definition drop_question :: "string \<Rightarrow> string" where
  "drop_question s = (if prefix ''?'' s then tl s else s)"

definition parse_pair :: "string \<Rightarrow> (string \<times> string) option" where
  "parse_pair s =
     (case cut CHR ''='' s of (k, v) \<Rightarrow>
        (case (form_decode k, form_decode (opt_str v)) of
           (Some k', Some v') \<Rightarrow> Some (k', v')
         | _ \<Rightarrow> None))"

definition params_parse :: "string \<Rightarrow> (string \<times> string) list option" where
  "params_parse s = those (map parse_pair (filter (\<lambda>x. x \<noteq> []) (js_split CHR ''&'' (drop_question s))))"

definition params_get :: "string \<Rightarrow> (string \<times> string) list \<Rightarrow> string option" where
  "params_get k ps = map_of ps k"

definition params_toString :: "(string \<times> string) list \<Rightarrow> string" where
  "params_toString ps = js_join ''&'' (map (\<lambda>(k, v). form_encode k @ ''='' @ form_encode v) ps)"

section \<open>Search records\<close>

text \<open>The pattern of an optional minus sign, digits and an optional fraction, and its number.\<close>

definition plain_number :: "string \<Rightarrow> jsnum option" where
  "plain_number raw =
     (let (neg, s) = (case raw of c # t \<Rightarrow> if c = CHR ''-'' then (True, t) else (False, raw) | [] \<Rightarrow> (False, []));
          ip = takeWhile is_digit s; rest = dropWhile is_digit s;
          sign = (if neg then - 1 else 1)
      in if ip = [] then None
         else (case rest of
             [] \<Rightarrow> Some (sign * of_int (digits_val ip))
           | d # fp \<Rightarrow>
               if d = CHR ''.'' \<and> fp \<noteq> [] \<and> list_all is_digit fp
               then Some (sign * of_int (digits_val (ip @ fp)) / 10 ^ length fp) else None))"

definition decodeSearchValue :: "string \<Rightarrow> json" where
  "decodeSearchValue raw =
     (if raw = ''true'' then JBool True
      else if raw = ''false'' then JBool False
      else if raw = [] then JStr []
      else if prefix ''['' raw \<and> suffix '']'' raw \<or> prefix ''{'' raw \<and> suffix ''}'' raw
      then (case json_parse raw of Some v \<Rightarrow> v | None \<Rightarrow> JStr raw)
      else (case plain_number raw of Some n \<Rightarrow> JNum n | None \<Rightarrow> JStr raw))"

text \<open>
  The body of \<open>params.forEach\<close>. A key that every object inherits would put a value that is no
  JSON into the record; this is \<open>Inl IllTyped\<close>.
\<close>

definition add_search_value :: "string \<Rightarrow> json \<Rightarrow> (string \<times> json) list \<Rightarrow> js_error + (string \<times> json) list" where
  "add_search_value key v result =
     (if key \<in> set inherited_names then Inl IllTyped
      else Inr (case map_of result key of
          None \<Rightarrow> result @ [(key, v)]
        | Some (JArr xs) \<Rightarrow> AList.update key (JArr (xs @ [v])) result
        | Some current \<Rightarrow> AList.update key (JArr [current, v]) result))"

fun add_search_values ::
  "(string \<times> string) list \<Rightarrow> (string \<times> json) list \<Rightarrow> js_error + (string \<times> json) list" where
  "add_search_values [] result = Inr result"
| "add_search_values ((key, raw) # ps) result =
     (case add_search_value key (decodeSearchValue raw) result of
        Inl e \<Rightarrow> Inl e
      | Inr result' \<Rightarrow> add_search_values ps result')"

definition parseSearchString :: "string \<Rightarrow> js_error + (string \<times> json) list" where
  "parseSearchString search =
     (case params_parse (if prefix ''?'' search then tl search else search) of
        None \<Rightarrow> Inl IllTyped
      | Some ps \<Rightarrow> add_search_values ps [])"

definition search_value_text :: "json \<Rightarrow> string" where
  "search_value_text v = (case v of JArr _ \<Rightarrow> json_stringify v | JObj _ \<Rightarrow> json_stringify v | _ \<Rightarrow> js_String v)"

fun serialize_entries :: "(string \<times> json option) list \<Rightarrow> (string \<times> string) list \<Rightarrow> (string \<times> string) list" where
  "serialize_entries [] params = params"
| "serialize_entries ((key, x) # kvs) params =
     (case x of
        None \<Rightarrow> serialize_entries kvs params
      | Some JNull \<Rightarrow> serialize_entries kvs params
      | Some v \<Rightarrow> serialize_entries kvs (AList.update key (search_value_text v) params))"

definition serializeSearch :: "(string \<times> json option) list option \<Rightarrow> string" where
  "serializeSearch search =
     (case search of
        None \<Rightarrow> []
      | Some kvs \<Rightarrow>
          let encoded = params_toString (serialize_entries kvs [])
          in if encoded \<noteq> [] then CHR ''?'' # encoded else [])"

section \<open>Targets of a navigation\<close>

definition is_word_char :: "char \<Rightarrow> bool" where
  "is_word_char c \<longleftrightarrow> is_alnum c \<or> c = CHR ''_''"

text \<open>The path with every \<open>$name\<close> replaced; a name without a value becomes empty.\<close>

function interpolatePath :: "string \<Rightarrow> (string \<Rightarrow> json option) \<Rightarrow> string" where
  "interpolatePath [] params = []"
| "interpolatePath (c # s) params =
     (if c = CHR ''$'' \<and> takeWhile is_word_char s \<noteq> [] then
        (case params (takeWhile is_word_char s) of
           None \<Rightarrow> []
         | Some JNull \<Rightarrow> []
         | Some v \<Rightarrow> js_String v) @ interpolatePath (dropWhile is_word_char s) params
      else c # interpolatePath s params)"
  by pat_completeness auto
termination
  by (relation "measure (\<lambda>(s, params). length s)") (auto simp: length_dropWhile_le_self less_Suc_eq_le)

datatype SearchOption =
    NoSearch
  | KeepSearch
  | SearchRecord "(string \<times> json option) list"
  | SearchUpdate "(string \<times> json) list \<Rightarrow> (string \<times> json option) list"

record NavigateOptions =
  nav_to :: "string option"
  nav_href :: "string option"
  nav_params :: "string \<Rightarrow> json option"
  nav_search :: SearchOption
  nav_hash :: "string option"

definition drop_hash :: "string \<Rightarrow> string" where
  "drop_hash s = (if prefix ''#'' s then tl s else s)"

definition search_of_options :: "NavigateOptions \<Rightarrow> string \<Rightarrow> js_error + string" where
  "search_of_options options currentSearch =
     (case nav_search options of
        KeepSearch \<Rightarrow> Inr currentSearch
      | SearchUpdate f \<Rightarrow>
          (case parseSearchString currentSearch of
             Inl e \<Rightarrow> Inl e
           | Inr prev \<Rightarrow> Inr (serializeSearch (Some (f prev))))
      | SearchRecord r \<Rightarrow> Inr (serializeSearch (Some r))
      | NoSearch \<Rightarrow> Inr (if opt_str (nav_to options) \<noteq> [] then [] else currentSearch))"

text \<open>A target with the scheme blob, whose origin is that of the URL inside it, is not followed.\<close>

definition resolveNavigateTarget ::
  "(string \<Rightarrow> string option) \<Rightarrow> string \<Rightarrow> NavigateOptions \<Rightarrow> string \<Rightarrow> string \<Rightarrow> js_error + string" where
  "resolveNavigateTarget hp origin options currentSearch currentPathname =
     (if opt_str (nav_href options) \<noteq> [] then
        (let href = opt_str (nav_href options) in
         Inr (case new_URL hp href (Some origin) of
             Http url \<Rightarrow>
               if url_origin url = origin then url_pathname url @ url_search url @ url_hash url else href
           | _ \<Rightarrow> href))
      else
        (case search_of_options options currentSearch of
           Inl e \<Rightarrow> Inl e
         | Inr search \<Rightarrow>
             Inr (interpolatePath (nullish (nav_to options) currentPathname) (nav_params options) @ search @
               (if opt_str (nav_hash options) \<noteq> [] then ''#'' @ drop_hash (opt_str (nav_hash options)) else []))))"

section \<open>Decoding inverts encoding\<close>

lemma hex_val_upper_hex: "d < 16 \<Longrightarrow> hex_val (upper_hex d) = Some d"
proof -
  have "\<forall>d \<in> set [0..<16]. hex_val (upper_hex d) = Some d" by code_simp
  then show "d < 16 \<Longrightarrow> hex_val (upper_hex d) = Some d" by simp
qed

lemma percent_decode_byte: "n < 256 \<Longrightarrow> percent_decode (percent_byte n @ s) = n # percent_decode s"
proof -
  assume "n < 256"
  then have "n div 16 < 16" "n mod 16 < 16" by (simp_all add: less_mult_imp_div_less)
  then show ?thesis by (simp add: percent_byte_def hex_val_upper_hex)
qed

lemma percent_decode_bytes:
  "\<forall>n \<in> set bs. n < 256 \<Longrightarrow> percent_decode (concat (map percent_byte bs) @ s) = bs @ percent_decode s"
  by (induction bs) (simp_all add: percent_decode_byte)

lemma percent_decode_char: "percent_decode (concat (map percent_byte (utf8 c)) @ s) = utf8 c @ percent_decode s"
  by (rule percent_decode_bytes) (simp add: utf8_bytes)

lemma percent_decode_encode:
  "P CHR ''%'' \<Longrightarrow> percent_decode (percent_encode P s @ t) = concat (map utf8 s) @ percent_decode t"
  by (induction s) (auto simp: percent_encode_def percent_decode_char)

lemma utf8_decode_char: "utf8_decode (utf8 c @ bs) = map_option ((#) c) (utf8_decode bs)"
proof (cases "(of_char c :: nat) < 128")
  case True
  then show ?thesis by (simp add: utf8_def Let_def)
next
  case False
  define n where "n = (of_char c :: nat)"
  have n: "128 \<le> n" "n < 256" "char_of n = c" using False by (simp_all add: n_def)
  have "n div 64 = 2 \<or> n div 64 = 3" using n(1,2) by linarith
  moreover have "64 * (n div 64) + n mod 64 = n" by simp
  ultimately show ?thesis using n(3) False
    by (auto simp: utf8_def Let_def simp flip: n_def)
qed

lemma utf8_decode_encode: "utf8_decode (concat (map utf8 s)) = Some s"
  by (induction s) (simp_all add: utf8_decode_char)

lemma no_plus: "CHR ''+'' \<notin> set s \<Longrightarrow> plus_to_space s = s"
  by (induction s) (auto simp: plus_to_space_def)

lemma encoded_alnum: "encoded_char c \<Longrightarrow> c = CHR ''%'' \<or> is_alnum c"
proof -
  have "\<forall>c \<in> set ''%0123456789ABCDEF''. c = CHR ''%'' \<or> is_alnum c" by code_simp
  then show "encoded_char c \<Longrightarrow> c = CHR ''%'' \<or> is_alnum c" unfolding encoded_char_def by blast
qed

lemma component_chars: "c \<in> set (encodeURIComponent s) \<Longrightarrow> c = CHR ''%'' \<or> \<not> component_set c"
  using percent_encode_chars [of c component_set s] encoded_alnum [of c]
  unfolding encodeURIComponent_def component_set_def by blast

lemma component_specials:
  "component_set CHR ''%''" "component_set CHR ''+''" "component_set CHR ''&''" "component_set CHR ''=''"
  "component_set CHR ''#''"
  by code_simp+

lemma component_plain:
  "CHR ''+'' \<notin> set (encodeURIComponent s)" "CHR ''&'' \<notin> set (encodeURIComponent s)"
  "CHR ''='' \<notin> set (encodeURIComponent s)" "CHR ''#'' \<notin> set (encodeURIComponent s)"
  using component_chars [of _ s] component_specials by fastforce+

lemma form_decode_component: "form_decode (encodeURIComponent s) = Some s"
proof -
  have "percent_decode (encodeURIComponent s) = concat (map utf8 s)"
    using percent_decode_encode [of component_set s "[]"] component_specials(1) by (simp add: encodeURIComponent_def)
  then show ?thesis using no_plus [OF component_plain(1)] by (simp add: form_decode_def utf8_decode_encode)
qed

lemma plus_to_space_append: "plus_to_space (s @ t) = plus_to_space s @ plus_to_space t"
  by (simp add: plus_to_space_def)

lemma plus_to_space_bytes: "plus_to_space (concat (map percent_byte (utf8 c))) = concat (map percent_byte (utf8 c))"
proof (rule no_plus)
  show "CHR ''+'' \<notin> set (concat (map percent_byte (utf8 c)))"
    by (auto dest!: percent_byte_encoded [rotated] simp: utf8_bytes encoded_char_def)
qed

lemma form_decode_encode: "form_decode (form_encode s) = Some s"
proof -
  have "percent_decode (plus_to_space (form_encode s)) = concat (map utf8 s)"
  proof (induction s)
    case (Cons c s)
    have special: "form_set CHR ''%''" "form_set CHR ''+''" "utf8 CHR 0x20 = [32]"
      by code_simp+
    consider "c = CHR 0x20" | "c \<noteq> CHR 0x20" "form_set c" | "c \<noteq> CHR 0x20" "\<not> form_set c" by blast
    then show ?case
    proof cases
      case 1
      have "plus_to_space (form_encode (c # s)) = CHR 0x20 # plus_to_space (form_encode s)"
        by (simp add: 1 form_encode_def plus_to_space_def)
      then show ?thesis by (simp add: Cons 1 special)
    next
      case 2
      have "plus_to_space (form_encode (c # s)) = concat (map percent_byte (utf8 c)) @ plus_to_space (form_encode s)"
        using 2 plus_to_space_bytes [of c] by (simp add: form_encode_def percent_encode_def plus_to_space_append)
      then show ?thesis by (simp add: Cons percent_decode_char)
    next
      case 3
      then have "c \<noteq> CHR ''%''" "c \<noteq> CHR ''+''" using special by auto
      moreover from this have "plus_to_space (form_encode (c # s)) = c # plus_to_space (form_encode s)"
        using 3 by (simp add: form_encode_def percent_encode_def plus_to_space_def)
      ultimately show ?thesis by (simp add: Cons)
    qed
  qed (simp add: form_encode_def plus_to_space_def)
  then show ?thesis by (simp add: form_decode_def utf8_decode_encode)
qed

lemma form_chars: "c \<in> set (form_encode s) \<Longrightarrow> encoded_char c \<or> c = CHR ''+'' \<or> \<not> form_set c"
  by (auto simp: form_encode_def split: if_splits dest!: percent_encode_chars)

lemma form_encode_plain:
  "CHR ''&'' \<notin> set (form_encode s)" "CHR ''='' \<notin> set (form_encode s)" "CHR ''?'' \<notin> set (form_encode s)"
proof -
  have "form_set CHR ''&''" "form_set CHR ''=''" "form_set CHR ''?''"
    by code_simp+
  moreover have "\<not> encoded_char CHR ''&''" "\<not> encoded_char CHR ''=''" "\<not> encoded_char CHR ''?''" by code_simp+
  ultimately show "CHR ''&'' \<notin> set (form_encode s)" "CHR ''='' \<notin> set (form_encode s)" "CHR ''?'' \<notin> set (form_encode s)"
    using form_chars by fastforce+
qed

section \<open>Records and search strings\<close>

lemma js_split_join: "xs \<noteq> [] \<Longrightarrow> \<forall>x \<in> set xs. c \<notin> set x \<Longrightarrow> js_split c (js_join [c] xs) = xs"
proof (induction xs)
  case (Cons x xs)
  then show ?case by (cases "xs = []") (simp_all add: js_join_Cons js_split_append js_split_none)
qed simp

lemma parse_pair_text: "parse_pair (form_encode k @ ''='' @ form_encode v) = Some (k, v)"
proof -
  have "cut CHR ''='' (form_encode k @ with_mark CHR ''='' (Some (form_encode v))) = (form_encode k, Some (form_encode v))"
    by (rule cut_mark) (rule form_encode_plain)
  then show ?thesis by (simp add: parse_pair_def with_mark_def form_decode_encode)
qed

lemma those_all_Some: "those (map Some xs) = Some xs"
  by (induction xs) simp_all

lemma params_parse_toString: "params_parse (params_toString ps) = Some ps"
proof (cases "ps = []")
  case True
  then show ?thesis by (simp add: params_parse_def params_toString_def drop_question_def)
next
  case False
  define pair where "pair = (\<lambda>(k, v). form_encode k @ ''='' @ form_encode v)"
  have "CHR ''&'' \<notin> set (pair p)" for p by (cases p) (simp add: pair_def form_encode_plain)
  then have parts: "js_split CHR ''&'' (js_join ''&'' (map pair ps)) = map pair ps"
    using False by (intro js_split_join) auto
  have ne: "pair p \<noteq> []" for p by (cases p) (simp add: pair_def)
  obtain k v qs where ps: "ps = (k, v) # qs" using False by (cases ps) auto
  have "\<exists>w. js_join ''&'' (map pair ps) = form_encode k @ CHR ''='' # w"
    by (cases "qs = []") (simp_all add: ps pair_def js_join_Cons)
  then have "\<not> prefix ''?'' (js_join ''&'' (map pair ps))"
    using form_encode_plain(3) [of k] by (cases "form_encode k") auto
  then have "params_parse (params_toString ps) = those (map parse_pair (map pair ps))"
    unfolding params_parse_def params_toString_def pair_def [symmetric] drop_question_def
    using ne by (simp add: parts del: map_map)
  also have "map parse_pair (map pair ps) = map Some ps" using parse_pair_text by (simp add: pair_def split_beta)
  finally show ?thesis by (simp add: those_all_Some)
qed

text \<open>
  The values that a search string keeps: not the strings that read as a number, a truth value
  or JSON, and not the numbers that are printed with an exponent.
\<close>

definition search_stable :: "json \<Rightarrow> bool" where
  "search_stable v = (case v of
      JNull \<Rightarrow> False
    | JBool _ \<Rightarrow> True
    | JNum n \<Rightarrow> is_decimal n \<and> CHR ''e'' \<notin> set (number_string n)
    | JStr s \<Rightarrow> decodeSearchValue s = JStr s
    | _ \<Rightarrow> json_ok v)"

lemma plain_number_shape:
  assumes ip: "\<forall>c \<in> set ip. is_digit c" "ip \<noteq> []" and fp: "\<forall>c \<in> set fp. is_digit c"
  shows "plain_number ((if neg then ''-'' else []) @ ip @ frac_string fp) =
    Some ((if neg then - 1 else 1) * of_int (digits_val (ip @ fp)) / 10 ^ length fp)"
proof -
  have rest: "frac_string fp = [] \<or> \<not> is_digit (hd (frac_string fp))" by (simp add: frac_string_def is_digit_def)
  note span = span_digits [OF ip(1) rest]
  have "hd ip \<noteq> CHR ''-''" using ip by (cases ip) (auto simp: is_digit_def)
  then have strip: "(case (if neg then ''-'' else []) @ ip @ frac_string fp of
      c # t \<Rightarrow> if c = CHR ''-'' then (True, t) else (False, (if neg then ''-'' else []) @ ip @ frac_string fp)
    | [] \<Rightarrow> (False, [])) = (neg, ip @ frac_string fp)"
    using ip(2) by (cases ip) auto
  show ?thesis
    unfolding plain_number_def strip Let_def prod.case span using ip(2) fp
    by (cases fp) (auto simp: frac_string_def list_all_iff)
qed

lemma plain_number_string:
  assumes "is_decimal n" and "CHR ''e'' \<notin> set (number_string n)"
  shows "plain_number (number_string n) = Some n"
proof (cases "n = 0")
  case True
  then show ?thesis
    using plain_number_shape [of "''0''" "[]" False]
    by (simp add: number_string_def is_digit_def frac_string_def digits_val_def digit_val_def)
next
  case False
  with assms(1) obtain m e where d: "decimal_of \<bar>n\<bar> = Some (m, e)" by (auto simp: is_decimal_def)
  with False have v: "decimal_value m e = \<bar>n\<bar>" and "0 < m" using decimal_of_value by simp_all
  from \<open>0 < m\<close> obtain ip fp x where sh: "positive_string m e = ip @ frac_string fp @ exp_string x"
    and ip: "\<forall>c \<in> set ip. is_digit c" "ip \<noteq> []" "hd ip = CHR ''0'' \<longrightarrow> length ip = 1"
    and fp: "\<forall>c \<in> set fp. is_digit c"
    and val: "of_int (digits_val (ip @ fp)) * 10 powi (nullish x 0 - int (length fp)) = decimal_value m e"
    by (rule positive_string_shape)
  have printed: "number_string n = (if n < 0 then ''-'' else []) @ ip @ frac_string fp @ exp_string x"
    using False by (simp add: number_string_def d sh)
  have x: "x = None"
  proof (cases x)
    case (Some k)
    then have "CHR ''e'' \<in> set (exp_string x)" by (simp add: exp_string_def exponent_string_def)
    then show ?thesis using assms(2) by (simp add: printed)
  qed simp
  then have whole: "number_string n = (if n < 0 then ''-'' else []) @ ip @ frac_string fp"
    by (simp add: printed exp_string_def)
  have "of_int (digits_val (ip @ fp)) / 10 ^ length fp = \<bar>n\<bar>"
    using val v x by (simp add: power_int_minus divide_inverse)
  then show ?thesis unfolding whole plain_number_shape [OF ip(1,2) fp] by (auto simp: field_simps)
qed

lemma bracket_not_plain: "prefix ''['' s \<or> prefix ''{'' s \<Longrightarrow> s \<noteq> ''true'' \<and> s \<noteq> ''false'' \<and> s \<noteq> []"
  by auto

lemma number_not_special:
  "plain_number s = Some n \<Longrightarrow> s \<noteq> [] \<and> \<not> prefix ''['' s \<and> \<not> prefix ''{'' s \<and> s \<noteq> ''true'' \<and> s \<noteq> ''false''"
  by (cases s) (auto simp: plain_number_def Let_def is_digit_def split: if_splits)

lemma decode_stable:
  assumes "search_stable v"
  shows "decodeSearchValue (search_value_text v) = v"
proof (cases v)
  case (JNum n)
  then have "plain_number (number_string n) = Some n"
    using assms by (simp add: search_stable_def plain_number_string)
  then show ?thesis using number_not_special [of "number_string n" n] by (auto simp: JNum search_value_text_def decodeSearchValue_def)
next
  case (JArr xs)
  then have "json_ok v" using assms by (simp add: search_stable_def)
  then have "json_parse (json_stringify v) = Some v" by (rule json_parse_stringify)
  moreover have "prefix ''['' (json_stringify v) \<and> suffix '']'' (json_stringify v)" by (simp add: JArr suffix_def)
  ultimately show ?thesis
    using bracket_not_plain [of "json_stringify v"] by (simp add: JArr search_value_text_def decodeSearchValue_def)
next
  case (JObj kvs)
  then have "json_ok v" using assms by (simp add: search_stable_def)
  then have "json_parse (json_stringify v) = Some v" by (rule json_parse_stringify)
  moreover have "prefix ''{'' (json_stringify v) \<and> suffix ''}'' (json_stringify v)" by (simp add: JObj suffix_def)
  ultimately show ?thesis
    using bracket_not_plain [of "json_stringify v"] by (simp add: JObj search_value_text_def decodeSearchValue_def)
qed (use assms in \<open>simp_all add: search_stable_def search_value_text_def decodeSearchValue_def\<close>)

text \<open>The entries that \<open>serializeSearch\<close> writes: neither undefined nor null.\<close>

definition present :: "json option \<Rightarrow> json option" where
  "present x = (if x = Some JNull then None else x)"

fun present_entries :: "(string \<times> json option) list \<Rightarrow> (string \<times> json) list" where
  "present_entries [] = []"
| "present_entries ((k, x) # kvs) =
     (case present x of None \<Rightarrow> present_entries kvs | Some v \<Rightarrow> (k, v) # present_entries kvs)"

lemma present_entries_keys: "fst ` set (present_entries kvs) \<subseteq> fst ` set kvs"
  by (induction kvs rule: present_entries.induct) (auto split: option.splits)

lemma distinct_present_entries: "distinct (map fst kvs) \<Longrightarrow> distinct (map fst (present_entries kvs))"
proof (induction kvs rule: present_entries.induct)
  case (2 k x kvs)
  then show ?case using present_entries_keys [of kvs] by (auto split: option.split)
qed simp

lemma serialize_entries_Cons:
  "serialize_entries ((key, x) # kvs) params =
     (case present x of
        None \<Rightarrow> serialize_entries kvs params
      | Some v \<Rightarrow> serialize_entries kvs (AList.update key (search_value_text v) params))"
  by (auto simp: present_def split: option.split json.split)

lemma serialize_entries_present:
  assumes "distinct (map fst kvs)" and "fst ` set params \<inter> fst ` set kvs = {}"
  shows "serialize_entries kvs params = params @ map (\<lambda>(k, v). (k, search_value_text v)) (present_entries kvs)"
  using assms
proof (induction kvs arbitrary: params rule: present_entries.induct)
  case (2 key x kvs)
  have fresh: "AList.update key y params = params @ [(key, y)]" for y
    using "2.prems"(2) by (intro update_fresh) auto
  show ?case
  proof (cases "present x")
    case None
    then show ?thesis using "2.IH"(1) [OF None, of params] "2.prems" by (simp add: serialize_entries_Cons del: serialize_entries.simps(2))
  next
    case (Some v)
    have "fst ` set (params @ [(key, search_value_text v)]) \<inter> fst ` set kvs = {}" using "2.prems" by auto
    from "2.IH"(2) [OF Some _ this] "2.prems"(1) show ?thesis by (simp add: serialize_entries_Cons Some fresh del: serialize_entries.simps(2))
  qed
qed simp

lemma add_search_values_fresh:
  assumes "distinct (map fst ps)" and "fst ` set result \<inter> fst ` set ps = {}"
    and "\<forall>k \<in> fst ` set ps. k \<notin> set inherited_names"
  shows "add_search_values ps result = Inr (result @ map (\<lambda>(k, raw). (k, decodeSearchValue raw)) ps)"
  using assms
proof (induction ps result rule: add_search_values.induct)
  case (2 key raw ps result)
  have "map_of result key = None" using "2.prems"(2) by (auto simp: map_of_eq_None_iff)
  then have "add_search_value key (decodeSearchValue raw) result = Inr (result @ [(key, decodeSearchValue raw)])"
    using "2.prems"(3) by (simp add: add_search_value_def)
  with 2 show ?case by auto
qed simp

text \<open>
  C31. The parameters of an address survive it: parsing the search string of a record gives back
  its entries that are neither null nor undefined, in their order, where the values are those that the text tells apart
  from others (a string that does not read as a number, a boolean or JSON; a number printed without an exponent, a boolean, an array or an object)
  and no key is the name of a member that every object inherits.
\<close>

theorem search_string_roundtrip:
  assumes "distinct (map fst kvs)" and "\<forall>k \<in> fst ` set kvs. k \<notin> set inherited_names"
    and "\<forall>v \<in> snd ` set (present_entries kvs). search_stable v"
  shows "parseSearchString (serializeSearch (Some kvs)) = Inr (present_entries kvs)"
proof -
  define ps where "ps = map (\<lambda>(k, v). (k, search_value_text v)) (present_entries kvs)"
  have ps: "serialize_entries kvs [] = ps" using serialize_entries_present [OF assms(1), of "[]"] by (simp add: ps_def)
  have keys: "map fst ps = map fst (present_entries kvs)" by (simp add: ps_def split_beta)
  have "parseSearchString (serializeSearch (Some kvs)) = add_search_values ps []"
    using params_parse_toString [of ps] by (auto simp: parseSearchString_def serializeSearch_def ps Let_def)
  also have "\<dots> = Inr (map (\<lambda>(k, raw). (k, decodeSearchValue raw)) ps)"
  proof -
    have "distinct (map fst ps)" unfolding keys by (rule distinct_present_entries [OF assms(1)])
    moreover have "fst ` set ps \<subseteq> fst ` set kvs" using present_entries_keys keys by (metis list.set_map)
    then have "\<forall>k \<in> fst ` set ps. k \<notin> set inherited_names" using assms(2) by blast
    ultimately show ?thesis using add_search_values_fresh [of ps "[]"] by simp
  qed
  also have "map (\<lambda>(k, raw). (k, decodeSearchValue raw)) ps = present_entries kvs"
    using assms(3) by (auto simp: ps_def decode_stable split_beta intro!: map_idI)
  finally show ?thesis .
qed

definition example_search :: "(string \<times> json option) list" where
  "example_search = [(''q'', Some (JStr ''a b&c'')), (''page'', Some (JNum 2)), (''tag'', None),
     (''ids'', Some (JArr [JNum 1, JStr ''x'']))]"

theorem search_string_roundtrip_witness:
  "parseSearchString (serializeSearch (Some example_search)) =
     Inr [(''q'', JStr ''a b&c''), (''page'', JNum 2), (''ids'', JArr [JNum 1, JStr ''x''])]"
proof -
  have "distinct (map fst example_search)" by code_simp
  moreover have "\<forall>k \<in> fst ` set example_search. k \<notin> set inherited_names" by code_simp
  moreover have "\<forall>v \<in> snd ` set (present_entries example_search). search_stable v" by code_simp
  moreover have "present_entries example_search =
      [(''q'', JStr ''a b&c''), (''page'', JNum 2), (''ids'', JArr [JNum 1, JStr ''x''])]" by code_simp
  ultimately show ?thesis using search_string_roundtrip [of example_search] by (simp only:)
qed

end
