(* ===== verification/Auth_Session.thy ===== *)
theory Auth_Session
  imports Json
begin

text \<open>
  The session of the user: the store \<open>stores/auth-store.ts\<close>, the refresh of the session
  \<open>lib/auth-session.ts\<close>, the events between tabs \<open>lib/auth-session-sync.ts\<close> and the effect of
  \<open>routes/root-layout.tsx\<close> that listens to them.

  A refresh waits for requests and for timers, and anything may happen to the session in the
  meantime: the environment is a parameter that gives, for each request, the state after it
  and the response, and for each timer the state after it. The type of the state is a
  parameter of the runner, as the runtime is in the source.
\<close>

section \<open>Types and the store\<close>

text \<open>Of the fields of a user the required ones are read; the value carries the others.\<close>

record AuthUser =
  au_id :: jsnum
  au_username :: string
  au_role :: jsnum
  au_value :: json

record LoginSession =
  ls_sid :: string
  ls_current :: bool
  ls_login_method :: string
  ls_ip :: string
  ls_user_agent :: string
  ls_created_at :: jsnum
  ls_last_active_at :: jsnum
  ls_expires_at :: jsnum

record AuthBundle =
  ab_access_token :: string
  ab_token_type :: string
  ab_access_expires_at :: jsnum
  ab_user :: AuthUser
  ab_session :: LoginSession

datatype AuthBootstrapState = BOOT_IDLE | BOOT_CHECKING | BOOT_COMPLETE

record AuthState =
  as_user :: "AuthUser option"
  as_accessToken :: "string option"
  as_accessExpiresAt :: "jsnum option"
  as_session :: "LoginSession option"
  as_pending2FAFlowToken :: "string option"
  as_bootstrapState :: AuthBootstrapState

definition initial_auth :: AuthState where
  "initial_auth = \<lparr>as_user = None, as_accessToken = None, as_accessExpiresAt = None, as_session = None,
     as_pending2FAFlowToken = None, as_bootstrapState = BOOT_IDLE\<rparr>"

definition setBundle :: "AuthBundle \<Rightarrow> AuthState \<Rightarrow> AuthState" where
  "setBundle bundle auth = auth\<lparr>as_user := Some (ab_user bundle), as_accessToken := Some (ab_access_token bundle),
     as_accessExpiresAt := Some (ab_access_expires_at bundle), as_session := Some (ab_session bundle),
     as_pending2FAFlowToken := None, as_bootstrapState := BOOT_COMPLETE\<rparr>"

definition setUser :: "AuthUser option \<Rightarrow> AuthState \<Rightarrow> AuthState" where
  "setUser user auth = auth\<lparr>as_user := user\<rparr>"

definition setPending2FAFlowToken :: "string option \<Rightarrow> AuthState \<Rightarrow> AuthState" where
  "setPending2FAFlowToken flowToken auth = auth\<lparr>as_pending2FAFlowToken := flowToken\<rparr>"

definition setBootstrapState :: "AuthBootstrapState \<Rightarrow> AuthState \<Rightarrow> AuthState" where
  "setBootstrapState b auth = auth\<lparr>as_bootstrapState := b\<rparr>"

definition reset_auth :: "AuthBootstrapState \<Rightarrow> AuthState \<Rightarrow> AuthState" where
  "reset_auth b auth = auth\<lparr>as_user := None, as_accessToken := None, as_accessExpiresAt := None,
     as_session := None, as_pending2FAFlowToken := None, as_bootstrapState := b\<rparr>"

section \<open>Checks on values of the server\<close>

definition isRecord :: "json option \<Rightarrow> bool" where
  "isRecord v \<longleftrightarrow> truthy v \<and> is_object v"

definition is_JNum :: "json option \<Rightarrow> bool" where
  "is_JNum v = (case v of Some (JNum _) \<Rightarrow> True | _ \<Rightarrow> False)"

definition is_JBool :: "json option \<Rightarrow> bool" where
  "is_JBool v = (case v of Some (JBool _) \<Rightarrow> True | _ \<Rightarrow> False)"

definition nonempty_JStr :: "json option \<Rightarrow> bool" where
  "nonempty_JStr v = (case v of Some (JStr s) \<Rightarrow> length s > 0 | _ \<Rightarrow> False)"

definition positive_JNum :: "json option \<Rightarrow> bool" where
  "positive_JNum v = (case v of Some (JNum n) \<Rightarrow> n > 0 | _ \<Rightarrow> False)"

definition isAuthUser :: "json option \<Rightarrow> bool" where
  "isAuthUser v \<longleftrightarrow> isRecord v \<and>
     (case jchain v ''id'' of Some (JNum n) \<Rightarrow> n = of_int \<lfloor>n\<rfloor> \<and> n > 0 | _ \<Rightarrow> False) \<and>
     is_JStr (jchain v ''username'') \<and> is_JNum (jchain v ''role'')"

definition isLoginSession :: "json option \<Rightarrow> bool" where
  "isLoginSession v \<longleftrightarrow> isRecord v \<and> nonempty_JStr (jchain v ''sid'') \<and> is_JBool (jchain v ''current'') \<and>
     is_JStr (jchain v ''login_method'') \<and> is_JStr (jchain v ''ip'') \<and> is_JStr (jchain v ''user_agent'') \<and>
     is_JNum (jchain v ''created_at'') \<and> is_JNum (jchain v ''last_active_at'') \<and> is_JNum (jchain v ''expires_at'')"

definition hasValidTokenFields :: "json option \<Rightarrow> bool" where
  "hasValidTokenFields v \<longleftrightarrow> nonempty_JStr (jchain v ''access_token'') \<and>
     nonempty_JStr (jchain v ''token_type'') \<and> positive_JNum (jchain v ''access_expires_at'')"

definition isAuthBundle :: "json option \<Rightarrow> bool" where
  "isAuthBundle v \<longleftrightarrow> isRecord v \<and> hasValidTokenFields v \<and> isAuthUser (jchain v ''user'') \<and>
     isLoginSession (jchain v ''session'')"

definition isAuthTokenRotation :: "json option \<Rightarrow> bool" where
  "isAuthTokenRotation v \<longleftrightarrow> isRecord v \<and> hasValidTokenFields v \<and>
     jchain v ''token_type'' = Some (JStr ''Bearer'') \<and> isLoginSession (jchain v ''session'') \<and>
     jchain (jchain v ''session'') ''current'' = Some (JBool True)"

text \<open>
  Reading a value as the type that a check declares: every required field has to be there with
  its declared type.
\<close>

definition str_field :: "json option \<Rightarrow> string \<Rightarrow> string option" where
  "str_field v k = (case jchain v k of Some (JStr s) \<Rightarrow> Some s | _ \<Rightarrow> None)"

definition num_field :: "json option \<Rightarrow> string \<Rightarrow> jsnum option" where
  "num_field v k = (case jchain v k of Some (JNum n) \<Rightarrow> Some n | _ \<Rightarrow> None)"

definition bool_field :: "json option \<Rightarrow> string \<Rightarrow> bool option" where
  "bool_field v k = (case jchain v k of Some (JBool b) \<Rightarrow> Some b | _ \<Rightarrow> None)"

definition as_AuthUser :: "json option \<Rightarrow> AuthUser option" where
  "as_AuthUser v =
     (case (num_field v ''id'', str_field v ''username'', num_field v ''role'', v) of
        (Some i, Some u, Some r, Some j) \<Rightarrow> Some \<lparr>au_id = i, au_username = u, au_role = r, au_value = j\<rparr>
      | _ \<Rightarrow> None)"

definition as_LoginSession :: "json option \<Rightarrow> LoginSession option" where
  "as_LoginSession v =
     Option.bind (str_field v ''sid'') (\<lambda>sid.
     Option.bind (bool_field v ''current'') (\<lambda>current.
     Option.bind (str_field v ''login_method'') (\<lambda>method.
     Option.bind (str_field v ''ip'') (\<lambda>ip.
     Option.bind (str_field v ''user_agent'') (\<lambda>agent.
     Option.bind (num_field v ''created_at'') (\<lambda>created.
     Option.bind (num_field v ''last_active_at'') (\<lambda>active.
     Option.bind (num_field v ''expires_at'') (\<lambda>expires.
       Some \<lparr>ls_sid = sid, ls_current = current, ls_login_method = method, ls_ip = ip, ls_user_agent = agent,
         ls_created_at = created, ls_last_active_at = active, ls_expires_at = expires\<rparr>))))))))"

definition as_AuthBundle :: "json option \<Rightarrow> AuthBundle option" where
  "as_AuthBundle v =
     Option.bind (str_field v ''access_token'') (\<lambda>token.
     Option.bind (str_field v ''token_type'') (\<lambda>ty.
     Option.bind (num_field v ''access_expires_at'') (\<lambda>expires.
     Option.bind (as_AuthUser (jchain v ''user'')) (\<lambda>user.
     Option.bind (as_LoginSession (jchain v ''session'')) (\<lambda>session.
       Some \<lparr>ab_access_token = token, ab_token_type = ty, ab_access_expires_at = expires, ab_user = user,
         ab_session = session\<rparr>)))))"

section \<open>Changes of the session\<close>

datatype SyncKind = SYNC_AUTHENTICATED | SYNC_SIGNED_OUT

text \<open>
  The state of the module: the store, the epoch, the running refresh, the events that were
  published and how often the cache of queries was cleared.
\<close>

record AuthWorld =
  aw_auth :: AuthState
  aw_epoch :: nat
  aw_refreshPromise :: "nat option"
  aw_nextRefresh :: nat
  aw_published :: "(SyncKind \<times> string) list"
  aw_queryClears :: nat

definition initial_auth_world :: AuthWorld where
  "initial_auth_world = \<lparr>aw_auth = initial_auth, aw_epoch = 0, aw_refreshPromise = None, aw_nextRefresh = 0,
     aw_published = [], aw_queryClears = 0\<rparr>"

definition publishAuthSessionEvent :: "SyncKind \<Rightarrow> string \<Rightarrow> AuthWorld \<Rightarrow> AuthWorld" where
  "publishAuthSessionEvent kind sid w =
     (if sid = [] then w else w\<lparr>aw_published := aw_published w @ [(kind, sid)]\<rparr>)"

definition current_sid :: "AuthWorld \<Rightarrow> string option" where
  "current_sid w = map_option ls_sid (as_session (aw_auth w))"

definition applyAuthBundle :: "AuthBundle \<Rightarrow> bool \<Rightarrow> AuthWorld \<Rightarrow> AuthWorld" where
  "applyAuthBundle bundle synchronizeTabs w =
     (let previousSID = current_sid w;
          w1 = w\<lparr>aw_epoch := aw_epoch w + 1, aw_auth := setBundle bundle (aw_auth w)\<rparr>
      in if synchronizeTabs \<and> previousSID \<noteq> Some (ls_sid (ab_session bundle))
         then publishAuthSessionEvent SYNC_AUTHENTICATED (ls_sid (ab_session bundle)) w1 else w1)"

datatype AuthRotationError = InvalidRotation | NoActiveSession | SessionMismatch

definition applyAuthRotation :: "json option \<Rightarrow> AuthWorld \<Rightarrow> AuthRotationError + AuthWorld" where
  "applyAuthRotation v w =
     (if \<not> isAuthTokenRotation v then Inl InvalidRotation
      else
        (case (as_user (aw_auth w), as_session (aw_auth w)) of
           (Some user, Some session) \<Rightarrow>
             (case (as_LoginSession (jchain v ''session''), str_field v ''access_token'', str_field v ''token_type'',
                    num_field v ''access_expires_at'') of
                (Some session', Some token, Some ty, Some expires) \<Rightarrow>
                  if ls_sid session' \<noteq> ls_sid session then Inl SessionMismatch
                  else Inr (applyAuthBundle \<lparr>ab_access_token = token, ab_token_type = ty,
                         ab_access_expires_at = expires, ab_user = user, ab_session = session'\<rparr> False w)
              | _ \<Rightarrow> Inl InvalidRotation)
         | _ \<Rightarrow> Inl NoActiveSession))"

definition clearAuthentication :: "bool \<Rightarrow> AuthBootstrapState \<Rightarrow> AuthWorld \<Rightarrow> AuthWorld" where
  "clearAuthentication synchronizeTabs bootstrapState w =
     (let sid = current_sid w;
          w1 = w\<lparr>aw_epoch := aw_epoch w + 1, aw_auth := reset_auth bootstrapState (aw_auth w)\<rparr>
      in if synchronizeTabs \<and> opt_str sid \<noteq> [] then publishAuthSessionEvent SYNC_SIGNED_OUT (opt_str sid) w1 else w1)"

definition clearAuthenticatedClientState :: "bool \<Rightarrow> AuthWorld \<Rightarrow> AuthWorld" where
  "clearAuthenticatedClientState synchronizeTabs w =
     clearAuthentication synchronizeTabs BOOT_COMPLETE (w\<lparr>aw_queryClears := aw_queryClears w + 1\<rparr>)"

end
