(* ===== verification/Auth_Refresh.thy ===== *)
theory Auth_Refresh
  imports Auth_Session
begin

text \<open>
  The refresh of the session, \<open>createRefreshRunner\<close> and what uses it in \<open>lib/auth-session.ts\<close>:
  the retries after a race between tabs and after a change of the session, the outcome for each
  response, and the state that goes with each outcome.
\<close>

section \<open>The runner\<close>

datatype RefreshError = Superseded | ErrorValue "json option"

datatype RefreshOutcome =
    Authenticated AuthBundle
  | Anonymous
  | TransientError RefreshError
  | OutOfSync "string option"

record AuthRefreshHTTPResponse =
  rr_status :: int
  rr_data :: "json option"
  rr_error :: "json option"

text \<open>The first argument of \<open>rt_request\<close> and \<open>rt_wait\<close> counts the requests made before.\<close>

record 'w AuthRefreshRuntime =
  rt_request :: "nat \<Rightarrow> string option \<Rightarrow> 'w \<Rightarrow> 'w \<times> AuthRefreshHTTPResponse"
  rt_getExpectedSID :: "'w \<Rightarrow> string option"
  rt_parseBundle :: "json option \<Rightarrow> AuthBundle option"
  rt_acceptBundle :: "AuthBundle \<Rightarrow> 'w \<Rightarrow> 'w"
  rt_clear :: "bool \<Rightarrow> AuthBootstrapState option \<Rightarrow> 'w \<Rightarrow> 'w"
  rt_markTransient :: "'w \<Rightarrow> 'w"
  rt_wait :: "nat \<Rightarrow> nat \<Rightarrow> 'w \<Rightarrow> 'w"
  rt_isCurrent :: "('w \<Rightarrow> bool) option"

definition refreshRaceDelays :: "nat list" where
  "refreshRaceDelays = [80, 200, 500]"

definition is_superseded :: "'w AuthRefreshRuntime \<Rightarrow> 'w \<Rightarrow> bool" where
  "is_superseded rt w = (case rt_isCurrent rt of None \<Rightarrow> False | Some f \<Rightarrow> \<not> f w)"

text \<open>
  One pass of \<open>run\<close> ends with an outcome or calls \<open>run\<close> again. The result holds the state and
  whether a request was made.
\<close>

datatype 'w RunStep =
    Done RefreshOutcome bool 'w
  | Again nat bool 'w

definition abandon_or :: "'w AuthRefreshRuntime \<Rightarrow> 'w \<Rightarrow> 'w RunStep \<Rightarrow> 'w RunStep" where
  "abandon_or rt w step = (if is_superseded rt w then Done (TransientError Superseded) True w else step)"

definition refresh_response ::
  "'w AuthRefreshRuntime \<Rightarrow> nat \<Rightarrow> nat \<Rightarrow> bool \<Rightarrow> AuthRefreshHTTPResponse \<Rightarrow> 'w \<Rightarrow> 'w RunStep" where
  "refresh_response rt n raceAttempt allowMismatchRetry response w =
     (let responseData = (if isRecord (rr_data response) then rr_data response else None);
          code = str_field responseData ''code'';
          bundle = rt_parseBundle rt (jchain responseData ''data'')
      in case (if jchain responseData ''success'' = Some (JBool True) then bundle else None) of
           Some b \<Rightarrow> Done (Authenticated b) True (rt_acceptBundle rt b w)
         | None \<Rightarrow>
             if rr_status response = 409 \<and> code = Some ''AUTH_REFRESH_RACE'' then
               (if raceAttempt < length refreshRaceDelays
                then Again (raceAttempt + 1) allowMismatchRetry (rt_wait rt n (refreshRaceDelays ! raceAttempt) w)
                else abandon_or rt w (Done (OutOfSync code) True (rt_clear rt False None w)))
             else if rr_status response = 409 \<and> code = Some ''AUTH_SESSION_MISMATCH'' then
               (if allowMismatchRetry
                then abandon_or rt w (Again 0 False (rt_clear rt False (Some BOOT_IDLE) w))
                else abandon_or rt w (Done (OutOfSync code) True (rt_clear rt False None w)))
             else if rr_status response = 401 then
               abandon_or rt w (Done Anonymous True (rt_clear rt True None w))
             else if rr_status response = 0 \<or> rr_status response \<ge> 500 \<or> rr_status response = 429 then
               Done (TransientError (ErrorValue (nullish_opt (rr_error response) (rr_data response)))) True
                 (rt_markTransient rt w)
             else abandon_or rt w (Done (OutOfSync (Some (nullish code ''AUTH_INVALID_REFRESH_RESPONSE''))) True
                    (rt_clear rt False None w)))"

definition refresh_step :: "'w AuthRefreshRuntime \<Rightarrow> nat \<Rightarrow> nat \<Rightarrow> bool \<Rightarrow> 'w \<Rightarrow> 'w RunStep" where
  "refresh_step rt n raceAttempt allowMismatchRetry w =
     (if is_superseded rt w then Done (TransientError Superseded) False w
      else case rt_request rt n (rt_getExpectedSID rt w) w of (w1, response) \<Rightarrow>
        abandon_or rt w1 (refresh_response rt n raceAttempt allowMismatchRetry response w1))"

lemma abandon_or_Again: "abandon_or rt w step = Again r a w' \<Longrightarrow> step = Again r a w'"
  by (simp add: abandon_or_def split: if_splits)

lemma refresh_step_Again:
  assumes "refresh_step rt n r a w = Again r' a' w'"
  shows "a' = a \<and> r' = r + 1 \<and> r < length refreshRaceDelays \<or> a \<and> \<not> a' \<and> r' = 0"
  using assms
  by (auto simp: refresh_step_def refresh_response_def Let_def dest!: abandon_or_Again
      split: if_splits option.splits prod.splits)

text \<open>The number of requests made comes back with the outcome and the state.\<close>

function run_refresh ::
  "'w AuthRefreshRuntime \<Rightarrow> nat \<Rightarrow> nat \<Rightarrow> bool \<Rightarrow> 'w \<Rightarrow> RefreshOutcome \<times> nat \<times> 'w" where
  "run_refresh rt n raceAttempt allowMismatchRetry w =
     (case refresh_step rt n raceAttempt allowMismatchRetry w of
        Done outcome requested w1 \<Rightarrow> (outcome, if requested then n + 1 else n, w1)
      | Again r a w1 \<Rightarrow> run_refresh rt (n + 1) r a w1)"
  by pat_completeness auto
termination
  by (relation "measures [\<lambda>(rt, n, r, a, w). if a then 1 else 0, \<lambda>(rt, n, r, a, w). length refreshRaceDelays - r]")
     (auto dest!: refresh_step_Again)

declare run_refresh.simps [simp del]

definition createRefreshRunner :: "'w AuthRefreshRuntime \<Rightarrow> 'w \<Rightarrow> RefreshOutcome \<times> nat \<times> 'w" where
  "createRefreshRunner rt w = run_refresh rt 0 0 True w"

section \<open>The runtime of the page\<close>

text \<open>The response of axios, or the error it throws with the response it carries, if any.\<close>

datatype AxiosResult =
    AxiosResponse int "json option"
  | AxiosError "(int \<times> json option) option" "json option"
  | OtherError "json option"

definition requestRefresh :: "AxiosResult \<Rightarrow> AuthRefreshHTTPResponse" where
  "requestRefresh result =
     (case result of
        AxiosResponse status data \<Rightarrow> \<lparr>rr_status = status, rr_data = data, rr_error = None\<rparr>
      | OtherError e \<Rightarrow> \<lparr>rr_status = 0, rr_data = None, rr_error = e\<rparr>
      | AxiosError response e \<Rightarrow>
          \<lparr>rr_status = nullish (map_option fst response) 0, rr_data = Option.bind response snd, rr_error = e\<rparr>)"

text \<open>
  What happens while the runner waits: the state after the n-th request and what axios returns,
  and the state after a timer.
\<close>

record AuthEnv =
  env_request :: "nat \<Rightarrow> string option \<Rightarrow> AuthWorld \<Rightarrow> AuthWorld \<times> AxiosResult"
  env_wait :: "nat \<Rightarrow> AuthWorld \<Rightarrow> AuthWorld"

definition runtime_clear :: "bool \<Rightarrow> AuthBootstrapState option \<Rightarrow> AuthWorld \<Rightarrow> AuthWorld" where
  "runtime_clear synchronizeTabs bootstrapState w =
     (if \<not> synchronizeTabs \<and> bootstrapState = Some BOOT_IDLE
      then w\<lparr>aw_auth := reset_auth BOOT_IDLE (aw_auth w)\<rparr>
      else clearAuthentication synchronizeTabs (nullish bootstrapState BOOT_COMPLETE) w)"

definition auth_runtime :: "AuthEnv \<Rightarrow> nat \<Rightarrow> AuthWorld AuthRefreshRuntime" where
  "auth_runtime env refreshEpoch = \<lparr>
     rt_request = (\<lambda>n sid w. map_prod id requestRefresh (env_request env n sid w)),
     rt_getExpectedSID = current_sid,
     rt_parseBundle = (\<lambda>v. if isAuthBundle v then as_AuthBundle v else None),
     rt_acceptBundle = (\<lambda>bundle. applyAuthBundle bundle False),
     rt_clear = runtime_clear,
     rt_markTransient = (\<lambda>w. w\<lparr>aw_auth := setBootstrapState BOOT_IDLE (aw_auth w)\<rparr>),
     rt_wait = (\<lambda>n _. env_wait env n),
     rt_isCurrent = Some (\<lambda>w. aw_epoch w = refreshEpoch)\<rparr>"

definition runRefresh :: "AuthEnv \<Rightarrow> nat \<Rightarrow> AuthWorld \<Rightarrow> RefreshOutcome \<times> nat \<times> AuthWorld" where
  "runRefresh env refreshEpoch w = createRefreshRunner (auth_runtime env refreshEpoch) w"

text \<open>
  Callers share the refresh that is running: a call gives the number of the refresh and, when
  it starts one, the epoch it runs for; \<open>refresh_settled\<close> is the \<open>finally\<close> clause.
\<close>

definition refreshAuthentication :: "AuthWorld \<Rightarrow> nat \<times> nat option \<times> AuthWorld" where
  "refreshAuthentication w =
     (case aw_refreshPromise w of
        Some p \<Rightarrow> (p, None, w)
      | None \<Rightarrow> (aw_nextRefresh w, Some (aw_epoch w),
          w\<lparr>aw_refreshPromise := Some (aw_nextRefresh w), aw_nextRefresh := aw_nextRefresh w + 1\<rparr>))"

definition refresh_settled :: "AuthWorld \<Rightarrow> AuthWorld" where
  "refresh_settled w = w\<lparr>aw_refreshPromise := None\<rparr>"

section \<open>Start of the page and headers\<close>

text \<open>\<open>now\<close> is \<open>Math.floor(Date.now() / 1000)\<close>.\<close>

definition currentValidAuthBundle :: "jsnum \<Rightarrow> AuthWorld \<Rightarrow> AuthBundle option" where
  "currentValidAuthBundle now w =
     (let auth = aw_auth w in
      case (as_user auth, as_accessToken auth, as_accessExpiresAt auth, as_session auth) of
        (Some user, Some token, Some expires, Some session) \<Rightarrow>
          if token = [] \<or> expires = 0 \<or> expires \<le> now then None
          else Some \<lparr>ab_access_token = token, ab_token_type = ''Bearer'', ab_access_expires_at = expires,
                 ab_user = user, ab_session = session\<rparr>
      | _ \<Rightarrow> None)"

datatype BootstrapStep = BootOutcome RefreshOutcome | BootRefresh nat "nat option"

definition bootstrapAuthentication :: "jsnum \<Rightarrow> AuthWorld \<Rightarrow> BootstrapStep \<times> AuthWorld" where
  "bootstrapAuthentication now w =
     (case currentValidAuthBundle now w of
        Some bundle \<Rightarrow>
          (BootOutcome (Authenticated bundle), w\<lparr>aw_auth := setBootstrapState BOOT_COMPLETE (aw_auth w)\<rparr>)
      | None \<Rightarrow>
          let auth = aw_auth w;
              hasStaleSession = (as_user auth \<noteq> None \<and> as_session auth \<noteq> None)
          in if as_bootstrapState auth = BOOT_COMPLETE \<and> \<not> hasStaleSession then (BootOutcome Anonymous, w)
             else (case refreshAuthentication (w\<lparr>aw_auth := setBootstrapState BOOT_CHECKING auth\<rparr>) of
                 (p, e, w1) \<Rightarrow> (BootRefresh p e, w1)))"

definition getCommonHeaders :: "AuthWorld \<Rightarrow> (string \<times> string) list" where
  "getCommonHeaders w =
     (''Content-Type'', ''application/json'') #
       (if opt_str (as_accessToken (aw_auth w)) \<noteq> []
        then [(''Authorization'', ''Bearer '' @ opt_str (as_accessToken (aw_auth w)))] else [])"

definition token_until :: "jsnum \<Rightarrow> AuthWorld \<Rightarrow> bool" where
  "token_until limit w \<longleftrightarrow> opt_str (as_accessToken (aw_auth w)) \<noteq> [] \<and>
     (case as_accessExpiresAt (aw_auth w) of None \<Rightarrow> False | Some e \<Rightarrow> e \<noteq> 0 \<and> e > limit)"

datatype HeaderStep =
    Headers "(string \<times> string) list"
  | HeaderRefresh nat "nat option"

datatype HeaderError = RequestFailed RefreshError | SessionExpired

definition getFreshAuthHeaders :: "jsnum \<Rightarrow> AuthWorld \<Rightarrow> HeaderStep \<times> AuthWorld" where
  "getFreshAuthHeaders now w =
     (if token_until (now + 60) w then (Headers (getCommonHeaders w), w)
      else case refreshAuthentication w of (p, e, w1) \<Rightarrow> (HeaderRefresh p e, w1))"

text \<open>The part after the refresh.\<close>

definition headers_after_refresh ::
  "RefreshOutcome \<Rightarrow> jsnum \<Rightarrow> AuthWorld \<Rightarrow> HeaderError + (string \<times> string) list" where
  "headers_after_refresh outcome now w =
     (case outcome of
        Authenticated _ \<Rightarrow> Inr (getCommonHeaders w)
      | _ \<Rightarrow>
          if token_until now w then Inr (getCommonHeaders w)
          else (case outcome of TransientError e \<Rightarrow> Inl (RequestFailed e) | _ \<Rightarrow> Inl SessionExpired))"

section \<open>Events of other tabs\<close>

record AuthSessionSyncEvent =
  ev_kind :: SyncKind
  ev_sid :: string
  ev_source :: string
  ev_nonce :: string
  ev_timestamp :: jsnum

definition isAuthSessionSyncEvent :: "json option \<Rightarrow> bool" where
  "isAuthSessionSyncEvent v \<longleftrightarrow> isRecord v \<and>
     (jchain v ''kind'' = Some (JStr ''authenticated'') \<or> jchain v ''kind'' = Some (JStr ''signed_out'')) \<and>
     nonempty_JStr (jchain v ''sid'') \<and> is_JStr (jchain v ''source'') \<and> is_JStr (jchain v ''nonce'') \<and>
     is_JNum (jchain v ''timestamp'')"

text \<open>The event that \<open>deliver\<close> hands to the listener, if any.\<close>

definition deliver_event :: "string \<Rightarrow> jsnum \<Rightarrow> json option \<Rightarrow> AuthSessionSyncEvent option" where
  "deliver_event authSyncSource now v =
     (if \<not> isAuthSessionSyncEvent v then None
      else case (str_field v ''sid'', str_field v ''source'', str_field v ''nonce'', num_field v ''timestamp'') of
          (Some sid, Some source, Some nonce, Some ts) \<Rightarrow>
            if source \<noteq> authSyncSource \<and> \<bar>now - ts\<bar> < 60000
            then Some \<lparr>ev_kind = (if jchain v ''kind'' = Some (JStr ''authenticated'') then SYNC_AUTHENTICATED
                     else SYNC_SIGNED_OUT),
                   ev_sid = sid, ev_source = source, ev_nonce = nonce, ev_timestamp = ts\<rparr>
            else None
        | _ \<Rightarrow> None)"

datatype PageCommand = ReloadPage | NavigateSignIn

definition on_sync_event :: "AuthSessionSyncEvent \<Rightarrow> AuthWorld \<Rightarrow> PageCommand list \<times> AuthWorld" where
  "on_sync_event event w =
     (let currentSID = current_sid w in
      case ev_kind event of
        SYNC_AUTHENTICATED \<Rightarrow>
          if Some (ev_sid event) = currentSID then ([], w)
          else ([ReloadPage], if opt_str currentSID \<noteq> [] then clearAuthentication False BOOT_COMPLETE w else w)
      | SYNC_SIGNED_OUT \<Rightarrow>
          if opt_str currentSID \<noteq> [] \<and> Some (ev_sid event) = currentSID
          then ([NavigateSignIn], clearAuthenticatedClientState False w) else ([], w))"

section \<open>Number of requests\<close>

lemma race_delays: "length refreshRaceDelays = 3"
  by (simp add: refreshRaceDelays_def)

lemma run_refresh_requests:
  assumes "run_refresh rt n r a w = (outcome, n', w')" and "r \<le> 3"
  shows "n' \<le> n + (4 - r) + (if a then 4 else 0)"
  using assms
proof (induction rt n r a w arbitrary: outcome n' w' rule: run_refresh.induct)
  case (1 rt n r a w)
  show ?case
  proof (cases "refresh_step rt n r a w")
    case (Done outcome1 requested w1)
    then show ?thesis using "1.prems" by (auto simp: run_refresh.simps [of rt n r a w] split: if_splits)
  next
    case (Again r' a' w1)
    then have run: "run_refresh rt (n + 1) r' a' w1 = (outcome, n', w')"
      using "1.prems"(1) by (simp add: run_refresh.simps [of rt n r a w])
    have next_pass: "a' = a \<and> r' = r + 1 \<and> r < 3 \<or> a \<and> \<not> a' \<and> r' = 0"
      using refresh_step_Again [OF Again] by (simp add: race_delays)
    then have "r' \<le> 3" by auto
    from "1.IH" [OF Again run this] next_pass "1.prems"(2) show ?thesis by (auto split: if_splits)
  qed
qed

section \<open>What an outcome says about the state\<close>

locale refresh_runtime =
  fixes rt :: "'w AuthRefreshRuntime" and signed_in :: "AuthBundle \<Rightarrow> 'w \<Rightarrow> bool" and signed_out :: "'w \<Rightarrow> bool"
    and idle :: "'w \<Rightarrow> bool"
  assumes accept: "signed_in b (rt_acceptBundle rt b w)"
    and clear: "signed_out (rt_clear rt sync None w)"
    and transient: "idle (rt_markTransient rt w)"
begin

definition agrees :: "RefreshOutcome \<Rightarrow> 'w \<Rightarrow> bool" where
  "agrees outcome w =
     (case outcome of
        Authenticated b \<Rightarrow> signed_in b w
      | Anonymous \<Rightarrow> signed_out w
      | OutOfSync _ \<Rightarrow> signed_out w
      | TransientError Superseded \<Rightarrow> is_superseded rt w
      | TransientError (ErrorValue _) \<Rightarrow> idle w)"

lemma abandon_agrees:
  "abandon_or rt w step = Done outcome q w' \<Longrightarrow> (step = Done outcome q w' \<Longrightarrow> agrees outcome w') \<Longrightarrow> agrees outcome w'"
  by (auto simp: abandon_or_def agrees_def split: if_splits)

lemma response_agrees: "refresh_response rt n r a response w = Done outcome q w' \<Longrightarrow> agrees outcome w'"
  by (auto simp: refresh_response_def Let_def agrees_def accept clear transient abandon_or_def
      split: if_splits option.splits)

lemma step_agrees: "refresh_step rt n r a w = Done outcome q w' \<Longrightarrow> agrees outcome w'"
proof -
  assume step: "refresh_step rt n r a w = Done outcome q w'"
  obtain w1 response where req: "rt_request rt n (rt_getExpectedSID rt w) w = (w1, response)" by fastforce
  show "agrees outcome w'"
  proof (cases "is_superseded rt w")
    case True
    then show ?thesis using step by (auto simp: refresh_step_def agrees_def)
  next
    case False
    then have "abandon_or rt w1 (refresh_response rt n r a response w1) = Done outcome q w'"
      using step req by (simp add: refresh_step_def)
    then show ?thesis by (rule abandon_agrees) (rule response_agrees)
  qed
qed

lemma run_agrees: "run_refresh rt n r a w = (outcome, n', w') \<Longrightarrow> agrees outcome w'"
proof (induction "(if a then 4 else 0) + (3 - r)" arbitrary: n r a w rule: less_induct)
  case less
  show ?case
  proof (cases "refresh_step rt n r a w")
    case (Done outcome1 requested w1)
    then show ?thesis using less.prems step_agrees by (auto simp: run_refresh.simps [of rt n r a w])
  next
    case (Again r' a' w1)
    then have run: "run_refresh rt (n + 1) r' a' w1 = (outcome, n', w')"
      using less.prems by (simp add: run_refresh.simps [of rt n r a w])
    have "(if a' then 4 else 0) + (3 - r') < (if a then 4 else 0) + (3 - r)"
      using refresh_step_Again [OF Again] by (auto simp: race_delays)
    from less.hyps [OF this run] show ?thesis .
  qed
qed

end

definition holds_bundle :: "AuthBundle \<Rightarrow> AuthWorld \<Rightarrow> bool" where
  "holds_bundle b w \<longleftrightarrow> as_user (aw_auth w) = Some (ab_user b) \<and>
     as_accessToken (aw_auth w) = Some (ab_access_token b) \<and>
     as_accessExpiresAt (aw_auth w) = Some (ab_access_expires_at b) \<and>
     as_session (aw_auth w) = Some (ab_session b) \<and> as_bootstrapState (aw_auth w) = BOOT_COMPLETE"

definition no_session :: "AuthWorld \<Rightarrow> bool" where
  "no_session w \<longleftrightarrow> as_user (aw_auth w) = None \<and> as_accessToken (aw_auth w) = None \<and>
     as_accessExpiresAt (aw_auth w) = None \<and> as_session (aw_auth w) = None \<and>
     as_bootstrapState (aw_auth w) = BOOT_COMPLETE"

lemma applyAuthBundle_holds: "holds_bundle b (applyAuthBundle b sync w)"
  by (simp add: holds_bundle_def applyAuthBundle_def setBundle_def publishAuthSessionEvent_def Let_def)

lemma clearAuthentication_auth: "aw_auth (clearAuthentication sync boot w) = reset_auth boot (aw_auth w)"
  by (simp add: clearAuthentication_def publishAuthSessionEvent_def Let_def)

interpretation page_runtime: refresh_runtime "auth_runtime env epoch" holds_bundle no_session
    "\<lambda>w. as_bootstrapState (aw_auth w) = BOOT_IDLE" for env epoch
  by unfold_locales
     (simp_all add: auth_runtime_def applyAuthBundle_holds runtime_clear_def no_session_def clearAuthentication_auth
       reset_auth_def setBootstrapState_def)

lemma page_superseded: "is_superseded (auth_runtime env epoch) w \<longleftrightarrow> aw_epoch w \<noteq> epoch"
  by (simp add: is_superseded_def auth_runtime_def)

text \<open>
  C7. A refresh ends after at most eight requests, whatever the server answers and whatever
  happens to the session meanwhile, and its outcome tells the state: signed in with the bundle,
  signed out, or idle after a temporary failure. If the session is changed by someone else
  while the first request runs, the refresh leaves that change alone and reports it.
\<close>

theorem refresh_outcome:
  assumes "runRefresh env epoch w = (outcome, requests, w')"
  shows "requests \<le> 8 \<and>
    (case outcome of
       Authenticated b \<Rightarrow> holds_bundle b w'
     | Anonymous \<Rightarrow> no_session w'
     | OutOfSync _ \<Rightarrow> no_session w'
     | TransientError Superseded \<Rightarrow> aw_epoch w' \<noteq> epoch
     | TransientError (ErrorValue _) \<Rightarrow> as_bootstrapState (aw_auth w') = BOOT_IDLE) \<and>
    (aw_epoch w = epoch \<and> aw_epoch (fst (env_request env 0 (current_sid w) w)) \<noteq> epoch \<longrightarrow>
       outcome = TransientError Superseded \<and> w' = fst (env_request env 0 (current_sid w) w))"
proof -
  have run: "run_refresh (auth_runtime env epoch) 0 0 True w = (outcome, requests, w')"
    using assms by (simp add: runRefresh_def createRefreshRunner_def)
  have "requests \<le> 8" using run_refresh_requests [OF run] by simp
  moreover have "page_runtime.agrees env epoch outcome w'" by (rule page_runtime.run_agrees [OF run])
  moreover have "outcome = TransientError Superseded \<and> w' = fst (env_request env 0 (current_sid w) w)"
    if "aw_epoch w = epoch" "aw_epoch (fst (env_request env 0 (current_sid w) w)) \<noteq> epoch"
  proof -
    have "refresh_step (auth_runtime env epoch) 0 0 True w =
        Done (TransientError Superseded) True (fst (env_request env 0 (current_sid w) w))"
      using that by (simp add: refresh_step_def page_superseded abandon_or_def case_prod_beta)
         (simp add: auth_runtime_def)
    then show ?thesis using run by (simp add: run_refresh.simps [of "auth_runtime env epoch" 0 0 True w])
  qed
  ultimately show ?thesis
    by (auto simp: page_runtime.agrees_def page_superseded split: RefreshOutcome.split RefreshError.split)
qed

text \<open>A server that answers every request with a race between tabs.\<close>

definition race_env :: AuthEnv where
  "race_env = \<lparr>env_request = (\<lambda>n sid w. (w, AxiosError (Some (409, Some (JObj [(''code'', JStr ''AUTH_REFRESH_RACE'')]))) None)),
     env_wait = (\<lambda>n w. w)\<rparr>"

theorem refresh_outcome_witness:
  "case runRefresh race_env 0 initial_auth_world of (outcome, requests, w') \<Rightarrow>
     requests \<le> 8 \<and> outcome = OutOfSync (Some ''AUTH_REFRESH_RACE'') \<and> no_session w'"
proof -
  obtain outcome requests w' where run: "runRefresh race_env 0 initial_auth_world = (outcome, requests, w')"
    by (metis surj_pair)
  have "fst (runRefresh race_env 0 initial_auth_world) = OutOfSync (Some ''AUTH_REFRESH_RACE'')" by code_simp
  then have "outcome = OutOfSync (Some ''AUTH_REFRESH_RACE'')" by (simp add: run)
  then show ?thesis using refresh_outcome [OF run] by (simp add: run)
qed

section \<open>Types of the store\<close>

definition bundle_ok :: "AuthBundle \<Rightarrow> bool" where
  "bundle_ok b \<longleftrightarrow> ab_access_token b \<noteq> [] \<and> ab_access_expires_at b > 0 \<and> ls_sid (ab_session b) \<noteq> []"

text \<open>Token, expiry and session are there together or not at all, and none of them is falsy.\<close>

definition store_ok :: "AuthState \<Rightarrow> bool" where
  "store_ok auth \<longleftrightarrow>
     (case (as_accessToken auth, as_accessExpiresAt auth, as_session auth) of
        (None, None, None) \<Rightarrow> True
      | (Some token, Some expires, Some session) \<Rightarrow> token \<noteq> [] \<and> expires > 0 \<and> ls_sid session \<noteq> []
      | _ \<Rightarrow> False)"

lemma store_ok_operations [simp]:
  "bundle_ok b \<Longrightarrow> store_ok (setBundle b auth)" "store_ok (reset_auth boot auth)"
  "store_ok (setBootstrapState boot auth) = store_ok auth" "store_ok (setUser user auth) = store_ok auth"
  "store_ok (setPending2FAFlowToken tok auth) = store_ok auth"
  by (simp_all add: store_ok_def bundle_ok_def setBundle_def reset_auth_def setBootstrapState_def setUser_def
      setPending2FAFlowToken_def)

lemma field_checks:
  "is_JStr (jchain v k) \<longleftrightarrow> (\<exists>s. str_field v k = Some s)"
  "nonempty_JStr (jchain v k) \<longleftrightarrow> (\<exists>s. str_field v k = Some s \<and> s \<noteq> [])"
  "is_JNum (jchain v k) \<longleftrightarrow> (\<exists>n. num_field v k = Some n)"
  "positive_JNum (jchain v k) \<longleftrightarrow> (\<exists>n. num_field v k = Some n \<and> n > 0)"
  "is_JBool (jchain v k) \<longleftrightarrow> (\<exists>b. bool_field v k = Some b)"
  by (auto simp: is_JStr_def nonempty_JStr_def is_JNum_def positive_JNum_def is_JBool_def str_field_def num_field_def
      bool_field_def split: option.splits json.splits)

lemma isLoginSession_typed:
  "isLoginSession v \<Longrightarrow> \<exists>session. as_LoginSession v = Some session \<and> ls_sid session \<noteq> []"
  by (auto simp: isLoginSession_def as_LoginSession_def field_checks)

lemma isAuthUser_typed:
  "isAuthUser v \<Longrightarrow> \<exists>user. as_AuthUser v = Some user \<and> au_id user > 0 \<and> au_id user \<in> \<int>"
proof -
  assume a: "isAuthUser v"
  then obtain n where n: "jchain v ''id'' = Some (JNum n)" "n = of_int \<lfloor>n\<rfloor>" "n > 0"
    by (auto simp: isAuthUser_def split: option.splits json.splits)
  moreover obtain j where "v = Some j" using a by (cases v) (auto simp: isAuthUser_def isRecord_def)
  ultimately have "num_field v ''id'' = Some n" by (simp add: num_field_def)
  moreover have "n \<in> \<int>" using n(2) by (metis Ints_of_int)
  ultimately show ?thesis
    using a n(3) \<open>v = Some j\<close> by (auto simp: isAuthUser_def as_AuthUser_def field_checks)
qed

lemma isAuthBundle_typed: "isAuthBundle v \<Longrightarrow> \<exists>b. as_AuthBundle v = Some b \<and> bundle_ok b"
  using isLoginSession_typed [of "jchain v ''session''"] isAuthUser_typed [of "jchain v ''user''"]
  by (auto simp: isAuthBundle_def hasValidTokenFields_def as_AuthBundle_def bundle_ok_def field_checks)

lemma applyAuthBundle_auth [simp]: "aw_auth (applyAuthBundle b sync w) = setBundle b (aw_auth w)"
  by (simp add: applyAuthBundle_def publishAuthSessionEvent_def Let_def)

lemma applyAuthRotation_typed:
  assumes "isAuthTokenRotation v" and "applyAuthRotation v w = Inr w'"
  shows "store_ok (aw_auth w') \<and> current_sid w' = current_sid w \<and> as_user (aw_auth w') = as_user (aw_auth w)"
proof -
  obtain session' where s: "as_LoginSession (jchain v ''session'') = Some session'" "ls_sid session' \<noteq> []"
    using assms(1) isLoginSession_typed by (auto simp: isAuthTokenRotation_def)
  obtain token ty expires where f: "str_field v ''access_token'' = Some token" "token \<noteq> []"
    "str_field v ''token_type'' = Some ty" "num_field v ''access_expires_at'' = Some expires" "expires > 0"
    using assms(1) by (auto simp: isAuthTokenRotation_def hasValidTokenFields_def field_checks)
  obtain user session where u: "as_user (aw_auth w) = Some user" "as_session (aw_auth w) = Some session"
    "ls_sid session' = ls_sid session"
    and w': "w' = applyAuthBundle \<lparr>ab_access_token = token, ab_token_type = ty, ab_access_expires_at = expires,
      ab_user = user, ab_session = session'\<rparr> False w"
    using assms s f by (auto simp: applyAuthRotation_def split: option.splits if_splits)
  show ?thesis
    unfolding w' using s(2) f(2,5) u by (simp add: bundle_ok_def current_sid_def) (simp add: setBundle_def)
qed

lemma applyAuthRotation_errors:
  assumes "isAuthTokenRotation v" shows "applyAuthRotation v w \<noteq> Inl InvalidRotation"
proof -
  obtain session' token ty expires where "as_LoginSession (jchain v ''session'') = Some session'"
    "str_field v ''access_token'' = Some token" "str_field v ''token_type'' = Some ty"
    "num_field v ''access_expires_at'' = Some expires"
    using assms isLoginSession_typed [of "jchain v ''session''"]
    by (auto simp: isAuthTokenRotation_def hasValidTokenFields_def field_checks)
  then show ?thesis using assms by (auto simp: applyAuthRotation_def split: option.splits)
qed

text \<open>An environment that keeps the store well-typed.\<close>

definition keeps_store :: "AuthEnv \<Rightarrow> bool" where
  "keeps_store env \<longleftrightarrow>
     (\<forall>n sid w. store_ok (aw_auth w) \<longrightarrow> store_ok (aw_auth (fst (env_request env n sid w)))) \<and>
     (\<forall>n w. store_ok (aw_auth w) \<longrightarrow> store_ok (aw_auth (env_wait env n w)))"

fun step_world :: "'w RunStep \<Rightarrow> 'w" where
  "step_world (Done outcome requested w) = w"
| "step_world (Again r a w) = w"

lemma refresh_response_store:
  assumes "keeps_store env" and "store_ok (aw_auth w)"
  shows "store_ok (aw_auth (step_world (refresh_response (auth_runtime env epoch) n r a response w)))"
proof -
  let ?rt = "auth_runtime env epoch"
  have accept: "store_ok (aw_auth (rt_acceptBundle ?rt b w))" if "rt_parseBundle ?rt x = Some b" for b x
    using that isAuthBundle_typed [of x] by (auto simp: auth_runtime_def split: if_splits)
  have rest: "store_ok (aw_auth (rt_clear ?rt sync boot w))" "store_ok (aw_auth (rt_wait ?rt n delay w))"
    "store_ok (aw_auth (rt_markTransient ?rt w))" for sync boot delay
    using assms by (simp_all add: auth_runtime_def runtime_clear_def clearAuthentication_auth keeps_store_def)
  have if_world: "step_world (if c then x else y) = (if c then step_world x else step_world y)" for c and x y :: "AuthWorld RunStep"
    by simp
  show ?thesis
    unfolding refresh_response_def Let_def abandon_or_def
    by (simp only: if_world step_world.simps option.case_distrib [of step_world] split: option.split)
       (simp add: rest assms(2) accept split: if_split_asm)
qed

lemma refresh_step_store:
  assumes "keeps_store env" and "store_ok (aw_auth w)"
  shows "store_ok (aw_auth (step_world (refresh_step (auth_runtime env epoch) n r a w)))"
proof -
  let ?rt = "auth_runtime env epoch"
  obtain w1 res where req: "env_request env n (current_sid w) w = (w1, res)" by fastforce
  then have "store_ok (aw_auth w1)" using assms unfolding keeps_store_def by (metis fst_conv)
  moreover have "rt_request ?rt n (rt_getExpectedSID ?rt w) w = (w1, requestRefresh res)"
    by (simp add: auth_runtime_def req)
  ultimately show ?thesis
    using assms(2) refresh_response_store [OF assms(1), of w1 epoch n r a "requestRefresh res"]
    by (simp add: refresh_step_def abandon_or_def)
qed

lemma run_refresh_store:
  assumes "keeps_store env" and "store_ok (aw_auth w)"
  shows "store_ok (aw_auth (snd (snd (run_refresh (auth_runtime env epoch) n r a w))))"
  using assms(2)
proof (induction "(if a then 4 else 0) + (3 - r)" arbitrary: n r a w rule: less_induct)
  case less
  note step = refresh_step_store [OF assms(1) less.prems, of epoch n r a]
  show ?case
  proof (cases "refresh_step (auth_runtime env epoch) n r a w")
    case (Done outcome requested w1)
    then show ?thesis using step by (simp add: run_refresh.simps [of _ n r a w])
  next
    case (Again r' a' w1)
    have "(if a' then 4 else 0) + (3 - r') < (if a then 4 else 0) + (3 - r)"
      using refresh_step_Again [OF Again] by (auto simp: race_delays)
    from less.hyps [OF this, of w1 "n + 1"] show ?thesis
      using step Again by (simp add: run_refresh.simps [of _ n r a w])
  qed
qed

text \<open>
  C21. The checks on values of the server are sound for the declared types, and the store stays
  well-typed: a value that passes \<open>isAuthBundle\<close> has every required field of a bundle with its
  type and a token, an expiry and a session that are not falsy; a rotation that passes its
  check is applied only to the session it belongs to and keeps the user; and a refresh keeps
  token, expiry and session together as long as what happens in between does.
\<close>

theorem auth_store_typed:
  "(isAuthBundle v \<longrightarrow> (\<exists>b. as_AuthBundle v = Some b \<and> bundle_ok b)) \<and>
   (isAuthTokenRotation v \<longrightarrow>
      (case applyAuthRotation v w of
         Inl e \<Rightarrow> e \<noteq> InvalidRotation
       | Inr w' \<Rightarrow> store_ok (aw_auth w') \<and> current_sid w' = current_sid w \<and> as_user (aw_auth w') = as_user (aw_auth w))) \<and>
   (keeps_store env \<and> store_ok (aw_auth w) \<longrightarrow> store_ok (aw_auth (snd (snd (runRefresh env epoch w)))))"
proof (intro conjI impI)
  assume "isAuthBundle v"
  then show "\<exists>b. as_AuthBundle v = Some b \<and> bundle_ok b" by (rule isAuthBundle_typed)
next
  assume v: "isAuthTokenRotation v"
  show "case applyAuthRotation v w of
      Inl e \<Rightarrow> e \<noteq> InvalidRotation
    | Inr w' \<Rightarrow> store_ok (aw_auth w') \<and> current_sid w' = current_sid w \<and> as_user (aw_auth w') = as_user (aw_auth w)"
    using applyAuthRotation_errors [OF v, of w] applyAuthRotation_typed [OF v, of w]
    by (cases "applyAuthRotation v w") simp_all
next
  assume "keeps_store env \<and> store_ok (aw_auth w)"
  then show "store_ok (aw_auth (snd (snd (runRefresh env epoch w))))"
    by (simp add: runRefresh_def createRefreshRunner_def run_refresh_store)
qed

definition witness_bundle :: json where
  "witness_bundle = JObj [(''access_token'', JStr ''t''), (''token_type'', JStr ''Bearer''), (''access_expires_at'', JNum 9),
     (''user'', JObj [(''id'', JNum 1), (''username'', JStr ''u''), (''role'', JNum 1)]),
     (''session'', JObj [(''sid'', JStr ''s''), (''current'', JBool True), (''login_method'', JStr ''password''),
        (''ip'', JStr ''::1''), (''user_agent'', JStr ''x''), (''created_at'', JNum 1), (''last_active_at'', JNum 1),
        (''expires_at'', JNum 9)])]"

theorem auth_store_typed_witness:
  "(\<exists>b. as_AuthBundle (Some witness_bundle) = Some b \<and> bundle_ok b) \<and>
   applyAuthRotation (Some witness_bundle) initial_auth_world \<noteq> Inl InvalidRotation \<and>
   store_ok (aw_auth (snd (snd (runRefresh race_env 0 initial_auth_world))))"
proof -
  have "isAuthBundle (Some witness_bundle)" "isAuthTokenRotation (Some witness_bundle)" by code_simp+
  moreover have "keeps_store race_env" by (simp add: keeps_store_def race_env_def)
  moreover have "store_ok (aw_auth initial_auth_world)"
    by (simp add: store_ok_def initial_auth_world_def initial_auth_def)
  ultimately show ?thesis
    using auth_store_typed [of "Some witness_bundle" initial_auth_world race_env 0]
    by (cases "applyAuthRotation (Some witness_bundle) initial_auth_world") simp_all
qed

section \<open>Headers and tabs\<close>

lemma fresh_headers_bearer:
  assumes "getFreshAuthHeaders now w = (Headers hs, w')"
  shows "\<exists>token e. as_accessToken (aw_auth w) = Some token \<and> as_accessExpiresAt (aw_auth w) = Some e \<and> e > now + 60 \<and>
    (''Authorization'', ''Bearer '' @ token) \<in> set hs \<and> w' = w"
  using assms
  by (auto simp: getFreshAuthHeaders_def token_until_def getCommonHeaders_def opt_str_def
      split: if_splits option.splits prod.splits)

lemma refresh_shared:
  assumes "refreshAuthentication w = (p, started, w1)"
  shows "refreshAuthentication w1 = (p, None, w1)" and "aw_refreshPromise (refresh_settled w1) = None"
  using assms by (auto simp: refreshAuthentication_def refresh_settled_def split: option.splits)

text \<open>The event of a tab that signs out makes exactly the tabs of the same session sign out.\<close>

lemma sign_out_event:
  assumes "store_ok (aw_auth w)" and "ev_kind event = SYNC_SIGNED_OUT"
  shows "on_sync_event event w = (if current_sid w = Some (ev_sid event)
      then ([NavigateSignIn], clearAuthenticatedClientState False w) else ([], w))"
proof -
  have "opt_str (current_sid w) \<noteq> [] \<longleftrightarrow> current_sid w \<noteq> None"
    using assms(1) by (auto simp: store_ok_def current_sid_def opt_str_def split: option.splits)
  then show ?thesis using assms(2) by (auto simp: on_sync_event_def Let_def)
qed

end
