(* ===== verification/Auth_Redirect.thy ===== *)
theory Auth_Redirect
  imports Search_Params Auth_Refresh
begin

text \<open>
  Where the user goes before and after signing in: \<open>features/auth/lib/auth-redirect.ts\<close>, the
  hook \<open>features/auth/hooks/use-auth-redirect.ts\<close>, the languages of \<open>i18n/languages.ts\<close> and
  the components \<open>RequireAuth\<close> and \<open>RequireGuest\<close> of \<open>routes/guards.tsx\<close>.

  Every definition that parses a URL takes the host parser as its first argument.
\<close>

section \<open>Redirect targets\<close>

definition allowedRedirectProtocols :: "string list" where
  "allowedRedirectProtocols = [''http:'', ''https:'']"

definition AUTH_GUEST_PATH_PREFIXES :: "string list" where
  "AUTH_GUEST_PATH_PREFIXES = [''/sign-in'', ''/sign-up'', ''/register'', ''/otp'', ''/forgot-password'', ''/reset'',
     ''/user/reset'']"

definition isAuthGuestRedirectPath :: "string \<Rightarrow> bool" where
  "isAuthGuestRedirectPath pathname \<longleftrightarrow>
     pathname = ''/oauth'' \<or> prefix ''/oauth/'' pathname \<or>
     list_ex (\<lambda>p. pathname = p \<or> prefix (p @ ''/'') pathname) AUTH_GUEST_PATH_PREFIXES"

definition sanitizeAuthRedirect :: "(string \<Rightarrow> string option) \<Rightarrow> json option \<Rightarrow> string \<Rightarrow> string option" where
  "sanitizeAuthRedirect hp value origin =
     (case value of
        Some (JStr v) \<Rightarrow>
          (let target = js_trim v in
           if target = [] \<or> js_includes target [CHR 0x5C] \<or> prefix ''//'' target then None
           else (case new_URL hp origin None of
               Http trustedOrigin \<Rightarrow>
                 if url_protocol trustedOrigin \<notin> set allowedRedirectProtocols then None
                 else (case (if prefix ''/'' target then new_URL hp target (Some (url_origin trustedOrigin))
                             else new_URL hp target None) of
                     Http redirectURL \<Rightarrow>
                       if url_protocol redirectURL \<notin> set allowedRedirectProtocols \<or>
                          url_origin redirectURL \<noteq> url_origin trustedOrigin then None
                       else if isAuthGuestRedirectPath (url_pathname redirectURL) then None
                       else Some (url_pathname redirectURL @ url_search redirectURL @ url_hash redirectURL)
                   | _ \<Rightarrow> None)
             | _ \<Rightarrow> None))
      | _ \<Rightarrow> None)"

text \<open>The base of \<open>new URL(safePath, origin)\<close> has parsed before, when \<open>safePath\<close> was computed.\<close>

definition buildSignInRedirectParam :: "(string \<Rightarrow> string option) \<Rightarrow> string \<Rightarrow> string \<Rightarrow> string option" where
  "buildSignInRedirectParam hp requestUrl origin =
     (case sanitizeAuthRedirect hp (Some (JStr requestUrl)) origin of
        None \<Rightarrow> None
      | Some safePath \<Rightarrow>
          if safePath = [] then None
          else if prefix ''http://'' requestUrl \<or> prefix ''https://'' requestUrl
          then (case new_URL hp safePath (Some origin) of Http u \<Rightarrow> Some (url_href u) | _ \<Rightarrow> None)
          else Some (origin @ safePath))"

definition signInPathWithRedirect :: "(string \<Rightarrow> string option) \<Rightarrow> string \<Rightarrow> string \<Rightarrow> string" where
  "signInPathWithRedirect hp requestUrl origin =
     (case buildSignInRedirectParam hp requestUrl origin of
        None \<Rightarrow> ''/sign-in''
      | Some redirectParam \<Rightarrow>
          if redirectParam = [] then ''/sign-in'' else ''/sign-in?redirect='' @ encodeURIComponent redirectParam)"

section \<open>Languages\<close>

definition dashed :: "string \<Rightarrow> string" where
  "dashed s = map (\<lambda>c. if c = CHR ''_'' then CHR ''-'' else c) s"

definition isChineseLanguage :: "string \<Rightarrow> bool" where
  "isChineseLanguage value =
     (let lower = js_lower (dashed (js_trim value)) in
      lower = ''zhcn'' \<or> lower = ''zhtw'' \<or> lower = ''zh-hans'' \<or> lower = ''zh-hant'' \<or> prefix ''zh'' lower)"

definition normalizeInterfaceLanguage :: "string option \<Rightarrow> string" where
  "normalizeInterfaceLanguage value =
     (if opt_str value = [] then ''en''
      else if isChineseLanguage (opt_str value) then ''zhCN''
      else ''en'')"

definition convertDetectedLanguage :: "string \<Rightarrow> string" where
  "convertDetectedLanguage value = (if isChineseLanguage value then ''zhCN'' else value)"

definition language_of :: "json option \<Rightarrow> string option" where
  "language_of v = str_field v ''language''"

definition getSavedLanguage :: "json \<Rightarrow> string option" where
  "getSavedLanguage user =
     (case language_of (Some user) of
        Some l \<Rightarrow> Some l
      | None \<Rightarrow>
          (case jget user ''setting'' of
             Some (JStr text) \<Rightarrow> (case json_parse text of None \<Rightarrow> None | Some setting \<Rightarrow> language_of (Some setting))
           | Some setting \<Rightarrow> if is_object (Some setting) then language_of (Some setting) else None
           | None \<Rightarrow> None))"

section \<open>Signing in\<close>

definition defaultTarget :: string where
  "defaultTarget = ''/analytics/usage''"

definition href_options :: "string \<Rightarrow> NavigateOptions" where
  "href_options href = \<lparr>nav_to = None, nav_href = Some href, nav_params = (\<lambda>_. None), nav_search = NoSearch,
     nav_hash = None\<rparr>"

text \<open>
  The language that \<open>handleLoginSuccess\<close> changes to, if any, the target that the router gets and
  the session afterwards.
\<close>

definition handleLoginSuccess ::
  "(string \<Rightarrow> string option) \<Rightarrow> string \<Rightarrow> string \<Rightarrow> AuthBundle \<Rightarrow> json option \<Rightarrow> AuthWorld \<Rightarrow>
     string option \<times> (js_error + string) \<times> AuthWorld" where
  "handleLoginSuccess hp origin currentLanguage bundle redirectTo w =
     (let savedLang = getSavedLanguage (au_value (ab_user bundle));
          language = (if opt_str savedLang \<noteq> [] then Some (normalizeInterfaceLanguage savedLang) else None);
          targetPath = nullish (sanitizeAuthRedirect hp redirectTo origin) defaultTarget
      in (if language \<noteq> None \<and> language \<noteq> Some currentLanguage then language else None,
          resolveNavigateTarget hp origin (href_options targetPath) [] [],
          applyAuthBundle bundle True w))"

text \<open>What the two components render: a navigation or the page below them.\<close>

datatype GuardView = NavigateTo string | RenderPage

definition RequireAuth :: "(string \<Rightarrow> string option) \<Rightarrow> string \<Rightarrow> string \<Rightarrow> AuthState \<Rightarrow> GuardView" where
  "RequireAuth hp href origin auth =
     (if as_user auth = None \<or> opt_str (as_accessToken auth) = [] then NavigateTo (signInPathWithRedirect hp href origin)
      else RenderPage)"

definition RequireGuest ::
  "(string \<Rightarrow> string option) \<Rightarrow> string \<Rightarrow> string \<Rightarrow> AuthState \<Rightarrow> js_error + GuardView" where
  "RequireGuest hp search origin auth =
     (if as_user auth \<noteq> None then
        (case params_parse search of
           None \<Rightarrow> Inl IllTyped
         | Some params \<Rightarrow>
             Inr (NavigateTo (nullish (sanitizeAuthRedirect hp (map_option JStr (params_get ''redirect'' params)) origin)
               defaultTarget)))
      else Inr RenderPage)"

section \<open>Texts of URLs\<close>

text \<open>Encoding characters that are neither a percent sign nor a hexadecimal digit does not change what is decoded.\<close>

lemma hex_head:
  assumes "percent_encode P s = a # t" and "hex_val a \<noteq> None"
  shows "\<exists>s'. s = a # s' \<and> percent_encode P s' = t"
proof (cases s)
  case Nil
  then show ?thesis using assms(1) by (simp add: percent_encode_def)
next
  case (Cons x s')
  have "hex_val CHR ''%'' = None" by code_simp
  then have "\<not> P x"
    using assms unfolding Cons percent_encode_def utf8_def percent_byte_def Let_def by (auto split: if_splits)
  then show ?thesis using assms(1) Cons by (simp add: percent_encode_def)
qed

lemma percent_decode_plain:
  assumes "\<nexists>a b t x y. s = a # b # t \<and> hex_val a = Some x \<and> hex_val b = Some y"
  shows "percent_decode (CHR ''%'' # s) = 37 # percent_decode s"
  using assms unfolding percent_decode.simps(2) by (auto simp del: percent_decode.simps split: list.split option.split)

lemma percent_decode_reencode:
  assumes P: "\<not> P CHR ''%''" "\<And>c. hex_val c \<noteq> None \<Longrightarrow> \<not> P c"
  shows "percent_decode (percent_encode P s) = percent_decode s"
proof (induction s rule: length_induct)
  case (1 s)
  have IH: "percent_decode (percent_encode P t) = percent_decode t" if "length t < length s" for t
    using 1 that by blast
  show ?case
  proof (cases s)
    case Nil
    then show ?thesis by (simp add: percent_encode_def)
  next
    case s: (Cons c r)
    then have IHr: "percent_decode (percent_encode P r) = percent_decode r" using IH by simp
    show ?thesis
    proof (cases "c = CHR ''%''")
      case False
      have "percent_encode P s = (if P c then concat (map percent_byte (utf8 c)) else [c]) @ percent_encode P r"
        by (simp add: percent_encode_def s)
      then show ?thesis using IHr False by (simp add: percent_decode_char s)
    next
      case c: True
      have enc: "percent_encode P s = CHR ''%'' # percent_encode P r" using P(1) c by (simp add: percent_encode_def s)
      show ?thesis
      proof (cases "\<exists>a b t x y. r = a # b # t \<and> hex_val a = Some x \<and> hex_val b = Some y")
        case True
        then obtain a b t x y where r: "r = a # b # t" and hex: "hex_val a = Some x" "hex_val b = Some y" by blast
        then have "percent_encode P r = a # b # percent_encode P t" using P(2) by (simp add: percent_encode_def)
        moreover have "percent_decode (percent_encode P t) = percent_decode t" using IH s r by simp
        ultimately show ?thesis unfolding enc by (simp add: c s r hex)
      next
        case False
        then have "\<nexists>a b t x y. percent_encode P r = a # b # t \<and> hex_val a = Some x \<and> hex_val b = Some y"
          using hex_head by (metis option.distinct(1))
        from percent_decode_plain [OF this] have "percent_decode (percent_encode P s) = 37 # percent_decode r"
          unfolding enc IHr .
        moreover have "percent_decode s = 37 # percent_decode r" unfolding s c by (rule percent_decode_plain [OF False])
        ultimately show ?thesis by simp
      qed
    qed
  qed
qed

section \<open>Safety of redirect targets\<close>

lemma protocol_allowed: "wf_url hp u \<Longrightarrow> url_protocol u \<in> set allowedRedirectProtocols"
  by (auto simp: wf_url_def url_protocol_def allowedRedirectProtocols_def)

text \<open>The part of a URL that the source keeps of it, and the URL that the part stands for on a site.\<close>

definition local_part :: "Url \<Rightarrow> string" where
  "local_part u = url_pathname u @ url_search u @ url_hash u"

definition on_site :: "Url \<Rightarrow> Url \<Rightarrow> Url" where
  "on_site b u = b\<lparr>url_path := url_path u, url_query := nonempty_part (url_query u),
     url_fragment := nonempty_part (url_fragment u)\<rparr>"

lemma on_site_parts [simp]:
  "url_origin (on_site b u) = url_origin b" "url_pathname (on_site b u) = url_pathname u"
  "url_search (on_site b u) = url_search u" "url_hash (on_site b u) = url_hash u"
  "local_part (on_site b u) = local_part u"
  by (simp_all add: on_site_def url_origin_def url_pathname_def url_search_def url_hash_def nonempty_part_def
      local_part_def)

lemma bare_origin [simp]: "url_origin (b\<lparr>url_path := p, url_query := q, url_fragment := f\<rparr>) = url_origin b"
  by (simp add: url_origin_def)

lemma local_part_slash: "path_ok (url_path u) \<Longrightarrow> prefix ''/'' (local_part u)"
  by (simp add: local_part_def pathname_text)

lemma local_part_prefix: "path_ok (url_path u) \<Longrightarrow> prefix ''//'' (local_part u) \<longleftrightarrow> prefix ''//'' (url_pathname u)"
  by (cases "path_text (url_path u)")
     (auto simp: local_part_def pathname_text url_search_def url_hash_def with_mark_def split: option.split)

context host_parser
begin

lemma origin_URL:
  assumes "wf_url hp b"
  shows "new_URL hp (url_origin b) None = Http (b\<lparr>url_path := [[]], url_query := None, url_fragment := None\<rparr>)"
  using origin_read [OF assms] by (simp add: new_URL_def)

lemma bare_wf: "wf_url hp b \<Longrightarrow> wf_url hp (b\<lparr>url_path := [[]], url_query := None, url_fragment := None\<rparr>)"
  using wf_site by (simp add: wf_site_def)

lemma new_URL_wf: "new_URL hp s base = Http u \<Longrightarrow> wf_url hp u"
  by (cases base) (auto simp: new_URL_def split: UrlResult.splits option.splits dest: url_wf)

lemma on_site_bare: "on_site (b\<lparr>url_path := p, url_query := q, url_fragment := f\<rparr>) u = on_site b u"
  by (simp add: on_site_def)

lemma local_part_URL:
  assumes b: "wf_url hp b" and u: "wf_url hp u" and single: "\<not> prefix ''//'' (url_pathname u)"
  shows "new_URL hp (local_part u) (Some (url_origin b)) = Http (on_site b u)"
proof -
  have "nonempty_part x = x \<or> nonempty_part x = None" for x by (simp add: nonempty_part_def)
  then have "parse_url hp (Some (b\<lparr>url_path := [[]], url_query := None, url_fragment := None\<rparr>)) (local_part u) =
      Http (on_site (b\<lparr>url_path := [[]], url_query := None, url_fragment := None\<rparr>) u)"
    unfolding local_part_def url_search_def url_hash_def on_site_def
    by (intro reference_read [OF u bare_wf [OF b] single])
  then show ?thesis using origin_read [OF b] by (simp add: new_URL_def on_site_bare)
qed

lemma sanitize_result:
  assumes "sanitizeAuthRedirect hp v (url_origin b) = Some r" and b: "wf_url hp b"
  shows "\<exists>u. wf_url hp u \<and> r = local_part u \<and> url_origin u = url_origin b \<and> \<not> isAuthGuestRedirectPath (url_pathname u)"
proof -
  from assms(1) obtain s base u where "new_URL hp s base = Http u" "r = local_part u"
      "url_origin u = url_origin b" "\<not> isAuthGuestRedirectPath (url_pathname u)"
    by (auto simp: sanitizeAuthRedirect_def Let_def local_part_def origin_URL [OF b]
        split: option.splits json.splits if_splits UrlResult.splits)
  then show ?thesis using new_URL_wf by blast
qed

lemma sanitize_safe:
  assumes r: "sanitizeAuthRedirect hp v (url_origin b) = Some r" and b: "wf_url hp b" and single: "\<not> prefix ''//'' r"
  shows "\<exists>u. new_URL hp r (Some (url_origin b)) = Http u \<and> url_origin u = url_origin b \<and> local_part u = r \<and>
    \<not> isAuthGuestRedirectPath (url_pathname u)"
proof -
  from sanitize_result [OF r b] obtain u where u: "wf_url hp u" "r = local_part u"
    and guest: "\<not> isAuthGuestRedirectPath (url_pathname u)" by blast
  then have "\<not> prefix ''//'' (url_pathname u)" using single local_part_prefix [of u] by (simp add: wf_url_def)
  from local_part_URL [OF b u(1) this] u(2) guest show ?thesis by auto
qed

text \<open>Whatever the target, navigating to it goes to the address that was checked, unless that begins with two slashes.\<close>

lemma navigate_safe:
  assumes r: "sanitizeAuthRedirect hp v (url_origin b) = Some r" and b: "wf_url hp b" and single: "\<not> prefix ''//'' r"
  shows "resolveNavigateTarget hp (url_origin b) (href_options r) search path = Inr r"
proof -
  obtain u where u: "new_URL hp r (Some (url_origin b)) = Http u" "url_origin u = url_origin b" "local_part u = r"
    using sanitize_safe [OF assms] by blast
  have "wf_url hp u" using u(1) by (rule new_URL_wf)
  then have "r \<noteq> []" using local_part_slash [of u] u(3) by (auto simp: wf_url_def)
  with u show ?thesis by (simp add: resolveNavigateTarget_def href_options_def Let_def local_part_def)
qed

lemma origin_chars:
  assumes "wf_url hp u"
  shows "\<forall>c \<in> set (url_origin u). visible c \<and> c \<noteq> CHR 0x5C"
proof -
  have scheme: "\<forall>c \<in> set (url_scheme u @ ''://''). visible c \<and> c \<noteq> CHR 0x5C"
    using assms by (auto simp: wf_url_def visible_def)
  have "host_char c \<Longrightarrow> visible c \<and> c \<noteq> CHR 0x5C" for c by (auto simp: host_char_def authority_end_def is_slash_def)
  moreover have "\<forall>c \<in> set (url_host u @ port_text (url_port u)). host_char c"
    using assms host_text [of "url_host u"] port_text_chars digit_host_char by (auto simp: wf_url_def host_text_def)
  ultimately show ?thesis using scheme unfolding url_origin_text by auto
qed

lemma href_visible: "wf_url hp u \<Longrightarrow> \<forall>c \<in> set (url_href u). visible c"
  using origin_chars [of u] reference_visible [of u "url_query u" "url_fragment u"] by (auto simp: url_href_def)

lemma href_head: "wf_url hp u \<Longrightarrow> \<exists>t. url_href u = CHR ''h'' # t"
  by (auto simp: url_href_def url_origin_text wf_url_def)

lemma sanitize_href:
  assumes u: "wf_url hp u" and slash: "CHR 0x5C \<notin> set (url_href u)" and origin: "url_origin u = url_origin b"
  shows "sanitizeAuthRedirect hp (Some (JStr (url_href u))) (url_origin b) =
    (if isAuthGuestRedirectPath (url_pathname u) then None else Some (local_part u))"
proof -
  have ws: "visible c \<Longrightarrow> \<not> js_ws c" for c by (auto simp: visible_def js_ws_def)
  obtain t where t: "url_href u = CHR ''h'' # t" using href_head [OF u] by blast
  have "\<forall>c \<in> set (url_href u). \<not> js_ws c" using href_visible [OF u] ws by blast
  moreover have ne: "url_href u \<noteq> []" using t by simp
  ultimately have trim: "js_trim (url_href u) = url_href u"
    using hd_in_set [OF ne] last_in_set [OF ne] by (intro js_trim_unchanged) blast+
  have "\<not> js_includes (url_href u) [CHR 0x5C]" using slash by (auto simp: js_includes_sublist sublist_def)
  moreover have "new_URL hp (url_href u) None = Http u" using href_read [OF u] by (simp add: new_URL_def)
  moreover note origin_URL [OF u] protocol_allowed [OF u] protocol_allowed [OF bare_wf [OF u]]
  ultimately show ?thesis
    unfolding sanitizeAuthRedirect_def Let_def option.case json.case trim origin [symmetric]
    by (simp add: t local_part_def)
qed

lemma on_site_wf: "wf_url hp b \<Longrightarrow> wf_url hp u \<Longrightarrow> wf_url hp (on_site b u)"
  by (auto simp: wf_url_def on_site_def nonempty_part_def)

text \<open>The parameter that sends the user back is the address itself, without an empty query or fragment.\<close>

lemma sign_in_param:
  assumes u: "wf_url hp u" and slash: "CHR 0x5C \<notin> set (url_href u)"
    and guest: "\<not> isAuthGuestRedirectPath (url_pathname u)" and single: "\<not> prefix ''//'' (url_pathname u)"
  shows "buildSignInRedirectParam hp (url_href u) (url_origin u) = Some (url_href (on_site u u))"
proof -
  have "sanitizeAuthRedirect hp (Some (JStr (url_href u))) (url_origin u) = Some (local_part u)"
    using sanitize_href [OF u slash refl] guest by simp
  moreover have "local_part u \<noteq> []" using local_part_slash [of u] u by (auto simp: wf_url_def)
  moreover have "prefix ''http://'' (url_href u) \<or> prefix ''https://'' (url_href u)"
    using u by (auto simp: wf_url_def url_href_def url_origin_text)
  moreover have "new_URL hp (local_part u) (Some (url_origin u)) = Http (on_site u u)"
    by (rule local_part_URL [OF u u single])
  ultimately show ?thesis by (simp add: buildSignInRedirectParam_def)
qed

lemma on_site_slash: "CHR 0x5C \<notin> set (url_href u) \<Longrightarrow> CHR 0x5C \<notin> set (url_href (on_site u u))"
  by (auto simp: url_href_def with_mark_def nonempty_part_def on_site_def url_origin_def url_pathname_def
      split: option.splits if_splits)

text \<open>The search of the sign-in page gives the parameter back.\<close>

lemma sign_in_query:
  assumes b: "wf_url hp b" and vis: "\<forall>c \<in> set e. visible c" and plain: "CHR ''#'' \<notin> set e"
  shows "\<exists>v. new_URL hp (''/sign-in?redirect='' @ e) (Some (url_origin b)) = Http v \<and>
    url_search v = ''?redirect='' @ percent_encode special_query_set e"
proof -
  define q where "q = percent_encode special_query_set e"
  have clean: "url_clean (''/sign-in?redirect='' @ e) = ''/sign-in?redirect='' @ e"
    using vis by (intro visible_clean) (auto simp: visible_def)
  have hash: "cut CHR ''#'' (''sign-in?redirect='' @ e) = (''sign-in?redirect='' @ e, None)"
    using cut_mark [of "CHR ''#''" "''sign-in?redirect='' @ e" None] plain by (simp add: with_mark_def)
  have mark: "cut CHR ''?'' (''sign-in?redirect='' @ e) = (''sign-in'', Some (''redirect='' @ e))"
    by (simp add: cut_def)
  have "percent_encode special_query_set (''redirect='' @ e) = percent_encode special_query_set ''redirect='' @ q"
    by (simp add: percent_encode_def q_def)
  also have "percent_encode special_query_set ''redirect='' = ''redirect=''" by code_simp
  finally have query: "percent_encode special_query_set (''redirect='' @ e) = ''redirect='' @ q" .
  define w where "w = b\<lparr>url_path := [[]], url_query := None, url_fragment := None\<rparr>"
  define v where "v = parse_tail (''sign-in?redirect='' @ e) w"
  have v: "url_query v = Some (''redirect='' @ q)"
    unfolding v_def parse_tail_def hash prod.case mark option.map query by simp
  have "parse_url hp (Some w) (''/sign-in?redirect='' @ e) = Http v"
    unfolding parse_url_def Let_def clean
    by (simp add: split_scheme_def is_alpha_def is_lower_def is_upper_def parse_relative_def is_slash_def v_def
        split: list.split)
  then have "new_URL hp (''/sign-in?redirect='' @ e) (Some (url_origin b)) = Http v"
    by (simp add: new_URL_def origin_read [OF b] flip: w_def)
  moreover have "url_search v = ''?redirect='' @ q" by (simp add: url_search_def v nonempty_part_def with_mark_def)
  ultimately show ?thesis unfolding q_def by blast
qed

end

lemma redirect_param:
  assumes amp: "CHR ''&'' \<notin> set q" and q: "form_decode q = Some p"
  shows "params_parse (''?redirect='' @ q) = Some [(''redirect'', p)]"
proof -
  have "form_decode ''redirect'' = Some ''redirect''" by code_simp
  then have "parse_pair (''redirect='' @ q) = Some (''redirect'', p)" using q by (simp add: parse_pair_def cut_def)
  moreover have "js_split CHR ''&'' (''redirect='' @ q) = [''redirect='' @ q]"
    using amp by (intro js_split_none) simp
  ultimately show ?thesis by (simp add: params_parse_def drop_question_def)
qed

lemma digit_range: "is_digit c \<Longrightarrow> 48 \<le> (of_char c :: nat) \<and> (of_char c :: nat) \<le> 57"
proof -
  have "\<forall>c \<in> set ''0123456789''. 48 \<le> (of_char c :: nat) \<and> (of_char c :: nat) \<le> 57" by code_simp
  then show "is_digit c \<Longrightarrow> 48 \<le> (of_char c :: nat) \<and> (of_char c :: nat) \<le> 57" unfolding is_digit_def by blast
qed

lemma query_range: "special_query_set c \<Longrightarrow> (of_char c :: nat) < 48 \<or> (of_char c :: nat) \<in> {60, 62} \<or> 126 < (of_char c :: nat)"
  by (auto simp: special_query_set_def query_set_def c0_set_def)

lemma alnum_plain: "is_alnum c \<Longrightarrow> \<not> special_query_set c \<and> visible c \<and> c \<noteq> CHR ''#''"
  using query_range [of c] digit_range [of c]
  by (auto simp: is_alnum_def is_alpha_def is_lower_def is_upper_def visible_def)

lemma component_query:
  "form_decode (percent_encode special_query_set (encodeURIComponent p)) = Some p"
  "CHR ''&'' \<notin> set (percent_encode special_query_set (encodeURIComponent p))"
  "\<forall>c \<in> set (encodeURIComponent p). visible c"
proof -
  define e where "e = encodeURIComponent p"
  define q where "q = percent_encode special_query_set e"
  have chars: "c \<in> set q \<Longrightarrow> encoded_char c \<or> c \<in> set e" for c using percent_encode_chars by (auto simp: q_def)
  have amp: "CHR ''&'' \<notin> set q" and plus: "CHR ''+'' \<notin> set q"
    using chars [of "CHR ''&''"] chars [of "CHR ''+''"] component_plain [of p] by (auto simp: encoded_char_def e_def)
  have "\<not> special_query_set CHR ''%''" by code_simp
  moreover have "\<not> special_query_set c" if "hex_val c \<noteq> None" for c
    using that by (auto simp: hex_val_def special_query_set_def query_set_def c0_set_def Let_def split: if_splits)
  ultimately have "percent_decode q = percent_decode e" unfolding q_def by (rule percent_decode_reencode)
  then show "form_decode (percent_encode special_query_set (encodeURIComponent p)) = Some p"
    using form_decode_component [of p] no_plus [OF plus] no_plus [OF component_plain(1) [of p]]
    by (simp add: form_decode_def flip: e_def q_def)
  show "CHR ''&'' \<notin> set (percent_encode special_query_set (encodeURIComponent p))" using amp by (simp add: q_def e_def)
  have "\<forall>c \<in> set (''-_.!~*()'' @ [CHR 0x27]). visible c" "visible CHR ''%''" by code_simp+
  then have vis: "visible c" if "c = CHR ''%'' \<or> \<not> component_set c" for c
    using that alnum_plain [of c] unfolding component_set_def by blast
  show "\<forall>c \<in> set (encodeURIComponent p). visible c" by (intro ballI vis component_chars)
qed

lemma form_query:
  "percent_encode special_query_set (form_encode p) = form_encode p" "\<forall>c \<in> set (form_encode p). visible c"
  "CHR ''#'' \<notin> set (form_encode p)"
proof -
  have char: "c = CHR ''+'' \<or> c = CHR ''%'' \<or> is_alnum c \<or> c \<in> set ''*-._''" if "c \<in> set (form_encode p)" for c
    using form_chars [OF that] encoded_alnum [of c] unfolding form_set_def by blast
  have "\<forall>c \<in> set ''+%*-._''. \<not> special_query_set c \<and> visible c \<and> c \<noteq> CHR ''#''" by code_simp
  then have plain: "\<not> special_query_set c \<and> visible c \<and> c \<noteq> CHR ''#''"
    if "c = CHR ''+'' \<or> c = CHR ''%'' \<or> is_alnum c \<or> c \<in> set ''*-._''" for c
    using that alnum_plain [of c] by auto
  have "\<forall>c \<in> set (form_encode p). \<not> special_query_set c \<and> visible c \<and> c \<noteq> CHR ''#''" by (intro ballI plain char)
  then show "percent_encode special_query_set (form_encode p) = form_encode p" "\<forall>c \<in> set (form_encode p). visible c"
    "CHR ''#'' \<notin> set (form_encode p)"
    by (auto intro: percent_encode_id)
qed

context host_parser
begin

lemma sign_in_search:
  assumes b: "wf_url hp b"
  shows "\<exists>v. new_URL hp (''/sign-in?redirect='' @ encodeURIComponent p) (Some (url_origin b)) = Http v \<and>
    params_parse (url_search v) = Some [(''redirect'', p)]"
  using sign_in_query [OF b component_query(3) component_plain(4)] redirect_param [OF component_query(2,1)] by metis

lemma sign_in_form_search:
  assumes b: "wf_url hp b"
  shows "\<exists>v. new_URL hp (''/sign-in?redirect='' @ form_encode p) (Some (url_origin b)) = Http v \<and>
    params_parse (url_search v) = Some [(''redirect'', p)]"
  using sign_in_query [OF b form_query(2,3)] redirect_param [OF form_encode_plain(1) form_decode_encode]
  unfolding form_query(1) by metis

text \<open>Both ways to the sign-in page lead back to the page that was asked for.\<close>

lemma guest_returns:
  assumes u: "wf_url hp u" and slash: "CHR 0x5C \<notin> set (url_href u)"
    and guest: "\<not> isAuthGuestRedirectPath (url_pathname u)" and user: "as_user auth = Some user"
    and search: "params_parse search = Some [(''redirect'', url_href (on_site u u))]"
  shows "RequireGuest hp search (url_origin u) auth = Inr (NavigateTo (local_part u))"
proof -
  have "sanitizeAuthRedirect hp (Some (JStr (url_href (on_site u u)))) (url_origin u) = Some (local_part u)"
    using sanitize_href [OF on_site_wf [OF u u] on_site_slash [OF slash], of u] guest by simp
  then show ?thesis using user search by (simp add: RequireGuest_def params_get_def)
qed

lemma double_slash_aux:
  assumes b: "wf_url hp b" and h: "hp h = Some h" "seg_ok h"
  shows "sanitizeAuthRedirect hp (Some (JStr (url_origin b @ ''//'' @ h))) (url_origin b) = Some (''//'' @ h)"
    and "\<exists>u. new_URL hp (''//'' @ h) (Some (url_origin b)) = Http u \<and> url_origin u = url_scheme b @ ''://'' @ h"
proof -
  define u where "u = b\<lparr>url_path := [[], h], url_query := None, url_fragment := None\<rparr>"
  have u: "wf_url hp u" using b h(2) by (simp add: u_def wf_url_def path_ok_def seg_ok_Nil)
  have href: "url_href u = url_origin b @ ''//'' @ h"
    by (simp add: u_def url_href_def url_pathname_def with_mark_def)
  have path: "url_pathname u = ''//'' @ h" "local_part u = ''//'' @ h"
    by (simp_all add: u_def local_part_def url_pathname_def url_search_def url_hash_def nonempty_part_def with_mark_def)
  have "CHR 0x5C \<notin> set (url_href u)"
    using origin_chars [OF b] h(2) by (auto simp: href seg_ok_def is_slash_def)
  moreover have "url_origin u = url_origin b" by (simp add: u_def)
  moreover have "\<not> isAuthGuestRedirectPath (''//'' @ h)"
    by (simp add: isAuthGuestRedirectPath_def AUTH_GUEST_PATH_PREFIXES_def)
  ultimately have "sanitizeAuthRedirect hp (Some (JStr (url_href u))) (url_origin b) = Some (''//'' @ h)"
    using sanitize_href [OF u, of b] by (simp add: path)
  then show "sanitizeAuthRedirect hp (Some (JStr (url_origin b @ ''//'' @ h))) (url_origin b) = Some (''//'' @ h)"
    unfolding href .
  define w where "w = b\<lparr>url_path := [[]], url_query := None, url_fragment := None\<rparr>"
  have host: "host_text h" using host_text [OF h(1)] .
  have "\<forall>c \<in> set (''//'' @ h). visible c" using host by (auto simp: host_text_def host_char_def visible_def)
  then have clean: "url_clean (''//'' @ h) = ''//'' @ h" by (rule visible_clean)
  have "\<not> is_slash (hd h)" "h \<noteq> []" using host by (cases h; auto simp: host_text_def host_char_def authority_end_def)+
  then have "dropWhile is_slash h = h" by (simp add: dropWhile_eq_self_iff)
  then have relative: "parse_relative hp w (''//'' @ h) = parse_authority hp (url_scheme b) h"
    using \<open>h \<noteq> []\<close> by (simp add: parse_relative_def w_def is_slash_def [of "CHR ''/''"])
  have "parse_authority hp (url_scheme b) h = Http (parse_tail [] \<lparr>url_scheme = url_scheme b, url_host = h,
      url_port = None, url_path = [], url_query = None, url_fragment = None\<rparr>)"
    using parse_authority_text [OF host, of "url_scheme b" None hp "[]"] h(1)
    by (simp add: port_ok_def port_text_def with_mark_def drop_slash_def)
  then have "\<exists>u. parse_relative hp w (''//'' @ h) = Http u \<and> url_origin u = url_scheme b @ ''://'' @ h"
    unfolding relative by (simp add: parse_tail_def url_origin_def split: prod.split)
  moreover have "split_scheme (''//'' @ h) = None"
    by (simp add: split_scheme_def is_alpha_def is_lower_def is_upper_def split: list.split)
  ultimately have "\<exists>u. parse_url hp (Some w) (''//'' @ h) = Http u \<and> url_origin u = url_scheme b @ ''://'' @ h"
    unfolding parse_url_def Let_def clean by simp
  then show "\<exists>u. new_URL hp (''//'' @ h) (Some (url_origin b)) = Http u \<and> url_origin u = url_scheme b @ ''://'' @ h"
    by (simp add: new_URL_def origin_read [OF b] flip: w_def)
qed

lemma double_slash_navigates:
  assumes b: "wf_url hp b" and h: "hp h = Some h" "seg_ok h" "h \<noteq> url_host b"
  shows "resolveNavigateTarget hp (url_origin b) (href_options (''//'' @ h)) search path = Inr (''//'' @ h)"
proof -
  obtain u where u: "new_URL hp (''//'' @ h) (Some (url_origin b)) = Http u" "url_origin u = url_scheme b @ ''://'' @ h"
    using double_slash_aux(2) [OF b h(1,2)] by blast
  have "host_text h" "host_text (url_host b)" using host_text [OF h(1)] host_text b by (auto simp: wf_url_def)
  from split_port_text [OF this(1), of None] split_port_text [OF this(2)] h(3)
  have "h \<noteq> url_host b @ port_text (url_port b)" by (auto simp: port_text_def with_mark_def [of _ None])
  then have "url_origin u \<noteq> url_origin b" by (simp add: u(2) url_origin_text [of b])
  with u(1) show ?thesis by (simp add: resolveNavigateTarget_def href_options_def)
qed

end

section \<open>Properties\<close>

text \<open>A page of the console and its search, for the examples below.\<close>

definition example_page :: Url where
  "example_page = \<lparr>url_scheme = ''https'', url_host = ''app.example'', url_port = None, url_path = [''console'', ''log''],
     url_query = Some ''tab=usage'', url_fragment = Some []\<rparr>"

lemma example_page_wf: "wf_url ascii_host example_page"
proof -
  have "ascii_host ''app.example'' = Some ''app.example''" by code_simp
  moreover have "seg_ok ''console'' \<and> seg_ok ''log''" by code_simp
  moreover have "\<forall>c \<in> set ''tab=usage''. \<not> special_query_set c" by code_simp
  ultimately show ?thesis by (simp add: example_page_def wf_url_def path_ok_def port_ok_def)
qed

text \<open>
  C5. A redirect target that \<open>sanitizeAuthRedirect\<close> accepts on a page, and that does not begin
  with two slashes, stays on the origin of the page: resolved against that origin it is a URL
  of the same origin with exactly this path, search and hash, the path is none of the pages of
  a guest, and the router navigates to the target unchanged.
\<close>

theorem redirect_same_origin:
  assumes "host_parser hp" and "wf_url hp b" and "sanitizeAuthRedirect hp v (url_origin b) = Some r"
    and "\<not> prefix ''//'' r"
  shows "(\<exists>u. new_URL hp r (Some (url_origin b)) = Http u \<and> url_origin u = url_origin b \<and>
      url_pathname u @ url_search u @ url_hash u = r \<and> \<not> isAuthGuestRedirectPath (url_pathname u)) \<and>
    resolveNavigateTarget hp (url_origin b) (href_options r) search path = Inr r"
  using host_parser.sanitize_safe [OF assms(1,3,2,4)] host_parser.navigate_safe [OF assms(1,3,2,4)]
  by (simp add: local_part_def)

theorem redirect_same_origin_witness:
  "resolveNavigateTarget ascii_host (url_origin example_page) (href_options ''/keys?page=2'') [] [] = Inr ''/keys?page=2''"
proof -
  have "sanitizeAuthRedirect ascii_host (Some (JStr '' /keys/../keys?page=2'')) (url_origin example_page) = Some ''/keys?page=2''"
    by code_simp
  from redirect_same_origin [OF ascii.host_parser_axioms example_page_wf this, of "[]" "[]"] show ?thesis by simp
qed

text \<open>
  C40. The check does not reject what it means to reject. It refuses a target that begins with
  two slashes, because such a target names another host, but the path it returns may begin
  with two slashes itself: for every host, the address of the page's own origin followed by two
  slashes and that host is accepted, the value that \<open>handleLoginSuccess\<close> gives to the router
  begins with two slashes, and resolved against the origin it is a URL of that host.
\<close>

theorem redirect_double_slash:
  assumes "host_parser hp" and "wf_url hp b" and "hp h = Some h" and "seg_ok h" and "h \<noteq> url_host b"
  shows "fst (snd (handleLoginSuccess hp (url_origin b) lang bundle (Some (JStr (url_origin b @ ''//'' @ h))) w)) =
      Inr (''//'' @ h) \<and>
    (\<exists>u. new_URL hp (''//'' @ h) (Some (url_origin b)) = Http u \<and> url_origin u = url_scheme b @ ''://'' @ h)"
  using host_parser.double_slash_aux [OF assms(1-4)] host_parser.double_slash_navigates [OF assms]
  by (simp add: handleLoginSuccess_def Let_def)

theorem redirect_double_slash_witness:
  "fst (snd (handleLoginSuccess ascii_host ''https://app.example'' ''en'' (the (as_AuthBundle (Some witness_bundle)))
      (Some (JStr ''https://app.example//evil.example'')) initial_auth_world)) = Inr ''//evil.example'' \<and>
    (\<exists>u. new_URL ascii_host ''//evil.example'' (Some ''https://app.example'') = Http u \<and> url_origin u = ''https://evil.example'')"
proof -
  have origin: "url_origin example_page = ''https://app.example''" by code_simp
  have "ascii_host ''evil.example'' = Some ''evil.example''" "seg_ok ''evil.example''" by code_simp+
  moreover have "''evil.example'' \<noteq> url_host example_page" by (simp add: example_page_def)
  ultimately show ?thesis
    using redirect_double_slash [OF ascii.host_parser_axioms example_page_wf, of "''evil.example''" "''en''"
      "the (as_AuthBundle (Some witness_bundle))" initial_auth_world]
    unfolding origin by (simp add: example_page_def)
qed

end
