(* ===== verification/Nav_Modules.thy ===== *)
theory Nav_Modules
  imports Json_Roundtrip
begin

text \<open>
  The modules of the navigation: how the application reads them (\<open>lib/nav-modules.ts\<close>,
  \<open>hooks/use-sidebar-config.ts\<close>) and how the settings page of the administrator edits them
  (\<open>features/system-settings/maintenance/config.ts\<close> and \<open>header-navigation-section.tsx\<close>).

  Both sides read the same two options of the server, texts that hold JSON. A configuration is
  the list of the entries of its object. The keys of \<open>__proto__\<close> reach no entry, because an
  assignment of a boolean to that name is ignored.
\<close>

section \<open>Entries of a value\<close>

text \<open>\<open>Object.entries\<close>; on null it throws.\<close>

definition index_key :: "nat \<Rightarrow> string" where
  "index_key i = int_digits (int i)"

definition js_entries :: "json \<Rightarrow> (string \<times> json) list option" where
  "js_entries j = (case j of
      JNull \<Rightarrow> None
    | JObj kvs \<Rightarrow> Some kvs
    | JArr xs \<Rightarrow> Some (zip (map index_key [0..<length xs]) xs)
    | JStr s \<Rightarrow> Some (zip (map index_key [0..<length s]) (map (\<lambda>c. JStr [c]) s))
    | _ \<Rightarrow> Some [])"

definition is_simple :: "json option \<Rightarrow> bool" where
  \<comment> \<open>A boolean, a number or a string.\<close>
  "is_simple v = (case v of Some (JBool _) \<Rightarrow> True | Some (JNum _) \<Rightarrow> True | Some (JStr _) \<Rightarrow> True | _ \<Rightarrow> False)"

definition bool_text :: "string \<Rightarrow> bool option" where
  "bool_text s =
     (let normalized = js_lower (js_trim s) in
      if normalized = ''true'' \<or> normalized = ''1'' then Some True
      else if normalized = ''false'' \<or> normalized = ''0'' then Some False
      else None)"

section \<open>The header of the application\<close>

record ModuleAccess =
  ma_enabled :: bool
  ma_requireAuth :: bool

datatype NavValue = NavFlag bool | NavAccess ModuleAccess

type_synonym HeaderNavModules = "(string \<times> NavValue) list"

definition open_access :: ModuleAccess where
  "open_access = \<lparr>ma_enabled = True, ma_requireAuth = False\<rparr>"

definition DEFAULT_HEADER_NAV_MODULES :: HeaderNavModules where
  "DEFAULT_HEADER_NAV_MODULES = [(''home'', NavFlag True), (''console'', NavFlag True), (''pricing'', NavAccess open_access),
     (''rankings'', NavAccess open_access), (''docs'', NavFlag True), (''about'', NavFlag True)]"

definition access_of :: "HeaderNavModules \<Rightarrow> string \<Rightarrow> ModuleAccess" where
  "access_of m k = (case map_of m k of Some (NavAccess a) \<Rightarrow> a | _ \<Rightarrow> open_access)"

definition parseHeaderNavBoolean :: "json option \<Rightarrow> bool \<Rightarrow> bool" where
  "parseHeaderNavBoolean raw fallback =
     (case raw of
        Some (JBool b) \<Rightarrow> b
      | Some (JNum n) \<Rightarrow> if n = 1 then True else if n = 0 then False else fallback
      | Some (JStr s) \<Rightarrow> nullish (bool_text s) fallback
      | _ \<Rightarrow> fallback)"

definition parseAccess :: "json option \<Rightarrow> ModuleAccess \<Rightarrow> ModuleAccess" where
  "parseAccess raw fallback =
     (if is_simple raw then
        \<lparr>ma_enabled = parseHeaderNavBoolean raw (ma_enabled fallback), ma_requireAuth = ma_requireAuth fallback\<rparr>
      else if is_object raw then
        \<lparr>ma_enabled = parseHeaderNavBoolean (jchain raw ''enabled'') (ma_enabled fallback),
         ma_requireAuth = parseHeaderNavBoolean (jchain raw ''requireAuth'') (ma_requireAuth fallback)\<rparr>
      else fallback)"

definition parseHeaderNavRecord :: "json option \<Rightarrow> json option" where
  "parseHeaderNavRecord raw =
     (case raw of
        None \<Rightarrow> None
      | Some v \<Rightarrow>
          if \<not> truthy raw \<or> js_trim (js_String v) = [] then None
          else if is_object raw then raw
          else json_parse (js_String v))"

definition flag_or_true :: "NavValue option \<Rightarrow> bool" where
  "flag_or_true v = (case v of Some (NavFlag b) \<Rightarrow> b | _ \<Rightarrow> True)"

definition is_flag :: "NavValue option \<Rightarrow> bool" where
  "is_flag v = (case v of Some (NavFlag _) \<Rightarrow> True | _ \<Rightarrow> False)"

definition header_entry :: "HeaderNavModules \<Rightarrow> string \<times> json \<Rightarrow> HeaderNavModules" where
  "header_entry result kv =
     (case kv of (key, value) \<Rightarrow>
        if key = ''__proto__'' then result
        else if key = ''pricing'' \<or> key = ''rankings'' then
          AList.update key (NavAccess (parseAccess (Some value) (access_of result key))) result
        else if is_flag (map_of result key) \<or> is_simple (Some value) then
          AList.update key (NavFlag (parseHeaderNavBoolean (Some value) (flag_or_true (map_of result key)))) result
        else result)"

definition parseHeaderNavModules :: "json option \<Rightarrow> HeaderNavModules" where
  "parseHeaderNavModules raw =
     (case parseHeaderNavRecord raw of
        None \<Rightarrow> DEFAULT_HEADER_NAV_MODULES
      | Some parsed \<Rightarrow>
          if \<not> truthy (Some parsed) then DEFAULT_HEADER_NAV_MODULES
          else foldl header_entry DEFAULT_HEADER_NAV_MODULES (nullish (js_entries parsed) []))"

definition parseHeaderNavModulesFromStatus :: "json option \<Rightarrow> HeaderNavModules" where
  "parseHeaderNavModulesFromStatus status = parseHeaderNavModules (jchain status ''HeaderNavModules'')"

section \<open>The status of the server\<close>

text \<open>The entry \<open>status\<close> of the local storage; \<open>None\<close> is an absent one.\<close>

definition getCachedStatus :: "string option \<Rightarrow> json option" where
  "getCachedStatus stored = (if opt_str stored \<noteq> [] then json_parse (opt_str stored) else None)"

text \<open>\<open>fits\<close> tells whether the storage takes the text.\<close>

definition cacheStatus :: "(string \<Rightarrow> bool) \<Rightarrow> json option \<Rightarrow> string option \<Rightarrow> string option" where
  "cacheStatus fits status stored =
     (case status of
        Some v \<Rightarrow> if truthy status \<and> fits (json_stringify v) then Some (json_stringify v) else stored
      | None \<Rightarrow> stored)"

datatype HeaderNavModule = NavPricing | NavRankings

definition module_key :: "HeaderNavModule \<Rightarrow> string" where
  "module_key m = (case m of NavPricing \<Rightarrow> ''pricing'' | NavRankings \<Rightarrow> ''rankings'')"

definition getModuleAccessFromStatus :: "json option \<Rightarrow> HeaderNavModule \<Rightarrow> ModuleAccess" where
  "getModuleAccessFromStatus status m = access_of (parseHeaderNavModulesFromStatus status) (module_key m)"

definition getModuleAccess :: "string option \<Rightarrow> HeaderNavModule \<Rightarrow> ModuleAccess" where
  "getModuleAccess stored m = getModuleAccessFromStatus (getCachedStatus stored) m"

text \<open>The response of the server, or the error of the request, and the stored entry afterwards.\<close>

definition getFreshModuleAccess ::
  "(string \<Rightarrow> bool) \<Rightarrow> unit + json option \<Rightarrow> HeaderNavModule \<Rightarrow> string option \<Rightarrow> ModuleAccess \<times> string option" where
  "getFreshModuleAccess fits response m stored =
     (case response of
        Inl _ \<Rightarrow> (\<lparr>ma_enabled = False, ma_requireAuth = True\<rparr>, stored)
      | Inr status \<Rightarrow> (getModuleAccessFromStatus status m, cacheStatus fits status stored))"

definition isSidebarModuleEnabled :: "string option \<Rightarrow> string \<Rightarrow> string \<Rightarrow> bool" where
  "isSidebarModuleEnabled stored section_key module_name =
     (let status = getCachedStatus stored; raw = jchain status ''SidebarModulesAdmin'' in
      if \<not> truthy status \<or> \<not> truthy raw \<or> js_trim (js_String (the raw)) = [] then True
      else
        (let sectionConfig = jchain (json_parse (js_String (the raw))) section_key in
         \<not> truthy sectionConfig \<or>
         jchain sectionConfig ''enabled'' \<noteq> Some (JBool False) \<and> jchain sectionConfig module_name \<noteq> Some (JBool False)))"

section \<open>The settings of the header\<close>

definition toBoolean :: "json option \<Rightarrow> bool \<Rightarrow> bool" where
  "toBoolean value fallback =
     (case value of
        Some (JBool b) \<Rightarrow> b
      | Some (JNum n) \<Rightarrow> n = 1
      | Some (JStr s) \<Rightarrow> nullish (bool_text s) fallback
      | _ \<Rightarrow> fallback)"

definition parseAccessModule :: "json option \<Rightarrow> ModuleAccess \<Rightarrow> ModuleAccess" where
  "parseAccessModule raw fallback =
     (if is_simple raw then
        \<lparr>ma_enabled = toBoolean raw (ma_enabled fallback), ma_requireAuth = ma_requireAuth fallback\<rparr>
      else if is_object raw then
        \<lparr>ma_enabled = toBoolean (jchain raw ''enabled'') (ma_enabled fallback),
         ma_requireAuth = toBoolean (jchain raw ''requireAuth'') (ma_requireAuth fallback)\<rparr>
      else fallback)"

definition HEADER_NAV_DEFAULT :: HeaderNavModules where
  "HEADER_NAV_DEFAULT = [(''home'', NavFlag True), (''console'', NavFlag True), (''pricing'', NavAccess open_access),
     (''rankings'', NavAccess open_access), (''docs'', NavFlag True), (''about'', NavFlag True)]"

text \<open>\<open>Boolean(base[key])\<close>; what an object inherits is a function or an object.\<close>

definition base_truthy :: "string \<Rightarrow> bool" where
  "base_truthy key = (case map_of HEADER_NAV_DEFAULT key of
      Some (NavFlag b) \<Rightarrow> b
    | Some (NavAccess _) \<Rightarrow> True
    | None \<Rightarrow> key \<in> set inherited_names)"

definition settings_entry :: "HeaderNavModules \<Rightarrow> string \<times> json \<Rightarrow> HeaderNavModules" where
  "settings_entry result kv =
     (case kv of (key, raw) \<Rightarrow>
        if key = ''__proto__'' then result
        else if key = ''pricing'' \<or> key = ''rankings'' then
          AList.update key (NavAccess (parseAccessModule (Some raw) (access_of HEADER_NAV_DEFAULT key))) result
        else (case raw of
            JBool b \<Rightarrow> AList.update key (NavFlag b) result
          | JStr _ \<Rightarrow> AList.update key (NavFlag (toBoolean (Some raw) (base_truthy key))) result
          | JNum _ \<Rightarrow> AList.update key (NavFlag (toBoolean (Some raw) (base_truthy key))) result
          | _ \<Rightarrow> result))"

text \<open>The function \<open>parseHeaderNavModules\<close> of the settings page.\<close>

definition parseHeaderNavSettings :: "string option \<Rightarrow> HeaderNavModules" where
  "parseHeaderNavSettings value =
     (if opt_str value = [] then HEADER_NAV_DEFAULT
      else (case Option.bind (json_parse (opt_str value)) js_entries of
          None \<Rightarrow> HEADER_NAV_DEFAULT
        | Some entries \<Rightarrow> foldl settings_entry HEADER_NAV_DEFAULT entries))"

definition access_json :: "ModuleAccess \<Rightarrow> json" where
  "access_json a = JObj [(''enabled'', JBool (ma_enabled a)), (''requireAuth'', JBool (ma_requireAuth a))]"

definition nav_json :: "NavValue \<Rightarrow> json" where
  "nav_json v = (case v of NavFlag b \<Rightarrow> JBool b | NavAccess a \<Rightarrow> access_json a)"

definition serializeHeaderNavModules :: "HeaderNavModules \<Rightarrow> string" where
  "serializeHeaderNavModules config = json_stringify (JObj (map (\<lambda>(k, v). (k, nav_json v)) config))"

record HeaderNavFormValues =
  hf_home :: bool
  hf_console :: bool
  hf_pricing :: ModuleAccess
  hf_rankings :: ModuleAccess
  hf_docs :: bool
  hf_about :: bool

definition toFormValues :: "HeaderNavModules \<Rightarrow> HeaderNavFormValues" where
  "toFormValues config = \<lparr>hf_home = flag_or_true (map_of config ''home''), hf_console = flag_or_true (map_of config ''console''),
     hf_pricing = access_of config ''pricing'', hf_rankings = access_of config ''rankings'',
     hf_docs = flag_or_true (map_of config ''docs''), hf_about = flag_or_true (map_of config ''about'')\<rparr>"

definition submit_payload :: "HeaderNavModules \<Rightarrow> HeaderNavFormValues \<Rightarrow> HeaderNavModules" where
  "submit_payload config values =
     foldl (\<lambda>acc (k, v). AList.update k v acc) config
       [(''home'', NavFlag (hf_home values)), (''console'', NavFlag (hf_console values)),
        (''docs'', NavFlag (hf_docs values)), (''about'', NavFlag (hf_about values)),
        (''pricing'', NavAccess (hf_pricing values)), (''rankings'', NavAccess (hf_rankings values))]"

text \<open>The text that is sent to the server, if it differs from the one the page started with.\<close>

definition submit_header_nav :: "HeaderNavModules \<Rightarrow> string \<Rightarrow> HeaderNavFormValues \<Rightarrow> string option" where
  "submit_header_nav config initialSerialized values =
     (let serialized = serializeHeaderNavModules (submit_payload config values) in
      if serialized = initialSerialized then None else Some serialized)"

section \<open>Saved settings take effect\<close>

text \<open>
  A configuration of the declared type: pricing and rankings carry an access, every other
  module a flag.
\<close>

definition nav_typed :: "string \<times> NavValue \<Rightarrow> bool" where
  "nav_typed kv = (case kv of (k, v) \<Rightarrow> k \<noteq> ''__proto__'' \<and>
     (case v of NavAccess _ \<Rightarrow> k = ''pricing'' \<or> k = ''rankings'' | NavFlag _ \<Rightarrow> k \<noteq> ''pricing'' \<and> k \<noteq> ''rankings''))"

definition nav_ok :: "HeaderNavModules \<Rightarrow> bool" where
  "nav_ok m \<longleftrightarrow> distinct (map fst m) \<and> list_all nav_typed m"

lemma nav_ok_update: "nav_ok m \<Longrightarrow> nav_typed (k, v) \<Longrightarrow> nav_ok (AList.update k v m)"
  using set_update_alist [of k v m] by (auto simp: nav_ok_def list_all_iff distinct_update)

lemma nav_ok_default: "nav_ok HEADER_NAV_DEFAULT"
  by code_simp

lemma settings_entry_ok: "nav_ok m \<Longrightarrow> nav_ok (settings_entry m kv)"
  by (cases kv) (auto simp: settings_entry_def nav_typed_def intro!: nav_ok_update split: json.split)

lemma foldl_settings_ok: "nav_ok m \<Longrightarrow> nav_ok (foldl settings_entry m kvs)"
  by (induction kvs arbitrary: m) (simp_all add: settings_entry_ok)

lemma parseHeaderNavSettings_ok: "nav_ok (parseHeaderNavSettings value)"
  by (auto simp: parseHeaderNavSettings_def nav_ok_default foldl_settings_ok split: option.split)

lemma access_json_simple [simp]: "\<not> is_simple (Some (access_json a))" "is_object (Some (access_json a))"
  "jchain (Some (access_json a)) ''enabled'' = Some (JBool (ma_enabled a))"
  "jchain (Some (access_json a)) ''requireAuth'' = Some (JBool (ma_requireAuth a))"
  by (simp_all add: access_json_def is_simple_def is_object_def)

text \<open>On a value that the settings page wrote, both parsers store exactly that value.\<close>

lemma access_json_read: "parseAccess (Some (access_json a)) f = a" "parseAccessModule (Some (access_json a)) f = a"
  by (simp_all add: parseAccess_def parseAccessModule_def parseHeaderNavBoolean_def toBoolean_def)

lemma entry_of_typed:
  assumes "nav_typed (k, v)"
  shows "header_entry m (k, nav_json v) = AList.update k v m" and "settings_entry m (k, nav_json v) = AList.update k v m"
proof -
  have "header_entry m (k, nav_json v) = AList.update k v m \<and> settings_entry m (k, nav_json v) = AList.update k v m"
  proof (cases v)
    case (NavFlag b)
    then have "k \<noteq> ''__proto__''" "k \<noteq> ''pricing''" "k \<noteq> ''rankings''" using assms by (simp_all add: nav_typed_def)
    then show ?thesis
      unfolding header_entry_def settings_entry_def
      by (simp add: NavFlag nav_json_def is_simple_def parseHeaderNavBoolean_def)
  next
    case (NavAccess a)
    then have "k = ''pricing'' \<or> k = ''rankings''" "k \<noteq> ''__proto__''" using assms by (simp_all add: nav_typed_def)
    then show ?thesis
      unfolding header_entry_def settings_entry_def
      by (simp add: NavAccess nav_json_def access_json_read)
  qed
  then show "header_entry m (k, nav_json v) = AList.update k v m" "settings_entry m (k, nav_json v) = AList.update k v m"
    by simp_all
qed

definition header_json :: "HeaderNavModules \<Rightarrow> (string \<times> json) list" where
  "header_json m = map (\<lambda>(k, v). (k, nav_json v)) m"

lemma foldl_typed:
  assumes "list_all nav_typed m"
  shows "foldl header_entry acc (header_json m) = foldl (\<lambda>a (k, v). AList.update k v a) acc m"
    and "foldl settings_entry acc (header_json m) = foldl (\<lambda>a (k, v). AList.update k v a) acc m"
  using assms by (induction m arbitrary: acc) (auto simp: header_json_def entry_of_typed)

lemma map_of_foldl_update:
  "distinct (map fst m) \<Longrightarrow> map_of (foldl (\<lambda>a (k, v). AList.update k v a) acc m) = map_of acc ++ map_of m"
proof (induction m arbitrary: acc)
  case (Cons kv m)
  obtain k v where kv: "kv = (k, v)" by (cases kv)
  have "k \<notin> dom (map_of m)" using Cons.prems by (simp add: kv dom_map_of_conv_image_fst)
  then show ?case using Cons by (auto simp: kv update_conv' map_add_def fun_eq_iff split: option.split)
qed simp

lemma header_json_ok: "nav_ok m \<Longrightarrow> json_ok (JObj (header_json m))"
  by (auto simp: nav_ok_def header_json_def nav_json_def access_json_def split_beta comp_def split: NavValue.split)

lemma stringify_visible: "json_stringify (JObj kvs) \<noteq> []" "js_trim (json_stringify (JObj kvs)) \<noteq> []"
proof -
  have "CHR ''{'' \<in> set (json_stringify (JObj kvs))" "\<not> js_ws CHR ''{''" by (simp_all add: js_ws_def)
  then show "js_trim (json_stringify (JObj kvs)) \<noteq> []" unfolding js_trim_eq_Nil by blast
qed simp

lemma saved_config_read:
  assumes "nav_ok m"
  shows "parseHeaderNavModules (Some (JStr (serializeHeaderNavModules m))) =
      foldl (\<lambda>a (k, v). AList.update k v a) DEFAULT_HEADER_NAV_MODULES m"
    and "parseHeaderNavSettings (Some (serializeHeaderNavModules m)) =
      foldl (\<lambda>a (k, v). AList.update k v a) HEADER_NAV_DEFAULT m"
proof -
  define t where "t = serializeHeaderNavModules m"
  have t: "t = json_stringify (JObj (header_json m))" by (simp add: t_def serializeHeaderNavModules_def header_json_def)
  have ne: "t \<noteq> []" "js_trim t \<noteq> []" unfolding t by (rule stringify_visible)+
  have parsed: "json_parse t = Some (JObj (header_json m))"
    unfolding t by (rule json_parse_stringify [OF header_json_ok [OF assms]])
  have typed: "list_all nav_typed m" using assms by (simp add: nav_ok_def)
  have "parseHeaderNavRecord (Some (JStr t)) = Some (JObj (header_json m))"
    using ne parsed by (simp add: parseHeaderNavRecord_def is_object_def)
  then show "parseHeaderNavModules (Some (JStr t)) = foldl (\<lambda>a (k, v). AList.update k v a) DEFAULT_HEADER_NAV_MODULES m"
    by (simp add: parseHeaderNavModules_def js_entries_def foldl_typed(1) [OF typed])
  show "parseHeaderNavSettings (Some t) = foldl (\<lambda>a (k, v). AList.update k v a) HEADER_NAV_DEFAULT m"
    using ne parsed by (simp add: parseHeaderNavSettings_def js_entries_def foldl_typed(2) [OF typed])
qed

lemma submit_payload_ok: "nav_ok m \<Longrightarrow> nav_ok (submit_payload m values)"
  by (simp add: submit_payload_def nav_ok_update nav_typed_def)

lemma submit_payload_form: "toFormValues (foldl (\<lambda>a (k, v). AList.update k v a) d (submit_payload m values)) = values"
  if "nav_ok m" for m
proof -
  have "distinct (map fst (submit_payload m values))" using submit_payload_ok [OF that] by (simp add: nav_ok_def)
  note look = map_of_foldl_update [OF this]
  show ?thesis
    unfolding toFormValues_def access_of_def look
    by (simp add: submit_payload_def update_conv' flag_or_true_def)
qed

text \<open>
  C29. What the administrator saves for the header is what every part of the application then
  reads: whatever text the server held before, after the form has been submitted with some
  values, the parser of the application and the one of the settings page both give back
  exactly these values from the text that is sent.
\<close>

theorem header_settings_take_effect:
  "let text = serializeHeaderNavModules (submit_payload (parseHeaderNavSettings stored) values)
   in toFormValues (parseHeaderNavModules (Some (JStr text))) = values \<and>
      toFormValues (parseHeaderNavSettings (Some text)) = values"
  using saved_config_read [OF submit_payload_ok [OF parseHeaderNavSettings_ok]]
    submit_payload_form [OF parseHeaderNavSettings_ok]
  by (simp add: Let_def)

text \<open>A status that cannot be fetched closes the module, and one that can be fetched is kept for the next start.\<close>

lemma fresh_access:
  "getFreshModuleAccess fits (Inl e) m stored = (\<lparr>ma_enabled = False, ma_requireAuth = True\<rparr>, stored)"
  "json_ok v \<Longrightarrow> truthy (Some v) \<Longrightarrow> fits (json_stringify v) \<Longrightarrow> json_stringify v \<noteq> [] \<Longrightarrow>
     getFreshModuleAccess fits (Inr (Some v)) m stored = (access, stored') \<Longrightarrow> getModuleAccess stored' m = access"
  by (auto simp: getFreshModuleAccess_def getModuleAccess_def cacheStatus_def getCachedStatus_def json_parse_stringify)

end
