(* ===== verification/Sidebar_Modules.thy ===== *)
theory Sidebar_Modules
  imports Nav_Modules
begin

text \<open>
  The modules of the sidebar: the filter of \<open>hooks/use-sidebar-config.ts\<close> and the settings that
  the administrator edits in \<open>features/system-settings/maintenance/config.ts\<close>.

  A section of a configuration is a JSON value, because the hook uses what the server sends
  without checking it; the settings page turns every value into a boolean.
\<close>

section \<open>Defaults\<close>

definition sidebar_section :: "string list \<Rightarrow> (string \<times> bool) list" where
  "sidebar_section ms = map (\<lambda>m. (m, True)) (''enabled'' # ms)"

definition SIDEBAR_MODULES_DEFAULT :: "(string \<times> (string \<times> bool) list) list" where
  "SIDEBAR_MODULES_DEFAULT =
     [(''chat'', sidebar_section [''playground'']),
      (''console'', sidebar_section [''detail'', ''token'', ''log'', ''task'']),
      (''personal'', sidebar_section [''topup'', ''personal'']),
      (''admin'', sidebar_section [''channel'', ''models'', ''redemption'', ''user'', ''setting'', ''subscription''])]"

definition section_json :: "(string \<times> bool) list \<Rightarrow> json" where
  "section_json config = JObj (map (\<lambda>(k, b). (k, JBool b)) config)"

definition DEFAULT_SIDEBAR_MODULES :: "(string \<times> json) list" where
  "DEFAULT_SIDEBAR_MODULES = map (\<lambda>(k, s). (k, section_json s)) SIDEBAR_MODULES_DEFAULT"

section \<open>The filter of the sidebar\<close>

text \<open>A value that the source declares to be a string, null or undefined.\<close>

definition text_typed :: "json option \<Rightarrow> bool" where
  "text_typed v = (case v of None \<Rightarrow> True | Some JNull \<Rightarrow> True | Some (JStr _) \<Rightarrow> True | _ \<Rightarrow> False)"

definition str_opt :: "json option \<Rightarrow> string option" where
  "str_opt v = (case v of Some (JStr s) \<Rightarrow> Some s | _ \<Rightarrow> None)"

text \<open>The own entries that an object spread copies; null, undefined, numbers and booleans have none.\<close>

definition spread :: "json option \<Rightarrow> (string \<times> json) list" where
  "spread v = (case v of None \<Rightarrow> [] | Some j \<Rightarrow> nullish (js_entries j) [])"

text \<open>\<open>{...base, ...over}\<close>; the order of the entries is never read.\<close>

definition merge_entries :: "(string \<times> json) list \<Rightarrow> (string \<times> json) list \<Rightarrow> (string \<times> json) list" where
  "merge_entries base over = AList.merge base over"

text \<open>
  The second loop of the source, over the modules of the default section, finds nothing to do:
  a JSON value is never undefined.
\<close>

definition merge_section :: "(string \<times> json) list \<Rightarrow> string \<times> json \<Rightarrow> (string \<times> json) list" where
  "merge_section merged kv =
     (case kv of (sectionKey, defaultSection) \<Rightarrow>
        (let existingSection = map_of merged sectionKey in
         if \<not> truthy existingSection then AList.update sectionKey defaultSection merged
         else AList.update sectionKey (JObj (merge_entries (spread (Some defaultSection)) (spread existingSection))) merged))"

definition mergeWithDefaultSidebarModules :: "json \<Rightarrow> (string \<times> json) list" where
  "mergeWithDefaultSidebarModules config = foldl merge_section (spread (Some config)) DEFAULT_SIDEBAR_MODULES"

definition parseSidebarConfig :: "string option \<Rightarrow> (string \<times> json) list" where
  "parseSidebarConfig value =
     (if opt_str value = [] \<or> js_trim (opt_str value) = [] then DEFAULT_SIDEBAR_MODULES
      else (case json_parse (opt_str value) of
          None \<Rightarrow> DEFAULT_SIDEBAR_MODULES
        | Some parsed \<Rightarrow> mergeWithDefaultSidebarModules parsed))"

definition parseUserSidebarConfig :: "string option \<Rightarrow> json option" where
  "parseUserSidebarConfig value =
     (if opt_str value = [] \<or> js_trim (opt_str value) = [] then None
      else (case json_parse (opt_str value) of
          None \<Rightarrow> None
        | Some parsed \<Rightarrow> if is_object (Some parsed) then Some parsed else None))"

definition URL_TO_CONFIG_MAP :: "(string \<times> string \<times> string) list" where
  "URL_TO_CONFIG_MAP =
     [(''/playground'', ''chat'', ''playground''), (''/studio/chat'', ''chat'', ''playground''),
      (''/studio/image'', ''chat'', ''playground''), (''/studio/video'', ''chat'', ''playground''),
      (''/analytics'', ''console'', ''detail''), (''/analytics/usage'', ''console'', ''detail''),
      (''/analytics/cost'', ''console'', ''detail''), (''/analytics/logs'', ''console'', ''detail''),
      (''/dashboard'', ''console'', ''detail''), (''/dashboard/overview'', ''console'', ''detail''),
      (''/dashboard/models'', ''console'', ''detail''), (''/dashboard/users'', ''console'', ''detail''),
      (''/dashboard/flow'', ''console'', ''detail''), (''/keys'', ''console'', ''token''),
      (''/usage-logs'', ''console'', ''log''), (''/usage-logs/common'', ''console'', ''log''),
      (''/usage-logs/task'', ''console'', ''task''), (''/wallet'', ''personal'', ''topup''),
      (''/profile'', ''personal'', ''personal''), (''/channels'', ''admin'', ''channel''),
      (''/models'', ''admin'', ''models''), (''/models/metadata'', ''admin'', ''models''),
      (''/users'', ''admin'', ''user''), (''/redemption-codes'', ''admin'', ''redemption''),
      (''/subscriptions'', ''admin'', ''subscription''), (''/system-settings'', ''admin'', ''setting''),
      (''/system-settings/site'', ''admin'', ''setting'')]"

definition admin_allows :: "(string \<times> json) list \<Rightarrow> string \<Rightarrow> string \<Rightarrow> bool" where
  "admin_allows adminConfig section_key module_name \<longleftrightarrow>
     (let adminSection = map_of adminConfig section_key in
      truthy adminSection \<and> truthy (jchain adminSection ''enabled'') \<and>
      jchain adminSection module_name = Some (JBool True))"

definition isModuleEnabled :: "string \<Rightarrow> (string \<times> json) list \<Rightarrow> json option \<Rightarrow> bool" where
  "isModuleEnabled url adminConfig userConfig =
     (case map_of URL_TO_CONFIG_MAP url of
        None \<Rightarrow> True
      | Some (section_key, module_name) \<Rightarrow>
          admin_allows adminConfig section_key module_name \<and>
          (let userSection = jchain userConfig section_key in
           userConfig = None \<or> \<not> truthy userSection \<or>
           jchain userSection ''enabled'' \<noteq> Some (JBool False) \<and> jchain userSection module_name \<noteq> Some (JBool False)))"

record NavSubItem =
  ns_title :: string
  ns_url :: string

record NavItem =
  ni_title :: string
  ni_url :: "string option"
  ni_configUrls :: "string list option"
  ni_items :: "NavSubItem list option"

record NavGroup =
  ng_title :: string
  ng_items :: "NavItem list"

definition isNavItemVisible :: "NavItem \<Rightarrow> (string \<times> json) list \<Rightarrow> json option \<Rightarrow> bool" where
  "isNavItemVisible item adminConfig userConfig =
     (if opt_str (ni_url item) \<noteq> [] then
        list_ex (\<lambda>url. isModuleEnabled url adminConfig userConfig) (nullish (ni_configUrls item) [opt_str (ni_url item)])
      else (case ni_items item of
          Some items \<Rightarrow> list_ex (\<lambda>subItem. isModuleEnabled (ns_url subItem) adminConfig userConfig) items
        | None \<Rightarrow> True))"

definition filterNavItems :: "NavItem list \<Rightarrow> (string \<times> json) list \<Rightarrow> json option \<Rightarrow> NavItem list" where
  "filterNavItems items adminConfig userConfig =
     filter (\<lambda>item. isNavItemVisible item adminConfig userConfig)
       (map (\<lambda>item. case ni_items item of
            Some subs \<Rightarrow>
              item\<lparr>ni_items := Some (filter (\<lambda>subItem. isModuleEnabled (ns_url subItem) adminConfig userConfig) subs)\<rparr>
          | None \<Rightarrow> item) items)"

text \<open>The configuration of the user: skipped for a user who may not edit it.\<close>

definition user_sidebar_config :: "json option \<Rightarrow> json option" where
  "user_sidebar_config user =
     (if jchain (jchain user ''permissions'') ''sidebar_settings'' = Some (JBool False) then None
      else parseUserSidebarConfig (str_opt (jchain user ''sidebar_modules'')))"

definition useSidebarConfig :: "NavGroup list \<Rightarrow> json option \<Rightarrow> json option \<Rightarrow> NavGroup list" where
  "useSidebarConfig navGroups status user =
     (let adminConfig = parseSidebarConfig (str_opt (jchain status ''SidebarModulesAdmin''));
          userConfig = user_sidebar_config user
      in filter (\<lambda>group. ng_items group \<noteq> [])
           (map (\<lambda>group. group\<lparr>ng_items := filterNavItems (ng_items group) adminConfig userConfig\<rparr>) navGroups))"

definition useIsSidebarModuleVisible :: "string \<Rightarrow> json option \<Rightarrow> json option \<Rightarrow> bool" where
  "useIsSidebarModuleVisible url status user =
     isModuleEnabled url (parseSidebarConfig (str_opt (jchain status ''SidebarModulesAdmin''))) (user_sidebar_config user)"

section \<open>The settings of the sidebar\<close>

definition settings_section :: "(string \<times> bool) list \<Rightarrow> json \<Rightarrow> (string \<times> bool) list" where
  "settings_section defaultSection raw =
     foldl (\<lambda>acc (moduleKey, moduleValue).
         if moduleKey = ''enabled'' \<or> moduleKey = ''__proto__'' then acc
         else AList.update moduleKey (toBoolean (Some moduleValue) (nullish (map_of defaultSection moduleKey) True)) acc)
       [(''enabled'', toBoolean (jchain (Some raw) ''enabled'') (nullish (map_of defaultSection ''enabled'') True))]
       (spread (Some raw))"

definition settings_sections :: "(string \<times> json) list \<Rightarrow> (string \<times> (string \<times> bool) list) list" where
  "settings_sections entries =
     foldl (\<lambda>result (sectionKey, raw).
         if \<not> is_object (Some raw) \<or> sectionKey = ''__proto__'' then result
         else AList.update sectionKey
           (settings_section (nullish (map_of SIDEBAR_MODULES_DEFAULT sectionKey) [(''enabled'', True)]) raw) result)
       [] entries"

definition fill_section :: "(string \<times> (string \<times> bool) list) list \<Rightarrow> string \<times> (string \<times> bool) list \<Rightarrow>
    (string \<times> (string \<times> bool) list) list" where
  "fill_section result kv =
     (case kv of (sectionKey, config) \<Rightarrow>
        (case map_of result sectionKey of
           None \<Rightarrow> AList.update sectionKey config result
         | Some existing \<Rightarrow>
             AList.update sectionKey
               (foldl (\<lambda>acc (k, v). if k \<in> fst ` set acc then acc else AList.update k v acc) existing config) result))"

definition parseSidebarModulesAdmin :: "string option \<Rightarrow> (string \<times> (string \<times> bool) list) list" where
  "parseSidebarModulesAdmin value =
     (if opt_str value = [] \<or> js_trim (opt_str value) = [] then SIDEBAR_MODULES_DEFAULT
      else (case Option.bind (json_parse (opt_str value)) js_entries of
          None \<Rightarrow> SIDEBAR_MODULES_DEFAULT
        | Some entries \<Rightarrow> foldl fill_section (settings_sections entries) SIDEBAR_MODULES_DEFAULT))"

definition serializeSidebarModulesAdmin :: "(string \<times> (string \<times> bool) list) list \<Rightarrow> string" where
  "serializeSidebarModulesAdmin config = json_stringify (JObj (map (\<lambda>(k, s). (k, section_json s)) config))"

section \<open>Merging\<close>

definition merged_section :: "json \<Rightarrow> json option \<Rightarrow> json" where
  "merged_section d existing =
     (if truthy existing then JObj (merge_entries (spread (Some d)) (spread existing)) else d)"

lemma map_of_merge_section:
  "map_of (merge_section m (k, d)) s = (if s = k then Some (merged_section d (map_of m k)) else map_of m s)"
  by (simp add: merge_section_def merged_section_def Let_def update_conv')

lemma map_of_merge_sections:
  "distinct (map fst ds) \<Longrightarrow> map_of (foldl merge_section m ds) s =
     (case map_of ds s of None \<Rightarrow> map_of m s | Some d \<Rightarrow> Some (merged_section d (map_of m s)))"
proof (induction ds arbitrary: m)
  case (Cons kd ds)
  obtain k d where kd: "kd = (k, d)" by (cases kd)
  have "map_of ds k = None" using Cons.prems by (simp add: kd map_of_eq_None_iff)
  then show ?case using Cons by (auto simp: kd map_of_merge_section split: option.split)
qed simp

lemma default_sections: "distinct (map fst DEFAULT_SIDEBAR_MODULES)"
  by code_simp

lemma sidebar_lookup:
  "map_of (mergeWithDefaultSidebarModules config) s =
     (case map_of DEFAULT_SIDEBAR_MODULES s of
        None \<Rightarrow> map_of (spread (Some config)) s
      | Some d \<Rightarrow> Some (merged_section d (map_of (spread (Some config)) s)))"
  by (simp add: mergeWithDefaultSidebarModules_def map_of_merge_sections [OF default_sections])

lemma spread_JObj [simp]: "spread (Some (JObj kvs)) = kvs"
  by (simp add: spread_def js_entries_def)

lemma merged_section_field:
  "jchain (Some (merged_section d (Some (JObj evs)))) k =
     (case map_of evs k of None \<Rightarrow> map_of (spread (Some d)) k | Some v \<Rightarrow> Some v)"
  by (simp add: merged_section_def merge_entries_def merge_conv' map_add_def)

lemma config_sections: "map_of URL_TO_CONFIG_MAP url = Some (s, m) \<Longrightarrow> map_of DEFAULT_SIDEBAR_MODULES s \<noteq> None"
proof -
  assume "map_of URL_TO_CONFIG_MAP url = Some (s, m)"
  then have "(url, s, m) \<in> set URL_TO_CONFIG_MAP" by (rule map_of_SomeD)
  moreover have "\<forall>(u, s, m) \<in> set URL_TO_CONFIG_MAP. map_of DEFAULT_SIDEBAR_MODULES s \<noteq> None" by code_simp
  ultimately show ?thesis by fastforce
qed

text \<open>
  C28. What the sidebar shows, the guard of the page admits: an entry that is visible under the
  options of the server, for any user, is not turned away by \<open>isSidebarModuleEnabled\<close> on the
  cached status with the same options.
\<close>

theorem sidebar_visible_admitted:
  assumes url: "map_of URL_TO_CONFIG_MAP url = Some (s, m)"
    and cached: "getCachedStatus stored = Some status"
    and typed: "text_typed (jchain (Some status) ''SidebarModulesAdmin'')"
    and visible: "useIsSidebarModuleVisible url (Some status) user"
  shows "isSidebarModuleEnabled stored s m"
proof (rule ccontr)
  assume rejected: "\<not> isSidebarModuleEnabled stored s m"
  define raw where "raw = jchain (Some status) ''SidebarModulesAdmin''"
  have guard: "\<not> (\<not> truthy (Some status) \<or> \<not> truthy raw \<or> js_trim (js_String (the raw)) = [])"
    and off: "truthy (jchain (json_parse (js_String (the raw))) s)"
      "jchain (jchain (json_parse (js_String (the raw))) s) ''enabled'' = Some (JBool False) \<or>
       jchain (jchain (json_parse (js_String (the raw))) s) m = Some (JBool False)"
    using rejected by (auto simp: isSidebarModuleEnabled_def Let_def cached simp flip: raw_def split: if_splits)
  obtain t where t: "raw = Some (JStr t)" "t \<noteq> []" "js_trim t \<noteq> []"
    using typed guard by (auto simp: text_typed_def simp flip: raw_def split: option.splits json.splits)
  obtain kvs where parsed: "json_parse t = Some (JObj kvs)"
    using off(1) by (auto simp: t jchain_def jget_def split: option.splits json.splits)
  obtain evs where section_value: "map_of kvs s = Some (JObj evs)"
    using off(2) by (auto simp: t parsed jchain_def jget_def split: option.splits json.splits)
  have admin: "admin_allows (mergeWithDefaultSidebarModules (JObj kvs)) s m"
    using visible by (simp add: useIsSidebarModuleVisible_def isModuleEnabled_def url str_opt_def parseSidebarConfig_def
        t parsed flip: raw_def)
  obtain d where "map_of DEFAULT_SIDEBAR_MODULES s = Some d" using config_sections [OF url] by blast
  then have "map_of (mergeWithDefaultSidebarModules (JObj kvs)) s = Some (merged_section d (Some (JObj evs)))"
    by (simp add: sidebar_lookup section_value)
  with admin off(2) show False
    by (auto simp: admin_allows_def Let_def merged_section_field t parsed section_value)
qed

definition example_status :: json where
  "example_status = JObj [(''SidebarModulesAdmin'',
     JStr (json_stringify (JObj [(''chat'', JObj [(''playground'', JBool True)])])))]"

theorem sidebar_visible_admitted_witness:
  "isSidebarModuleEnabled (Some (json_stringify example_status)) ''chat'' ''playground''"
proof -
  have "map_of URL_TO_CONFIG_MAP ''/playground'' = Some (''chat'', ''playground'')" by code_simp
  moreover have "getCachedStatus (Some (json_stringify example_status)) = Some example_status" by code_simp
  moreover have "text_typed (jchain (Some example_status) ''SidebarModulesAdmin'')" by code_simp
  moreover have "useIsSidebarModuleVisible ''/playground'' (Some example_status) None" by code_simp
  ultimately show ?thesis by (rule sidebar_visible_admitted)
qed

section \<open>Saved settings take effect\<close>

type_synonym SidebarSettings = "(string \<times> (string \<times> bool) list) list"

text \<open>Keys occur once, and the sections and modules of the defaults are all there.\<close>

definition section_covers :: "(string \<times> bool) list \<Rightarrow> (string \<times> bool) list \<Rightarrow> bool" where
  "section_covers config sec \<longleftrightarrow> distinct (map fst sec) \<and> fst ` set config \<subseteq> fst ` set sec"

definition sidebar_ok :: "SidebarSettings \<Rightarrow> bool" where
  "sidebar_ok c \<longleftrightarrow> distinct (map fst c) \<and> (\<forall>(k, sec) \<in> set c. distinct (map fst sec)) \<and>
     (\<forall>(k, config) \<in> set SIDEBAR_MODULES_DEFAULT. \<exists>sec. map_of c k = Some sec \<and> section_covers config sec)"

lemma foldl_invariant: "P x \<Longrightarrow> (\<And>x y. P x \<Longrightarrow> P (f x y)) \<Longrightarrow> P (foldl f x ys)"
  by (induction ys arbitrary: x) simp_all

lemma settings_section_distinct: "distinct (map fst (settings_section d raw))"
  unfolding settings_section_def
  by (rule foldl_invariant [where P = "\<lambda>acc. distinct (map fst acc)"]) (auto simp: distinct_update split: prod.split)

definition sections_distinct :: "SidebarSettings \<Rightarrow> bool" where
  "sections_distinct c \<longleftrightarrow> distinct (map fst c) \<and> (\<forall>(k, sec) \<in> set c. distinct (map fst sec))"

lemma sections_distinct_update:
  "sections_distinct c \<Longrightarrow> distinct (map fst sec) \<Longrightarrow> sections_distinct (AList.update k sec c)"
  using set_update_alist [of k sec c] by (auto simp: sections_distinct_def distinct_update)

lemma settings_sections_distinct: "sections_distinct (settings_sections entries)"
  unfolding settings_sections_def
  by (rule foldl_invariant [where P = sections_distinct])
     (auto simp: sections_distinct_def [of "[]"] settings_section_distinct intro: sections_distinct_update split: prod.split)

text \<open>Filling a section adds the missing modules and keeps the others.\<close>

definition fill_modules :: "(string \<times> bool) list \<Rightarrow> (string \<times> bool) list \<Rightarrow> (string \<times> bool) list" where
  "fill_modules existing config =
     foldl (\<lambda>acc (k, v). if k \<in> fst ` set acc then acc else AList.update k v acc) existing config"

lemma fill_modules_covers:
  "distinct (map fst existing) \<Longrightarrow> section_covers config (fill_modules existing config) \<and>
     fst ` set existing \<subseteq> fst ` set (fill_modules existing config)"
proof (induction config arbitrary: existing)
  case Nil
  then show ?case by (simp add: fill_modules_def section_covers_def)
next
  case (Cons kv config)
  obtain k v where kv: "kv = (k, v)" by (cases kv)
  define e where "e = (if k \<in> fst ` set existing then existing else AList.update k v existing)"
  have "distinct (map fst e)" "fst ` set existing \<subseteq> fst ` set e" "k \<in> fst ` set e"
    using Cons.prems by (auto simp: e_def distinct_update dom_update)
  moreover have "fill_modules existing (kv # config) = fill_modules e config" by (simp add: fill_modules_def kv e_def)
  ultimately show ?case using Cons.IH [of e] unfolding section_covers_def kv by (simp add: subset_trans) blast
qed

lemma fill_section_lookup:
  "map_of (fill_section c (k, config)) s =
     (if s = k then Some (case map_of c k of None \<Rightarrow> config | Some e \<Rightarrow> fill_modules e config) else map_of c s)"
  by (simp add: fill_section_def fill_modules_def update_conv' split: option.split)

lemma fill_section_distinct:
  assumes "sections_distinct c" and "distinct (map fst config)"
  shows "sections_distinct (fill_section c (k, config))"
proof (cases "map_of c k")
  case None
  then show ?thesis using assms by (simp add: fill_section_def sections_distinct_update)
next
  case (Some e)
  then have "distinct (map fst e)" using assms(1) map_of_SomeD by (fastforce simp: sections_distinct_def)
  then have "distinct (map fst (fill_modules e config))" using fill_modules_covers by (auto simp: section_covers_def)
  then show ?thesis using assms Some by (simp add: fill_section_def sections_distinct_update flip: fill_modules_def)
qed

lemma fill_sections_ok:
  assumes "sections_distinct c" and "distinct (map fst ds)" and "\<forall>(k, config) \<in> set ds. distinct (map fst config)"
  shows "sections_distinct (foldl fill_section c ds) \<and>
    (\<forall>s. map_of ds s = None \<longrightarrow> map_of (foldl fill_section c ds) s = map_of c s) \<and>
    (\<forall>(k, config) \<in> set ds. \<exists>sec. map_of (foldl fill_section c ds) k = Some sec \<and> section_covers config sec)"
  using assms
proof (induction ds arbitrary: c)
  case (Cons kd ds)
  obtain k config where kd: "kd = (k, config)" by (cases kd)
  define c' where "c' = fill_section c (k, config)"
  have dist: "distinct (map fst config)" using Cons.prems(3) by (simp add: kd)
  have ok: "sections_distinct c'" unfolding c'_def by (rule fill_section_distinct [OF Cons.prems(1) dist])
  have fresh: "map_of ds k = None" using Cons.prems(2) by (simp add: kd map_of_eq_None_iff)
  have look: "map_of c' s = (if s = k then Some (case map_of c k of None \<Rightarrow> config | Some e \<Rightarrow> fill_modules e config) else map_of c s)" for s
    unfolding c'_def by (rule fill_section_lookup)
  have "\<exists>sec. map_of c' k = Some sec \<and> section_covers config sec"
  proof (cases "map_of c k")
    case None
    then show ?thesis using dist by (simp add: look section_covers_def)
  next
    case (Some e)
    then have "distinct (map fst e)" using Cons.prems(1) map_of_SomeD by (fastforce simp: sections_distinct_def)
    then show ?thesis using fill_modules_covers [of e config] Some by (simp add: look)
  qed
  moreover have rest: "sections_distinct (foldl fill_section c' ds) \<and>
      (\<forall>s. map_of ds s = None \<longrightarrow> map_of (foldl fill_section c' ds) s = map_of c' s) \<and>
      (\<forall>(k, config) \<in> set ds. \<exists>sec. map_of (foldl fill_section c' ds) k = Some sec \<and> section_covers config sec)"
    using Cons.IH [OF ok] Cons.prems by (simp add: kd)
  ultimately show ?case using fresh look by (auto simp: kd simp flip: c'_def split: if_splits)
qed simp

lemma default_settings: "distinct (map fst SIDEBAR_MODULES_DEFAULT)"
  "\<forall>(k, config) \<in> set SIDEBAR_MODULES_DEFAULT. distinct (map fst config)"
  by code_simp+

lemma settings_ok: "sidebar_ok (parseSidebarModulesAdmin value)"
proof -
  have "sidebar_ok (foldl fill_section c SIDEBAR_MODULES_DEFAULT)" if "sections_distinct c" for c
    using fill_sections_ok [OF that default_settings] unfolding sidebar_ok_def sections_distinct_def by blast
  moreover have "sidebar_ok SIDEBAR_MODULES_DEFAULT"
    using default_settings by (auto simp: sidebar_ok_def section_covers_def)
  ultimately show ?thesis
    by (auto simp: parseSidebarModulesAdmin_def settings_sections_distinct split: option.split)
qed

text \<open>The form of the settings page: every switch may be changed.\<close>

definition switch_modules :: "(string \<Rightarrow> string \<Rightarrow> bool \<Rightarrow> bool) \<Rightarrow> SidebarSettings \<Rightarrow> SidebarSettings" where
  "switch_modules f c = map (\<lambda>(k, sec). (k, map (\<lambda>(m, b). (m, f k m b)) sec)) c"

definition switched_on :: "SidebarSettings \<Rightarrow> string \<Rightarrow> string \<Rightarrow> bool" where
  "switched_on c s m \<longleftrightarrow> Option.bind (map_of c s) (\<lambda>sec. map_of sec m) = Some True"

lemma switch_keys: "map fst (map (\<lambda>(m, b). (m, g m b)) sec) = map fst sec"
  by (simp add: split_beta comp_def)

lemma map_of_switch_modules:
  "map_of (switch_modules f c) k = map_option (\<lambda>sec. map (\<lambda>(m, b). (m, f k m b)) sec) (map_of c k)"
  unfolding switch_modules_def by (induction c) auto

lemma switch_modules_ok:
  assumes ok: "sidebar_ok c"
  shows "sidebar_ok (switch_modules f c)"
  unfolding sidebar_ok_def
proof (intro conjI ballI)
  have "map fst (switch_modules f c) = map fst c" by (simp add: switch_modules_def split_beta comp_def)
  then show "distinct (map fst (switch_modules f c))" using ok by (simp add: sidebar_ok_def)
  have "distinct (map fst sec)" if "(k, sec) \<in> set (switch_modules f c)" for k sec
  proof -
    from that obtain sec' where "(k, sec') \<in> set c" and sec: "sec = map (\<lambda>(m, b). (m, f k m b)) sec'"
      by (auto simp: switch_modules_def)
    then have "distinct (map fst sec')" using ok unfolding sidebar_ok_def by blast
    then show ?thesis unfolding sec switch_keys .
  qed
  then show "case x of (k, sec) \<Rightarrow> distinct (map fst sec)" if "x \<in> set (switch_modules f c)" for x
    using that by (cases x) blast
next
  fix x
  assume x: "x \<in> set SIDEBAR_MODULES_DEFAULT"
  obtain k config where kc: "x = (k, config)" by (cases x)
  with x ok obtain sec where sec: "map_of c k = Some sec" "section_covers config sec"
    unfolding sidebar_ok_def by blast
  have "section_covers config (map (\<lambda>(m, b). (m, f k m b)) sec)"
    using sec(2) switch_keys [of "f k" sec] unfolding section_covers_def by (metis list.set_map)
  then show "case x of (k, config) \<Rightarrow> \<exists>sec. map_of (switch_modules f c) k = Some sec \<and> section_covers config sec"
    using sec(1) by (simp add: kc map_of_switch_modules)
qed

lemma serialized_settings_read:
  assumes "sidebar_ok c"
  shows "json_parse (serializeSidebarModulesAdmin c) = Some (JObj (map (\<lambda>(k, s). (k, section_json s)) c))"
  unfolding serializeSidebarModulesAdmin_def
proof (rule json_parse_stringify)
  have "json_ok (section_json sec)" if "distinct (map fst sec)" for sec
    using that by (auto simp: section_json_def split_beta comp_def)
  with assms show "json_ok (JObj (map (\<lambda>(k, s). (k, section_json s)) c))"
    by (auto simp: sidebar_ok_def split_beta comp_def)
qed

lemma map_of_sections: "map_of (map (\<lambda>(k, s). (k, section_json s)) c) s = map_option section_json (map_of c s)"
  by (induction c) auto

lemma map_of_section_json: "jchain (Some (section_json sec)) k = map_option JBool (map_of sec k)"
  unfolding section_json_def by (induction sec) auto

lemma saved_settings_allow:
  assumes c: "sidebar_ok c" and config: "map_of SIDEBAR_MODULES_DEFAULT s = Some config"
    and m: "m \<in> fst ` set config" and enabled: "''enabled'' \<in> fst ` set config"
  shows "admin_allows (parseSidebarConfig (Some (serializeSidebarModulesAdmin c))) s m \<longleftrightarrow>
    switched_on c s ''enabled'' \<and> switched_on c s m"
proof -
  define kvs where "kvs = map (\<lambda>(k, s). (k, section_json s)) c"
  have parsed: "json_parse (serializeSidebarModulesAdmin c) = Some (JObj kvs)"
    unfolding kvs_def by (rule serialized_settings_read [OF c])
  have ne: "serializeSidebarModulesAdmin c \<noteq> []" "js_trim (serializeSidebarModulesAdmin c) \<noteq> []"
    unfolding serializeSidebarModulesAdmin_def by (rule stringify_visible)+
  obtain sec where sec: "map_of c s = Some sec" "fst ` set config \<subseteq> fst ` set sec"
    using c map_of_SomeD [OF config] by (fastforce simp: sidebar_ok_def section_covers_def)
  have present: "map_of sec ''enabled'' \<noteq> None" "map_of sec m \<noteq> None"
    using sec(2) m enabled by (auto simp: map_of_eq_None_iff)
  have "map_of DEFAULT_SIDEBAR_MODULES s = Some (section_json config)"
    unfolding DEFAULT_SIDEBAR_MODULES_def map_of_sections by (simp add: config)
  moreover have section_value: "map_of kvs s = Some (section_json sec)" by (simp add: kvs_def map_of_sections sec(1))
  ultimately have look: "map_of (mergeWithDefaultSidebarModules (JObj kvs)) s =
      Some (merged_section (section_json config) (Some (section_json sec)))"
    by (simp add: sidebar_lookup)
  obtain evs where evs: "section_json sec = JObj evs" by (simp add: section_json_def)
  have "jchain (Some (merged_section (section_json config) (Some (section_json sec)))) k = map_option JBool (map_of sec k)"
    if "map_of sec k \<noteq> None" for k
    using that map_of_section_json [of sec k] unfolding evs merged_section_field by (auto split: option.split)
  moreover have "truthy (Some (merged_section (section_json config) (Some (section_json sec))))"
    by (simp add: merged_section_def evs)
  ultimately show ?thesis
    using present ne by (auto simp: admin_allows_def parseSidebarConfig_def parsed look switched_on_def sec(1))
qed



text \<open>A text that the settings page did not write may be read differently: as on, as hidden and as open.\<close>

lemma sidebar_readers_disagree:
  "let config = json_stringify (JObj [(''chat'', JObj [(''playground'', JNum 1)])]);
       stored = json_stringify (JObj [(''SidebarModulesAdmin'', JStr config)])
   in switched_on (parseSidebarModulesAdmin (Some config)) ''chat'' ''playground'' \<and>
      \<not> isModuleEnabled ''/playground'' (parseSidebarConfig (Some config)) None \<and>
      isSidebarModuleEnabled (Some stored) ''chat'' ''playground''"
  by code_simp

section \<open>The filter\<close>

lemma user_only_narrows: "isModuleEnabled url adminConfig userConfig \<Longrightarrow> isModuleEnabled url adminConfig None"
  by (auto simp: isModuleEnabled_def split: option.splits)

text \<open>
  Every entry that is left is enabled, and a group or a collapsible entry is left only with
  something in it.
\<close>

lemma filtered_item:
  assumes "item \<in> set (filterNavItems items adminConfig userConfig)"
  shows "isNavItemVisible item adminConfig userConfig \<and>
    (\<forall>subs. ni_items item = Some subs \<longrightarrow> (\<forall>sub \<in> set subs. isModuleEnabled (ns_url sub) adminConfig userConfig) \<and>
      (ni_url item = None \<longrightarrow> subs \<noteq> []))"
  using assms by (auto simp: filterNavItems_def isNavItemVisible_def list_ex_iff split: option.splits if_splits)

lemma filtered_groups:
  assumes "g \<in> set (useSidebarConfig navGroups status user)"
  shows "ng_items g \<noteq> [] \<and> (\<forall>item \<in> set (ng_items g).
    isNavItemVisible item (parseSidebarConfig (str_opt (jchain status ''SidebarModulesAdmin''))) (user_sidebar_config user))"
  using assms filtered_item by (fastforce simp: useSidebarConfig_def Let_def)

end
