(* ===== verification/Route_Guards.thy ===== *)
theory Route_Guards
  imports Auth_Redirect Sidebar_Modules
begin

text \<open>
  The guards of the routes (\<open>routes/guards.tsx\<close>), the addresses of earlier versions
  (\<open>lib/legacy-route.ts\<close>), roles and permissions (\<open>lib/roles.ts\<close>, \<open>lib/admin-permissions.ts\<close>).

  A loader that throws a redirect ends with \<open>RedirectTo\<close>. The loaders wait for the start of the
  session; \<open>AuthEnv\<close> says what happens during the refresh they start themselves, and the argument
  \<open>joined\<close> gives the state after a refresh that was running already.
\<close>

section \<open>Roles and permissions\<close>

definition ROLE_GUEST :: jsnum where
  "ROLE_GUEST = 0"

definition ROLE_USER :: jsnum where
  "ROLE_USER = 1"

definition ROLE_ADMIN :: jsnum where
  "ROLE_ADMIN = 10"

definition ROLE_SUPER_ADMIN :: jsnum where
  "ROLE_SUPER_ADMIN = 100"

definition getRoleLabelKey :: "jsnum option \<Rightarrow> string" where
  "getRoleLabelKey role =
     (if role = Some ROLE_SUPER_ADMIN then ''Super Admin''
      else if role = Some ROLE_ADMIN then ''Admin''
      else if role = Some ROLE_USER then ''User''
      else ''Guest'')"

type_synonym AdminPermissionMatrix = "(string \<times> (string \<times> bool) list) list"

record PermissionResourceDef =
  pr_resource :: string
  pr_actions :: "string list"

record PermissionRoleDef =
  rd_key :: string
  rd_grants :: AdminPermissionMatrix

record PermissionCatalog =
  pc_resources :: "PermissionResourceDef list"
  pc_roles :: "PermissionRoleDef list"

definition hasPermission :: "AuthUser option \<Rightarrow> string \<Rightarrow> string \<Rightarrow> bool" where
  "hasPermission user resource action =
     (case user of
        None \<Rightarrow> False
      | Some u \<Rightarrow>
          au_role u = ROLE_SUPER_ADMIN \<or>
          jchain (jchain (jchain (jchain (Some (au_value u)) ''permissions'') ''admin_permissions'') resource) action =
            Some (JBool True))"

definition roleGrants :: "PermissionCatalog \<Rightarrow> string \<Rightarrow> AdminPermissionMatrix" where
  "roleGrants catalog roleKey =
     (case find (\<lambda>role. rd_key role = roleKey) (pc_roles catalog) of Some role \<Rightarrow> rd_grants role | None \<Rightarrow> [])"

definition granted :: "AdminPermissionMatrix \<Rightarrow> string \<Rightarrow> string \<Rightarrow> bool option" where
  "granted m resource action = Option.bind (map_of m resource) (\<lambda>actions. map_of actions action)"

definition normalizeAdminPermissions ::
  "AdminPermissionMatrix option \<Rightarrow> PermissionCatalog \<Rightarrow> AdminPermissionMatrix" where
  "normalizeAdminPermissions value catalog =
     (let baseline = roleGrants catalog ''admin'' in
      foldl (\<lambda>normalized resource.
          AList.update (pr_resource resource)
            (foldl (\<lambda>actions action.
                AList.update action
                  (nullish (nullish_opt (granted (nullish value []) (pr_resource resource) action)
                     (granted baseline (pr_resource resource) action)) False) actions)
              [] (pr_actions resource)) normalized)
        [] (pc_resources catalog))"

section \<open>Loaders\<close>

datatype LoaderResult = Continue | RedirectTo string

text \<open>
  A request of another scheme has an origin that \<open>sanitizeAuthRedirect\<close> refuses, or is refused
  by it for its own scheme.
\<close>

definition signInRedirect :: "(string \<Rightarrow> string option) \<Rightarrow> string \<Rightarrow> string" where
  "signInRedirect hp requestUrl =
     (case new_URL hp requestUrl None of
        Http u \<Rightarrow>
          (case buildSignInRedirectParam hp requestUrl (url_origin u) of
             Some redirectParam \<Rightarrow>
               if redirectParam = [] then ''/sign-in''
               else ''/sign-in'' @ serializeSearch (Some [(''redirect'', Some (JStr redirectParam))])
           | None \<Rightarrow> ''/sign-in'')
      | _ \<Rightarrow> ''/sign-in'')"

definition ensureAuthReady :: "AuthEnv \<Rightarrow> (AuthWorld \<Rightarrow> AuthWorld) \<Rightarrow> jsnum \<Rightarrow> AuthWorld \<Rightarrow> AuthWorld" where
  "ensureAuthReady env joined now w =
     (case bootstrapAuthentication now w of
        (BootOutcome _, w1) \<Rightarrow> w1
      | (BootRefresh _ None, w1) \<Rightarrow> joined w1
      | (BootRefresh _ (Some epoch), w1) \<Rightarrow> refresh_settled (snd (snd (runRefresh env epoch w1))))"

definition signed_in :: "AuthState \<Rightarrow> bool" where
  "signed_in auth \<longleftrightarrow> as_user auth \<noteq> None \<and> opt_str (as_accessToken auth) \<noteq> []"

definition role_check :: "(string \<Rightarrow> string option) \<Rightarrow> (jsnum \<Rightarrow> bool) \<Rightarrow> string \<Rightarrow> AuthState \<Rightarrow> LoaderResult" where
  "role_check hp refused requestUrl auth =
     (case as_user auth of
        None \<Rightarrow> RedirectTo (signInRedirect hp requestUrl)
      | Some user \<Rightarrow>
          if opt_str (as_accessToken auth) = [] then RedirectTo (signInRedirect hp requestUrl)
          else if refused (au_role user) then RedirectTo ''/403''
          else Continue)"

definition requireRole ::
  "(string \<Rightarrow> string option) \<Rightarrow> AuthEnv \<Rightarrow> (AuthWorld \<Rightarrow> AuthWorld) \<Rightarrow> jsnum \<Rightarrow> jsnum \<Rightarrow> string \<Rightarrow> AuthWorld \<Rightarrow>
     LoaderResult \<times> AuthWorld" where
  "requireRole hp env joined now minRole requestUrl w =
     (let w' = ensureAuthReady env joined now w in
      (role_check hp (\<lambda>role. role < minRole) requestUrl (aw_auth w'), w'))"

definition requireSuperAdmin ::
  "(string \<Rightarrow> string option) \<Rightarrow> AuthEnv \<Rightarrow> (AuthWorld \<Rightarrow> AuthWorld) \<Rightarrow> jsnum \<Rightarrow> string \<Rightarrow> AuthWorld \<Rightarrow>
     LoaderResult \<times> AuthWorld" where
  "requireSuperAdmin hp env joined now requestUrl w =
     (let w' = ensureAuthReady env joined now w in
      (role_check hp (\<lambda>role. role \<noteq> ROLE_SUPER_ADMIN) requestUrl (aw_auth w'), w'))"

definition requireSection :: "string list \<Rightarrow> string \<Rightarrow> string option \<Rightarrow> LoaderResult" where
  "requireSection valid fallbackPath section_param =
     (if opt_str section_param = [] \<or> opt_str section_param \<notin> set valid then RedirectTo fallbackPath else Continue)"

definition moduleAccessLoader ::
  "(string \<Rightarrow> string option) \<Rightarrow> (string \<Rightarrow> bool) \<Rightarrow> AuthEnv \<Rightarrow> (AuthWorld \<Rightarrow> AuthWorld) \<Rightarrow> jsnum \<Rightarrow> unit + json option \<Rightarrow>
     HeaderNavModule \<Rightarrow> string \<Rightarrow> string option \<Rightarrow> AuthWorld \<Rightarrow> LoaderResult \<times> string option \<times> AuthWorld" where
  "moduleAccessLoader hp fits env joined now response m requestUrl stored w =
     (case getFreshModuleAccess fits response m stored of (access, stored') \<Rightarrow>
        if \<not> ma_enabled access then (RedirectTo ''/'', stored', w)
        else if ma_requireAuth access then
          (let w' = ensureAuthReady env joined now w in
           (if as_user (aw_auth w') = None then RedirectTo (signInRedirect hp requestUrl) else Continue, stored', w'))
        else (Continue, stored', w))"

definition playgroundLoader :: "string option \<Rightarrow> LoaderResult" where
  "playgroundLoader stored =
     (if \<not> isSidebarModuleEnabled stored ''chat'' ''playground'' then RedirectTo ''/analytics/usage'' else Continue)"

definition SuperAdminLayout :: "AuthState \<Rightarrow> GuardView" where
  "SuperAdminLayout auth =
     (if map_option au_role (as_user auth) \<noteq> Some ROLE_SUPER_ADMIN then NavigateTo ''/403'' else RenderPage)"

section \<open>Addresses of earlier versions\<close>

definition legacyOrigin :: string where
  "legacyOrigin = ''https://legacy-route.invalid''"

definition legacyConsoleRoutes :: "(string \<times> string) list" where
  "legacyConsoleRoutes =
     [(''/console'', ''/analytics/usage''), (''/console/models'', ''/models''), (''/console/deployment'', ''/models/metadata''),
      (''/console/subscription'', ''/subscriptions''), (''/console/channel'', ''/channels''), (''/console/token'', ''/keys''),
      (''/console/playground'', ''/playground''), (''/console/redemption'', ''/redemption-codes''), (''/console/user'', ''/users''),
      (''/console/personal'', ''/profile''), (''/console/log'', ''/usage-logs''), (''/console/midjourney'', ''/usage-logs/task''),
      (''/console/task'', ''/usage-logs/task'')]"

definition legacySettingsTabs :: "(string \<times> string) list" where
  "legacySettingsTabs =
     [(''operation'', ''/system-settings/operations/behavior''), (''dashboard'', ''/system-settings/content/dashboard''),
      (''payment'', ''/system-settings/billing/payment''), (''ratio'', ''/system-settings/billing/model-pricing''),
      (''ratelimit'', ''/system-settings/security/rate-limit''), (''models'', ''/system-settings/models/global''),
      (''model-deployment'', ''/system-settings/models/global''), (''performance'', ''/system-settings/operations/performance''),
      (''system'', ''/system-settings/site/system-info''), (''other'', ''/system-settings/site/system-info'')]"

definition normalizeLegacyPath :: "string \<Rightarrow> string" where
  "normalizeLegacyPath pathname =
     (if pathname = ''/'' then pathname else rev (dropWhile (\<lambda>c. c = CHR ''/'') (rev pathname)))"

text \<open>The target path is one of the paths above, which have no search and no hash of their own.\<close>

definition buildTargetHref :: "string \<Rightarrow> (string \<times> string) list \<Rightarrow> Url \<Rightarrow> string" where
  "buildTargetHref targetPath params source =
     targetPath @ (if params = [] then [] else CHR ''?'' # params_toString params) @ url_hash source"

text \<open>
  The target of a settings tab. A tab named like a member that every object inherits finds that
  member in the table, which is no path.
\<close>

definition settings_target :: "string \<Rightarrow> js_error + string" where
  "settings_target tab =
     (case map_of legacySettingsTabs tab of
        Some target \<Rightarrow> Inr target
      | None \<Rightarrow> if tab \<in> set inherited_names then Inl IllTyped else Inr ''/system-settings'')"

definition legacy_target :: "string \<Rightarrow> (string \<times> string) list \<Rightarrow> js_error + string option" where
  "legacy_target pathname params =
     (if pathname = ''/login'' then Inr (Some ''/sign-in'')
      else if pathname = ''/forbidden'' then Inr (Some ''/403'')
      else if pathname = ''/console/topup'' then Inr (Some ''/wallet'')
      else if pathname = ''/console/setting'' then
        (case settings_target (nullish (params_get ''tab'' params) []) of Inl e \<Rightarrow> Inl e | Inr target \<Rightarrow> Inr (Some target))
      else (case map_of legacyConsoleRoutes pathname of
          Some target \<Rightarrow> Inr (Some target)
        | None \<Rightarrow> if prefix ''/console/'' pathname then Inr (Some ''/analytics/usage'') else Inr None))"

definition resolveLegacyRoute :: "(string \<Rightarrow> string option) \<Rightarrow> string \<Rightarrow> js_error + string option" where
  "resolveLegacyRoute hp rawHref =
     (case new_URL hp rawHref (Some legacyOrigin) of
        Http source \<Rightarrow>
          (case params_parse (url_search source) of
             None \<Rightarrow> Inl IllTyped
           | Some params \<Rightarrow>
               (case legacy_target (normalizeLegacyPath (url_pathname source)) params of
                  Inl e \<Rightarrow> Inl e
                | Inr None \<Rightarrow> Inr None
                | Inr (Some target) \<Rightarrow> Inr (Some (buildTargetHref target params source))))
      | Failure \<Rightarrow> Inr None
      | OtherScheme _ \<Rightarrow> Inl IllTyped)"

section \<open>The loader of the root\<close>

text \<open>
  The answer on the setup of the server is \<open>None\<close> when the request fails. The flag
  \<open>setupStatusChecked\<close> of the module is an argument and a result.
\<close>

definition setup_check :: "json option \<Rightarrow> bool \<Rightarrow> LoaderResult \<times> bool" where
  "setup_check status checked =
     (let data = jchain status ''data''; success = truthy (jchain status ''success'') in
      if success \<and> truthy data \<and> \<not> truthy (jchain data ''status'') then (RedirectTo ''/setup'', checked)
      else (Continue, checked \<or> success \<and> truthy (jchain data ''status'')))"

definition rootLoader ::
  "(string \<Rightarrow> string option) \<Rightarrow> AuthEnv \<Rightarrow> (AuthWorld \<Rightarrow> AuthWorld) \<Rightarrow> jsnum \<Rightarrow> json option \<Rightarrow> string \<Rightarrow> bool \<Rightarrow> AuthWorld \<Rightarrow>
     js_error + LoaderResult \<times> bool \<times> AuthWorld" where
  "rootLoader hp env joined now setup requestUrl checked w =
     (case new_URL hp requestUrl None of
        Http url \<Rightarrow>
          (case resolveLegacyRoute hp (local_part url) of
             Inl e \<Rightarrow> Inl e
           | Inr (Some target) \<Rightarrow> Inr (RedirectTo target, checked, w)
           | Inr None \<Rightarrow>
               let w' = ensureAuthReady env joined now w in
               if \<not> checked \<and> \<not> prefix ''/setup'' (url_pathname url)
               then (case setup_check setup checked of (result, checked') \<Rightarrow> Inr (result, checked', w'))
               else Inr (Continue, checked, w'))
      | _ \<Rightarrow> Inl IllTyped)"

section \<open>The session behind a guard\<close>

definition keeps_joined :: "(AuthWorld \<Rightarrow> AuthWorld) \<Rightarrow> bool" where
  "keeps_joined joined \<longleftrightarrow> (\<forall>w. store_ok (aw_auth w) \<longrightarrow> store_ok (aw_auth (joined w)))"

lemma bootstrap_store:
  "bootstrapAuthentication now w = (step, w1) \<Longrightarrow> store_ok (aw_auth w) \<Longrightarrow> store_ok (aw_auth w1)"
  by (auto simp: bootstrapAuthentication_def refreshAuthentication_def Let_def split: option.splits if_splits)

lemma ensureAuthReady_store:
  assumes "keeps_store env" and "keeps_joined joined" and w: "store_ok (aw_auth w)"
  shows "store_ok (aw_auth (ensureAuthReady env joined now w))"
proof -
  obtain step w1 where boot: "bootstrapAuthentication now w = (step, w1)" by (cases "bootstrapAuthentication now w")
  have w1: "store_ok (aw_auth w1)" by (rule bootstrap_store [OF boot w])
  then have "store_ok (aw_auth (snd (snd (runRefresh env epoch w1))))" for epoch
    using assms(1) by (simp add: runRefresh_def createRefreshRunner_def run_refresh_store)
  with w1 assms(2) show ?thesis
    by (simp add: ensureAuthReady_def boot keeps_joined_def refresh_settled_def split: BootstrapStep.split option.split)
qed

lemma store_ok_token:
  "store_ok auth \<Longrightarrow> opt_str (as_accessToken auth) \<noteq> [] \<longleftrightarrow> as_session auth \<noteq> None"
  by (auto simp: store_ok_def opt_str_def split: option.splits)

lemma refresh_anonymous:
  assumes "runRefresh env epoch w = (Anonymous, n, w')"
  shows "as_user (aw_auth w') = None"
  using page_runtime.run_agrees [of env epoch 0 0 True w Anonymous n w'] assms
  by (simp add: runRefresh_def createRefreshRunner_def page_runtime.agrees_def no_session_def)

text \<open>
  C4. A page behind a role is reached exactly by the users who have it: the loader lets the
  navigation continue if and only if, once the session has settled, there is a user with the
  role, a token and a session; otherwise it redirects to the sign-in page or to the page for
  forbidden access. A visitor whose session the server has ended is sent to the sign-in page.
\<close>

theorem role_guard_sound:
  assumes "keeps_store env" and "keeps_joined joined" and "store_ok (aw_auth w)"
    and guard: "requireRole hp env joined now minRole url w = (result, w')"
  shows "store_ok (aw_auth w') \<and>
    (result = Continue \<longleftrightarrow> (\<exists>user session. as_user (aw_auth w') = Some user \<and> minRole \<le> au_role user \<and>
      as_session (aw_auth w') = Some session)) \<and>
    (result \<noteq> Continue \<longrightarrow> result = RedirectTo ''/403'' \<or> result = RedirectTo (signInRedirect hp url)) \<and>
    (\<forall>p epoch w1. bootstrapAuthentication now w = (BootRefresh p (Some epoch), w1) \<and>
      fst (runRefresh env epoch w1) = Anonymous \<longrightarrow> result = RedirectTo (signInRedirect hp url))"
proof -
  have w': "w' = ensureAuthReady env joined now w"
    and result: "result = role_check hp (\<lambda>role. role < minRole) url (aw_auth w')"
    using guard by (auto simp: requireRole_def Let_def)
  have ok: "store_ok (aw_auth w')" unfolding w' by (rule ensureAuthReady_store [OF assms(1-3)])
  have "result = RedirectTo (signInRedirect hp url)"
    if boot: "bootstrapAuthentication now w = (BootRefresh p (Some epoch), w1)"
      and anonymous: "fst (runRefresh env epoch w1) = Anonymous" for p epoch w1
  proof -
    obtain n w2 where run: "runRefresh env epoch w1 = (Anonymous, n, w2)" using anonymous by (metis prod.collapse)
    then have "as_user (aw_auth w') = None"
      using refresh_anonymous [OF run] boot by (simp add: w' ensureAuthReady_def refresh_settled_def)
    then show ?thesis by (simp add: result role_check_def)
  qed
  moreover have "result = Continue \<longleftrightarrow> (\<exists>user session. as_user (aw_auth w') = Some user \<and> minRole \<le> au_role user \<and>
      as_session (aw_auth w') = Some session)"
    using store_ok_token [OF ok] by (auto simp: result role_check_def split: option.splits)
  moreover have "result = Continue \<or> result = RedirectTo ''/403'' \<or> result = RedirectTo (signInRedirect hp url)"
    by (simp add: result role_check_def split: option.splits)
  ultimately show ?thesis using ok by blast
qed

definition example_world :: AuthWorld where
  "example_world = applyAuthBundle (the (as_AuthBundle (Some witness_bundle))) False initial_auth_world"

theorem role_guard_sound_witness:
  "fst (requireRole ascii_host race_env (\<lambda>w. w) 5 ROLE_USER ''https://app.example/keys'' example_world) = Continue \<and>
   fst (requireRole ascii_host race_env (\<lambda>w. w) 5 ROLE_ADMIN ''https://app.example/keys'' example_world) = RedirectTo ''/403''"
proof -
  have env: "keeps_store race_env" "keeps_joined (\<lambda>w. w)" by (simp_all add: keeps_store_def race_env_def keeps_joined_def)
  have "store_ok (aw_auth example_world)" by code_simp
  note guard = role_guard_sound [OF env this]
  define w' where "w' = snd (requireRole ascii_host race_env (\<lambda>w. w) 5 ROLE_USER ''https://app.example/keys'' example_world)"
  have "\<exists>user session. as_user (aw_auth w') = Some user \<and> ROLE_USER \<le> au_role user \<and> as_session (aw_auth w') = Some session"
  proof -
    have "case (as_user (aw_auth w'), as_session (aw_auth w')) of (Some user, Some session) \<Rightarrow> ROLE_USER \<le> au_role user | _ \<Rightarrow> False"
      unfolding w'_def by code_simp
    then show ?thesis by (auto split: option.splits)
  qed
  then have "fst (requireRole ascii_host race_env (\<lambda>w. w) 5 ROLE_USER ''https://app.example/keys'' example_world) = Continue"
    using guard [of ascii_host 5 ROLE_USER "''https://app.example/keys''" _ w'] by (metis w'_def prod.collapse)
  moreover have "fst (requireRole ascii_host race_env (\<lambda>w. w) 5 ROLE_ADMIN ''https://app.example/keys'' example_world) = RedirectTo ''/403''"
    by code_simp
  ultimately show ?thesis by blast
qed

section \<open>Back after signing in\<close>

context host_parser
begin

lemma component_sign_in:
  assumes u: "wf_url hp u" and slash: "CHR 0x5C \<notin> set (url_href u)"
    and guest: "\<not> isAuthGuestRedirectPath (url_pathname u)" and single: "\<not> prefix ''//'' (url_pathname u)"
    and out: "as_user auth = None" and user: "as_user auth' = Some user"
  shows "\<exists>to v. RequireAuth hp (url_href u) (url_origin u) auth = NavigateTo to \<and>
    new_URL hp to (Some (url_origin u)) = Http v \<and>
    RequireGuest hp (url_search v) (url_origin u) auth' = Inr (NavigateTo (local_part u))"
proof -
  define p where "p = url_href (on_site u u)"
  have "p \<noteq> []" using href_head [OF on_site_wf [OF u u]] by (auto simp: p_def)
  then have "RequireAuth hp (url_href u) (url_origin u) auth = NavigateTo (''/sign-in?redirect='' @ encodeURIComponent p)"
    using sign_in_param [OF u slash guest single] out by (simp add: RequireAuth_def signInPathWithRedirect_def flip: p_def)
  then show ?thesis
    using sign_in_search [OF u, of p] guest_returns [OF u slash guest user] by (metis p_def)
qed

lemma loader_sign_in:
  assumes u: "wf_url hp u" and slash: "CHR 0x5C \<notin> set (url_href u)"
    and guest: "\<not> isAuthGuestRedirectPath (url_pathname u)" and single: "\<not> prefix ''//'' (url_pathname u)"
    and out: "as_user auth = None" and user: "as_user auth' = Some user"
  shows "\<exists>to v. role_check hp refused (url_href u) auth = RedirectTo to \<and>
    new_URL hp to (Some (url_origin u)) = Http v \<and>
    RequireGuest hp (url_search v) (url_origin u) auth' = Inr (NavigateTo (local_part u))"
proof -
  define p where "p = url_href (on_site u u)"
  have "p \<noteq> []" using href_head [OF on_site_wf [OF u u]] by (auto simp: p_def)
  moreover have "new_URL hp (url_href u) None = Http u" using href_read [OF u] by (simp add: new_URL_def)
  moreover have "serializeSearch (Some [(''redirect'', Some (JStr p))]) = ''?redirect='' @ form_encode p"
  proof -
    have "form_encode ''redirect'' = ''redirect''" by code_simp
    then show ?thesis by (simp add: serializeSearch_def params_toString_def search_value_text_def Let_def)
  qed
  ultimately have "role_check hp refused (url_href u) auth = RedirectTo (''/sign-in?redirect='' @ form_encode p)"
    using sign_in_param [OF u slash guest single] out by (simp add: role_check_def signInRedirect_def flip: p_def)
  then show ?thesis
    using sign_in_form_search [OF u, of p] guest_returns [OF u slash guest user] by (metis p_def)
qed

end



section \<open>Addresses of earlier versions lead to current ones\<close>

definition legacy_targets :: "string list" where
  "legacy_targets = [''/sign-in'', ''/403'', ''/wallet'', ''/system-settings'', ''/analytics/usage''] @
     map snd legacySettingsTabs @ map snd legacyConsoleRoutes"

definition target_segments :: "string \<Rightarrow> string list" where
  "target_segments target = tl (js_split CHR ''/'' target)"

lemma legacy_target_listed: "legacy_target pathname params = Inr (Some target) \<Longrightarrow> target \<in> set legacy_targets"
proof -
  have "map_of kvs k = Some t \<Longrightarrow> t \<in> set (map snd kvs)" for kvs :: "(string \<times> string) list" and k t
    by (force dest: map_of_SomeD)
  then show "legacy_target pathname params = Inr (Some target) \<Longrightarrow> target \<in> set legacy_targets"
    unfolding legacy_targets_def set_append legacy_target_def settings_target_def
    by (fastforce split: if_splits option.splits sum.splits)
qed

lemma targets_normal:
  assumes "target \<in> set legacy_targets"
  shows "path_ok (target_segments target)" and "concat (map (\<lambda>s. CHR ''/'' # s) (target_segments target)) = target"
    and "\<not> prefix ''//'' target" and "legacy_target (normalizeLegacyPath target) params = Inr None"
proof -
  have "\<forall>t \<in> set legacy_targets. path_ok (target_segments t) \<and> concat (map (\<lambda>s. CHR ''/'' # s) (target_segments t)) = t \<and>
      \<not> prefix ''//'' t"
    by code_simp
  then show "path_ok (target_segments target)" "concat (map (\<lambda>s. CHR ''/'' # s) (target_segments target)) = target"
      "\<not> prefix ''//'' target"
    using assms by blast+
  have "\<forall>t \<in> set legacy_targets. normalizeLegacyPath t \<notin> {''/login'', ''/forbidden'', ''/console/topup'', ''/console/setting''} \<and>
      map_of legacyConsoleRoutes (normalizeLegacyPath t) = None \<and> \<not> prefix ''/console/'' (normalizeLegacyPath t)"
    by code_simp
  then show "legacy_target (normalizeLegacyPath target) params = Inr None"
    using assms by (simp add: legacy_target_def)
qed

lemma js_join_chars: "c \<in> set (js_join sep xs) \<Longrightarrow> c \<in> set sep \<or> (\<exists>x \<in> set xs. c \<in> set x)"
  by (induction xs) (auto simp: js_join_Cons split: if_splits)

lemma params_toString_chars:
  assumes "c \<in> set (params_toString ps)"
  shows "c = CHR ''&'' \<or> c = CHR ''='' \<or> (\<exists>s. c \<in> set (form_encode s))"
  using js_join_chars [OF assms [unfolded params_toString_def]] by auto

lemma params_toString_plain:
  "CHR ''?'' \<notin> set (params_toString ps)" "\<forall>c \<in> set (params_toString ps). \<not> special_query_set c"
proof -
  show "CHR ''?'' \<notin> set (params_toString ps)" using params_toString_chars form_encode_plain(3) by fastforce
  have "\<not> special_query_set CHR ''&''" "\<not> special_query_set CHR ''=''" by code_simp+
  moreover have "\<not> special_query_set c" if "c \<in> set (form_encode s)" for c s
    using that percent_encode_chars [of c special_query_set "form_encode s"] encoded_char_plain(2) [of c]
    unfolding form_query(1) by blast
  ultimately show "\<forall>c \<in> set (params_toString ps). \<not> special_query_set c"
    by (intro ballI) (auto dest: params_toString_chars)
qed

lemma params_parse_search: "params_parse (CHR ''?'' # params_toString ps) = Some ps"
proof -
  have "\<not> prefix ''?'' (params_toString ps)" using params_toString_plain(1) [of ps] by (cases "params_toString ps") auto
  then show ?thesis
    using params_parse_toString [of ps] by (simp add: params_parse_def drop_question_def)
qed

definition legacy_base :: Url where
  "legacy_base = \<lparr>url_scheme = ''https'', url_host = ''legacy-route.invalid'', url_port = None, url_path = [[]],
     url_query = None, url_fragment = None\<rparr>"

context host_parser
begin

lemma legacy_settles_aux:
  assumes host: "hp ''legacy-route.invalid'' = Some ''legacy-route.invalid''"
    and resolved: "resolveLegacyRoute hp raw = Inr (Some href)"
  shows "\<exists>source u params. new_URL hp raw (Some legacyOrigin) = Http source \<and> new_URL hp href (Some legacyOrigin) = Http u \<and>
    params_parse (url_search source) = Some params \<and> params_parse (url_search u) = Some params \<and>
    url_hash u = url_hash source \<and> url_origin u = legacyOrigin \<and> resolveLegacyRoute hp href = Inr None"
proof -
  have b: "wf_url hp legacy_base" using host by (simp add: wf_url_def legacy_base_def port_ok_def path_ok_def seg_ok_Nil)
  have origin: "legacyOrigin = url_origin legacy_base" by code_simp
  have base: "new_URL hp s (Some legacyOrigin) = parse_url hp (Some legacy_base) s" for s
    using origin_read [OF b] by (simp add: new_URL_def origin) (simp add: legacy_base_def)
  obtain source params target where source: "new_URL hp raw (Some legacyOrigin) = Http source"
    and params: "params_parse (url_search source) = Some params"
    and target: "legacy_target (normalizeLegacyPath (url_pathname source)) params = Inr (Some target)"
    and href: "href = buildTargetHref target params source"
    using resolved by (auto simp: resolveLegacyRoute_def split: UrlResult.splits option.splits sum.splits)
  have listed: "target \<in> set legacy_targets" by (rule legacy_target_listed [OF target])
  note normal = targets_normal [OF listed]
  have wf: "wf_url hp source" using source by (rule new_URL_wf)
  define q where "q = (if params = [] then None else Some (params_toString params))"
  define f where "f = nonempty_part (url_fragment source)"
  define u where "u = legacy_base\<lparr>url_path := target_segments target, url_query := q, url_fragment := f\<rparr>"
  have u: "wf_url hp u"
    using b normal(1) params_toString_plain(2) [of params] wf
    by (auto simp: u_def wf_url_def q_def f_def nonempty_part_def split: if_splits)
  have path: "url_pathname u = target" using normal(2) by (simp add: u_def url_pathname_def)
  have "params \<noteq> [] \<Longrightarrow> params_toString params \<noteq> []"
    using params_parse_toString [of params] by (auto simp: params_parse_def drop_question_def)
  then have search: "with_mark CHR ''?'' q = (if params = [] then [] else CHR ''?'' # params_toString params)"
      "url_search u = with_mark CHR ''?'' q"
    by (auto simp: q_def with_mark_def url_search_def u_def nonempty_part_def)
  have hash: "with_mark CHR ''#'' f = url_hash source" "url_hash u = url_hash source"
    by (simp_all add: f_def url_hash_def u_def nonempty_part_def)
  have "href = url_pathname u @ with_mark CHR ''?'' q @ with_mark CHR ''#'' f"
    by (simp add: href buildTargetHref_def path search(1) hash(1))
  moreover have "parse_url hp (Some legacy_base) (url_pathname u @ with_mark CHR ''?'' q @ with_mark CHR ''#'' f) =
      Http (legacy_base\<lparr>url_path := url_path u, url_query := q, url_fragment := f\<rparr>)"
    by (rule reference_read [OF u b]) (use normal(3) path in \<open>simp_all add: u_def\<close>)
  ultimately have again: "new_URL hp href (Some legacyOrigin) = Http u" by (simp add: base u_def)
  have "params_parse [] = Some []" by code_simp
  then have same: "params_parse (url_search u) = Some params"
    using params_parse_search [of params] by (simp add: search)
  have "resolveLegacyRoute hp href = Inr None" by (simp add: resolveLegacyRoute_def again same path normal(4))
  moreover have "url_origin u = legacyOrigin" by (simp add: u_def origin)
  ultimately show ?thesis using source params again same hash(2) by blast
qed

end

text \<open>
  C32. An address of an earlier version is redirected once: the address it is redirected to is
  not an old one itself, so the loader of the root does not redirect again. It stays on the
  site and keeps the parameters of the search and the hash.
\<close>

theorem legacy_route_settles:
  assumes "host_parser hp" and "hp ''legacy-route.invalid'' = Some ''legacy-route.invalid''"
    and "resolveLegacyRoute hp raw = Inr (Some href)"
  shows "\<exists>source u params. new_URL hp raw (Some legacyOrigin) = Http source \<and> new_URL hp href (Some legacyOrigin) = Http u \<and>
    params_parse (url_search source) = Some params \<and> params_parse (url_search u) = Some params \<and>
    url_hash u = url_hash source \<and> url_origin u = legacyOrigin \<and> resolveLegacyRoute hp href = Inr None"
  by (rule host_parser.legacy_settles_aux [OF assms])

theorem legacy_route_settles_witness:
  "resolveLegacyRoute ascii_host ''/console/setting/?tab=ratio#top'' =
     Inr (Some ''/system-settings/billing/model-pricing?tab=ratio#top'') \<and>
   resolveLegacyRoute ascii_host ''/system-settings/billing/model-pricing?tab=ratio#top'' = Inr None"
proof -
  have host: "ascii_host ''legacy-route.invalid'' = Some ''legacy-route.invalid''" by code_simp
  have step: "resolveLegacyRoute ascii_host ''/console/setting/?tab=ratio#top'' =
      Inr (Some ''/system-settings/billing/model-pricing?tab=ratio#top'')" by code_simp
  from legacy_route_settles [OF ascii.host_parser_axioms host step] step show ?thesis by blast
qed

end
