(* ===== verification/Flow_Data.thy ===== *)
theory Flow_Data
  imports Json
begin

text \<open>
  The flow of usage through users, nodes, tokens, models and channels that the dashboard draws
  (\<open>features/dashboard/lib/flow.ts\<close>, with the types of \<open>features/dashboard/types.ts\<close> and
  \<open>features/dashboard/lib/flow-selection.ts\<close>): the paths of the rows, the filters, the graph with
  its limit on nodes, its highlighting and its masks, and the options of the filters.

  A \<open>Map\<close> is an association list in the order of insertion, a \<open>Set\<close> a list without duplicates.
  \<open>localeCompare\<close>, the number format of \<open>Intl\<close> and the colours of the theme depend on the browser
  and are fields of \<open>FlowEnv\<close>. \<open>sort\<close> is a stable insertion sort, which is what every stable sort
  computes for a comparison that is an order.
\<close>

section \<open>Types\<close>

record FlowEnv =
  fe_localeCompare :: "string \<Rightarrow> string \<Rightarrow> jsnum"
  fe_formatNumber :: "jsnum \<Rightarrow> string"
  fe_chartColors :: "nat \<Rightarrow> string list"

record FlowQuotaDataItem =
  fq_user_id :: "jsnum option"
  fq_username :: "string option"
  fq_node_name :: "string option"
  fq_token_id :: "jsnum option"
  fq_token_name :: "string option"
  fq_channel_id :: "jsnum option"
  fq_channel_name :: "string option"
  fq_model_name :: "string option"
  fq_token_used :: "jsnum option"
  fq_count :: "jsnum option"
  fq_quota :: "jsnum option"

datatype FlowMetric = QuotaMetric | TokensMetric | RequestsMetric

datatype FlowOverflowMode = Aggregate | Hide

datatype FlowRole = UserRole | AdminRole | RootRole

datatype FlowNodeKind = UserKind | NodeKind | TokenKind | ModelKind | ChannelKind

record FlowNodeFilter =
  nf_kind :: FlowNodeKind
  nf_id :: string

record FlowLinkSelection =
  ls_source :: string
  ls_target :: string

record FlowMetrics =
  fm_quota :: jsnum
  fm_tokens :: jsnum
  fm_requests :: jsnum

record FlowPathNode =
  fp_id :: string
  fp_label :: string
  fp_kind :: FlowNodeKind

record PreparedFlowPath =
  pp_path :: "FlowPathNode list"
  pp_metrics :: FlowMetrics

record FlowNodeRank =
  rk_node :: FlowPathNode
  rk_value :: jsnum

type_synonym FlowPathContext = "(jsnum \<Rightarrow> string) option"

record DashboardFlowNode =
  fn_id :: string
  fn_label :: string
  fn_kind :: FlowNodeKind
  fn_value :: jsnum
  fn_requests :: jsnum
  fn_quota :: jsnum
  fn_tokens :: jsnum
  fn_color :: string
  fn_colorKey :: string
  fn_highlighted :: "bool option"
  fn_dimmed :: "bool option"

record DashboardFlowLink =
  fl_source :: string
  fl_target :: string
  fl_value :: jsnum
  fl_requests :: jsnum
  fl_quota :: jsnum
  fl_tokens :: jsnum
  fl_sourceLabel :: string
  fl_targetLabel :: string
  fl_color :: string
  fl_linkColor :: string
  fl_linkAlpha :: jsnum
  fl_hoverColor :: string
  fl_colorKey :: string
  fl_share :: jsnum
  fl_highlighted :: "bool option"
  fl_dimmed :: "bool option"

record DashboardFlowGraph =
  fg_nodes :: "DashboardFlowNode list"
  fg_links :: "DashboardFlowLink list"

record FlowGraphOptions =
  go_topNodeLimit :: "jsnum option"
  go_overflowMode :: "FlowOverflowMode option"
  go_otherNodeLabel :: "(FlowNodeKind \<Rightarrow> string) option"
  go_activeNode :: "FlowNodeFilter option"
  go_activeLink :: "FlowLinkSelection option"
  go_maskSensitive :: bool

record FlowBuildOptions = FlowGraphOptions +
  bo_role :: "FlowRole option"
  bo_selectedUsers :: "string list option"
  bo_selectedNodes :: "FlowNodeFilter list option"
  bo_colorPalette :: "string list option"
  bo_visibleStages :: "FlowNodeKind list option"
  bo_deletedTokenLabel :: FlowPathContext

record FlowUserFilterOption =
  uo_value :: string
  uo_label :: string
  uo_valueLabel :: string
  uo_valueRaw :: jsnum
  uo_color :: string

record FlowNodeFilterOption =
  no_kind :: FlowNodeKind
  no_value :: string
  no_label :: string
  no_valueLabel :: string
  no_valueRaw :: jsnum
  no_color :: string

record FlowFilterOptions =
  fo_users :: "FlowUserFilterOption list"
  fo_nodes :: "FlowNodeFilterOption list"

record ProcessedFlowData =
  pf_summary :: FlowMetrics
  pf_flow :: DashboardFlowGraph
  pf_filterOptions :: FlowFilterOptions

section \<open>Sets and sorting\<close>

definition set_add :: "'a \<Rightarrow> 'a list \<Rightarrow> 'a list" where
  "set_add x xs = (if x \<in> set xs then xs else xs @ [x])"

text \<open>\<open>[...new Set(xs)]\<close>: the first occurrences.\<close>

definition js_unique :: "'a list \<Rightarrow> 'a list" where
  "js_unique xs = foldl (\<lambda>acc x. set_add x acc) [] xs"

text \<open>The operator \<open>||\<close> between two results of a comparison.\<close>

definition cmp_or :: "jsnum \<Rightarrow> jsnum \<Rightarrow> jsnum" where
  "cmp_or a b = (if a = 0 then b else a)"

fun js_insert :: "('a \<Rightarrow> 'a \<Rightarrow> jsnum) \<Rightarrow> 'a \<Rightarrow> 'a list \<Rightarrow> 'a list" where
  "js_insert cmp x [] = [x]"
| "js_insert cmp x (y # ys) = (if cmp x y \<le> 0 then x # y # ys else y # js_insert cmp x ys)"

definition js_sort :: "('a \<Rightarrow> 'a \<Rightarrow> jsnum) \<Rightarrow> 'a list \<Rightarrow> 'a list" where
  "js_sort cmp xs = foldr (js_insert cmp) xs []"

section \<open>Nodes of a path\<close>

definition DEFAULT_FLOW_CHART_COLOR :: string where
  "DEFAULT_FLOW_CHART_COLOR = ''#64748b''"

definition OTHER_FLOW_NODE_IDS :: "FlowNodeKind \<Rightarrow> string" where
  "OTHER_FLOW_NODE_IDS kind = (case kind of
      UserKind \<Rightarrow> ''user:__other__''
    | NodeKind \<Rightarrow> ''node:__other__''
    | TokenKind \<Rightarrow> ''token:__other__''
    | ModelKind \<Rightarrow> ''model:__other__''
    | ChannelKind \<Rightarrow> ''channel:__other__'')"

definition DEFAULT_OTHER_FLOW_NODE_LABELS :: "FlowNodeKind \<Rightarrow> string" where
  "DEFAULT_OTHER_FLOW_NODE_LABELS kind = (case kind of
      UserKind \<Rightarrow> ''Other users''
    | NodeKind \<Rightarrow> ''Other nodes''
    | TokenKind \<Rightarrow> ''Other tokens''
    | ModelKind \<Rightarrow> ''Other models''
    | ChannelKind \<Rightarrow> ''Other channels'')"

definition SENSITIVE_FLOW_KINDS :: "FlowNodeKind list" where
  "SENSITIVE_FLOW_KINDS = [UserKind, NodeKind, TokenKind, ChannelKind]"

definition OTHER_FLOW_NODE_ID_SET :: "string list" where
  "OTHER_FLOW_NODE_ID_SET = map OTHER_FLOW_NODE_IDS [UserKind, NodeKind, TokenKind, ModelKind, ChannelKind]"

definition numberValue :: "jsnum option \<Rightarrow> jsnum" where
  "numberValue v = nullish v 0"

definition rowMetrics :: "FlowQuotaDataItem \<Rightarrow> FlowMetrics" where
  "rowMetrics row = \<lparr>fm_quota = numberValue (fq_quota row), fm_tokens = numberValue (fq_token_used row),
     fm_requests = numberValue (fq_count row)\<rparr>"

definition metricValue :: "FlowMetrics \<Rightarrow> FlowMetric \<Rightarrow> jsnum" where
  "metricValue metrics metric = (case metric of
      RequestsMetric \<Rightarrow> fm_requests metrics
    | TokensMetric \<Rightarrow> fm_tokens metrics
    | QuotaMetric \<Rightarrow> fm_quota metrics)"

definition userNode :: "FlowQuotaDataItem \<Rightarrow> FlowPathNode" where
  "userNode row =
     (let userID = numberValue (fq_user_id row) in
      \<lparr>fp_id = ''user:'' @ (if userID > 0 then number_string userID else str_or (opt_str (fq_username row)) ''unknown''),
       fp_label = str_or (opt_str (fq_username row)) (if userID > 0 then ''user-'' @ number_string userID else ''Unknown User''),
       fp_kind = UserKind\<rparr>)"

definition nodeNameNode :: "FlowQuotaDataItem \<Rightarrow> FlowPathNode" where
  "nodeNameNode row =
     (let nodeName = str_or (opt_str (fq_node_name row)) ''default-node'' in
      \<lparr>fp_id = ''node:'' @ nodeName, fp_label = nodeName, fp_kind = NodeKind\<rparr>)"

definition deletedTokenLabel :: "jsnum \<Rightarrow> FlowPathContext \<Rightarrow> string" where
  "deletedTokenLabel tokenID ctx =
     (if tokenID \<le> 0 then ''Unknown Token''
      else (case ctx of Some f \<Rightarrow> f tokenID | None \<Rightarrow> ''token-'' @ number_string tokenID))"

definition tokenNode :: "FlowQuotaDataItem \<Rightarrow> FlowPathContext \<Rightarrow> FlowPathNode" where
  "tokenNode row ctx =
     (let tokenID = numberValue (fq_token_id row) in
      \<lparr>fp_id = ''token:'' @ (if tokenID > 0 then number_string tokenID else str_or (opt_str (fq_token_name row)) ''unknown''),
       fp_label = str_or (opt_str (fq_token_name row)) (deletedTokenLabel tokenID ctx),
       fp_kind = TokenKind\<rparr>)"

definition modelNode :: "FlowQuotaDataItem \<Rightarrow> FlowPathNode" where
  "modelNode row =
     \<lparr>fp_id = ''model:'' @ str_or (opt_str (fq_model_name row)) ''unknown'',
      fp_label = str_or (opt_str (fq_model_name row)) ''Unknown Model'',
      fp_kind = ModelKind\<rparr>"

definition channelNode :: "FlowQuotaDataItem \<Rightarrow> FlowPathNode" where
  "channelNode row =
     (let channelID = numberValue (fq_channel_id row) in
      \<lparr>fp_id = ''channel:'' @
         (if channelID > 0 then number_string channelID else str_or (opt_str (fq_channel_name row)) ''unknown''),
       fp_label = str_or (opt_str (fq_channel_name row))
         (if channelID > 0 then ''channel-'' @ number_string channelID else ''Unknown''),
       fp_kind = ChannelKind\<rparr>)"

definition NODE_BUILDERS :: "FlowNodeKind \<Rightarrow> FlowQuotaDataItem \<Rightarrow> FlowPathContext \<Rightarrow> FlowPathNode" where
  "NODE_BUILDERS kind row ctx = (case kind of
      UserKind \<Rightarrow> userNode row
    | NodeKind \<Rightarrow> nodeNameNode row
    | TokenKind \<Rightarrow> tokenNode row ctx
    | ModelKind \<Rightarrow> modelNode row
    | ChannelKind \<Rightarrow> channelNode row)"

definition getFlowStages :: "FlowRole \<Rightarrow> FlowNodeKind list" where
  "getFlowStages role = (case role of
      RootRole \<Rightarrow> [UserKind, NodeKind, TokenKind, ModelKind, ChannelKind]
    | AdminRole \<Rightarrow> [UserKind, ModelKind, ChannelKind]
    | UserRole \<Rightarrow> [TokenKind, ModelKind])"

definition resolveVisibleStages :: "FlowRole \<Rightarrow> FlowNodeKind list option \<Rightarrow> FlowNodeKind list" where
  "resolveVisibleStages role visibleStages =
     (let stages = getFlowStages role in
      case visibleStages of
        None \<Rightarrow> stages
      | Some visible \<Rightarrow>
          let filtered = filter (\<lambda>stage. stage \<in> set visible) stages
          in if length filtered \<ge> 2 then filtered else stages)"

definition flowPathForStages :: "FlowQuotaDataItem \<Rightarrow> FlowNodeKind list \<Rightarrow> FlowPathContext \<Rightarrow> FlowPathNode list" where
  "flowPathForStages row stages ctx = map (\<lambda>stage. NODE_BUILDERS stage row ctx) stages"

section \<open>Colours\<close>

definition nonempty_palette :: "string list option \<Rightarrow> string list option" where
  "nonempty_palette palette = (case palette of Some (c # cs) \<Rightarrow> Some (c # cs) | _ \<Rightarrow> None)"

definition colorAt :: "FlowEnv \<Rightarrow> nat \<Rightarrow> string list option \<Rightarrow> string" where
  "colorAt env index palette =
     (let colors = nullish (nonempty_palette palette) (fe_chartColors env (index + 1)) in
      if colors = [] then DEFAULT_FLOW_CHART_COLOR else colors ! (index mod length colors))"

definition colorPalette :: "FlowEnv \<Rightarrow> nat \<Rightarrow> string list option \<Rightarrow> string list" where
  "colorPalette env colorCount palette =
     (case nonempty_palette palette of
        Some colors \<Rightarrow> colors
      | None \<Rightarrow>
          let colors = fe_chartColors env colorCount
          in if colors \<noteq> [] then colors else [DEFAULT_FLOW_CHART_COLOR])"

text \<open>\<open>alpha.toFixed(2)\<close> for a number that is not negative.\<close>

definition fixed2 :: "jsnum \<Rightarrow> string" where
  "fixed2 x =
     (let n = nat \<lfloor>x * 100 + 1 / 2\<rfloor> in
      int_digits (n div 100) @ ''.'' @ [digit_char (n div 10 mod 10), digit_char (n mod 10)])"

definition hex_number :: "string \<Rightarrow> nat" where
  "hex_number hex = foldl (\<lambda>n c. 16 * n + nullish (hex_val c) 0) 0 hex"

definition alphaColor :: "string \<Rightarrow> jsnum \<Rightarrow> string \<times> jsnum" where
  "alphaColor color alpha =
     (let normalized = js_trim color;
          hex = (if prefix ''#'' normalized then drop 1 normalized else normalized)
      in if \<not> (length hex = 6 \<and> list_all (\<lambda>c. hex_val c \<noteq> None) hex) then (normalized, alpha)
         else
           let v = hex_number hex
           in (''rgba('' @ int_digits (v div 65536 mod 256) @ '', '' @ int_digits (v div 256 mod 256) @ '', '' @
               int_digits (v mod 256) @ '', '' @ fixed2 alpha @ '')'', 1))"

definition stableColorMap :: "FlowEnv \<Rightarrow> string list \<Rightarrow> string list option \<Rightarrow> (string \<times> string) list" where
  "stableColorMap env keys palette =
     (let uniqueKeys = js_unique keys;
          colors = colorPalette env (length uniqueKeys) palette
      in map (\<lambda>(index, key). (key, colorAt env index (Some colors))) (enumerate 0 uniqueKeys))"

section \<open>Filters\<close>

definition filterRows :: "FlowQuotaDataItem list \<Rightarrow> string list option \<Rightarrow> FlowQuotaDataItem list" where
  "filterRows rows selectedUsers =
     (case selectedUsers of
        Some (u # us) \<Rightarrow> filter (\<lambda>row. fp_id (userNode row) \<in> set (u # us)) rows
      | _ \<Rightarrow> rows)"

definition kind_name :: "FlowNodeKind \<Rightarrow> string" where
  "kind_name kind = (case kind of
      UserKind \<Rightarrow> ''user'' | NodeKind \<Rightarrow> ''node'' | TokenKind \<Rightarrow> ''token'' | ModelKind \<Rightarrow> ''model'' | ChannelKind \<Rightarrow> ''channel'')"

definition nodeFilterKey :: "FlowNodeKind \<Rightarrow> string \<Rightarrow> string" where
  "nodeFilterKey kind i = kind_name kind @ [CHR 0x00] @ i"

text \<open>One id more in the set of a kind.\<close>

definition add_id :: "(FlowNodeKind \<times> string list) list \<Rightarrow> FlowNodeKind \<Rightarrow> string \<Rightarrow> (FlowNodeKind \<times> string list) list" where
  "add_id m kind i = AList.update kind (set_add i (nullish (map_of m kind) [])) m"

definition normalizeSelectedNodeFilters ::
  "FlowNodeFilter list option \<Rightarrow> FlowNodeKind list \<Rightarrow> (FlowNodeKind \<times> string list) list" where
  "normalizeSelectedNodeFilters selectedNodes stages =
     foldl (\<lambda>filters f. if nf_kind f \<notin> set stages then filters else add_id filters (nf_kind f) (nf_id f))
       [] (nullish selectedNodes [])"

definition pathMatchesNodeFilters :: "FlowPathNode list \<Rightarrow> (FlowNodeKind \<times> string list) list \<Rightarrow> bool" where
  "pathMatchesNodeFilters path filters =
     (if filters = [] then True
      else
        let pathNodesByKind = foldl (\<lambda>m node. add_id m (fp_kind node) (fp_id node)) [] path
        in list_all (\<lambda>(kind, selectedIds).
             case map_of pathNodesByKind kind of
               None \<Rightarrow> False
             | Some pathIds \<Rightarrow> list_ex (\<lambda>i. i \<in> set pathIds) selectedIds) filters)"

definition filterRowsByNodes ::
  "FlowQuotaDataItem list \<Rightarrow> FlowNodeFilter list option \<Rightarrow> FlowNodeKind list \<Rightarrow> FlowPathContext \<Rightarrow>
   FlowQuotaDataItem list" where
  "filterRowsByNodes rows selectedNodes stages ctx =
     (let filters = normalizeSelectedNodeFilters selectedNodes stages in
      if filters = [] then rows
      else filter (\<lambda>row. pathMatchesNodeFilters (flowPathForStages row stages ctx) filters) rows)"

definition selectedNodeFiltersExceptKind ::
  "FlowNodeFilter list option \<Rightarrow> FlowNodeKind \<Rightarrow> FlowNodeFilter list option" where
  "selectedNodeFiltersExceptKind selectedNodes kind =
     (let filtered = filter (\<lambda>f. nf_kind f \<noteq> kind) (nullish selectedNodes [])
      in if filtered \<noteq> [] then Some filtered else None)"

section \<open>Nodes and links of the graph\<close>

definition addNode ::
  "(string \<times> DashboardFlowNode) list \<Rightarrow> FlowPathNode \<Rightarrow> FlowMetrics \<Rightarrow> FlowMetric \<Rightarrow> string \<Rightarrow> string \<Rightarrow>
   (string \<times> DashboardFlowNode) list" where
  "addNode m pathNode metrics metric color colorKey =
     (let previous = nullish (map_of m (fp_id pathNode))
            \<lparr>fn_id = fp_id pathNode, fn_label = fp_label pathNode, fn_kind = fp_kind pathNode, fn_value = 0,
             fn_requests = 0, fn_quota = 0, fn_tokens = 0, fn_color = color, fn_colorKey = colorKey,
             fn_highlighted = None, fn_dimmed = None\<rparr>
      in AList.update (fp_id pathNode)
           (previous\<lparr>fn_value := fn_value previous + metricValue metrics metric,
              fn_requests := fn_requests previous + fm_requests metrics,
              fn_quota := fn_quota previous + fm_quota metrics,
              fn_tokens := fn_tokens previous + fm_tokens metrics\<rparr>) m)"

definition pathLinkKey :: "FlowPathNode \<Rightarrow> FlowPathNode \<Rightarrow> string" where
  "pathLinkKey source target = fp_id source @ [CHR 0x00] @ fp_id target"

definition linkStableKey :: "DashboardFlowLink \<Rightarrow> string" where
  "linkStableKey link = fl_source link @ [CHR 0x00] @ fl_target link"

definition addLink ::
  "(string \<times> DashboardFlowLink) list \<Rightarrow> FlowPathNode \<Rightarrow> FlowPathNode \<Rightarrow> FlowMetrics \<Rightarrow> FlowMetric \<Rightarrow> string \<Rightarrow>
   string \<Rightarrow> (string \<times> DashboardFlowLink) list" where
  "addLink m source target metrics metric color colorKey =
     (let key = pathLinkKey source target;
          previous = nullish (map_of m key)
            \<lparr>fl_source = fp_id source, fl_target = fp_id target, fl_value = 0, fl_requests = 0, fl_quota = 0,
             fl_tokens = 0, fl_sourceLabel = fp_label source, fl_targetLabel = fp_label target, fl_color = color,
             fl_linkColor = color, fl_linkAlpha = 1, fl_hoverColor = color, fl_colorKey = colorKey, fl_share = 0,
             fl_highlighted = None, fl_dimmed = None\<rparr>
      in AList.update key
           (previous\<lparr>fl_value := fl_value previous + metricValue metrics metric,
              fl_requests := fl_requests previous + fm_requests metrics,
              fl_quota := fl_quota previous + fm_quota metrics,
              fl_tokens := fl_tokens previous + fm_tokens metrics\<rparr>) m)"

text \<open>
  The links of one source share a colour and differ in its strength, by rank. A link is known by
  its position in the array.
\<close>

definition link_alpha :: "nat \<Rightarrow> nat \<Rightarrow> jsnum" where
  "link_alpha n index =
     (let denominator = max (n - 1) 1 in
      if n = 1 then 34 / 100 else 24 / 100 + (of_nat index / of_nat denominator) * (2 / 10))"

definition by_link_value :: "FlowEnv \<Rightarrow> DashboardFlowLink \<Rightarrow> DashboardFlowLink \<Rightarrow> jsnum" where
  "by_link_value env a b = cmp_or (fl_value b - fl_value a) (fe_localeCompare env (linkStableKey a) (linkStableKey b))"

definition assignLinkDisplayColors :: "FlowEnv \<Rightarrow> DashboardFlowLink list \<Rightarrow> DashboardFlowLink list" where
  "assignLinkDisplayColors env links =
     map (\<lambda>(i, link).
       let sourceLinks = filter (\<lambda>(j, l). fl_source l = fl_source link) (enumerate 0 links);
           sortedLinks = js_sort (\<lambda>a b. by_link_value env (snd a) (snd b)) sourceLinks;
           index = nullish (js_findIndex (\<lambda>(j, l). j = i) sortedLinks) 0;
           displayColor = alphaColor (fl_color link) (link_alpha (length sortedLinks) index)
       in link\<lparr>fl_linkColor := fst displayColor, fl_linkAlpha := snd displayColor, fl_hoverColor := fl_color link\<rparr>)
     (enumerate 0 links)"

definition byValueThenLabel :: "FlowEnv \<Rightarrow> DashboardFlowNode \<Rightarrow> DashboardFlowNode \<Rightarrow> jsnum" where
  "byValueThenLabel env a b = cmp_or (fn_value b - fn_value a) (fe_localeCompare env (fn_label a) (fn_label b))"

definition add_metrics :: "FlowMetrics \<Rightarrow> FlowMetrics \<Rightarrow> FlowMetrics" where
  "add_metrics summary metrics =
     \<lparr>fm_quota = fm_quota summary + fm_quota metrics, fm_tokens = fm_tokens summary + fm_tokens metrics,
      fm_requests = fm_requests summary + fm_requests metrics\<rparr>"

definition buildSummary :: "FlowQuotaDataItem list \<Rightarrow> FlowMetrics" where
  "buildSummary rows =
     foldl (\<lambda>summary row. add_metrics summary (rowMetrics row)) \<lparr>fm_quota = 0, fm_tokens = 0, fm_requests = 0\<rparr> rows"

section \<open>The limit on nodes\<close>

definition normalizeTopNodeLimit :: "jsnum option \<Rightarrow> nat option" where
  "normalizeTopNodeLimit limit =
     (case limit of
        None \<Rightarrow> None
      | Some l \<Rightarrow> let parsed = \<lfloor>l\<rfloor> in if parsed > 0 then Some (nat parsed) else None)"

definition otherFlowNode :: "FlowNodeKind \<Rightarrow> (FlowNodeKind \<Rightarrow> string) option \<Rightarrow> FlowPathNode" where
  "otherFlowNode kind labeler =
     \<lparr>fp_id = OTHER_FLOW_NODE_IDS kind,
      fp_label = (case labeler of Some f \<Rightarrow> f kind | None \<Rightarrow> DEFAULT_OTHER_FLOW_NODE_LABELS kind),
      fp_kind = kind\<rparr>"

definition add_rank :: "(string \<times> FlowNodeRank) list \<Rightarrow> FlowPathNode \<Rightarrow> jsnum \<Rightarrow> (string \<times> FlowNodeRank) list" where
  "add_rank stageTotals node v =
     (let current = nullish (map_of stageTotals (fp_id node)) \<lparr>rk_node = node, rk_value = 0\<rparr>
      in AList.update (fp_id node) (current\<lparr>rk_value := rk_value current + v\<rparr>) stageTotals)"

definition add_stage_total ::
  "jsnum \<Rightarrow> (FlowNodeKind \<times> (string \<times> FlowNodeRank) list) list \<Rightarrow> FlowPathNode \<Rightarrow>
   (FlowNodeKind \<times> (string \<times> FlowNodeRank) list) list" where
  "add_stage_total v totals node =
     (case map_of totals (fp_kind node) of
        None \<Rightarrow> totals
      | Some stageTotals \<Rightarrow> AList.update (fp_kind node) (add_rank stageTotals node v) totals)"

definition by_rank :: "FlowEnv \<Rightarrow> FlowNodeRank \<Rightarrow> FlowNodeRank \<Rightarrow> jsnum" where
  "by_rank env a b =
     cmp_or (rk_value b - rk_value a)
       (cmp_or (fe_localeCompare env (fp_label (rk_node a)) (fp_label (rk_node b)))
         (fe_localeCompare env (fp_id (rk_node a)) (fp_id (rk_node b))))"

definition buildTopNodeSets ::
  "FlowEnv \<Rightarrow> FlowQuotaDataItem list \<Rightarrow> FlowMetric \<Rightarrow> FlowNodeKind list \<Rightarrow> nat option \<Rightarrow> FlowPathContext \<Rightarrow>
   (FlowNodeKind \<times> string list) list option" where
  "buildTopNodeSets env rows metric stages limit ctx =
     (case limit of
        None \<Rightarrow> None
      | Some n \<Rightarrow>
          let totals0 = foldl (\<lambda>totals stage. AList.update stage [] totals) [] stages;
              totals = foldl (\<lambda>totals row.
                foldl (add_stage_total (metricValue (rowMetrics row) metric)) totals (flowPathForStages row stages ctx))
                totals0 rows
          in Some (map (\<lambda>(kind, stageTotals).
               (kind, map (\<lambda>rank. fp_id (rk_node rank)) (take n (js_sort (by_rank env) (map snd stageTotals))))) totals))"

definition isTopFlowNode :: "FlowPathNode \<Rightarrow> (FlowNodeKind \<times> string list) list option \<Rightarrow> bool" where
  "isTopFlowNode node topNodeSets =
     (case topNodeSets of
        None \<Rightarrow> True
      | Some sets \<Rightarrow> (case map_of sets (fp_kind node) of None \<Rightarrow> True | Some topNodes \<Rightarrow> fp_id node \<in> set topNodes))"

definition applyTopNodeLimit ::
  "FlowPathNode list \<Rightarrow> (FlowNodeKind \<times> string list) list option \<Rightarrow> FlowOverflowMode \<Rightarrow>
   (FlowNodeKind \<Rightarrow> string) option \<Rightarrow> FlowPathNode list option" where
  "applyTopNodeLimit path topNodeSets mode labeler =
     (if topNodeSets = None then Some path
      else if \<not> list_ex (\<lambda>node. \<not> isTopFlowNode node topNodeSets) path then Some path
      else if mode = Hide then None
      else Some (map (\<lambda>node. if isTopFlowNode node topNodeSets then node else otherFlowNode (fp_kind node) labeler) path))"

section \<open>Highlighting and masks\<close>

text \<open>The neighbours on a path, from its first node to its last.\<close>

definition path_steps :: "FlowPathNode list \<Rightarrow> (FlowPathNode \<times> FlowPathNode) list" where
  "path_steps path = zip path (tl path)"

definition pathContainsFlowNode :: "FlowPathNode list \<Rightarrow> FlowNodeFilter \<Rightarrow> bool" where
  "pathContainsFlowNode path f = list_ex (\<lambda>node. fp_kind node = nf_kind f \<and> fp_id node = nf_id f) path"

definition pathContainsFlowLink :: "FlowPathNode list \<Rightarrow> FlowLinkSelection \<Rightarrow> bool" where
  "pathContainsFlowLink path link =
     list_ex (\<lambda>(s, t). fp_id s = ls_source link \<and> fp_id t = ls_target link) (path_steps path)"

record FlowHighlightSets =
  hs_nodes :: "string list"
  hs_links :: "string list"

definition matches_path :: "FlowNodeFilter option \<Rightarrow> FlowLinkSelection option \<Rightarrow> FlowPathNode list \<Rightarrow> bool" where
  "matches_path activeNode activeLink path =
     (case activeLink of
        Some link \<Rightarrow> pathContainsFlowLink path link
      | None \<Rightarrow> (case activeNode of Some node \<Rightarrow> pathContainsFlowNode path node | None \<Rightarrow> False))"

definition buildFlowHighlightSets ::
  "PreparedFlowPath list \<Rightarrow> FlowNodeFilter option \<Rightarrow> FlowLinkSelection option \<Rightarrow> FlowNodeKind list \<Rightarrow>
   FlowHighlightSets option" where
  "buildFlowHighlightSets preparedPaths activeNode activeLink stages =
     (let nodeActive = (case activeNode of Some node \<Rightarrow> nf_kind node \<in> set stages | None \<Rightarrow> False) in
      if \<not> nodeActive \<and> activeLink = None then None
      else
        let matching = filter (matches_path activeNode activeLink) (map pp_path preparedPaths);
            highlightedNodes = js_unique (concat (map (map fp_id) matching));
            highlightedLinks = js_unique (concat (map (\<lambda>path. map (\<lambda>(s, t). pathLinkKey s t) (path_steps path)) matching))
        in if highlightedNodes = [] then None
           else Some \<lparr>hs_nodes = highlightedNodes, hs_links = highlightedLinks\<rparr>)"

text \<open>The mask is four bullets; their code unit is above 255, and 0x95, the bullet of the code page 1252, stands for it.\<close>

definition FLOW_MASK_TEXT :: string where
  "FLOW_MASK_TEXT = [CHR 0x95, CHR 0x95, CHR 0x95, CHR 0x95]"

definition maskFlowLabel :: "string \<Rightarrow> string" where
  "maskFlowLabel label = (if label = [] then label else FLOW_MASK_TEXT)"

definition masked_node :: "DashboardFlowNode \<Rightarrow> bool" where
  "masked_node node \<longleftrightarrow> fn_kind node \<in> set SENSITIVE_FLOW_KINDS \<and> fn_id node \<notin> set OTHER_FLOW_NODE_ID_SET"

definition maskFlowGraphLabels ::
  "(string \<times> DashboardFlowNode) list \<Rightarrow> (string \<times> DashboardFlowLink) list \<Rightarrow>
   (string \<times> DashboardFlowNode) list \<times> (string \<times> DashboardFlowLink) list" where
  "maskFlowGraphLabels nodes links =
     (let maskedById = foldl (\<lambda>m node. AList.update (fn_id node) (maskFlowLabel (fn_label node)) m) []
            (filter masked_node (map snd nodes));
          nodes' = map (\<lambda>(k, node). (k, if masked_node node then node\<lparr>fn_label := maskFlowLabel (fn_label node)\<rparr> else node)) nodes
      in if maskedById = [] then (nodes', links)
         else (nodes', map (\<lambda>(k, link). (k,
            link\<lparr>fl_sourceLabel := nullish (map_of maskedById (fl_source link)) (fl_sourceLabel link),
                 fl_targetLabel := nullish (map_of maskedById (fl_target link)) (fl_targetLabel link)\<rparr>)) links))"

definition applyFlowHighlights ::
  "DashboardFlowNode list \<Rightarrow> DashboardFlowLink list \<Rightarrow> FlowHighlightSets option \<Rightarrow>
   DashboardFlowNode list \<times> DashboardFlowLink list" where
  "applyFlowHighlights nodes links highlightSets =
     (case highlightSets of
        None \<Rightarrow> (nodes, links)
      | Some sets \<Rightarrow>
          (map (\<lambda>node. let h = fn_id node \<in> set (hs_nodes sets)
                 in node\<lparr>fn_highlighted := Some h, fn_dimmed := Some (\<not> h)\<rparr>) nodes,
           map (\<lambda>link. let h = linkStableKey link \<in> set (hs_links sets)
                 in link\<lparr>fl_highlighted := Some h, fl_dimmed := Some (\<not> h)\<rparr>) links))"

section \<open>The graph\<close>

definition preparedPaths ::
  "FlowQuotaDataItem list \<Rightarrow> FlowNodeKind list \<Rightarrow> (FlowNodeKind \<times> string list) list option \<Rightarrow> FlowOverflowMode \<Rightarrow>
   (FlowNodeKind \<Rightarrow> string) option \<Rightarrow> FlowPathContext \<Rightarrow> PreparedFlowPath list" where
  "preparedPaths rows stages topNodeSets mode labeler ctx =
     List.map_filter (\<lambda>row.
       case applyTopNodeLimit (flowPathForStages row stages ctx) topNodeSets mode labeler of
         None \<Rightarrow> None
       | Some path \<Rightarrow> Some \<lparr>pp_path = path, pp_metrics = rowMetrics row\<rparr>) rows"

text \<open>The ids of the first nodes of the paths.\<close>

definition first_ids :: "PreparedFlowPath list \<Rightarrow> string list" where
  "first_ids prepared =
     filter (\<lambda>i. i \<noteq> []) (List.map_filter (\<lambda>p. case pp_path p of [] \<Rightarrow> None | n # _ \<Rightarrow> Some (fp_id n)) prepared)"

definition add_path ::
  "FlowEnv \<Rightarrow> FlowMetric \<Rightarrow> (string \<times> string) list \<Rightarrow> string list option \<Rightarrow>
   (string \<times> DashboardFlowNode) list \<times> (string \<times> DashboardFlowLink) list \<Rightarrow> PreparedFlowPath \<Rightarrow>
   (string \<times> DashboardFlowNode) list \<times> (string \<times> DashboardFlowLink) list" where
  "add_path env metric colors palette graph prepared =
     (case pp_path prepared of
        [] \<Rightarrow> graph
      | rootNode # _ \<Rightarrow>
          let color = nullish (map_of colors (fp_id rootNode)) (colorAt env 0 palette);
              metrics = pp_metrics prepared
          in (foldl (\<lambda>m node. addNode m node metrics metric color (fp_id rootNode)) (fst graph) (pp_path prepared),
              foldl (\<lambda>m (s, t). addLink m s t metrics metric color (fp_id rootNode)) (snd graph) (path_steps (pp_path prepared))))"

definition by_ends :: "FlowEnv \<Rightarrow> DashboardFlowLink \<Rightarrow> DashboardFlowLink \<Rightarrow> jsnum" where
  "by_ends env a b =
     cmp_or (fe_localeCompare env (fl_source a) (fl_source b)) (fe_localeCompare env (fl_target a) (fl_target b))"

definition finish_links :: "FlowEnv \<Rightarrow> PreparedFlowPath list \<Rightarrow> DashboardFlowLink list \<Rightarrow> DashboardFlowLink list" where
  "finish_links env prepared links =
     (let flowLinks = js_sort (by_ends env) links;
          total = foldl (\<lambda>sum link. sum + fl_value link) 0
            (filter (\<lambda>link. fl_source link \<in> set (first_ids prepared)) flowLinks)
      in assignLinkDisplayColors env
           (map (\<lambda>link. link\<lparr>fl_share := if total > 0 then fl_value link / total else 0\<rparr>) flowLinks))"

definition buildFlowGraph ::
  "FlowEnv \<Rightarrow> FlowQuotaDataItem list \<Rightarrow> FlowMetric \<Rightarrow> FlowRole \<Rightarrow> string list option \<Rightarrow> FlowNodeKind list option \<Rightarrow>
   FlowPathContext \<Rightarrow> 'z FlowGraphOptions_scheme \<Rightarrow> DashboardFlowGraph" where
  "buildFlowGraph env rows metric role palette visibleStages ctx options =
     (let stages = resolveVisibleStages role visibleStages;
          topNodeSets = buildTopNodeSets env rows metric stages (normalizeTopNodeLimit (go_topNodeLimit options)) ctx;
          prepared = preparedPaths rows stages topNodeSets (nullish (go_overflowMode options) Aggregate)
            (go_otherNodeLabel options) ctx;
          colors = stableColorMap env (js_sort (fe_localeCompare env) (first_ids prepared)) palette;
          (nodes, links) = foldl (add_path env metric colors palette) ([], []) prepared;
          (nodes, links) = (if go_maskSensitive options then maskFlowGraphLabels nodes links else (nodes, links));
          (nodes, links) = applyFlowHighlights (map snd nodes) (map snd links)
            (buildFlowHighlightSets prepared (go_activeNode options) (go_activeLink options) stages)
      in \<lparr>fg_nodes = js_sort (byValueThenLabel env) nodes, fg_links = finish_links env prepared links\<rparr>)"

section \<open>Options of the filters\<close>

definition by_value_raw :: "FlowEnv \<Rightarrow> FlowUserFilterOption \<Rightarrow> FlowUserFilterOption \<Rightarrow> jsnum" where
  "by_value_raw env a b = cmp_or (uo_valueRaw b - uo_valueRaw a) (fe_localeCompare env (uo_label a) (uo_label b))"

definition add_user ::
  "FlowEnv \<Rightarrow> FlowMetric \<Rightarrow> (string \<times> string) list \<Rightarrow> string list option \<Rightarrow> (string \<times> FlowUserFilterOption) list \<Rightarrow>
   FlowQuotaDataItem \<Rightarrow> (string \<times> FlowUserFilterOption) list" where
  "add_user env metric colors palette users row =
     (let user = userNode row in
      if numberValue (fq_user_id row) = 0 \<and> opt_str (fq_username row) = [] then users
      else
        let current = nullish (map_of users (fp_id user))
              \<lparr>uo_value = fp_id user, uo_label = fp_label user, uo_valueLabel = [], uo_valueRaw = 0,
               uo_color = nullish (map_of colors (fp_id user)) (colorAt env 0 palette)\<rparr>
        in AList.update (fp_id user)
             (current\<lparr>uo_valueRaw := uo_valueRaw current + metricValue (rowMetrics row) metric\<rparr>) users)"

definition buildUserFilterOptions ::
  "FlowEnv \<Rightarrow> FlowQuotaDataItem list \<Rightarrow> FlowMetric \<Rightarrow> string list option \<Rightarrow> FlowUserFilterOption list" where
  "buildUserFilterOptions env rows metric palette =
     (let colors = stableColorMap env (js_sort (fe_localeCompare env) (map (\<lambda>row. fp_id (userNode row)) rows)) palette;
          users = foldl (add_user env metric colors palette) [] rows
      in js_sort (by_value_raw env)
           (map (\<lambda>(k, user). user\<lparr>uo_value := k, uo_valueLabel := fe_formatNumber env (uo_valueRaw user)\<rparr>) users))"

definition add_option_total ::
  "FlowMetric \<Rightarrow> FlowNodeKind \<Rightarrow> FlowPathContext \<Rightarrow> (string \<times> FlowNodeRank) list \<Rightarrow> FlowQuotaDataItem \<Rightarrow>
   (string \<times> FlowNodeRank) list" where
  "add_option_total metric stage ctx totals row =
     (let node = NODE_BUILDERS stage row ctx;
          key = nodeFilterKey (fp_kind node) (fp_id node);
          current = nullish (map_of totals key) \<lparr>rk_node = node, rk_value = 0\<rparr>
      in AList.update key (current\<lparr>rk_value := rk_value current + metricValue (rowMetrics row) metric\<rparr>) totals)"

definition stage_options ::
  "FlowEnv \<Rightarrow> FlowQuotaDataItem list \<Rightarrow> FlowMetric \<Rightarrow> FlowNodeKind list \<Rightarrow> (string \<times> string) list \<Rightarrow> string list option \<Rightarrow>
   FlowPathContext \<Rightarrow> FlowNodeFilter list option \<Rightarrow> FlowNodeKind \<Rightarrow> FlowNodeFilterOption list" where
  "stage_options env rows metric stages colors palette ctx selectedNodes stage =
     (let candidateRows = filterRowsByNodes rows (selectedNodeFiltersExceptKind selectedNodes stage) stages ctx;
          totals = foldl (add_option_total metric stage ctx) [] candidateRows
      in map (\<lambda>(k, rank).
           \<lparr>no_kind = fp_kind (rk_node rank), no_value = fp_id (rk_node rank), no_label = fp_label (rk_node rank),
            no_valueLabel = fe_formatNumber env (rk_value rank), no_valueRaw = rk_value rank,
            no_color = nullish (map_of colors (fp_id (rk_node rank))) (colorAt env 0 palette)\<rparr>) totals)"

definition by_option :: "FlowEnv \<Rightarrow> FlowNodeKind list \<Rightarrow> FlowNodeFilterOption \<Rightarrow> FlowNodeFilterOption \<Rightarrow> jsnum" where
  "by_option env stages a b =
     (let stageOrder = (\<lambda>opt. of_nat (nullish (js_findIndex (\<lambda>stage. stage = no_kind opt) stages) 0)) in
      cmp_or (stageOrder a - stageOrder b)
        (cmp_or (no_valueRaw b - no_valueRaw a)
          (cmp_or (fe_localeCompare env (no_label a) (no_label b)) (fe_localeCompare env (no_value a) (no_value b)))))"

definition buildNodeFilterOptions ::
  "FlowEnv \<Rightarrow> FlowQuotaDataItem list \<Rightarrow> FlowMetric \<Rightarrow> FlowRole \<Rightarrow> FlowNodeKind list option \<Rightarrow> string list option \<Rightarrow>
   FlowPathContext \<Rightarrow> FlowNodeFilter list option \<Rightarrow> FlowNodeFilterOption list" where
  "buildNodeFilterOptions env rows metric role visibleStages palette ctx selectedNodes =
     (let stages = resolveVisibleStages role visibleStages;
          colorIds = js_unique (concat (map (\<lambda>row. map fp_id (flowPathForStages row stages ctx)) rows));
          colors = stableColorMap env (js_sort (fe_localeCompare env) colorIds) palette
      in js_sort (by_option env stages)
           (concat (map (stage_options env rows metric stages colors palette ctx selectedNodes) stages)))"

definition buildFlowFilterOptions ::
  "FlowEnv \<Rightarrow> FlowQuotaDataItem list \<Rightarrow> FlowMetric option \<Rightarrow> string list option \<Rightarrow> FlowRole option \<Rightarrow> FlowNodeKind list option \<Rightarrow>
   FlowNodeFilter list option \<Rightarrow> FlowFilterOptions" where
  "buildFlowFilterOptions env rows metric palette role visibleStages selectedNodes =
     \<lparr>fo_users = buildUserFilterOptions env rows (nullish metric QuotaMetric) palette,
      fo_nodes = buildNodeFilterOptions env rows (nullish metric QuotaMetric) (nullish role UserRole) visibleStages palette None
        selectedNodes\<rparr>"

definition buildDashboardFlowData ::
  "FlowEnv \<Rightarrow> FlowQuotaDataItem list \<Rightarrow> FlowMetric \<Rightarrow> FlowBuildOptions \<Rightarrow> ProcessedFlowData" where
  "buildDashboardFlowData env rows metric options =
     (let role = nullish (bo_role options) UserRole;
          palette = bo_colorPalette options;
          ctx = bo_deletedTokenLabel options;
          stages = resolveVisibleStages role (bo_visibleStages options);
          userFilteredRows = filterRows rows (bo_selectedUsers options);
          filteredRows = filterRowsByNodes userFilteredRows (bo_selectedNodes options) stages ctx
      in \<lparr>pf_summary = buildSummary filteredRows,
          pf_flow = buildFlowGraph env filteredRows metric role palette (bo_visibleStages options) ctx options,
          pf_filterOptions =
            \<lparr>fo_users = buildUserFilterOptions env rows metric palette,
             fo_nodes = buildNodeFilterOptions env userFilteredRows metric role (bo_visibleStages options) palette ctx
               (bo_selectedNodes options)\<rparr>\<rparr>)"

section \<open>What is drawn\<close>

text \<open>
  The flags of a link are set on all links of a graph or on none; the difference of two missing
  ones is not a number, which is falsy.
\<close>

definition flag_difference :: "bool option \<Rightarrow> bool option \<Rightarrow> jsnum" where
  "flag_difference a b = (case (a, b) of (Some x, Some y) \<Rightarrow> of_bool x - of_bool y | _ \<Rightarrow> 0)"

definition byLinkDrawPriority :: "FlowEnv \<Rightarrow> DashboardFlowLink \<Rightarrow> DashboardFlowLink \<Rightarrow> jsnum" where
  "byLinkDrawPriority env a b =
     cmp_or (flag_difference (fl_dimmed a) (fl_dimmed b))
       (cmp_or (flag_difference (fl_highlighted b) (fl_highlighted a)) (by_link_value env a b))"

definition link_zIndex :: "nat \<Rightarrow> DashboardFlowLink \<Rightarrow> nat" where
  "link_zIndex index link =
     (if fl_highlighted link = Some True then 1000000 + index
      else if fl_dimmed link = Some True then index
      else 100000 + index)"

text \<open>The links of \<open>buildFlowSankeySpec\<close> with their \<open>linkKey\<close> and \<open>zIndex\<close>.\<close>

definition sankey_links :: "FlowEnv \<Rightarrow> DashboardFlowGraph \<Rightarrow> (string \<times> DashboardFlowLink \<times> nat) list" where
  "sankey_links env flow =
     map (\<lambda>(index, link). (linkStableKey link, link, link_zIndex index link))
       (enumerate 0 (js_sort (byLinkDrawPriority env) (filter (\<lambda>link. fl_value link > 0) (fg_links flow))))"

datatype FlowDisplayState = FlowLoading | FlowError | FlowEmpty | FlowChart

definition flowDisplayState :: "bool \<Rightarrow> bool \<Rightarrow> nat \<Rightarrow> bool \<Rightarrow> FlowDisplayState" where
  "flowDisplayState isLoading isError linkCount themeReady =
     (if isLoading then FlowLoading
      else if isError then FlowError
      else if linkCount = 0 then FlowEmpty
      else if \<not> themeReady then FlowLoading
      else FlowChart)"

definition requireSuccessfulFlowRows ::
  "bool \<Rightarrow> FlowQuotaDataItem list option \<Rightarrow> string option \<Rightarrow> string \<Rightarrow> string + FlowQuotaDataItem list" where
  "requireSuccessfulFlowRows success data message fallbackMessage =
     (if \<not> success then Inl (str_or (opt_str message) fallbackMessage) else Inr (nullish data []))"

definition visibleFlowUsers :: "FlowUserFilterOption list \<Rightarrow> string list \<Rightarrow> FlowUserFilterOption list" where
  "visibleFlowUsers users selectedUsers =
     (if selectedUsers = [] then users else filter (\<lambda>user. uo_value user \<in> set selectedUsers) users)"

end
