(* ===== verification/Flow_Proofs.thy ===== *)
theory Flow_Proofs
  imports Flow_Data "HOL-Library.Multiset"
begin

text \<open>
  The flow graph adds up: what the nodes and links of \<open>Flow_Data\<close> carry, the limit on nodes, the
  options of the filters and the masks. The locale \<open>accumulator\<close> is the contract of a map whose
  entries are created empty and added to; the nodes, the links and the totals are instances.
\<close>

section \<open>Sorting\<close>

lemma mset_js_insert: "mset (js_insert cmp x ys) = add_mset x (mset ys)"
  by (induction ys) auto

lemma mset_js_sort [simp]: "mset (js_sort cmp xs) = mset xs"
  by (induction xs) (auto simp: js_sort_def mset_js_insert)

lemma set_js_sort [simp]: "set (js_sort cmp xs) = set xs"
  by (metis mset_js_sort set_mset_mset)

lemma length_js_sort [simp]: "length (js_sort cmp xs) = length xs"
  by (metis mset_js_sort size_mset)

lemma sum_js_sort [simp]: "(\<Sum>x\<leftarrow>js_sort cmp xs. f x) = (\<Sum>x\<leftarrow>xs. f x :: 'a::comm_monoid_add)"
  by (metis mset_js_sort mset_map sum_mset_sum_list)

text \<open>A comparison that looks at a number first sorts by that number, whatever else it looks at.\<close>

lemma js_insert_by_value:
  assumes "\<And>a b. cmp a b \<le> 0 \<Longrightarrow> (v b :: jsnum) \<le> v a" and "\<And>a b. cmp a b > 0 \<Longrightarrow> v a \<le> v b"
    and "sorted_wrt (\<lambda>a b. v b \<le> v a) ys"
  shows "sorted_wrt (\<lambda>a b. v b \<le> v a) (js_insert cmp x ys)"
  using assms(3)
proof (induction ys)
  case (Cons y ys)
  have "set (js_insert cmp x ys) = insert x (set ys)" using mset_js_insert [of cmp x ys] by (metis set_mset_add_mset_insert set_mset_mset)
  with Cons assms(1) [of x y] assms(2) [of x y] show ?case by (cases "cmp x y \<le> 0") (auto intro: order_trans)
qed simp

lemma js_sort_by_value:
  assumes "\<And>a b. cmp a b \<le> 0 \<Longrightarrow> (v b :: jsnum) \<le> v a" and "\<And>a b. cmp a b > 0 \<Longrightarrow> v a \<le> v b"
  shows "sorted_wrt (\<lambda>a b. v b \<le> v a) (js_sort cmp xs)"
  unfolding js_sort_def by (induction xs) (auto intro: js_insert_by_value [where v = v, OF assms])

lemma cmp_or_value:
  "cmp_or (y - x) c \<le> 0 \<Longrightarrow> y \<le> x" "cmp_or (y - x) c > 0 \<Longrightarrow> x \<le> y"
  by (auto simp: cmp_or_def split: if_splits)

lemma set_add_set [simp]: "set (set_add x xs) = insert x (set xs)"
  by (auto simp: set_add_def)

lemma foldl_set_add: "set (foldl (\<lambda>acc x. set_add x acc) ys xs) = set ys \<union> set xs"
  by (induction xs arbitrary: ys) auto

lemma set_js_unique [simp]: "set (js_unique xs) = set xs"
  by (simp add: js_unique_def foldl_set_add)

section \<open>Maps that accumulate\<close>

lemma sum_list_update:
  assumes "distinct (map fst m)"
  shows "(\<Sum>(k', v')\<leftarrow>AList.update k v m. f k' v') =
    (\<Sum>(k', v')\<leftarrow>m. f k' v') + (f k v - (case map_of m k of None \<Rightarrow> 0 | Some old \<Rightarrow> f k old) :: 'a::ab_group_add)"
  using assms
proof (induction m)
  case (Cons kv m)
  show ?case
  proof (cases "fst kv = k")
    case True
    then show ?thesis by (cases kv) (simp add: algebra_simps)
  next
    case False
    then show ?thesis using Cons by (cases kv) (simp add: algebra_simps)
  qed
qed simp

locale accumulator =
  fixes key :: "'x \<Rightarrow> 'k" and initial :: "'x \<Rightarrow> 'v" and upd :: "'x \<Rightarrow> 'v \<Rightarrow> 'v"
    and amount :: "'v \<Rightarrow> jsnum" and weight :: "'x \<Rightarrow> jsnum" and add :: "('k \<times> 'v) list \<Rightarrow> 'x \<Rightarrow> ('k \<times> 'v) list"
  assumes add: "add m x = AList.update (key x) (upd x (nullish (map_of m (key x)) (initial x))) m"
    and amount_initial: "amount (initial x) = 0"
    and amount_upd: "amount (upd x v) = amount v + weight x"
begin

lemma distinct_keys: "distinct (map fst m) \<Longrightarrow> distinct (map fst (foldl add m xs))"
  by (induction xs arbitrary: m) (simp_all add: add distinct_update)

lemma keys: "fst ` set (foldl add m xs) = fst ` set m \<union> key ` set xs"
  by (induction xs arbitrary: m) (auto simp: add dom_update)

lemma sum_where:
  assumes "distinct (map fst m)"
  shows "(\<Sum>(k, v)\<leftarrow>foldl add m xs. if P k then amount v else 0) =
    (\<Sum>(k, v)\<leftarrow>m. if P k then amount v else 0) + (\<Sum>x\<leftarrow>xs. if P (key x) then weight x else 0)"
  using assms
proof (induction xs arbitrary: m)
  case (Cons x xs)
  have d: "distinct (map fst (add m x))" using Cons.prems by (simp add: add distinct_update)
  have "(\<Sum>(k, v)\<leftarrow>add m x. if P k then amount v else 0) =
      (\<Sum>(k, v)\<leftarrow>m. if P k then amount v else 0) + (if P (key x) then weight x else 0)"
    unfolding add using sum_list_update [OF Cons.prems, of "\<lambda>k v. if P k then amount v else 0" "key x"]
    by (cases "map_of m (key x)") (simp_all add: amount_initial amount_upd)
  then show ?case using Cons.IH [OF d] by simp
qed simp

lemma entry_invariant:
  assumes "\<And>x. x \<in> set xs \<Longrightarrow> I (key x) (upd x (initial x))" and "\<And>x v. x \<in> set xs \<Longrightarrow> I (key x) v \<Longrightarrow> I (key x) (upd x v)"
    and "\<forall>(k, v) \<in> set m. I k v"
  shows "\<forall>(k, v) \<in> set (foldl add m xs). I k v"
  using assms
proof (induction xs arbitrary: m)
  case (Cons x xs)
  have "I (key x) (upd x (nullish (map_of m (key x)) (initial x)))"
    using Cons.prems(1,2) [of x] Cons.prems(3) by (cases "map_of m (key x)") (auto dest: map_of_SomeD)
  then have "\<forall>(k, v) \<in> set (add m x). I k v"
    using Cons.prems(3) set_update_alist unfolding add by fastforce
  with Cons show ?case by simp
qed simp

text \<open>The entry of a key carries the weights of the items with that key.\<close>

lemma entry_amount:
  assumes "(k, v) \<in> set (foldl add [] xs)"
  shows "amount v = (\<Sum>x\<leftarrow>xs. if key x = k then weight x else 0)"
proof -
  have d: "distinct (map fst (foldl add [] xs))" by (rule distinct_keys) simp
  have single: "distinct (map fst m) \<Longrightarrow> (k, v) \<in> set m \<Longrightarrow> (\<Sum>(k', v')\<leftarrow>m. if k' = k then amount v' else 0) = amount v" for m
  proof (induction m)
    case (Cons kv m)
    have zero: "k \<notin> fst ` set m \<Longrightarrow> (\<Sum>(k', v')\<leftarrow>m. if k' = k then amount v' else 0) = 0"
      by (induction m) auto
    show ?case
    proof (cases "kv = (k, v)")
      case True
      then show ?thesis using zero Cons.prems(1) by simp
    next
      case False
      then have "(k, v) \<in> set m" using Cons.prems(2) by simp
      then show ?thesis using Cons by (cases kv) (force simp: image_iff)
    qed
  qed simp
  show ?thesis using single [OF d assms] sum_where [of "[]" "\<lambda>k'. k' = k" xs] by simp
qed

end

text \<open>What a node and a link carry: the value that is drawn, or one of the metrics.\<close>

definition node_amount :: "FlowMetric option \<Rightarrow> DashboardFlowNode \<Rightarrow> jsnum" where
  "node_amount sel n = (case sel of None \<Rightarrow> fn_value n | Some QuotaMetric \<Rightarrow> fn_quota n
     | Some TokensMetric \<Rightarrow> fn_tokens n | Some RequestsMetric \<Rightarrow> fn_requests n)"

definition link_amount :: "FlowMetric option \<Rightarrow> DashboardFlowLink \<Rightarrow> jsnum" where
  "link_amount sel l = (case sel of None \<Rightarrow> fl_value l | Some QuotaMetric \<Rightarrow> fl_quota l
     | Some TokensMetric \<Rightarrow> fl_tokens l | Some RequestsMetric \<Rightarrow> fl_requests l)"

type_synonym node_item = "FlowPathNode \<times> FlowMetrics \<times> string \<times> string"
type_synonym link_item = "FlowPathNode \<times> FlowPathNode \<times> FlowMetrics \<times> string \<times> string"

fun new_node :: "node_item \<Rightarrow> DashboardFlowNode" where
  "new_node (n, metrics, color, colorKey) =
     \<lparr>fn_id = fp_id n, fn_label = fp_label n, fn_kind = fp_kind n, fn_value = 0, fn_requests = 0, fn_quota = 0,
      fn_tokens = 0, fn_color = color, fn_colorKey = colorKey, fn_highlighted = None, fn_dimmed = None\<rparr>"

fun raise_node :: "FlowMetric \<Rightarrow> node_item \<Rightarrow> DashboardFlowNode \<Rightarrow> DashboardFlowNode" where
  "raise_node metric (n, metrics, color, colorKey) p =
     p\<lparr>fn_value := fn_value p + metricValue metrics metric, fn_requests := fn_requests p + fm_requests metrics,
       fn_quota := fn_quota p + fm_quota metrics, fn_tokens := fn_tokens p + fm_tokens metrics\<rparr>"

fun add_node_item :: "FlowMetric \<Rightarrow> (string \<times> DashboardFlowNode) list \<Rightarrow> node_item \<Rightarrow> (string \<times> DashboardFlowNode) list" where
  "add_node_item metric m (n, metrics, color, colorKey) = addNode m n metrics metric color colorKey"

fun new_link :: "link_item \<Rightarrow> DashboardFlowLink" where
  "new_link (s, t, metrics, color, colorKey) =
     \<lparr>fl_source = fp_id s, fl_target = fp_id t, fl_value = 0, fl_requests = 0, fl_quota = 0, fl_tokens = 0,
      fl_sourceLabel = fp_label s, fl_targetLabel = fp_label t, fl_color = color, fl_linkColor = color, fl_linkAlpha = 1,
      fl_hoverColor = color, fl_colorKey = colorKey, fl_share = 0, fl_highlighted = None, fl_dimmed = None\<rparr>"

fun raise_link :: "FlowMetric \<Rightarrow> link_item \<Rightarrow> DashboardFlowLink \<Rightarrow> DashboardFlowLink" where
  "raise_link metric (s, t, metrics, color, colorKey) p =
     p\<lparr>fl_value := fl_value p + metricValue metrics metric, fl_requests := fl_requests p + fm_requests metrics,
       fl_quota := fl_quota p + fm_quota metrics, fl_tokens := fl_tokens p + fm_tokens metrics\<rparr>"

fun add_link_item :: "FlowMetric \<Rightarrow> (string \<times> DashboardFlowLink) list \<Rightarrow> link_item \<Rightarrow> (string \<times> DashboardFlowLink) list" where
  "add_link_item metric m (s, t, metrics, color, colorKey) = addLink m s t metrics metric color colorKey"

interpretation nodes: accumulator "\<lambda>x. fp_id (fst x)" new_node "raise_node metric" "node_amount sel"
    "\<lambda>x. metricValue (fst (snd x)) (nullish sel metric)" "add_node_item metric" for metric sel
proof
  fix m and x :: node_item and v
  show "add_node_item metric m x = AList.update (fp_id (fst x)) (raise_node metric x (nullish (map_of m (fp_id (fst x))) (new_node x))) m"
    by (cases x) (simp add: addNode_def Let_def)
  show "node_amount sel (new_node x) = 0"
    by (cases x) (simp add: node_amount_def split: option.split FlowMetric.split)
  show "node_amount sel (raise_node metric x v) = node_amount sel v + metricValue (fst (snd x)) (nullish sel metric)"
    by (cases x) (simp add: node_amount_def metricValue_def split: option.split FlowMetric.split)
qed

interpretation links: accumulator "\<lambda>x. pathLinkKey (fst x) (fst (snd x))" new_link "raise_link metric" "link_amount sel"
    "\<lambda>x. metricValue (fst (snd (snd x))) (nullish sel metric)" "add_link_item metric" for metric sel
proof
  fix m and x :: link_item and v
  show "add_link_item metric m x =
      AList.update (pathLinkKey (fst x) (fst (snd x)))
        (raise_link metric x (nullish (map_of m (pathLinkKey (fst x) (fst (snd x)))) (new_link x))) m"
    by (cases x) (simp add: addLink_def Let_def)
  show "link_amount sel (new_link x) = 0"
    by (cases x) (simp add: link_amount_def split: option.split FlowMetric.split)
  show "link_amount sel (raise_link metric x v) = link_amount sel v + metricValue (fst (snd (snd x))) (nullish sel metric)"
    by (cases x) (simp add: link_amount_def metricValue_def split: option.split FlowMetric.split)
qed

section \<open>Paths\<close>

definition node_ok :: "FlowPathNode \<Rightarrow> bool" where
  "node_ok n \<longleftrightarrow> prefix (kind_name (fp_kind n) @ '':'') (fp_id n)"

definition id_kind :: "string \<Rightarrow> string" where
  "id_kind i = takeWhile (\<lambda>c. c \<noteq> CHR '':'') i"

lemma kind_name_inj: "kind_name k = kind_name k' \<longleftrightarrow> k = k'"
  by (cases k; cases k') (simp_all add: kind_name_def)

lemma node_ok_kind: "node_ok n \<Longrightarrow> id_kind (fp_id n) = kind_name (fp_kind n)"
  unfolding node_ok_def prefix_def id_kind_def
  by (cases "fp_kind n") (auto simp: kind_name_def)

lemma NODE_BUILDERS_ok [simp]: "fp_kind (NODE_BUILDERS k row ctx) = k" "node_ok (NODE_BUILDERS k row ctx)"
  by (cases k; simp add: NODE_BUILDERS_def node_ok_def kind_name_def userNode_def nodeNameNode_def tokenNode_def
      modelNode_def channelNode_def Let_def)+

lemma otherFlowNode_ok [simp]: "fp_kind (otherFlowNode k f) = k" "node_ok (otherFlowNode k f)"
  by (cases k; simp add: otherFlowNode_def node_ok_def kind_name_def OTHER_FLOW_NODE_IDS_def)+

definition path_ok :: "FlowNodeKind list \<Rightarrow> FlowPathNode list \<Rightarrow> bool" where
  "path_ok stages path \<longleftrightarrow> map fp_kind path = stages \<and> list_all node_ok path"

lemma flowPath_ok: "path_ok stages (flowPathForStages row stages ctx)"
  by (simp add: path_ok_def flowPathForStages_def comp_def list_all_iff)

lemma applyTop_ok: "path_ok stages path \<Longrightarrow> applyTopNodeLimit path sets mode f = Some path' \<Longrightarrow> path_ok stages path'"
  by (auto simp: applyTopNodeLimit_def path_ok_def list_all_iff comp_def split: if_splits)

lemma prepared_row:
  assumes "p \<in> set (preparedPaths rows stages sets mode f ctx)"
  obtains row where "row \<in> set rows" "applyTopNodeLimit (flowPathForStages row stages ctx) sets mode f = Some (pp_path p)"
    "pp_metrics p = rowMetrics row"
  using assms by (force simp: preparedPaths_def set_map_filter split: option.splits)

lemma prepared_ok: "p \<in> set (preparedPaths rows stages sets mode f ctx) \<Longrightarrow> path_ok stages (pp_path p)"
  by (erule prepared_row) (rule applyTop_ok [OF flowPath_ok])

lemma stages_ok: "distinct (resolveVisibleStages role visible)" "2 \<le> length (resolveVisibleStages role visible)"
  by (cases role; auto simp: resolveVisibleStages_def getFlowStages_def Let_def split: option.split)+

lemma path_steps_fst: "map fst (path_steps path) = butlast path"
  by (simp add: path_steps_def butlast_conv_take map_fst_zip_take)

lemma path_steps_snd: "map snd (path_steps path) = tl path"
  by (simp add: path_steps_def map_snd_zip_take)

text \<open>On a path every stage has one node, which its id tells.\<close>

lemma path_ok_unique:
  assumes "path_ok stages path" and "distinct stages" and "k \<in> set stages"
  shows "(\<Sum>n\<leftarrow>path. if id_kind (fp_id n) = kind_name k then w else 0) = (w :: jsnum)"
proof -
  have "(\<Sum>n\<leftarrow>path. if id_kind (fp_id n) = kind_name k then w else 0) = (\<Sum>n\<leftarrow>path. if fp_kind n = k then w else 0)"
    using assms(1) by (intro arg_cong [of _ _ sum_list] map_cong) (auto simp: path_ok_def list_all_iff node_ok_kind kind_name_inj)
  also have "\<dots> = (\<Sum>k'\<leftarrow>stages. if k' = k then w else 0)"
    using assms(1) by (auto simp: path_ok_def comp_def)
  also have "\<dots> = w" using assms(2,3)
  proof (induction stages)
    case (Cons k' stages)
    have "k \<notin> set stages \<Longrightarrow> (\<Sum>k'\<leftarrow>stages. if k' = k then w else 0) = 0" by (induction stages) auto
    with Cons show ?case by auto
  qed simp
  finally show ?thesis .
qed

lemma sum_butlast:
  assumes "xs \<noteq> []" and "f (last xs) = 0"
  shows "(\<Sum>x\<leftarrow>butlast xs. f x) = (\<Sum>x\<leftarrow>xs. f x :: jsnum)"
proof -
  have "(\<Sum>x\<leftarrow>xs. f x) = (\<Sum>x\<leftarrow>butlast xs @ [last xs]. f x)" using assms(1) by simp
  then show ?thesis using assms(2) by simp
qed

lemma sum_tl: "xs \<noteq> [] \<Longrightarrow> f (hd xs) = 0 \<Longrightarrow> (\<Sum>x\<leftarrow>tl xs. f x) = (\<Sum>x\<leftarrow>xs. f x :: jsnum)"
  by (cases xs) simp_all

text \<open>A node that is not in the last column passes on what it receives, one that is not in the first receives what it passes on.\<close>

lemma path_out:
  assumes "path_ok stages path" and "stages \<noteq> []" and "\<And>i. P i \<Longrightarrow> id_kind i \<noteq> kind_name (last stages)"
  shows "(\<Sum>(s, t)\<leftarrow>path_steps path. if P (fp_id s) then w else 0) = (\<Sum>n\<leftarrow>path. if P (fp_id n) then w else (0 :: jsnum))"
proof -
  have ne: "path \<noteq> []" using assms(1,2) by (auto simp: path_ok_def)
  have "fp_kind (last path) = last stages" using assms(1) ne by (auto simp: path_ok_def last_map)
  then have "id_kind (fp_id (last path)) = kind_name (last stages)"
    using node_ok_kind [of "last path"] assms(1) ne by (simp add: path_ok_def list_all_iff)
  then have "\<not> P (fp_id (last path))" using assms(3) by blast
  then have "(\<Sum>n\<leftarrow>butlast path. if P (fp_id n) then w else 0) = (\<Sum>n\<leftarrow>path. if P (fp_id n) then w else 0)"
    by (intro sum_butlast ne) simp
  moreover have "(\<Sum>(s, t)\<leftarrow>path_steps path. if P (fp_id s) then w else 0) =
      (\<Sum>n\<leftarrow>map fst (path_steps path). if P (fp_id n) then w else 0)"
    by (simp add: case_prod_unfold comp_def)
  ultimately show ?thesis by (simp add: path_steps_fst)
qed

lemma path_in:
  assumes "path_ok stages path" and "stages \<noteq> []" and "\<And>i. P i \<Longrightarrow> id_kind i \<noteq> kind_name (hd stages)"
  shows "(\<Sum>(s, t)\<leftarrow>path_steps path. if P (fp_id t) then w else 0) = (\<Sum>n\<leftarrow>path. if P (fp_id n) then w else (0 :: jsnum))"
proof -
  have ne: "path \<noteq> []" using assms(1,2) by (auto simp: path_ok_def)
  have "fp_kind (hd path) = hd stages" using assms(1) ne by (auto simp: path_ok_def hd_map)
  then have "id_kind (fp_id (hd path)) = kind_name (hd stages)"
    using node_ok_kind [of "hd path"] assms(1) ne by (simp add: path_ok_def list_all_iff)
  then have "\<not> P (fp_id (hd path))" using assms(3) by blast
  then have "(\<Sum>n\<leftarrow>tl path. if P (fp_id n) then w else 0) = (\<Sum>n\<leftarrow>path. if P (fp_id n) then w else 0)"
    by (intro sum_tl ne) simp
  moreover have "(\<Sum>(s, t)\<leftarrow>path_steps path. if P (fp_id t) then w else 0) =
      (\<Sum>n\<leftarrow>map snd (path_steps path). if P (fp_id n) then w else 0)"
    by (simp add: case_prod_unfold comp_def)
  ultimately show ?thesis by (simp add: path_steps_snd)
qed

section \<open>The maps of a graph\<close>

definition node_items :: "(PreparedFlowPath \<Rightarrow> string) \<Rightarrow> PreparedFlowPath \<Rightarrow> node_item list" where
  "node_items color p = map (\<lambda>n. (n, pp_metrics p, color p, fp_id (hd (pp_path p)))) (pp_path p)"

definition link_items :: "(PreparedFlowPath \<Rightarrow> string) \<Rightarrow> PreparedFlowPath \<Rightarrow> link_item list" where
  "link_items color p = map (\<lambda>(s, t). (s, t, pp_metrics p, color p, fp_id (hd (pp_path p)))) (path_steps (pp_path p))"

definition path_color :: "FlowEnv \<Rightarrow> (string \<times> string) list \<Rightarrow> string list option \<Rightarrow> PreparedFlowPath \<Rightarrow> string" where
  "path_color env colors palette p = nullish (map_of colors (fp_id (hd (pp_path p)))) (colorAt env 0 palette)"

lemma add_path_items:
  "add_path env metric colors palette (ns, ls) p =
     (foldl (add_node_item metric) ns (node_items (path_color env colors palette) p),
      foldl (add_link_item metric) ls (link_items (path_color env colors palette) p))"
  by (cases "pp_path p")
    (simp_all add: add_path_def node_items_def link_items_def path_color_def path_steps_def Let_def foldl_map case_prod_unfold)

lemma add_paths_items:
  "foldl (add_path env metric colors palette) (ns, ls) ps =
     (foldl (add_node_item metric) ns (concat (map (node_items (path_color env colors palette)) ps)),
      foldl (add_link_item metric) ls (concat (map (link_items (path_color env colors palette)) ps)))"
  by (induction ps arbitrary: ns ls) (simp_all add: add_path_items)

lemma sum_list_concat_map: "(\<Sum>x\<leftarrow>concat (map f ps). g x) = (\<Sum>p\<leftarrow>ps. \<Sum>x\<leftarrow>f p. g x :: jsnum)"
  by (induction ps) simp_all

text \<open>What the paths carry through the nodes and the links that a predicate selects.\<close>

lemma node_items_sum:
  "(\<Sum>x\<leftarrow>concat (map (node_items color) ps). if P (fp_id (fst x)) then metricValue (fst (snd x)) m else 0) =
     (\<Sum>p\<leftarrow>ps. \<Sum>n\<leftarrow>pp_path p. if P (fp_id n) then metricValue (pp_metrics p) m else 0)"
  by (simp add: sum_list_concat_map node_items_def comp_def cong: if_cong)

lemma link_items_sum:
  "(\<Sum>x\<leftarrow>concat (map (link_items color) ps). if Q (fp_id (fst x)) (fp_id (fst (snd x))) then metricValue (fst (snd (snd x))) m else 0) =
     (\<Sum>p\<leftarrow>ps. \<Sum>(s, t)\<leftarrow>path_steps (pp_path p). if Q (fp_id s) (fp_id t) then metricValue (pp_metrics p) m else 0)"
  by (simp add: sum_list_concat_map link_items_def comp_def case_prod_unfold cong: if_cong)

definition raw_nodes :: "FlowMetric \<Rightarrow> (PreparedFlowPath \<Rightarrow> string) \<Rightarrow> PreparedFlowPath list \<Rightarrow> (string \<times> DashboardFlowNode) list" where
  "raw_nodes metric color ps = foldl (add_node_item metric) [] (concat (map (node_items color) ps))"

definition raw_links :: "FlowMetric \<Rightarrow> (PreparedFlowPath \<Rightarrow> string) \<Rightarrow> PreparedFlowPath list \<Rightarrow> (string \<times> DashboardFlowLink) list" where
  "raw_links metric color ps = foldl (add_link_item metric) [] (concat (map (link_items color) ps))"

lemma raise_fields [simp]:
  "fn_id (raise_node metric x v) = fn_id v" "fn_kind (raise_node metric x v) = fn_kind v"
  "fn_id (new_node x) = fp_id (fst x)" "fn_kind (new_node x) = fp_kind (fst x)"
  "fl_source (raise_link metric y w) = fl_source w" "fl_target (raise_link metric y w) = fl_target w"
  "fl_source (new_link y) = fp_id (fst y)" "fl_target (new_link y) = fp_id (fst (snd y))"
  by ((cases x; simp)+)[4] ((cases y; simp)+)[4]

lemma raw_node_entry:
  assumes "(k, v) \<in> set (raw_nodes metric color ps)"
  shows "fn_id v = k \<and> (\<exists>p \<in> set ps. \<exists>n \<in> set (pp_path p). fp_id n = k \<and> fp_kind n = fn_kind v)"
proof -
  let ?xs = "concat (map (node_items color) ps)"
  let ?I = "\<lambda>k v. fn_id v = k \<and> (\<exists>x \<in> set ?xs. fp_id (fst x) = k \<and> fp_kind (fst x) = fn_kind v)"
  have "\<forall>(k, v) \<in> set (raw_nodes metric color ps). ?I k v"
    unfolding raw_nodes_def by (rule nodes.entry_invariant) auto
  with assms have "?I k v" by blast
  then show ?thesis by (force simp: node_items_def)
qed

lemma raw_link_entry:
  assumes "(k, l) \<in> set (raw_links metric color ps)"
  shows "\<exists>p \<in> set ps. \<exists>(s, t) \<in> set (path_steps (pp_path p)). k = pathLinkKey s t \<and> fl_source l = fp_id s \<and> fl_target l = fp_id t"
proof -
  let ?xs = "concat (map (link_items color) ps)"
  let ?I = "\<lambda>k l. \<exists>x \<in> set ?xs. k = pathLinkKey (fst x) (fst (snd x)) \<and> fl_source l = fp_id (fst x) \<and> fl_target l = fp_id (fst (snd x))"
  have "\<forall>(k, l) \<in> set (raw_links metric color ps). ?I k l"
    unfolding raw_links_def by (rule links.entry_invariant) auto
  with assms have "?I k l" by blast
  then show ?thesis by (fastforce simp: link_items_def)
qed

lemma raw_node_sum:
  "(\<Sum>n\<leftarrow>map snd (raw_nodes metric color ps). if P (fn_id n) then node_amount sel n else 0) =
     (\<Sum>p\<leftarrow>ps. \<Sum>n\<leftarrow>pp_path p. if P (fp_id n) then metricValue (pp_metrics p) (nullish sel metric) else 0)"
proof -
  have "(\<Sum>n\<leftarrow>map snd (raw_nodes metric color ps). if P (fn_id n) then node_amount sel n else 0) =
      (\<Sum>(k, v)\<leftarrow>raw_nodes metric color ps. if P k then node_amount sel v else 0)"
    unfolding case_prod_unfold list.map_comp comp_def
    by (intro arg_cong [of _ _ sum_list] map_cong refl) (metis raw_node_entry prod.collapse)
  also have "\<dots> = (\<Sum>p\<leftarrow>ps. \<Sum>n\<leftarrow>pp_path p. if P (fp_id n) then metricValue (pp_metrics p) (nullish sel metric) else 0)"
    unfolding raw_nodes_def by (subst nodes.sum_where) (simp_all add: node_items_sum)
  finally show ?thesis .
qed

lemma key_parts:
  assumes "CHR 0x00 \<notin> set (fp_id s)"
  shows "takeWhile (\<lambda>c. c \<noteq> CHR 0x00) (pathLinkKey s t) = fp_id s"
    and "tl (dropWhile (\<lambda>c. c \<noteq> CHR 0x00) (pathLinkKey s t)) = fp_id t"
proof -
  have all: "\<forall>c \<in> set (fp_id s). c \<noteq> CHR 0x00" using assms by auto
  then have "takeWhile (\<lambda>c. c \<noteq> CHR 0x00) (fp_id s @ CHR 0x00 # fp_id t) = fp_id s"
    "dropWhile (\<lambda>c. c \<noteq> CHR 0x00) (fp_id s @ CHR 0x00 # fp_id t) = CHR 0x00 # fp_id t"
    by (simp_all add: takeWhile_append2 dropWhile_append2)
  then show "takeWhile (\<lambda>c. c \<noteq> CHR 0x00) (pathLinkKey s t) = fp_id s"
    "tl (dropWhile (\<lambda>c. c \<noteq> CHR 0x00) (pathLinkKey s t)) = fp_id t"
    by (simp_all add: pathLinkKey_def)
qed

definition nul_free :: "PreparedFlowPath list \<Rightarrow> bool" where
  "nul_free ps \<longleftrightarrow> (\<forall>p \<in> set ps. \<forall>n \<in> set (pp_path p). CHR 0x00 \<notin> set (fp_id n))"

lemma step_member: "(s, t) \<in> set (path_steps path) \<Longrightarrow> s \<in> set path \<and> t \<in> set path"
  unfolding path_steps_def by (metis in_set_zipE list.set_sel(2) list.sel(2))

lemma raw_link_sum:
  assumes "nul_free ps"
  shows "(\<Sum>l\<leftarrow>map snd (raw_links metric color ps). if Q (fl_source l) (fl_target l) then link_amount sel l else 0) =
     (\<Sum>p\<leftarrow>ps. \<Sum>(s, t)\<leftarrow>path_steps (pp_path p). if Q (fp_id s) (fp_id t) then metricValue (pp_metrics p) (nullish sel metric) else 0)"
proof -
  let ?fst = "\<lambda>k. takeWhile (\<lambda>c. c \<noteq> CHR 0x00) k" and ?snd = "\<lambda>k. tl (dropWhile (\<lambda>c. c \<noteq> CHR 0x00) k)"
  let ?P = "\<lambda>k. Q (?fst k) (?snd k)"
  have parts: "?fst k = fl_source l \<and> ?snd k = fl_target l" if entry: "(k, l) \<in> set (raw_links metric color ps)" for k l
  proof -
    obtain p s t where p: "p \<in> set ps" "(s, t) \<in> set (path_steps (pp_path p))"
      and l: "k = pathLinkKey s t" "fl_source l = fp_id s" "fl_target l = fp_id t"
      using raw_link_entry [OF entry] by blast
    have "CHR 0x00 \<notin> set (fp_id s)" using assms p step_member unfolding nul_free_def by blast
    from key_parts [OF this, of t] l show ?thesis by simp
  qed
  have "(\<Sum>l\<leftarrow>map snd (raw_links metric color ps). if Q (fl_source l) (fl_target l) then link_amount sel l else 0) =
      (\<Sum>(k, l)\<leftarrow>raw_links metric color ps. if ?P k then link_amount sel l else 0)"
    unfolding case_prod_unfold list.map_comp comp_def
    by (intro arg_cong [of _ _ sum_list] map_cong refl) (metis parts prod.collapse)
  also have "\<dots> = (\<Sum>x\<leftarrow>concat (map (link_items color) ps).
      if ?P (pathLinkKey (fst x) (fst (snd x))) then metricValue (fst (snd (snd x))) (nullish sel metric) else 0)"
    unfolding raw_links_def by (subst links.sum_where) simp_all
  also have "\<dots> = (\<Sum>x\<leftarrow>concat (map (link_items color) ps).
      if Q (fp_id (fst x)) (fp_id (fst (snd x))) then metricValue (fst (snd (snd x))) (nullish sel metric) else 0)"
  proof (intro arg_cong [of _ _ sum_list] map_cong refl)
    fix x assume "x \<in> set (concat (map (link_items color) ps))"
    then obtain p where "p \<in> set ps" "(fst x, fst (snd x)) \<in> set (path_steps (pp_path p))"
      by (auto simp: link_items_def)
    then have "CHR 0x00 \<notin> set (fp_id (fst x))" using assms step_member unfolding nul_free_def by blast
    from key_parts [OF this] show "(if ?P (pathLinkKey (fst x) (fst (snd x))) then metricValue (fst (snd (snd x))) (nullish sel metric) else 0) =
      (if Q (fp_id (fst x)) (fp_id (fst (snd x))) then metricValue (fst (snd (snd x))) (nullish sel metric) else 0)" by simp
  qed
  finally show ?thesis by (simp add: link_items_sum)
qed

section \<open>The finished graph\<close>

text \<open>Labels, colours, highlighting, shares and the order of the lists do not touch what nodes and links carry.\<close>

definition node_core :: "DashboardFlowNode \<Rightarrow> DashboardFlowNode" where
  "node_core n = n\<lparr>fn_label := [], fn_highlighted := None, fn_dimmed := None\<rparr>"

definition link_core :: "DashboardFlowLink \<Rightarrow> DashboardFlowLink" where
  "link_core l = l\<lparr>fl_sourceLabel := [], fl_targetLabel := [], fl_linkColor := [], fl_linkAlpha := 0, fl_hoverColor := [],
     fl_share := 0, fl_highlighted := None, fl_dimmed := None\<rparr>"

lemma core_fields [simp]:
  "fn_id (node_core n) = fn_id n" "fn_kind (node_core n) = fn_kind n" "node_amount sel (node_core n) = node_amount sel n"
  "fl_source (link_core l) = fl_source l" "fl_target (link_core l) = fl_target l" "link_amount sel (link_core l) = link_amount sel l"
  "fl_value (link_core l) = fl_value l"
  by (simp_all add: node_core_def link_core_def node_amount_def link_amount_def split: option.split FlowMetric.split)

lemma mask_core:
  assumes "maskFlowGraphLabels ns ls = (ns', ls')"
  shows "map node_core (map snd ns') = map node_core (map snd ns)" and "map link_core (map snd ls') = map link_core (map snd ls)"
  using assms by (auto simp: maskFlowGraphLabels_def Let_def node_core_def link_core_def split: if_splits)

lemma highlight_core:
  assumes "applyFlowHighlights ns ls sets = (ns', ls')"
  shows "map node_core ns' = map node_core ns" and "map link_core ls' = map link_core ls"
  using assms by (auto simp: applyFlowHighlights_def Let_def node_core_def link_core_def comp_def split: option.splits)

lemma assign_core: "map link_core (assignLinkDisplayColors env ls) = map link_core ls"
proof -
  have "map link_core (assignLinkDisplayColors env ls) = map (\<lambda>(i, l). link_core l) (enumerate 0 ls)"
    by (simp add: assignLinkDisplayColors_def Let_def link_core_def case_prod_unfold)
  also have "\<dots> = map link_core (map snd (enumerate 0 ls))" by (simp only: case_prod_unfold list.map_comp comp_def)
  finally show ?thesis by simp
qed

lemma assign_share:
  "l \<in> set (assignLinkDisplayColors env ls) \<Longrightarrow> \<exists>l' \<in> set ls. fl_share l = fl_share l' \<and> fl_value l = fl_value l' \<and> fl_source l = fl_source l'"
  by (fastforce simp: assignLinkDisplayColors_def Let_def in_set_enumerate_eq dest: nth_mem)

lemma foldl_sum: "foldl (\<lambda>acc x. acc + f x) a xs = a + (\<Sum>x\<leftarrow>xs. f x :: jsnum)"
  by (induction xs arbitrary: a) simp_all

definition first_total :: "PreparedFlowPath list \<Rightarrow> DashboardFlowLink list \<Rightarrow> jsnum" where
  "first_total ps ls = (\<Sum>l\<leftarrow>ls. if fl_source l \<in> set (first_ids ps) then fl_value l else 0)"

lemma finish_core: "mset (map link_core (finish_links env ps ls)) = mset (map link_core ls)"
proof -
  have share: "link_core (l\<lparr>fl_share := x\<rparr>) = link_core l" for l x by (simp add: link_core_def)
  show ?thesis by (simp add: finish_links_def Let_def assign_core comp_def share)
qed

lemma finish_share:
  assumes "l \<in> set (finish_links env ps ls)"
  shows "fl_share l = (if first_total ps ls > 0 then fl_value l / first_total ps ls else 0)"
proof -
  have total: "foldl (\<lambda>sum link. sum + fl_value link) 0 (filter (\<lambda>link. fl_source link \<in> set (first_ids ps)) (js_sort (by_ends env) ls)) =
      first_total ps ls"
    by (simp add: foldl_sum sum_list_map_filter' first_total_def)
  show ?thesis using assms unfolding finish_links_def Let_def total by (auto dest!: assign_share)
qed

definition graph_paths ::
  "FlowEnv \<Rightarrow> FlowQuotaDataItem list \<Rightarrow> FlowMetric \<Rightarrow> FlowNodeKind list \<Rightarrow> FlowPathContext \<Rightarrow> 'z FlowGraphOptions_scheme \<Rightarrow>
   PreparedFlowPath list" where
  "graph_paths env rows metric stages ctx options =
     preparedPaths rows stages (buildTopNodeSets env rows metric stages (normalizeTopNodeLimit (go_topNodeLimit options)) ctx)
       (nullish (go_overflowMode options) Aggregate) (go_otherNodeLabel options) ctx"

definition graph_color :: "FlowEnv \<Rightarrow> string list option \<Rightarrow> PreparedFlowPath list \<Rightarrow> PreparedFlowPath \<Rightarrow> string" where
  "graph_color env palette ps = path_color env (stableColorMap env (js_sort (fe_localeCompare env) (first_ids ps)) palette) palette"

lemma graph_steps:
  assumes "g = buildFlowGraph env rows metric role palette visible ctx options"
    and "ps = graph_paths env rows metric (resolveVisibleStages role visible) ctx options" and "color = graph_color env palette ps"
  obtains ns1 ls1 ns2 ls2 where
    "(if go_maskSensitive options then maskFlowGraphLabels (raw_nodes metric color ps) (raw_links metric color ps)
      else (raw_nodes metric color ps, raw_links metric color ps)) = (ns1, ls1)"
    and "applyFlowHighlights (map snd ns1) (map snd ls1)
      (buildFlowHighlightSets ps (go_activeNode options) (go_activeLink options) (resolveVisibleStages role visible)) = (ns2, ls2)"
    and "g = \<lparr>fg_nodes = js_sort (byValueThenLabel env) ns2, fg_links = finish_links env ps ls2\<rparr>"
proof -
  let ?colors = "stableColorMap env (js_sort (fe_localeCompare env) (first_ids ps)) palette"
  obtain ns1 ls1 where 1: "(if go_maskSensitive options then maskFlowGraphLabels (raw_nodes metric color ps) (raw_links metric color ps)
      else (raw_nodes metric color ps, raw_links metric color ps)) = (ns1, ls1)" by (rule prod.exhaust)
  obtain ns2 ls2 where 2: "applyFlowHighlights (map snd ns1) (map snd ls1)
      (buildFlowHighlightSets ps (go_activeNode options) (go_activeLink options) (resolveVisibleStages role visible)) = (ns2, ls2)"
    by (rule prod.exhaust)
  have raw: "foldl (add_path env metric ?colors palette) ([], []) ps = (raw_nodes metric color ps, raw_links metric color ps)"
    by (simp add: add_paths_items raw_nodes_def raw_links_def assms(3) graph_color_def)
  have "g = \<lparr>fg_nodes = js_sort (byValueThenLabel env) ns2, fg_links = finish_links env ps ls2\<rparr>"
    unfolding assms(1) buildFlowGraph_def Let_def
    unfolding graph_paths_def [symmetric] assms(2) [symmetric] raw
    by (simp only: prod.case 1 2)
  with 1 2 show ?thesis by (rule that)
qed

lemma graph_parts:
  assumes "g = buildFlowGraph env rows metric role palette visible ctx options"
    and "ps = graph_paths env rows metric (resolveVisibleStages role visible) ctx options" and "color = graph_color env palette ps"
  shows "mset (map node_core (fg_nodes g)) = mset (map node_core (map snd (raw_nodes metric color ps)))"
    and "mset (map link_core (fg_links g)) = mset (map link_core (map snd (raw_links metric color ps)))"
    and "\<exists>ls. map link_core ls = map link_core (map snd (raw_links metric color ps)) \<and>
      (\<forall>l \<in> set (fg_links g). fl_share l = (if first_total ps ls > 0 then fl_value l / first_total ps ls else 0))"
proof -
  obtain ns1 ls1 ns2 ls2 where
    1: "(if go_maskSensitive options then maskFlowGraphLabels (raw_nodes metric color ps) (raw_links metric color ps)
      else (raw_nodes metric color ps, raw_links metric color ps)) = (ns1, ls1)"
    and 2: "applyFlowHighlights (map snd ns1) (map snd ls1)
      (buildFlowHighlightSets ps (go_activeNode options) (go_activeLink options) (resolveVisibleStages role visible)) = (ns2, ls2)"
    and g: "g = \<lparr>fg_nodes = js_sort (byValueThenLabel env) ns2, fg_links = finish_links env ps ls2\<rparr>"
    by (rule graph_steps [OF assms])
  have core1: "map node_core (map snd ns1) = map node_core (map snd (raw_nodes metric color ps))"
    "map link_core (map snd ls1) = map link_core (map snd (raw_links metric color ps))"
    using 1 mask_core [of "raw_nodes metric color ps" "raw_links metric color ps" ns1 ls1] by (auto split: if_splits)
  have core2: "map node_core ns2 = map node_core (map snd (raw_nodes metric color ps))"
    "map link_core ls2 = map link_core (map snd (raw_links metric color ps))"
    using highlight_core [OF 2] core1 by simp_all
  show "mset (map node_core (fg_nodes g)) = mset (map node_core (map snd (raw_nodes metric color ps)))"
    using arg_cong [OF core2(1), of mset] by (simp add: g)
  show "mset (map link_core (fg_links g)) = mset (map link_core (map snd (raw_links metric color ps)))"
    using arg_cong [OF core2(2), of mset] finish_core [of env ps ls2] by (simp add: g)
  have "\<forall>l \<in> set (fg_links g). fl_share l = (if first_total ps ls2 > 0 then fl_value l / first_total ps ls2 else 0)"
    by (simp add: g finish_share)
  then show "\<exists>ls. map link_core ls = map link_core (map snd (raw_links metric color ps)) \<and>
      (\<forall>l \<in> set (fg_links g). fl_share l = (if first_total ps ls > 0 then fl_value l / first_total ps ls else 0))"
    using core2(2) by blast
qed

lemma sum_core:
  assumes "mset (map core xs) = mset (map core ys)" and "\<And>x. F (core x) = F x"
  shows "(\<Sum>x\<leftarrow>xs. F x) = (\<Sum>y\<leftarrow>ys. F y :: jsnum)"
proof -
  have "(\<Sum>x\<leftarrow>map core xs. F x) = (\<Sum>y\<leftarrow>map core ys. F y)"
    using assms(1) by (metis mset_map sum_mset_sum_list)
  then show ?thesis by (simp add: assms(2) comp_def)
qed

text \<open>The sums over the finished graph are sums over its paths.\<close>

lemma graph_node_sum:
  assumes "g = buildFlowGraph env rows metric role palette visible ctx options"
    and "ps = graph_paths env rows metric (resolveVisibleStages role visible) ctx options"
  shows "(\<Sum>n\<leftarrow>filter (\<lambda>n. P (fn_id n)) (fg_nodes g). node_amount sel n) =
    (\<Sum>p\<leftarrow>ps. \<Sum>n\<leftarrow>pp_path p. if P (fp_id n) then metricValue (pp_metrics p) (nullish sel metric) else 0)"
proof -
  obtain color where "mset (map node_core (fg_nodes g)) = mset (map node_core (map snd (raw_nodes metric color ps)))"
    using graph_parts(1) [OF assms refl] by blast
  then have "(\<Sum>n\<leftarrow>fg_nodes g. if P (fn_id n) then node_amount sel n else 0) =
      (\<Sum>n\<leftarrow>map snd (raw_nodes metric color ps). if P (fn_id n) then node_amount sel n else 0)"
    by (rule sum_core) simp
  then show ?thesis by (simp only: sum_list_map_filter' raw_node_sum)
qed

lemma graph_link_sum:
  assumes "g = buildFlowGraph env rows metric role palette visible ctx options"
    and "ps = graph_paths env rows metric (resolveVisibleStages role visible) ctx options" and "nul_free ps"
  shows "(\<Sum>l\<leftarrow>filter (\<lambda>l. Q (fl_source l) (fl_target l)) (fg_links g). link_amount sel l) =
    (\<Sum>p\<leftarrow>ps. \<Sum>(s, t)\<leftarrow>path_steps (pp_path p). if Q (fp_id s) (fp_id t) then metricValue (pp_metrics p) (nullish sel metric) else 0)"
proof -
  obtain color where "mset (map link_core (fg_links g)) = mset (map link_core (map snd (raw_links metric color ps)))"
    using graph_parts(2) [OF assms(1,2) refl] by blast
  then have "(\<Sum>l\<leftarrow>fg_links g. if Q (fl_source l) (fl_target l) then link_amount sel l else 0) =
      (\<Sum>l\<leftarrow>map snd (raw_links metric color ps). if Q (fl_source l) (fl_target l) then link_amount sel l else 0)"
    by (rule sum_core) simp
  then show ?thesis by (simp only: sum_list_map_filter' raw_link_sum [OF assms(3)])
qed

lemma core_member:
  assumes "mset (map core xs) = mset (map core ys)" and "x \<in> set xs"
  obtains y where "y \<in> set ys" "core y = core x"
proof -
  have "core x \<in> set (map core ys)" using assms by (metis image_eqI list.set_map set_mset_mset)
  then show ?thesis using that by auto
qed

text \<open>The nodes of the graph are the nodes of its paths, each once.\<close>

lemma graph_nodes:
  assumes "g = buildFlowGraph env rows metric role palette visible ctx options"
    and "ps = graph_paths env rows metric (resolveVisibleStages role visible) ctx options"
  shows "distinct (map fn_id (fg_nodes g))"
    and "n \<in> set (fg_nodes g) \<Longrightarrow> \<exists>p \<in> set ps. \<exists>n' \<in> set (pp_path p). fp_id n' = fn_id n \<and> fp_kind n' = fn_kind n"
    and "p \<in> set ps \<Longrightarrow> n' \<in> set (pp_path p) \<Longrightarrow> \<exists>n \<in> set (fg_nodes g). fn_id n = fp_id n'"
proof -
  obtain color where cores: "mset (map node_core (fg_nodes g)) = mset (map node_core (map snd (raw_nodes metric color ps)))"
    using graph_parts(1) [OF assms refl] by blast
  have ids: "map fn_id (map snd (raw_nodes metric color ps)) = map fst (raw_nodes metric color ps)"
    by (auto dest: raw_node_entry)
  have "image_mset fn_id (mset (map node_core (fg_nodes g))) = image_mset fn_id (mset (map node_core (map snd (raw_nodes metric color ps))))"
    using cores by simp
  then have "mset (map fn_id (fg_nodes g)) = mset (map fn_id (map snd (raw_nodes metric color ps)))"
    by (simp add: multiset.map_comp comp_def)
  then have mset_ids: "mset (map fn_id (fg_nodes g)) = mset (map fst (raw_nodes metric color ps))" by (simp only: ids)
  have "distinct (map fst (raw_nodes metric color ps))" unfolding raw_nodes_def by (rule nodes.distinct_keys) simp
  then show "distinct (map fn_id (fg_nodes g))" using mset_eq_imp_distinct_iff [OF mset_ids] by blast
  show "\<exists>p \<in> set ps. \<exists>n' \<in> set (pp_path p). fp_id n' = fn_id n \<and> fp_kind n' = fn_kind n" if member: "n \<in> set (fg_nodes g)"
  proof -
    obtain v where "v \<in> set (map snd (raw_nodes metric color ps))" and v: "node_core v = node_core n"
      using core_member [OF cores member] .
    then obtain k where entry: "(k, v) \<in> set (raw_nodes metric color ps)" by auto
    have "fn_id v = fn_id n" "fn_kind v = fn_kind n" using v by (metis core_fields(1), metis core_fields(2))
    with raw_node_entry [OF entry] show ?thesis by auto
  qed
  show "\<exists>n \<in> set (fg_nodes g). fn_id n = fp_id n'" if "p \<in> set ps" "n' \<in> set (pp_path p)"
  proof -
    have "fst ` set (raw_nodes metric color ps) = (\<lambda>x. fp_id (fst x)) ` set (concat (map (node_items color) ps))"
      unfolding raw_nodes_def using nodes.keys [of metric "[]"] by simp
    moreover have "(n', pp_metrics p, color p, fp_id (hd (pp_path p))) \<in> set (concat (map (node_items color) ps))"
      using that by (auto simp: node_items_def)
    ultimately have "fp_id n' \<in> set (map fst (raw_nodes metric color ps))" by force
    then have "fp_id n' \<in> set (map fn_id (fg_nodes g))" using mset_ids by (metis set_mset_mset)
    then show ?thesis by auto
  qed
qed

lemma graph_node_amount:
  assumes "g = buildFlowGraph env rows metric role palette visible ctx options"
    and "ps = graph_paths env rows metric (resolveVisibleStages role visible) ctx options" and "n \<in> set (fg_nodes g)"
  shows "node_amount sel n =
    (\<Sum>p\<leftarrow>ps. \<Sum>n'\<leftarrow>pp_path p. if fp_id n' = fn_id n then metricValue (pp_metrics p) (nullish sel metric) else 0)"
proof -
  have "distinct (map fn_id ns) \<Longrightarrow> n \<in> set ns \<Longrightarrow> filter (\<lambda>n'. fn_id n' = fn_id n) ns = [n]" for ns
    by (induction ns) (auto simp: filter_empty_conv, metis image_eqI)
  then have "filter (\<lambda>n'. fn_id n' = fn_id n) (fg_nodes g) = [n]" using graph_nodes(1) [OF assms(1,2)] assms(3) by blast
  then show ?thesis using graph_node_sum [OF assms(1,2), where P = "\<lambda>i. i = fn_id n" and sel = sel] by simp
qed

lemma graph_nul_free:
  assumes "\<forall>row \<in> set rows. \<forall>n \<in> set (flowPathForStages row stages ctx). CHR 0x00 \<notin> set (fp_id n)"
  shows "nul_free (graph_paths env rows metric stages ctx options)"
proof -
  have other: "CHR 0x00 \<notin> set (fp_id (otherFlowNode k f))" for k f
    by (cases k) (simp_all add: otherFlowNode_def OTHER_FLOW_NODE_IDS_def)
  have "CHR 0x00 \<notin> set (fp_id n)"
    if "row \<in> set rows" "applyTopNodeLimit (flowPathForStages row stages ctx) sets mode f = Some path" "n \<in> set path"
    for row sets mode f path n
    using that assms other by (auto simp: applyTopNodeLimit_def split: if_splits)
  then show ?thesis unfolding nul_free_def graph_paths_def by (metis prepared_row)
qed

lemma kept_rows:
  assumes "go_overflowMode options \<noteq> Some Hide"
  shows "map pp_metrics (graph_paths env rows metric stages ctx options) = map rowMetrics rows"
proof -
  have "\<exists>path'. applyTopNodeLimit path sets mode f = Some path'" if "mode \<noteq> Hide" for path sets mode f
    using that by (simp add: applyTopNodeLimit_def)
  then have "map pp_metrics (preparedPaths rows stages sets mode f ctx) = map rowMetrics rows" if "mode \<noteq> Hide" for sets mode f
    using that unfolding preparedPaths_def by (induction rows) (auto simp: List.map_filter_simps split: option.split)
  moreover have "nullish (go_overflowMode options) Aggregate \<noteq> Hide" using assms by (cases "go_overflowMode options") auto
  ultimately show ?thesis unfolding graph_paths_def by blast
qed

lemma metric_summary: "metricValue (buildSummary rows) m = (\<Sum>row\<leftarrow>rows. metricValue (rowMetrics row) m)"
proof -
  have "metricValue (foldl (\<lambda>summary row. add_metrics summary (rowMetrics row)) s rows) m =
      metricValue s m + (\<Sum>row\<leftarrow>rows. metricValue (rowMetrics row) m)" for s
    by (induction rows arbitrary: s) (simp_all add: metricValue_def add_metrics_def split: FlowMetric.split)
  then show ?thesis by (cases m) (simp_all add: buildSummary_def metricValue_def)
qed

section \<open>Conservation\<close>

lemma paths_ok: "p \<in> set (graph_paths env rows metric stages ctx options) \<Longrightarrow> path_ok stages (pp_path p)"
  unfolding graph_paths_def by (rule prepared_ok)

lemma graph_node_kind:
  assumes "g = buildFlowGraph env rows metric role palette visible ctx options" and "n \<in> set (fg_nodes g)"
  shows "id_kind (fn_id n) = kind_name (fn_kind n)"
proof -
  obtain p n' where p: "p \<in> set (graph_paths env rows metric (resolveVisibleStages role visible) ctx options)"
    and n': "n' \<in> set (pp_path p)" "fp_id n' = fn_id n" "fp_kind n' = fn_kind n"
    using graph_nodes(2) [OF assms(1) refl assms(2)] by blast
  have "node_ok n'" using paths_ok [OF p] n'(1) by (simp add: path_ok_def list_all_iff)
  from node_ok_kind [OF this] n' show ?thesis by simp
qed

lemma flow_through_node:
  assumes g: "g = buildFlowGraph env rows metric role palette visible ctx options" and stages: "stages = resolveVisibleStages role visible"
    and nul: "nul_free (graph_paths env rows metric stages ctx options)" and n: "n \<in> set (fg_nodes g)"
  shows "fn_kind n \<noteq> last stages \<Longrightarrow> (\<Sum>l\<leftarrow>filter (\<lambda>l. fl_source l = fn_id n) (fg_links g). link_amount sel l) = node_amount sel n"
    and "fn_kind n \<noteq> hd stages \<Longrightarrow> (\<Sum>l\<leftarrow>filter (\<lambda>l. fl_target l = fn_id n) (fg_links g). link_amount sel l) = node_amount sel n"
proof -
  let ?ps = "graph_paths env rows metric stages ctx options" and ?m = "nullish sel metric"
  have ps: "?ps = graph_paths env rows metric (resolveVisibleStages role visible) ctx options" by (simp add: stages)
  have ne: "stages \<noteq> []" using stages_ok(2) [of role visible] stages by auto
  note amount = graph_node_amount [OF g ps n] and kind = graph_node_kind [OF g n]
  show "(\<Sum>l\<leftarrow>filter (\<lambda>l. fl_source l = fn_id n) (fg_links g). link_amount sel l) = node_amount sel n" if "fn_kind n \<noteq> last stages"
    unfolding graph_link_sum [OF g ps nul, where Q = "\<lambda>s t. s = fn_id n"] amount
    by (intro arg_cong [of _ _ sum_list] map_cong refl path_out [OF paths_ok ne]) (use that kind kind_name_inj in auto)
  show "(\<Sum>l\<leftarrow>filter (\<lambda>l. fl_target l = fn_id n) (fg_links g). link_amount sel l) = node_amount sel n" if "fn_kind n \<noteq> hd stages"
    unfolding graph_link_sum [OF g ps nul, where Q = "\<lambda>s t. t = fn_id n"] amount
    by (intro arg_cong [of _ _ sum_list] map_cong refl path_in [OF paths_ok ne]) (use that kind kind_name_inj in auto)
qed

lemma column_sum:
  assumes g: "g = buildFlowGraph env rows metric role palette visible ctx options" and stages: "stages = resolveVisibleStages role visible"
    and "k \<in> set stages"
  shows "(\<Sum>n\<leftarrow>filter (\<lambda>n. fn_kind n = k) (fg_nodes g). node_amount sel n) =
    (\<Sum>p\<leftarrow>graph_paths env rows metric stages ctx options. metricValue (pp_metrics p) (nullish sel metric))"
proof -
  have "filter (\<lambda>n. fn_kind n = k) (fg_nodes g) = filter (\<lambda>n. id_kind (fn_id n) = kind_name k) (fg_nodes g)"
    using graph_node_kind [OF g] by (intro filter_cong refl) (simp add: kind_name_inj)
  then have "(\<Sum>n\<leftarrow>filter (\<lambda>n. fn_kind n = k) (fg_nodes g). node_amount sel n) =
      (\<Sum>p\<leftarrow>graph_paths env rows metric stages ctx options. \<Sum>n\<leftarrow>pp_path p.
        if id_kind (fp_id n) = kind_name k then metricValue (pp_metrics p) (nullish sel metric) else 0)"
    using graph_node_sum [OF g refl, where P = "\<lambda>i. id_kind i = kind_name k" and sel = sel] stages by simp
  also have "\<dots> = (\<Sum>p\<leftarrow>graph_paths env rows metric stages ctx options. metricValue (pp_metrics p) (nullish sel metric))"
    using assms(3) stages stages_ok(1) [of role visible]
    by (intro arg_cong [of _ _ sum_list] map_cong refl path_ok_unique [OF paths_ok]) auto
  finally show ?thesis .
qed

lemma column_link_sum:
  assumes g: "g = buildFlowGraph env rows metric role palette visible ctx options" and stages: "stages = resolveVisibleStages role visible"
    and nul: "nul_free (graph_paths env rows metric stages ctx options)" and k: "k \<in> set stages" "k \<noteq> last stages"
  shows "(\<Sum>l\<leftarrow>filter (\<lambda>l. id_kind (fl_source l) = kind_name k) (fg_links g). link_amount sel l) =
    (\<Sum>p\<leftarrow>graph_paths env rows metric stages ctx options. metricValue (pp_metrics p) (nullish sel metric))"
proof -
  have ne: "stages \<noteq> []" using k by auto
  have "(\<Sum>(s, t)\<leftarrow>path_steps (pp_path p). if id_kind (fp_id s) = kind_name k then w else 0) = (w :: jsnum)"
    if "p \<in> set (graph_paths env rows metric stages ctx options)" for p w
  proof -
    have "(\<Sum>(s, t)\<leftarrow>path_steps (pp_path p). if id_kind (fp_id s) = kind_name k then w else 0) =
        (\<Sum>n\<leftarrow>pp_path p. if id_kind (fp_id n) = kind_name k then w else 0)"
      by (rule path_out [OF paths_ok [OF that] ne]) (use k(2) kind_name_inj in auto)
    also have "\<dots> = w" using k(1) stages stages_ok(1) [of role visible] by (intro path_ok_unique [OF paths_ok [OF that]]) auto
    finally show ?thesis .
  qed
  then show ?thesis
    using graph_link_sum [OF g _ nul, where Q = "\<lambda>s t. id_kind s = kind_name k" and sel = sel] stages
    by (simp cong: map_cong)
qed

text \<open>The total that the shares refer to is the sum over all paths.\<close>

lemma first_ids_kind:
  assumes "\<forall>p \<in> set ps. path_ok stages (pp_path p)" and "distinct stages" and "stages \<noteq> []" and "p \<in> set ps" and "n \<in> set (pp_path p)"
  shows "fp_id n \<in> set (first_ids ps) \<longleftrightarrow> id_kind (fp_id n) = kind_name (hd stages)"
proof -
  have first: "\<exists>n' rest. pp_path q = n' # rest \<and> fp_kind n' = hd stages \<and> node_ok n' \<and> fp_id n' \<noteq> []" if "q \<in> set ps" for q
  proof -
    have ok: "path_ok stages (pp_path q)" using assms(1) that by blast
    then obtain n' rest where "pp_path q = n' # rest" using assms(3) by (cases "pp_path q") (auto simp: path_ok_def)
    with ok show ?thesis by (auto simp: path_ok_def node_ok_def kind_name_def prefix_def split: FlowNodeKind.splits)
  qed
  have "fp_id n \<in> set (first_ids ps) \<Longrightarrow> id_kind (fp_id n) = kind_name (hd stages)"
    using first by (fastforce simp: first_ids_def set_map_filter dest: node_ok_kind split: list.splits)
  moreover have "fp_id n \<in> set (first_ids ps)" if "id_kind (fp_id n) = kind_name (hd stages)"
  proof -
    obtain n' rest where path: "pp_path p = n' # rest" and n': "fp_kind n' = hd stages" "fp_id n' \<noteq> []"
      using first [OF assms(4)] by blast
    have ok: "path_ok stages (pp_path p)" using assms(1,4) by blast
    have "fp_kind n = hd stages"
      using ok assms(5) that node_ok_kind [of n] by (auto simp: path_ok_def list_all_iff kind_name_inj)
    moreover have "hd stages \<notin> set (map fp_kind rest)"
    proof -
      have "stages = fp_kind n' # map fp_kind rest" using ok path by (simp add: path_ok_def)
      with assms(2) n'(1) show ?thesis by (metis distinct.simps(2))
    qed
    ultimately have "n = n'" using assms(5) path by (metis image_eqI list.set_map set_ConsD)
    then show ?thesis using path n' assms(4) by (force simp: first_ids_def set_map_filter)
  qed
  ultimately show ?thesis by blast
qed

lemma shares_total:
  assumes "map link_core ls = map link_core (map snd (raw_links metric color ps))" and "nul_free ps"
    and ok: "\<forall>p \<in> set ps. path_ok stages (pp_path p)" and stages: "distinct stages" "2 \<le> length stages"
  shows "first_total ps ls = (\<Sum>p\<leftarrow>ps. metricValue (pp_metrics p) metric)"
proof -
  have ne: "stages \<noteq> []" and last: "hd stages \<noteq> last stages"
    using stages by (cases stages; cases "tl stages"; auto)+
  have drawn: "fl_value l = link_amount None l" for l by (simp add: link_amount_def)
  have "first_total ps ls = (\<Sum>l\<leftarrow>map snd (raw_links metric color ps). if fl_source l \<in> set (first_ids ps) then link_amount None l else 0)"
    unfolding first_total_def drawn using assms(1) by (intro sum_core [where core = link_core]) simp_all
  also have "\<dots> = (\<Sum>p\<leftarrow>ps. \<Sum>(s, t)\<leftarrow>path_steps (pp_path p). if fp_id s \<in> set (first_ids ps) then metricValue (pp_metrics p) metric else 0)"
    unfolding raw_link_sum [OF assms(2), where Q = "\<lambda>s t. s \<in> set (first_ids ps)" and sel = None] nullish_simps ..
  also have "\<dots> = (\<Sum>p\<leftarrow>ps. metricValue (pp_metrics p) metric)"
  proof (intro arg_cong [of _ _ sum_list] map_cong refl)
    fix p assume p: "p \<in> set ps"
    let ?w = "metricValue (pp_metrics p) metric"
    note pok = ok [rule_format, OF p]
    have "(\<Sum>(s, t)\<leftarrow>path_steps (pp_path p). if fp_id s \<in> set (first_ids ps) then ?w else 0) =
        (\<Sum>(s, t)\<leftarrow>path_steps (pp_path p). if id_kind (fp_id s) = kind_name (hd stages) then ?w else 0)"
      using first_ids_kind [OF ok stages(1) ne p] step_member
      by (intro arg_cong [of _ _ sum_list] map_cong refl) (auto simp: case_prod_unfold)
    also have "\<dots> = (\<Sum>n\<leftarrow>pp_path p. if id_kind (fp_id n) = kind_name (hd stages) then ?w else 0)"
      by (rule path_out [OF pok ne]) (use last kind_name_inj in auto)
    also have "\<dots> = ?w" by (rule path_ok_unique [OF pok stages(1)]) (simp add: ne)
    finally show "(\<Sum>(s, t)\<leftarrow>path_steps (pp_path p). if fp_id s \<in> set (first_ids ps) then ?w else 0) = ?w" .
  qed
  finally show ?thesis .
qed

lemma graph_shares:
  assumes g: "g = buildFlowGraph env rows metric role palette visible ctx options" and stages: "stages = resolveVisibleStages role visible"
    and nul: "nul_free (graph_paths env rows metric stages ctx options)" and "l \<in> set (fg_links g)"
    and total: "whole = (\<Sum>p\<leftarrow>graph_paths env rows metric stages ctx options. metricValue (pp_metrics p) metric)" "0 < whole"
  shows "fl_share l = fl_value l / whole"
proof -
  obtain color ls where core: "map link_core ls = map link_core (map snd (raw_links metric color (graph_paths env rows metric stages ctx options)))"
    and share: "\<forall>l \<in> set (fg_links g). fl_share l = (if first_total (graph_paths env rows metric stages ctx options) ls > 0
      then fl_value l / first_total (graph_paths env rows metric stages ctx options) ls else 0)"
    using graph_parts(3) [OF g _ refl] stages by blast
  have "first_total (graph_paths env rows metric stages ctx options) ls = whole"
    unfolding total(1) using stages_ok stages by (intro shares_total [OF core nul]) (auto intro: paths_ok)
  then show ?thesis using share assms(4) total(2) by simp
qed

lemma link_source_kind:
  assumes g: "g = buildFlowGraph env rows metric role palette visible ctx options" and l: "l \<in> set (fg_links g)"
  shows "(\<exists>n \<in> set (fg_nodes g). fn_kind n = k \<and> fn_id n = fl_source l) \<longleftrightarrow> id_kind (fl_source l) = kind_name k"
proof -
  let ?ps = "graph_paths env rows metric (resolveVisibleStages role visible) ctx options"
  obtain color where cores: "mset (map link_core (fg_links g)) = mset (map link_core (map snd (raw_links metric color ?ps)))"
    using graph_parts(2) [OF g refl refl] by blast
  obtain l' where l': "l' \<in> set (map snd (raw_links metric color ?ps))" "link_core l' = link_core l"
    using core_member [OF cores l] .
  then obtain key where "(key, l') \<in> set (raw_links metric color ?ps)" by auto
  from raw_link_entry [OF this] obtain p s where p: "p \<in> set ?ps" "s \<in> set (pp_path p)" "fl_source l' = fp_id s"
    using step_member by blast
  have "fl_source l = fp_id s" using l'(2) p(3) by (metis core_fields(4))
  then obtain n where n: "n \<in> set (fg_nodes g)" "fn_id n = fl_source l"
    using graph_nodes(3) [OF g refl p(1,2)] by auto
  show ?thesis using n graph_node_kind [OF g] by (metis kind_name_inj)
qed

lemma column_shares:
  assumes g: "g = buildFlowGraph env rows metric role palette visible ctx options" and stages: "stages = resolveVisibleStages role visible"
    and nul: "nul_free (graph_paths env rows metric stages ctx options)" and k: "k \<in> set stages" "k \<noteq> last stages"
    and whole: "whole = (\<Sum>p\<leftarrow>graph_paths env rows metric stages ctx options. metricValue (pp_metrics p) metric)" "0 < whole"
  shows "(\<Sum>l\<leftarrow>filter (\<lambda>l. \<exists>n \<in> set (fg_nodes g). fn_kind n = k \<and> fn_id n = fl_source l) (fg_links g). fl_share l) = 1"
proof -
  let ?ls = "filter (\<lambda>l. id_kind (fl_source l) = kind_name k) (fg_links g)"
  have "filter (\<lambda>l. \<exists>n \<in> set (fg_nodes g). fn_kind n = k \<and> fn_id n = fl_source l) (fg_links g) = ?ls"
    by (intro filter_cong refl link_source_kind [OF g])
  moreover have "map fl_share ?ls = map (\<lambda>l. link_amount None l * (1 / whole)) ?ls"
    using graph_shares [OF g stages nul _ whole] by (auto simp: link_amount_def)
  then have "(\<Sum>l\<leftarrow>?ls. fl_share l) = (\<Sum>l\<leftarrow>?ls. link_amount None l) * (1 / whole)"
    by (simp only: sum_list_mult_const)
  moreover have "(\<Sum>l\<leftarrow>?ls. link_amount None l) = whole"
    using column_link_sum [OF g stages nul k, of None] whole(1) by simp
  ultimately show ?thesis using whole(2) by simp
qed

text \<open>
  C10. The flow adds up, in the value that is drawn and in every metric. A node that is not
  in the last column carries what its outgoing links carry, and a node that is not in the first
  column what its incoming links carry. If rows beyond the limit are collected instead of hidden,
  every column carries the total of the summary, and the shares of the links that leave a column
  add up to one.
\<close>

theorem flow_conserved:
  assumes "stages = resolveVisibleStages role visible"
    and "\<forall>row \<in> set rows. \<forall>n \<in> set (flowPathForStages row stages ctx). CHR 0x00 \<notin> set (fp_id n)"
    and "g = buildFlowGraph env rows metric role palette visible ctx options"
  shows "(\<forall>n \<in> set (fg_nodes g).
      (fn_kind n \<noteq> last stages \<longrightarrow> (\<Sum>l\<leftarrow>filter (\<lambda>l. fl_source l = fn_id n) (fg_links g). link_amount sel l) = node_amount sel n) \<and>
      (fn_kind n \<noteq> hd stages \<longrightarrow> (\<Sum>l\<leftarrow>filter (\<lambda>l. fl_target l = fn_id n) (fg_links g). link_amount sel l) = node_amount sel n)) \<and>
    (go_overflowMode options \<noteq> Some Hide \<longrightarrow>
      (\<forall>k \<in> set stages. (\<Sum>n\<leftarrow>filter (\<lambda>n. fn_kind n = k) (fg_nodes g). node_amount sel n) =
        metricValue (buildSummary rows) (nullish sel metric)) \<and>
      (0 < metricValue (buildSummary rows) metric \<longrightarrow> (\<forall>k \<in> set stages. k \<noteq> last stages \<longrightarrow>
        (\<Sum>l\<leftarrow>filter (\<lambda>l. \<exists>n \<in> set (fg_nodes g). fn_kind n = k \<and> fn_id n = fl_source l) (fg_links g). fl_share l) = 1)))"
proof -
  note nul = graph_nul_free [OF assms(2), of env metric options]
  have rows: "(\<Sum>p\<leftarrow>graph_paths env rows metric stages ctx options. metricValue (pp_metrics p) m) = metricValue (buildSummary rows) m"
    if "go_overflowMode options \<noteq> Some Hide" for m
    using arg_cong [OF kept_rows [OF that, of env rows metric stages ctx], of "\<lambda>ms. \<Sum>x\<leftarrow>ms. metricValue x m"]
    by (simp add: metric_summary comp_def)
  show ?thesis
    using flow_through_node [OF assms(3,1) nul] column_sum [OF assms(3,1)] column_shares [OF assms(3,1) nul] rows
    by simp
qed

fun code_unit_compare :: "string \<Rightarrow> string \<Rightarrow> jsnum" where
  "code_unit_compare [] [] = 0"
| "code_unit_compare [] (_ # _) = - 1"
| "code_unit_compare (_ # _) [] = 1"
| "code_unit_compare (a # s) (b # t) =
     (if a = b then code_unit_compare s t else if (of_char a :: nat) < of_char b then - 1 else 1)"

definition example_flow_env :: FlowEnv where
  "example_flow_env = \<lparr>fe_localeCompare = code_unit_compare, fe_formatNumber = number_string,
     fe_chartColors = (\<lambda>n. replicate n ''#3366cc'')\<rparr>"

definition flow_row :: "string \<Rightarrow> string \<Rightarrow> nat \<Rightarrow> jsnum \<Rightarrow> FlowQuotaDataItem" where
  "flow_row user model channel quota =
     \<lparr>fq_user_id = None, fq_username = Some user, fq_node_name = None, fq_token_id = None, fq_token_name = None,
      fq_channel_id = Some (of_nat channel), fq_channel_name = None, fq_model_name = Some model,
      fq_token_used = Some 10, fq_count = Some 1, fq_quota = Some quota\<rparr>"

definition example_flow_rows :: "FlowQuotaDataItem list" where
  "example_flow_rows = [flow_row ''alice'' ''gpt'' 101 100, flow_row ''alice'' ''gpt'' 102 50, flow_row ''bob'' ''claude'' 101 70]"

definition example_graph_options :: FlowGraphOptions where
  "example_graph_options = \<lparr>go_topNodeLimit = Some 1, go_overflowMode = None, go_otherNodeLabel = None, go_activeNode = None,
     go_activeLink = None, go_maskSensitive = True\<rparr>"

theorem flow_conserved_witness:
  "let g = buildFlowGraph example_flow_env example_flow_rows QuotaMetric AdminRole None None None example_graph_options in
   (\<Sum>n\<leftarrow>filter (\<lambda>n. fn_kind n = ModelKind) (fg_nodes g). fn_quota n) = 220 \<and>
   (\<Sum>l\<leftarrow>filter (\<lambda>l. \<exists>n \<in> set (fg_nodes g). fn_kind n = ModelKind \<and> fn_id n = fl_source l) (fg_links g). fl_share l) = 1"
proof -
  have stages: "[UserKind, ModelKind, ChannelKind] = resolveVisibleStages AdminRole None"
    by (simp add: resolveVisibleStages_def getFlowStages_def)
  have nul: "\<forall>row \<in> set example_flow_rows. \<forall>n \<in> set (flowPathForStages row [UserKind, ModelKind, ChannelKind] None). CHR 0x00 \<notin> set (fp_id n)"
    by code_simp
  have "metricValue (buildSummary example_flow_rows) QuotaMetric = 220" by code_simp
  then show ?thesis
    using flow_conserved [OF stages nul refl, of example_flow_env QuotaMetric None example_graph_options "Some QuotaMetric"]
    by (simp add: Let_def node_amount_def example_graph_options_def)
qed

end
