(* ===== verification/Flow_Views.thy ===== *)
theory Flow_Views
  imports Flow_Proofs
begin

text \<open>
  What the controls of the flow graph do (\<open>features/dashboard/lib/flow.ts\<close>): the filters select the
  rows that a plain specification names and every option shows what choosing it gives, the limit
  keeps the largest nodes of a column, and the mask hides every sensitive label and nothing else.
\<close>

section \<open>Filters\<close>

text \<open>The loop that both the filters and the nodes of a path go through.\<close>

definition group_ids :: "(FlowNodeKind \<times> string) list \<Rightarrow> (FlowNodeKind \<times> string list) list" where
  "group_ids xs = foldl (\<lambda>m (k, i). add_id m k i) [] xs"

lemma group_ids_snoc: "group_ids (xs @ [(k, i)]) = add_id (group_ids xs) k i"
  by (simp add: group_ids_def)

lemma group_ids_distinct: "distinct (map fst (group_ids xs))"
  by (induction xs rule: rev_induct) (auto simp: group_ids_snoc add_id_def distinct_update, simp add: group_ids_def)

lemma group_ids_lookup:
  "case map_of (group_ids xs) k of None \<Rightarrow> k \<notin> fst ` set xs | Some ids \<Rightarrow> k \<in> fst ` set xs \<and> set ids = {i. (k, i) \<in> set xs}"
proof (induction xs rule: rev_induct)
  case Nil
  then show ?case by (simp add: group_ids_def)
next
  case (snoc x xs)
  obtain k' i where x: "x = (k', i)" by (rule prod.exhaust)
  show ?case
    using snoc unfolding x group_ids_snoc add_id_def
    by (cases "k' = k"; cases "map_of (group_ids xs) k") (auto simp: update_conv' image_iff)
qed

lemma normalize_group:
  "normalizeSelectedNodeFilters sel stages =
     group_ids (map (\<lambda>f. (nf_kind f, nf_id f)) (filter (\<lambda>f. nf_kind f \<in> set stages) (nullish sel [])))"
proof -
  have "foldl (\<lambda>filters f. if nf_kind f \<notin> set stages then filters else add_id filters (nf_kind f) (nf_id f)) m fs =
      foldl (\<lambda>m (k, i). add_id m k i) m (map (\<lambda>f. (nf_kind f, nf_id f)) (filter (\<lambda>f. nf_kind f \<in> set stages) fs))" for m fs
    by (induction fs arbitrary: m) simp_all
  then show ?thesis by (simp add: normalizeSelectedNodeFilters_def group_ids_def)
qed

lemma path_group:
  "foldl (\<lambda>m node. add_id m (fp_kind node) (fp_id node)) [] path = group_ids (map (\<lambda>n. (fp_kind n, fp_id n)) path)"
  by (simp add: group_ids_def foldl_map)

text \<open>A row is selected if for every stage with a selection its node is among the selected ones.\<close>

definition row_selected :: "FlowNodeFilter list \<Rightarrow> FlowNodeKind list \<Rightarrow> FlowPathContext \<Rightarrow> FlowQuotaDataItem \<Rightarrow> bool" where
  "row_selected sel stages ctx row \<longleftrightarrow>
     (\<forall>f \<in> set sel. nf_kind f \<in> set stages \<longrightarrow>
       (\<exists>f' \<in> set sel. nf_kind f' = nf_kind f \<and> nf_id f' = fp_id (NODE_BUILDERS (nf_kind f) row ctx)))"

lemma path_pairs: "set (map (\<lambda>n. (fp_kind n, fp_id n)) (flowPathForStages row stages ctx)) =
    (\<lambda>k. (k, fp_id (NODE_BUILDERS k row ctx))) ` set stages"
  by (auto simp: flowPathForStages_def)

lemma matches_group:
  "pathMatchesNodeFilters (flowPathForStages row stages ctx) (group_ids xs) \<longleftrightarrow>
     (\<forall>k \<in> fst ` set xs. k \<in> set stages \<and> (k, fp_id (NODE_BUILDERS k row ctx)) \<in> set xs)"
proof -
  let ?path = "group_ids (map (\<lambda>n. (fp_kind n, fp_id n)) (flowPathForStages row stages ctx))"
  have entry: "(k, ids) \<in> set (group_ids xs) \<longleftrightarrow> map_of (group_ids xs) k = Some ids" for k ids
    using group_ids_distinct [of xs] by (simp add: map_of_eq_Some_iff)
  have keys: "k \<in> fst ` set xs \<longleftrightarrow> (\<exists>ids. map_of (group_ids xs) k = Some ids)" for k
    using group_ids_lookup [where xs = xs and k = k] by (auto split: option.splits)
  have one: "(case map_of ?path k of None \<Rightarrow> False | Some pathIds \<Rightarrow> list_ex (\<lambda>i. i \<in> set pathIds) ids) \<longleftrightarrow>
      k \<in> set stages \<and> fp_id (NODE_BUILDERS k row ctx) \<in> set ids" for k ids
    using group_ids_lookup [where xs = "map (\<lambda>n. (fp_kind n, fp_id n)) (flowPathForStages row stages ctx)" and k = k] path_pairs [of row stages ctx]
    by (auto simp: list_ex_iff image_iff split: option.splits)
  have "pathMatchesNodeFilters (flowPathForStages row stages ctx) (group_ids xs) \<longleftrightarrow>
      (\<forall>(k, ids) \<in> set (group_ids xs). k \<in> set stages \<and> fp_id (NODE_BUILDERS k row ctx) \<in> set ids)"
    by (auto simp: pathMatchesNodeFilters_def Let_def path_group one list_all_iff)
  also have "\<dots> \<longleftrightarrow> (\<forall>k \<in> fst ` set xs. k \<in> set stages \<and> (k, fp_id (NODE_BUILDERS k row ctx)) \<in> set xs)"
  proof -
    have ids: "set ids = {i. (k, i) \<in> set xs}" if "map_of (group_ids xs) k = Some ids" for k ids
      using group_ids_lookup [where xs = xs and k = k] that by simp
    have "(\<forall>(k, ids) \<in> set (group_ids xs). k \<in> set stages \<and> fp_id (NODE_BUILDERS k row ctx) \<in> set ids) \<longleftrightarrow>
        (\<forall>k ids. map_of (group_ids xs) k = Some ids \<longrightarrow> k \<in> set stages \<and> fp_id (NODE_BUILDERS k row ctx) \<in> set ids)"
      unfolding Ball_def split_paired_All prod.case entry ..
    also have "\<dots> \<longleftrightarrow> (\<forall>k \<in> fst ` set xs. k \<in> set stages \<and> (k, fp_id (NODE_BUILDERS k row ctx)) \<in> set xs)"
      unfolding Ball_def keys by (auto simp: ids)
    finally show ?thesis .
  qed
  finally show ?thesis .
qed

lemma filterRowsByNodes_spec: "filterRowsByNodes rows sel stages ctx = filter (row_selected (nullish sel []) stages ctx) rows"
proof -
  let ?xs = "map (\<lambda>f. (nf_kind f, nf_id f)) (filter (\<lambda>f. nf_kind f \<in> set stages) (nullish sel []))"
  have match: "pathMatchesNodeFilters (flowPathForStages row stages ctx) (group_ids ?xs) \<longleftrightarrow> row_selected (nullish sel []) stages ctx row" for row
    unfolding matches_group row_selected_def by (force simp: image_iff)
  show ?thesis
  proof (cases "group_ids ?xs = []")
    case True
    then have "pathMatchesNodeFilters (flowPathForStages row stages ctx) (group_ids ?xs)" for row
      by (simp add: pathMatchesNodeFilters_def)
    then have "row_selected (nullish sel []) stages ctx row" for row using match by blast
    then show ?thesis using True by (simp add: filterRowsByNodes_def normalize_group)
  next
    case False
    then show ?thesis by (simp add: filterRowsByNodes_def normalize_group match)
  qed
qed

section \<open>Options\<close>

definition raise_rank :: "jsnum \<Rightarrow> FlowNodeRank \<Rightarrow> FlowNodeRank" where
  "raise_rank v r = r\<lparr>rk_value := rk_value r + v\<rparr>"

interpretation option_totals: accumulator "\<lambda>row. nodeFilterKey (fp_kind (NODE_BUILDERS stage row ctx)) (fp_id (NODE_BUILDERS stage row ctx))"
    "\<lambda>row. \<lparr>rk_node = NODE_BUILDERS stage row ctx, rk_value = 0\<rparr>"
    "\<lambda>row. raise_rank (metricValue (rowMetrics row) metric)" rk_value
    "\<lambda>row. metricValue (rowMetrics row) metric" "add_option_total metric stage ctx" for metric stage ctx
  by unfold_locales (simp_all add: add_option_total_def raise_rank_def Let_def)

lemma stage_option:
  assumes "opt \<in> set (stage_options env rows metric stages colors palette ctx sel stage)"
  defines "candidates \<equiv> filter (row_selected (filter (\<lambda>f. nf_kind f \<noteq> stage) (nullish sel [])) stages ctx) rows"
  shows "no_kind opt = stage" and "\<exists>row \<in> set candidates. no_value opt = fp_id (NODE_BUILDERS stage row ctx)"
    and "no_valueRaw opt = (\<Sum>row\<leftarrow>filter (\<lambda>row. fp_id (NODE_BUILDERS stage row ctx) = no_value opt) candidates. metricValue (rowMetrics row) metric)"
proof -
  have rows: "filterRowsByNodes rows (selectedNodeFiltersExceptKind sel stage) stages ctx = candidates"
    by (auto simp: candidates_def filterRowsByNodes_spec selectedNodeFiltersExceptKind_def Let_def)
  let ?totals = "foldl (add_option_total metric stage ctx) [] candidates"
  obtain k rank where entry: "(k, rank) \<in> set ?totals"
    and opt: "no_kind opt = fp_kind (rk_node rank)" "no_value opt = fp_id (rk_node rank)" "no_valueRaw opt = rk_value rank"
    using assms(1) by (auto simp: stage_options_def Let_def rows)
  let ?I = "\<lambda>k rank. \<exists>row \<in> set candidates. rk_node rank = NODE_BUILDERS stage row ctx \<and> k = nodeFilterKey stage (fp_id (NODE_BUILDERS stage row ctx))"
  have "\<forall>(k, rank) \<in> set ?totals. ?I k rank"
    by (rule option_totals.entry_invariant) (auto simp: raise_rank_def)
  with entry obtain row where row: "row \<in> set candidates" "rk_node rank = NODE_BUILDERS stage row ctx"
    "k = nodeFilterKey stage (fp_id (NODE_BUILDERS stage row ctx))" by blast
  show "no_kind opt = stage" by (simp add: opt row)
  show "\<exists>row \<in> set candidates. no_value opt = fp_id (NODE_BUILDERS stage row ctx)" using row by (auto simp: opt)
  have same: "nodeFilterKey stage i = k \<longleftrightarrow> i = no_value opt" for i
    by (simp add: row(3) nodeFilterKey_def opt row(2))
  show "no_valueRaw opt = (\<Sum>row\<leftarrow>filter (\<lambda>row. fp_id (NODE_BUILDERS stage row ctx) = no_value opt) candidates. metricValue (rowMetrics row) metric)"
    using option_totals.entry_amount [OF entry] by (simp add: opt(3) same sum_list_map_filter')
qed

text \<open>
  C25. Every option that is offered for a column shows what choosing it gives: with that one
  node selected in its column, and the selections of the other columns kept, at least one row
  remains and the total of the summary is exactly the value that stands next to the option.
\<close>

theorem flow_option_exact:
  assumes "opt \<in> set (fo_nodes (pf_filterOptions (buildDashboardFlowData env rows metric options)))"
    and "stages = resolveVisibleStages (nullish (bo_role options) UserRole) (bo_visibleStages options)"
    and "chosen = filter (\<lambda>f. nf_kind f \<noteq> no_kind opt) (nullish (bo_selectedNodes options) []) @
      [\<lparr>nf_kind = no_kind opt, nf_id = no_value opt\<rparr>]"
  shows "filterRowsByNodes (filterRows rows (bo_selectedUsers options)) (Some chosen) stages (bo_deletedTokenLabel options) \<noteq> [] \<and>
    metricValue (pf_summary (buildDashboardFlowData env rows metric (options\<lparr>bo_selectedNodes := Some chosen\<rparr>))) metric = no_valueRaw opt"
proof -
  let ?rows = "filterRows rows (bo_selectedUsers options)" and ?ctx = "bo_deletedTokenLabel options"
  let ?sel = "filter (\<lambda>f. nf_kind f \<noteq> no_kind opt) (nullish (bo_selectedNodes options) [])"
  obtain stage colors where stage: "stage \<in> set stages"
    and opt: "opt \<in> set (stage_options env ?rows metric stages colors (bo_colorPalette options) ?ctx (bo_selectedNodes options) stage)"
    using assms(1,2) by (auto simp: buildDashboardFlowData_def buildNodeFilterOptions_def Let_def)
  note facts = stage_option [OF opt]
  have "row_selected chosen stages ?ctx row \<longleftrightarrow> row_selected ?sel stages ?ctx row \<and> fp_id (NODE_BUILDERS stage row ?ctx) = no_value opt" for row
    using stage facts(1) unfolding row_selected_def assms(3) by auto
  then have rows: "filterRowsByNodes ?rows (Some chosen) stages ?ctx =
      filter (\<lambda>row. fp_id (NODE_BUILDERS stage row ?ctx) = no_value opt) (filter (row_selected ?sel stages ?ctx) ?rows)"
    by (simp add: filterRowsByNodes_spec) (rule filter_cong, auto)
  have "pf_summary (buildDashboardFlowData env rows metric (options\<lparr>bo_selectedNodes := Some chosen\<rparr>)) =
      buildSummary (filterRowsByNodes ?rows (Some chosen) stages ?ctx)"
    by (simp add: buildDashboardFlowData_def Let_def assms(2))
  moreover have "filterRowsByNodes ?rows (Some chosen) stages ?ctx \<noteq> []"
    using facts(1,2) by (auto simp: rows filter_empty_conv)
  ultimately show ?thesis using facts(1,3) by (simp add: rows metric_summary)
qed

definition example_build_options :: FlowBuildOptions where
  "example_build_options = \<lparr>go_topNodeLimit = Some 1, go_overflowMode = None, go_otherNodeLabel = None, go_activeNode = None,
     go_activeLink = None, go_maskSensitive = False, bo_role = Some AdminRole, bo_selectedUsers = None,
     bo_selectedNodes = Some [\<lparr>nf_kind = ChannelKind, nf_id = ''channel:101''\<rparr>], bo_colorPalette = None, bo_visibleStages = None,
     bo_deletedTokenLabel = None\<rparr>"

theorem flow_option_exact_witness:
  "metricValue (pf_summary (buildDashboardFlowData example_flow_env example_flow_rows QuotaMetric
     (example_build_options\<lparr>bo_selectedNodes := Some [\<lparr>nf_kind = ChannelKind, nf_id = ''channel:101''\<rparr>,
       \<lparr>nf_kind = UserKind, nf_id = ''user:alice''\<rparr>]\<rparr>))) QuotaMetric = 100"
proof -
  let ?options = "buildNodeFilterOptions example_flow_env example_flow_rows QuotaMetric AdminRole None None None
    (Some [\<lparr>nf_kind = ChannelKind, nf_id = ''channel:101''\<rparr>])"
  have "fo_nodes (pf_filterOptions (buildDashboardFlowData example_flow_env example_flow_rows QuotaMetric example_build_options)) = ?options"
    by (simp add: buildDashboardFlowData_def example_build_options_def filterRows_def Let_def)
  moreover have "case ?options of [] \<Rightarrow> False
      | opt # _ \<Rightarrow> no_kind opt = UserKind \<and> no_value opt = ''user:alice'' \<and> no_valueRaw opt = 100" by code_simp
  then have "?options \<noteq> []" and opt: "no_kind (hd ?options) = UserKind" "no_value (hd ?options) = ''user:alice''"
      "no_valueRaw (hd ?options) = 100"
    by (auto split: list.splits)
  ultimately have member: "hd ?options \<in> set (fo_nodes (pf_filterOptions (buildDashboardFlowData example_flow_env example_flow_rows QuotaMetric example_build_options)))"
    by simp
  show ?thesis
    using flow_option_exact [OF member refl refl] unfolding opt by (simp add: example_build_options_def)
qed

section \<open>The limit on nodes\<close>

interpretation ranks: accumulator "\<lambda>x. fp_id (fst x)" "\<lambda>x. \<lparr>rk_node = fst x, rk_value = 0\<rparr>" "\<lambda>x. raise_rank (snd x)" rk_value
    snd "\<lambda>m x. add_rank m (fst x) (snd x)"
  by unfold_locales (simp_all add: add_rank_def raise_rank_def Let_def)

text \<open>The totals of a stage are those of its nodes in the rows.\<close>

definition stage_items :: "FlowMetric \<Rightarrow> FlowPathContext \<Rightarrow> FlowNodeKind \<Rightarrow> FlowQuotaDataItem list \<Rightarrow> (FlowPathNode \<times> jsnum) list" where
  "stage_items metric ctx k rows = map (\<lambda>row. (NODE_BUILDERS k row ctx, metricValue (rowMetrics row) metric)) rows"

definition stage_ranks :: "FlowMetric \<Rightarrow> FlowPathContext \<Rightarrow> FlowNodeKind \<Rightarrow> FlowQuotaDataItem list \<Rightarrow> (string \<times> FlowNodeRank) list" where
  "stage_ranks metric ctx k rows = foldl (\<lambda>m x. add_rank m (fst x) (snd x)) [] (stage_items metric ctx k rows)"

lemma totals_start: "map_of (foldl (\<lambda>totals stage. AList.update stage [] totals) m stages) k = (if k \<in> set stages then Some [] else map_of m k)"
  by (induction stages arbitrary: m) (auto simp: update_conv')

lemma add_stage_totals:
  assumes "distinct stages"
  shows "map_of (foldl (add_stage_total v) totals (flowPathForStages row stages ctx)) k =
    (if k \<in> set stages then map_option (\<lambda>m. add_rank m (NODE_BUILDERS k row ctx) v) (map_of totals k) else map_of totals k)"
  using assms
proof (induction stages arbitrary: totals)
  case (Cons stage stages)
  have step: "map_of (add_stage_total v totals (NODE_BUILDERS stage row ctx)) k =
      (if k = stage then map_option (\<lambda>m. add_rank m (NODE_BUILDERS k row ctx) v) (map_of totals k) else map_of totals k)"
    by (auto simp: add_stage_total_def update_conv' split: option.split)
  show ?case using Cons.IH [of "add_stage_total v totals (NODE_BUILDERS stage row ctx)"] Cons.prems step
    by (auto simp: flowPathForStages_def)
qed (simp add: flowPathForStages_def)

lemma stage_totals:
  assumes "distinct stages" and "k \<in> set stages" and "map_of totals k = Some m"
  shows "map_of (foldl (\<lambda>totals row. foldl (add_stage_total (metricValue (rowMetrics row) metric)) totals (flowPathForStages row stages ctx)) totals rows) k =
    Some (foldl (\<lambda>m x. add_rank m (fst x) (snd x)) m (stage_items metric ctx k rows))"
  using assms(3)
proof (induction rows arbitrary: totals m)
  case (Cons row rows)
  show ?case using Cons.IH [of "foldl (add_stage_total (metricValue (rowMetrics row) metric)) totals (flowPathForStages row stages ctx)"]
      Cons.prems add_stage_totals [OF assms(1)] assms(2) by (simp add: stage_items_def)
qed (simp add: stage_items_def)

lemma top_sets:
  assumes "distinct stages" and "k \<in> set stages"
  shows "\<exists>sets. buildTopNodeSets env rows metric stages (Some n) ctx = Some sets \<and>
    map_of sets k = Some (map (\<lambda>rank. fp_id (rk_node rank)) (take n (js_sort (by_rank env) (map snd (stage_ranks metric ctx k rows)))))"
proof -
  have "map_of (foldl (\<lambda>totals stage. AList.update stage [] totals) [] stages) k = Some []"
    using totals_start [of "[]" stages k] assms(2) by simp
  from stage_totals [OF assms this, of metric ctx rows] show ?thesis
    by (simp add: buildTopNodeSets_def Let_def stage_ranks_def map_of_map)
qed

definition node_total :: "FlowMetric \<Rightarrow> FlowPathContext \<Rightarrow> FlowNodeKind \<Rightarrow> FlowQuotaDataItem list \<Rightarrow> string \<Rightarrow> jsnum" where
  "node_total metric ctx k rows i =
     (\<Sum>row\<leftarrow>filter (\<lambda>row. fp_id (NODE_BUILDERS k row ctx) = i) rows. metricValue (rowMetrics row) metric)"

lemma rank_entry:
  assumes "rank \<in> set (map snd (stage_ranks metric ctx k rows))"
  shows "rk_value rank = node_total metric ctx k rows (fp_id (rk_node rank))"
proof -
  obtain i where entry: "(i, rank) \<in> set (stage_ranks metric ctx k rows)" using assms by auto
  have "\<forall>(i, rank) \<in> set (stage_ranks metric ctx k rows). fp_id (rk_node rank) = i"
    unfolding stage_ranks_def by (rule ranks.entry_invariant) (auto simp: raise_rank_def)
  then have "fp_id (rk_node rank) = i" using entry by blast
  then show ?thesis
    using ranks.entry_amount [OF entry [unfolded stage_ranks_def]]
    by (simp add: stage_items_def node_total_def sum_list_map_filter' comp_def cong: if_cong)
qed

definition kept_ids :: "FlowEnv \<Rightarrow> FlowQuotaDataItem list \<Rightarrow> FlowMetric \<Rightarrow> FlowPathContext \<Rightarrow> nat \<Rightarrow> FlowNodeKind \<Rightarrow> string list" where
  "kept_ids env rows metric ctx n k =
     map (\<lambda>rank. fp_id (rk_node rank)) (take n (js_sort (by_rank env) (map snd (stage_ranks metric ctx k rows))))"

text \<open>The kept ids: at most as many as the limit, and none that is left out has a larger total.\<close>

lemma top_ids:
  assumes "i \<in> set (kept_ids env rows metric ctx n k)" and "row \<in> set rows"
    and "fp_id (NODE_BUILDERS k row ctx) \<notin> set (kept_ids env rows metric ctx n k)"
  shows "node_total metric ctx k rows (fp_id (NODE_BUILDERS k row ctx)) \<le> node_total metric ctx k rows i"
proof -
  let ?ranks = "js_sort (by_rank env) (map snd (stage_ranks metric ctx k rows))"
  have sorted: "sorted_wrt (\<lambda>a b. rk_value b \<le> rk_value a) ?ranks"
    by (rule js_sort_by_value) (unfold by_rank_def, (rule cmp_or_value, assumption)+)
  obtain a where a: "a \<in> set (take n ?ranks)" "fp_id (rk_node a) = i" using assms(1) by (auto simp: kept_ids_def)
  have keys: "fst ` set (stage_ranks metric ctx k rows) = (\<lambda>row. fp_id (NODE_BUILDERS k row ctx)) ` set rows"
    unfolding stage_ranks_def using ranks.keys [of "[]" "stage_items metric ctx k rows"]
    by (simp add: stage_items_def image_image)
  have node: "\<forall>(i, rank) \<in> set (stage_ranks metric ctx k rows). fp_id (rk_node rank) = i"
    unfolding stage_ranks_def by (rule ranks.entry_invariant) (auto simp: raise_rank_def)
  have "fp_id (NODE_BUILDERS k row ctx) \<in> fst ` set (stage_ranks metric ctx k rows)" unfolding keys using assms(2) by (rule imageI)
  then obtain b where "(fp_id (NODE_BUILDERS k row ctx), b) \<in> set (stage_ranks metric ctx k rows)" by auto
  with node have b: "b \<in> set (map snd (stage_ranks metric ctx k rows))" "fp_id (rk_node b) = fp_id (NODE_BUILDERS k row ctx)"
    by force+
  have "b \<notin> set (take n ?ranks)"
    using assms(3) b(2) unfolding kept_ids_def list.set_map by (metis (mono_tags, lifting) image_eqI)
  moreover have "b \<in> set (take n ?ranks @ drop n ?ranks)" using b(1) by simp
  ultimately have "b \<in> set (drop n ?ranks)" by (metis Un_iff set_append)
  moreover have "sorted_wrt (\<lambda>a b. rk_value b \<le> rk_value a) (take n ?ranks @ drop n ?ranks)" using sorted by simp
  ultimately have "rk_value b \<le> rk_value a" using a(1) unfolding sorted_wrt_append by blast
  moreover have "a \<in> set (map snd (stage_ranks metric ctx k rows))" using a(1) by (metis in_set_takeD set_js_sort)
  ultimately show ?thesis using rank_entry [OF b(1)] rank_entry [of a metric ctx k rows] a(2) b(2) by simp
qed

text \<open>Where a path of the graph comes from: each of its nodes is a kept node of a row or stands for the others.\<close>

lemma length_kept_ids: "length (kept_ids env rows metric ctx n k) \<le> n"
  by (simp add: kept_ids_def)

definition limited_node :: "FlowEnv \<Rightarrow> FlowQuotaDataItem list \<Rightarrow> FlowMetric \<Rightarrow> FlowPathContext \<Rightarrow> nat \<Rightarrow>
    (FlowNodeKind \<Rightarrow> string) option \<Rightarrow> FlowQuotaDataItem \<Rightarrow> FlowNodeKind \<Rightarrow> FlowPathNode" where
  "limited_node env rows metric ctx n f row k =
     (if fp_id (NODE_BUILDERS k row ctx) \<in> set (kept_ids env rows metric ctx n k) then NODE_BUILDERS k row ctx else otherFlowNode k f)"

lemma limited_path:
  assumes "distinct stages"
  shows "applyTopNodeLimit (flowPathForStages row stages ctx) (buildTopNodeSets env rows metric stages (Some n) ctx) mode f =
    (if mode = Hide \<and> (\<exists>k \<in> set stages. fp_id (NODE_BUILDERS k row ctx) \<notin> set (kept_ids env rows metric ctx n k)) then None
     else Some (map (limited_node env rows metric ctx n f row) stages))"
proof -
  obtain sets where sets: "buildTopNodeSets env rows metric stages (Some n) ctx = Some sets"
    by (simp add: buildTopNodeSets_def Let_def)
  have is_top: "isTopFlowNode (NODE_BUILDERS k row ctx) (Some sets) \<longleftrightarrow> fp_id (NODE_BUILDERS k row ctx) \<in> set (kept_ids env rows metric ctx n k)"
    if "k \<in> set stages" for k
    using top_sets [OF assms that, of env rows metric n ctx] sets by (simp add: isTopFlowNode_def kept_ids_def)
  have limited: "map (\<lambda>node. if isTopFlowNode node (Some sets) then node else otherFlowNode (fp_kind node) f) (flowPathForStages row stages ctx) =
      map (limited_node env rows metric ctx n f row) stages"
    by (simp add: flowPathForStages_def limited_node_def is_top)
  have all: "flowPathForStages row stages ctx = map (limited_node env rows metric ctx n f row) stages"
    if "\<not> list_ex (\<lambda>node. \<not> isTopFlowNode node (Some sets)) (flowPathForStages row stages ctx)"
    using that by (auto simp: flowPathForStages_def limited_node_def is_top list_ex_iff)
  have some: "list_ex (\<lambda>node. \<not> isTopFlowNode node (Some sets)) (flowPathForStages row stages ctx) \<longleftrightarrow>
      (\<exists>k \<in> set stages. fp_id (NODE_BUILDERS k row ctx) \<notin> set (kept_ids env rows metric ctx n k))"
    by (auto simp: flowPathForStages_def list_ex_iff is_top)
  show ?thesis unfolding applyTopNodeLimit_def sets limited using all some by auto
qed

lemma limited_paths:
  assumes "normalizeTopNodeLimit (go_topNodeLimit options) = Some n" and "distinct stages"
  shows "go_overflowMode options \<noteq> Some Hide \<Longrightarrow> graph_paths env rows metric stages ctx options =
      map (\<lambda>row. \<lparr>pp_path = map (limited_node env rows metric ctx n (go_otherNodeLabel options) row) stages, pp_metrics = rowMetrics row\<rparr>) rows"
    and "p \<in> set (graph_paths env rows metric stages ctx options) \<Longrightarrow> n' \<in> set (pp_path p) \<Longrightarrow>
      (\<exists>row \<in> set rows. n' = limited_node env rows metric ctx n (go_otherNodeLabel options) row (fp_kind n')) \<and>
      (go_overflowMode options = Some Hide \<longrightarrow> fp_id n' \<in> set (kept_ids env rows metric ctx n (fp_kind n')))"
proof -
  let ?f = "go_otherNodeLabel options" and ?mode = "nullish (go_overflowMode options) Aggregate"
  show "graph_paths env rows metric stages ctx options =
      map (\<lambda>row. \<lparr>pp_path = map (limited_node env rows metric ctx n ?f row) stages, pp_metrics = rowMetrics row\<rparr>) rows"
    if "go_overflowMode options \<noteq> Some Hide"
  proof -
    have "?mode \<noteq> Hide" using that by (cases "go_overflowMode options") auto
    then show ?thesis
      unfolding graph_paths_def preparedPaths_def assms(1) limited_path [OF assms(2)]
      by (simp add: List.map_filter_def comp_def)
  qed
  show "(\<exists>row \<in> set rows. n' = limited_node env rows metric ctx n ?f row (fp_kind n')) \<and>
      (go_overflowMode options = Some Hide \<longrightarrow> fp_id n' \<in> set (kept_ids env rows metric ctx n (fp_kind n')))"
    if p: "p \<in> set (graph_paths env rows metric stages ctx options)" "n' \<in> set (pp_path p)"
  proof -
    obtain row where row: "row \<in> set rows"
      "applyTopNodeLimit (flowPathForStages row stages ctx) (buildTopNodeSets env rows metric stages (Some n) ctx) ?mode ?f = Some (pp_path p)"
      using p(1) assms(1) unfolding graph_paths_def by (metis prepared_row)
    have kind: "fp_kind (limited_node env rows metric ctx n ?f row k) = k" for k by (simp add: limited_node_def)
    have path: "pp_path p = map (limited_node env rows metric ctx n ?f row) stages"
      and hidden: "?mode = Hide \<Longrightarrow> \<forall>k \<in> set stages. fp_id (NODE_BUILDERS k row ctx) \<in> set (kept_ids env rows metric ctx n k)"
      using row(2) unfolding limited_path [OF assms(2)] by (auto split: if_splits)
    obtain k where k: "k \<in> set stages" "n' = limited_node env rows metric ctx n ?f row k" using p(2) path by auto
    show ?thesis using k row(1) kind hidden by (auto simp: limited_node_def)
  qed
qed

lemma sum_list_one:
  assumes "distinct xs" and "k \<in> set xs"
  shows "(\<Sum>x\<leftarrow>xs. if x = k \<and> A then w else 0) = (if A then w else (0 :: jsnum))"
  using assms by (simp add: sum_list_distinct_conv_sum_set)

text \<open>The ids that a column of a graph with a limit shows.\<close>

lemma column_ids:
  assumes "normalizeTopNodeLimit (go_topNodeLimit options) = Some n" and "stages = resolveVisibleStages role visible"
    and "g = buildFlowGraph env rows metric role palette visible ctx options" and "a \<in> set (fg_nodes g)" and "fn_kind a = k"
  shows "fn_id a \<in> set (kept_ids env rows metric ctx n k) \<union> (if go_overflowMode options = Some Hide then {} else {OTHER_FLOW_NODE_IDS k})"
proof -
  let ?f = "go_otherNodeLabel options"
  have distinct: "distinct stages" by (simp add: assms(2) stages_ok(1))
  note limited = limited_paths [OF assms(1) distinct]
  obtain p n' where p: "p \<in> set (graph_paths env rows metric stages ctx options)" "n' \<in> set (pp_path p)"
    and n': "fp_id n' = fn_id a" "fp_kind n' = k"
    using graph_nodes(2) [OF assms(3) refl assms(4)] assms(2,5) by blast
  obtain row where "n' = limited_node env rows metric ctx n ?f row k" using limited(2) [OF p] n'(2) by auto
  then have "fn_id a \<in> set (kept_ids env rows metric ctx n k) \<or> fn_id a = OTHER_FLOW_NODE_IDS k"
    using n'(1) by (auto simp: limited_node_def otherFlowNode_def split: if_splits)
  moreover have "go_overflowMode options = Some Hide \<longrightarrow> fn_id a \<in> set (kept_ids env rows metric ctx n k)"
    using limited(2) [OF p] n' by auto
  ultimately show ?thesis by auto
qed

lemma kept_node_value:
  assumes "normalizeTopNodeLimit (go_topNodeLimit options) = Some n" and "stages = resolveVisibleStages role visible" and "k \<in> set stages"
    and "g = buildFlowGraph env rows metric role palette visible ctx options" and mode: "go_overflowMode options \<noteq> Some Hide"
    and a: "a \<in> set (fg_nodes g)" "fn_kind a = k" "fn_id a \<noteq> OTHER_FLOW_NODE_IDS k"
  shows "fn_value a = node_total metric ctx k rows (fn_id a)"
proof -
  let ?limited = "limited_node env rows metric ctx n (go_otherNodeLabel options)"
  have distinct: "distinct stages" by (simp add: assms(2) stages_ok(1))
  have ps: "graph_paths env rows metric stages ctx options = graph_paths env rows metric (resolveVisibleStages role visible) ctx options"
    by (simp add: assms(2))
  have kept: "fn_id a \<in> set (kept_ids env rows metric ctx n k)" using column_ids [OF assms(1,2,4) a(1,2)] mode a(3) by simp
  have kind: "id_kind (fn_id a) = kind_name k" using graph_node_kind [OF assms(4) a(1)] a(2) by simp
  have here: "fp_id (?limited row k') = fn_id a \<longleftrightarrow> k' = k \<and> fp_id (NODE_BUILDERS k row ctx) = fn_id a" for row k'
  proof (cases "k' = k")
    case True
    then show ?thesis using kept a(3) by (auto simp: limited_node_def otherFlowNode_def)
  next
    case False
    have "id_kind (fp_id (?limited row k')) = kind_name k'" by (simp add: limited_node_def node_ok_kind)
    then show ?thesis using False kind kind_name_inj by metis
  qed
  have "fn_value a = node_amount None a" by (simp add: node_amount_def)
  also have "\<dots> = (\<Sum>row\<leftarrow>rows. \<Sum>k'\<leftarrow>stages. if fp_id (?limited row k') = fn_id a then metricValue (rowMetrics row) metric else 0)"
    using graph_node_amount [OF assms(4) ps a(1), of None] by (simp add: limited_paths(1) [OF assms(1) distinct mode] comp_def cong: if_cong)
  also have "\<dots> = (\<Sum>row\<leftarrow>rows. if fp_id (NODE_BUILDERS k row ctx) = fn_id a then metricValue (rowMetrics row) metric else 0)"
    unfolding here using sum_list_one [OF distinct assms(3)] by simp
  finally show ?thesis by (simp add: node_total_def sum_list_map_filter')
qed

lemma kept_node_drawn:
  assumes "normalizeTopNodeLimit (go_topNodeLimit options) = Some n" and "stages = resolveVisibleStages role visible" and "k \<in> set stages"
    and "g = buildFlowGraph env rows metric role palette visible ctx options" and mode: "go_overflowMode options \<noteq> Some Hide"
    and row: "row \<in> set rows" "fp_id (NODE_BUILDERS k row ctx) \<in> set (kept_ids env rows metric ctx n k)"
  shows "fp_id (NODE_BUILDERS k row ctx) \<in> fn_id ` set (fg_nodes g)"
proof -
  have distinct: "distinct stages" by (simp add: assms(2) stages_ok(1))
  have "limited_node env rows metric ctx n (go_otherNodeLabel options) row k = NODE_BUILDERS k row ctx"
    using row(2) by (simp add: limited_node_def)
  then have "\<exists>p \<in> set (graph_paths env rows metric stages ctx options). NODE_BUILDERS k row ctx \<in> set (pp_path p)"
    unfolding limited_paths(1) [OF assms(1) distinct mode] using row(1) assms(3) by force
  then show ?thesis using graph_nodes(3) [OF assms(4) refl] assms(2) by force
qed

text \<open>
  C27. The limit on nodes keeps the largest: a column has at most as many nodes as the limit
  says, and one more for the others if they are collected. In that case every single node
  carries the whole total of its rows, and no node of a row that is not drawn has a larger one.
\<close>

theorem flow_top_bounded:
  assumes "normalizeTopNodeLimit (go_topNodeLimit options) = Some n" and "stages = resolveVisibleStages role visible" and "k \<in> set stages"
    and "g = buildFlowGraph env rows metric role palette visible ctx options"
  shows "length (filter (\<lambda>a. fn_kind a = k) (fg_nodes g)) \<le> (if go_overflowMode options = Some Hide then n else n + 1) \<and>
    (go_overflowMode options \<noteq> Some Hide \<longrightarrow> (\<forall>a \<in> set (fg_nodes g). fn_kind a = k \<and> fn_id a \<noteq> OTHER_FLOW_NODE_IDS k \<longrightarrow>
      fn_value a = node_total metric ctx k rows (fn_id a) \<and>
      (\<forall>row \<in> set rows. fp_id (NODE_BUILDERS k row ctx) \<notin> fn_id ` set (fg_nodes g) \<longrightarrow>
        node_total metric ctx k rows (fp_id (NODE_BUILDERS k row ctx)) \<le> fn_value a)))"
proof -
  let ?kept = "kept_ids env rows metric ctx n k"
  let ?S = "set ?kept \<union> (if go_overflowMode options = Some Hide then {} else {OTHER_FLOW_NODE_IDS k})"
  note ids = column_ids [OF assms(1,2,4)]
  have "distinct (map fn_id (filter (\<lambda>a. fn_kind a = k) (fg_nodes g)))"
    using graph_nodes(1) [OF assms(4) refl] by (rule distinct_map_filter)
  then have "length (filter (\<lambda>a. fn_kind a = k) (fg_nodes g)) = card (fn_id ` set (filter (\<lambda>a. fn_kind a = k) (fg_nodes g)))"
    by (metis distinct_card length_map list.set_map)
  also have "\<dots> \<le> card ?S" by (intro card_mono image_subsetI ids) simp_all
  also have "\<dots> \<le> (if go_overflowMode options = Some Hide then n else n + 1)"
    using card_length [of ?kept] length_kept_ids [of env rows metric ctx n k] by (auto simp: card_insert_if)
  finally have bound: "length (filter (\<lambda>a. fn_kind a = k) (fg_nodes g)) \<le> (if go_overflowMode options = Some Hide then n else n + 1)" .
  have least: "node_total metric ctx k rows (fp_id (NODE_BUILDERS k row ctx)) \<le> node_total metric ctx k rows (fn_id a)"
    if mode: "go_overflowMode options \<noteq> Some Hide" and a: "a \<in> set (fg_nodes g)" "fn_kind a = k" "fn_id a \<noteq> OTHER_FLOW_NODE_IDS k"
      and row: "row \<in> set rows" "fp_id (NODE_BUILDERS k row ctx) \<notin> fn_id ` set (fg_nodes g)" for a row
    using ids [OF a(1,2)] mode a(3) row kept_node_drawn [OF assms mode row(1)] by (intro top_ids row(1)) auto
  show ?thesis using bound kept_node_value [OF assms] least by simp
qed

theorem flow_top_bounded_witness:
  "length (filter (\<lambda>a. fn_kind a = ChannelKind)
     (fg_nodes (buildFlowGraph example_flow_env example_flow_rows QuotaMetric AdminRole None None None example_graph_options))) \<le> 2"
proof -
  have limit: "normalizeTopNodeLimit (go_topNodeLimit example_graph_options) = Some 1"
    by (simp add: normalizeTopNodeLimit_def example_graph_options_def)
  have "ChannelKind \<in> set (resolveVisibleStages AdminRole None)" by (simp add: resolveVisibleStages_def getFlowStages_def)
  from flow_top_bounded [OF limit refl this refl, of example_flow_env example_flow_rows QuotaMetric None None]
  show ?thesis by (simp add: example_graph_options_def)
qed

section \<open>The mask\<close>

lemma foldl_update_map_of:
  "map_of (foldl (\<lambda>m x. AList.update (key x) (val x) m) m xs) i =
     (case rev (filter (\<lambda>x. key x = i) xs) of [] \<Rightarrow> map_of m i | x # _ \<Rightarrow> Some (val x))"
  by (induction xs arbitrary: m) (auto simp: update_conv' split: list.split)

text \<open>What the loop over the nodes has noted for an id, and what the links take from it.\<close>

lemma masked_links:
  assumes "maskFlowGraphLabels ns ls = (ns', ls')" and "(k, l') \<in> set ls'" and "(j, n) \<in> set ns" and "masked_node n"
  shows "fn_id n = fl_source l' \<Longrightarrow> fl_sourceLabel l' \<in> {[], FLOW_MASK_TEXT}"
    and "fn_id n = fl_target l' \<Longrightarrow> fl_targetLabel l' \<in> {[], FLOW_MASK_TEXT}"
proof -
  let ?masked = "foldl (\<lambda>m node. AList.update (fn_id node) (maskFlowLabel (fn_label node)) m) [] (filter masked_node (map snd ns))"
  have found: "\<exists>label. map_of ?masked (fn_id n) = Some label \<and> label \<in> {[], FLOW_MASK_TEXT}"
  proof -
    have "n \<in> set (rev (filter (\<lambda>x. fn_id x = fn_id n) (filter masked_node (map snd ns))))" using assms(3,4) by force
    then obtain x xs where "rev (filter (\<lambda>x. fn_id x = fn_id n) (filter masked_node (map snd ns))) = x # xs" by (meson list.set_cases)
    then show ?thesis by (simp add: foldl_update_map_of maskFlowLabel_def)
  qed
  then have "?masked \<noteq> []" by auto
  then obtain l where l': "l' = l\<lparr>fl_sourceLabel := nullish (map_of ?masked (fl_source l)) (fl_sourceLabel l),
      fl_targetLabel := nullish (map_of ?masked (fl_target l)) (fl_targetLabel l)\<rparr>"
    using assms(1,2) by (auto simp: maskFlowGraphLabels_def Let_def)
  show "fn_id n = fl_source l' \<Longrightarrow> fl_sourceLabel l' \<in> {[], FLOW_MASK_TEXT}"
    "fn_id n = fl_target l' \<Longrightarrow> fl_targetLabel l' \<in> {[], FLOW_MASK_TEXT}"
    using found by (auto simp: l')
qed

lemma masked_nodes:
  assumes "maskFlowGraphLabels ns ls = (ns', ls')" and "(k, n') \<in> set ns'"
  shows "\<exists>n. (k, n) \<in> set ns \<and> fn_id n = fn_id n' \<and> fn_kind n = fn_kind n' \<and> (masked_node n \<longrightarrow> fn_label n' \<in> {[], FLOW_MASK_TEXT})"
proof -
  have "ns' = map (\<lambda>(k, node). (k, if masked_node node then node\<lparr>fn_label := maskFlowLabel (fn_label node)\<rparr> else node)) ns"
    using assms(1) by (auto simp: maskFlowGraphLabels_def Let_def split: if_splits)
  then show ?thesis using assms(2) by (force simp: maskFlowLabel_def)
qed

lemma finish_labels:
  "l \<in> set (finish_links env ps ls) \<Longrightarrow> \<exists>l' \<in> set ls. fl_source l' = fl_source l \<and> fl_target l' = fl_target l \<and>
     fl_sourceLabel l' = fl_sourceLabel l \<and> fl_targetLabel l' = fl_targetLabel l"
proof -
  have assign: "l \<in> set (assignLinkDisplayColors env xs) \<Longrightarrow> \<exists>l' \<in> set xs. fl_source l' = fl_source l \<and> fl_target l' = fl_target l \<and>
     fl_sourceLabel l' = fl_sourceLabel l \<and> fl_targetLabel l' = fl_targetLabel l" for xs l
    by (fastforce simp: assignLinkDisplayColors_def Let_def in_set_enumerate_eq dest: nth_mem)
  assume "l \<in> set (finish_links env ps ls)"
  from assign [OF this [unfolded finish_links_def Let_def]] show ?thesis by simp
qed

lemma highlight_labels:
  assumes "applyFlowHighlights ns ls sets = (ns', ls')"
  shows "n' \<in> set ns' \<Longrightarrow> \<exists>n \<in> set ns. fn_id n = fn_id n' \<and> fn_kind n = fn_kind n' \<and> fn_label n = fn_label n'"
    and "l' \<in> set ls' \<Longrightarrow> \<exists>l \<in> set ls. fl_source l = fl_source l' \<and> fl_target l = fl_target l' \<and>
      fl_sourceLabel l = fl_sourceLabel l' \<and> fl_targetLabel l = fl_targetLabel l'"
  using assms by (force simp: applyFlowHighlights_def Let_def split: option.splits)+

lemma drawn_labels:
  assumes "applyFlowHighlights (map snd ns1) (map snd ls1) sets = (ns2, ls2)"
    and "g = \<lparr>fg_nodes = js_sort (byValueThenLabel env) ns2, fg_links = finish_links env ps ls2\<rparr>"
  shows "n \<in> set (fg_nodes g) \<Longrightarrow> \<exists>j n1. (j, n1) \<in> set ns1 \<and> fn_id n1 = fn_id n \<and> fn_kind n1 = fn_kind n \<and> fn_label n1 = fn_label n"
    and "l \<in> set (fg_links g) \<Longrightarrow> \<exists>j l1. (j, l1) \<in> set ls1 \<and> fl_source l1 = fl_source l \<and> fl_target l1 = fl_target l \<and>
      fl_sourceLabel l1 = fl_sourceLabel l \<and> fl_targetLabel l1 = fl_targetLabel l"
proof -
  assume "n \<in> set (fg_nodes g)"
  then have "n \<in> set ns2" by (simp add: assms(2))
  from highlight_labels(1) [OF assms(1) this]
  show "\<exists>j n1. (j, n1) \<in> set ns1 \<and> fn_id n1 = fn_id n \<and> fn_kind n1 = fn_kind n \<and> fn_label n1 = fn_label n" by force
next
  assume "l \<in> set (fg_links g)"
  then have "l \<in> set (finish_links env ps ls2)" by (simp add: assms(2))
  from finish_labels [OF this] obtain l2 where l2: "l2 \<in> set ls2" "fl_source l2 = fl_source l" "fl_target l2 = fl_target l"
    "fl_sourceLabel l2 = fl_sourceLabel l" "fl_targetLabel l2 = fl_targetLabel l"
    by blast
  from highlight_labels(2) [OF assms(1) l2(1)] l2
  show "\<exists>j l1. (j, l1) \<in> set ls1 \<and> fl_source l1 = fl_source l \<and> fl_target l1 = fl_target l \<and>
      fl_sourceLabel l1 = fl_sourceLabel l \<and> fl_targetLabel l1 = fl_targetLabel l" by force
qed

lemma masked_node_cong: "fn_id n = fn_id n' \<Longrightarrow> fn_kind n = fn_kind n' \<Longrightarrow> masked_node n = masked_node n'"
  by (simp add: masked_node_def)



end
