(* ===== verification/Json_Pretty.thy ===== *)
theory Json_Pretty
  imports Json_Roundtrip
begin

text \<open>
  \<open>JSON.stringify(x, null, 2)\<close>: the text of a value over several lines, each level indented by
  two blanks. Parsing inverts it on values without numbers, which are those the source prints
  this way.
\<close>

definition line_break :: "nat \<Rightarrow> string" where
  "line_break n = CHR 0x0A # replicate (2 * n) CHR 0x20"

fun json_pretty :: "nat \<Rightarrow> json \<Rightarrow> string"
  and pretty_elems :: "nat \<Rightarrow> json list \<Rightarrow> string"
  and pretty_members :: "nat \<Rightarrow> (string \<times> json) list \<Rightarrow> string" where
  "json_pretty n JNull = ''null''"
| "json_pretty n (JBool b) = (if b then ''true'' else ''false'')"
| "json_pretty n (JNum x) = number_string x"
| "json_pretty n (JStr s) = quote s"
| "json_pretty n (JArr xs) =
     (if xs = [] then ''[]'' else ''['' @ pretty_elems (Suc n) xs @ line_break n @ '']'')"
| "json_pretty n (JObj kvs) =
     (if kvs = [] then ''{}'' else ''{'' @ pretty_members (Suc n) kvs @ line_break n @ ''}'')"
| "pretty_elems n [] = []"
| "pretty_elems n (x # xs) =
     line_break n @ json_pretty n x @ (if xs = [] then [] else '','' @ pretty_elems n xs)"
| "pretty_members n [] = []"
| "pretty_members n ((k, v) # kvs) =
     line_break n @ quote k @ '': '' @ json_pretty n v @
     (if kvs = [] then [] else '','' @ pretty_members n kvs)"

text \<open>Values without numbers in which no key of an object is repeated.\<close>

fun json_plain :: "json \<Rightarrow> bool" where
  "json_plain (JNum n) = False"
| "json_plain (JArr xs) = (\<forall>x \<in> set xs. json_plain x)"
| "json_plain (JObj kvs) = (distinct (map fst kvs) \<and> (\<forall>kv \<in> set kvs. json_plain (snd kv)))"
| "json_plain _ = True"

section \<open>White space\<close>

lemma skip_ws_blanks [simp]: "skip_ws (replicate n CHR 0x20 @ s) = skip_ws s"
  by (induction n) (simp_all add: skip_ws_def)

lemma skip_ws_line_break [simp]: "skip_ws (line_break n @ s) = skip_ws s"
proof -
  have "skip_ws (line_break n @ s) = skip_ws (replicate (2 * n) CHR 0x20 @ s)"
    by (simp add: line_break_def skip_ws_def)
  then show ?thesis by simp
qed

lemma skip_ws_mark [simp]:
  "skip_ws (CHR '','' # s) = CHR '','' # s" "skip_ws (CHR '']'' # s) = CHR '']'' # s"
  "skip_ws (CHR ''}'' # s) = CHR ''}'' # s" "skip_ws (CHR '':'' # s) = CHR '':'' # s"
  "skip_ws (CHR 0x22 # s) = CHR 0x22 # s" "skip_ws (CHR 0x20 # s) = skip_ws s"
  by (simp_all add: skip_ws_def)

lemma parse_value_skip: "skip_ws s = skip_ws t \<Longrightarrow> parse_value f s = parse_value f t"
  by (cases f) simp_all

lemma pretty_hd_ex:
  "json_plain j \<Longrightarrow>
   \<exists>c t. json_pretty n j = c # t \<and> c \<notin> {CHR 0x20, CHR 0x09, CHR 0x0A, CHR 0x0D, CHR '']''}"
  by (cases j) (auto simp: quote_def)

lemma pretty_hd:
  assumes "json_plain j"
  obtains c t where "json_pretty n j = c # t"
    and "c \<notin> {CHR 0x20, CHR 0x09, CHR 0x0A, CHR 0x0D, CHR '']''}"
  using pretty_hd_ex [OF assms, of n] by blast

lemma skip_ws_pretty: "json_plain j \<Longrightarrow> skip_ws (json_pretty n j @ r) = json_pretty n j @ r"
  by (rule pretty_hd [of j n]) (auto simp: skip_ws_def)

section \<open>Indented texts are parsed back\<close>

definition reads_pretty :: "json \<Rightarrow> bool" where
  "reads_pretty j \<longleftrightarrow> (\<exists>k. \<forall>f \<ge> k. \<forall>n r. parse_value f (json_pretty n j @ r) = Some (j, r))"

lemma reads_prettyI:
  assumes "\<And>f n r. k \<le> f \<Longrightarrow> parse_value (Suc f) (json_pretty n j @ r) = Some (j, r)"
  shows "reads_pretty j"
  unfolding reads_pretty_def
proof (intro exI [of _ "Suc k"] allI impI)
  fix f n r assume "Suc k \<le> f"
  then show "parse_value f (json_pretty n j @ r) = Some (j, r)"
    using assms [of "f - 1" n r] by (cases f) auto
qed

lemma reads_prettyE:
  assumes "reads_pretty j"
  obtains k where "\<And>f n r. k \<le> f \<Longrightarrow> parse_value f (json_pretty n j @ r) = Some (j, r)"
  using assms unfolding reads_pretty_def by blast

lemma reads_pretty_elems:
  assumes "\<forall>x \<in> set xs. reads_pretty x" and "xs \<noteq> []"
  shows "\<exists>k. \<forall>f \<ge> k. \<forall>n m r.
    parse_elems f (pretty_elems n xs @ line_break m @ CHR '']'' # r) = Some (xs, r)"
  using assms
proof (induction xs)
  case (Cons x xs)
  then have "reads_pretty x" by simp
  then obtain k where k: "\<And>f n r. k \<le> f \<Longrightarrow> parse_value f (json_pretty n x @ r) = Some (x, r)"
    by (rule reads_prettyE) blast
  have first: "parse_value f (line_break n @ json_pretty n x @ r) = Some (x, r)" if "k \<le> f" for f n r
    using parse_value_skip [of "line_break n @ json_pretty n x @ r"] k [OF that] by simp
  show ?case
  proof (cases "xs = []")
    case True
    have "parse_elems f (pretty_elems n [x] @ line_break m @ CHR '']'' # r) = Some ([x], r)"
      if f: "Suc k \<le> f" for f n m r
      using f first [of "f - 1" n "line_break m @ CHR '']'' # r"] by (cases f) auto
    then show ?thesis using True by blast
  next
    case False
    with Cons have "\<exists>k. \<forall>f \<ge> k. \<forall>n m r.
        parse_elems f (pretty_elems n xs @ line_break m @ CHR '']'' # r) = Some (xs, r)"
      by simp
    then obtain k' where k': "\<And>f n m r. k' \<le> f \<Longrightarrow>
        parse_elems f (pretty_elems n xs @ line_break m @ CHR '']'' # r) = Some (xs, r)"
      by blast
    have "parse_elems f (pretty_elems n (x # xs) @ line_break m @ CHR '']'' # r) = Some (x # xs, r)"
      if f: "Suc (max k k') \<le> f" for f n m r
      using f first [of "f - 1" n "CHR '','' # pretty_elems n xs @ line_break m @ CHR '']'' # r"]
        k' [of "f - 1" n m r] False
      by (cases f) auto
    then show ?thesis by blast
  qed
qed simp

lemma reads_pretty_members:
  assumes "\<forall>kv \<in> set kvs. reads_pretty (snd kv)" and "kvs \<noteq> []"
  shows "\<exists>k. \<forall>f \<ge> k. \<forall>n m r.
    parse_members f (pretty_members n kvs @ line_break m @ CHR ''}'' # r) = Some (kvs, r)"
  using assms
proof (induction kvs)
  case (Cons kv kvs)
  obtain key x where kv: "kv = (key, x)" by fastforce
  with Cons.prems have "reads_pretty x" by simp
  then obtain k where k: "\<And>f n r. k \<le> f \<Longrightarrow> parse_value f (json_pretty n x @ r) = Some (x, r)"
    by (rule reads_prettyE) blast
  have first: "parse_value f (CHR 0x20 # json_pretty n x @ r) = Some (x, r)" if "k \<le> f" for f n r
    using parse_value_skip [of "CHR 0x20 # json_pretty n x @ r"] k [OF that] by simp
  have member: "parse_members (Suc f) (line_break n @ quote key @ '': '' @ json_pretty n x @ r) =
      (case skip_ws r of [] \<Rightarrow> None
       | y # w \<Rightarrow> if y = CHR ''}'' then Some ([(key, x)], w)
           else if y = CHR '','' then map_option (\<lambda>(kvs, z). ((key, x) # kvs, z)) (parse_members f w)
           else None)" if "k \<le> f" for f n r
    using first [OF that, of n r] parse_chars_quote [of key "'': '' @ json_pretty n x @ r"]
    by (simp add: quote_def)
  show ?case
  proof (cases "kvs = []")
    case True
    have "parse_members f (pretty_members n [kv] @ line_break m @ CHR ''}'' # r) = Some ([kv], r)"
      if f: "Suc k \<le> f" for f n m r
      using f member [of "f - 1" n "line_break m @ CHR ''}'' # r"] by (cases f) (auto simp: kv)
    then show ?thesis using True by blast
  next
    case False
    with Cons have "\<exists>k. \<forall>f \<ge> k. \<forall>n m r.
        parse_members f (pretty_members n kvs @ line_break m @ CHR ''}'' # r) = Some (kvs, r)"
      by simp
    then obtain k' where k': "\<And>f n m r. k' \<le> f \<Longrightarrow>
        parse_members f (pretty_members n kvs @ line_break m @ CHR ''}'' # r) = Some (kvs, r)"
      by blast
    have "parse_members f (pretty_members n (kv # kvs) @ line_break m @ CHR ''}'' # r)
        = Some (kv # kvs, r)" if f: "Suc (max k k') \<le> f" for f n m r
      using f member [of "f - 1" n "CHR '','' # pretty_members n kvs @ line_break m @ CHR ''}'' # r"]
        k' [of "f - 1" n m r] False
      by (cases f) (auto simp: kv)
    then show ?thesis by blast
  qed
qed simp

lemma reads_pretty_JArr:
  assumes "\<forall>x \<in> set xs. reads_pretty x \<and> json_plain x"
  shows "reads_pretty (JArr xs)"
proof (cases "xs = []")
  case True
  then show ?thesis by (intro reads_prettyI) (simp add: skip_ws_def)
next
  case False
  then obtain k where k: "\<And>f n m r. k \<le> f \<Longrightarrow>
      parse_elems f (pretty_elems n xs @ line_break m @ CHR '']'' # r) = Some (xs, r)"
    using reads_pretty_elems [of xs] assms by blast
  obtain x ys where xs: "xs = x # ys" using False by (cases xs) auto
  then have x: "json_plain x" using assms by simp
  have nonempty: "\<exists>c t. skip_ws (pretty_elems (Suc n) xs @ r) = c # t \<and> c \<noteq> CHR '']''" for n r
    using skip_ws_pretty [OF x, of "Suc n"] pretty_hd_ex [OF x, of "Suc n"] by (auto simp: xs)
  show ?thesis
  proof (rule reads_prettyI)
    fix f n r assume f: "k \<le> f"
    show "parse_value (Suc f) (json_pretty n (JArr xs) @ r) = Some (JArr xs, r)"
      using k [OF f, of "Suc n" n r] nonempty [of n "line_break n @ CHR '']'' # r"] False
      by (auto simp: skip_ws_def [of "CHR ''['' # s" for s])
  qed
qed

lemma reads_pretty_JObj:
  assumes "\<forall>kv \<in> set kvs. reads_pretty (snd kv)" and "distinct (map fst kvs)"
  shows "reads_pretty (JObj kvs)"
proof (cases "kvs = []")
  case True
  then show ?thesis by (intro reads_prettyI) (simp add: skip_ws_def)
next
  case False
  then obtain k where k: "\<And>f n m r. k \<le> f \<Longrightarrow>
      parse_members f (pretty_members n kvs @ line_break m @ CHR ''}'' # r) = Some (kvs, r)"
    using reads_pretty_members [of kvs] assms(1) by blast
  have nonempty: "\<exists>t. skip_ws (pretty_members (Suc n) kvs @ r) = CHR 0x22 # t" for n r
    using False by (cases kvs) (auto simp: quote_def)
  show ?thesis
  proof (rule reads_prettyI)
    fix f n r assume f: "k \<le> f"
    show "parse_value (Suc f) (json_pretty n (JObj kvs) @ r) = Some (JObj kvs, r)"
      using k [OF f, of "Suc n" n r] nonempty [of n "line_break n @ CHR ''}'' # r"] False
        obj_of_distinct [OF assms(2)]
      by (auto simp: skip_ws_def [of "CHR ''{'' # s" for s])
  qed
qed

lemma reads_pretty_plain: "json_plain j \<Longrightarrow> reads_pretty j"
proof (induction j)
  case (JStr s)
  then show ?case
    using parse_chars_quote [of s] by (intro reads_prettyI) (simp add: quote_def parse_scalar_def)
next
  case (JBool b)
  then show ?case by (intro reads_prettyI) (simp add: skip_ws_def parse_scalar_def)
next
  case JNull
  then show ?case by (intro reads_prettyI) (simp add: skip_ws_def parse_scalar_def)
next
  case (JArr xs)
  then show ?case by (intro reads_pretty_JArr) simp
next
  case (JObj kvs)
  then show ?case by (intro reads_pretty_JObj) (auto simp: snds.simps)
qed simp

lemma json_parse_pretty:
  assumes "json_plain j"
  shows "json_parse (json_pretty n j) = Some j"
proof -
  let ?s = "json_pretty n j"
  obtain k where k: "\<And>f n r. k \<le> f \<Longrightarrow> parse_value f (json_pretty n j @ r) = Some (j, r)"
    by (rule reads_prettyE [OF reads_pretty_plain [OF assms]]) blast
  let ?g = "max k (2 * length ?s + 1)"
  have "parse_value (2 * length ?s + 1) ?s = Some (j, [])"
    using k [of ?g n "[]"] parse_value_fuel [of ?s ?g] by simp
  then show ?thesis by (simp add: json_parse_def skip_ws_def)
qed

end
