(* ===== verification/Advanced_Custom.thy ===== *)
theory Advanced_Custom
  imports Json_Pretty Url
begin

text \<open>
  The routes of a custom channel (\<open>features/channels/lib/advanced-custom.ts\<close>): which path of the
  gateway is forwarded to which upstream, with which credentials and for which models. The
  administrator edits them as a form or as JSON; the same functions read, print, normalise and
  check them. The type of the credentials is a string, because the text of the administrator
  decides it and the check exists to refuse an unknown one.
\<close>

section \<open>Data\<close>

datatype AdvancedCustomConverter =
    converter_none
  | anthropic_messages_to_openai_chat_completions
  | openai_chat_completions_to_anthropic_messages
  | openai_chat_completions_to_openai_responses
  | openai_responses_to_openai_chat_completions
  | openai_responses_to_gemini_generate_content
  | gemini_generate_content_to_openai_chat_completions
  | openai_chat_completions_to_gemini_generate_content

record AdvancedCustomRouteAuth =
  aca_type :: "string option"
  aca_name :: "string option"
  aca_value :: "string option"

record AdvancedCustomRoute =
  acr_incoming_path :: "string option"
  acr_upstream_path :: "string option"
  acr_converter :: "AdvancedCustomConverter option"
  acr_models :: "string list option"
  acr_auth :: "AdvancedCustomRouteAuth option"

record AdvancedCustomConfig =
  advanced_routes :: "AdvancedCustomRoute list option"

record AdvancedCustomValidationError =
  acv_message :: string
  acv_routeIndex :: "nat option"

definition ADVANCED_CUSTOM_MODEL_LIST_PATH :: string where
  "ADVANCED_CUSTOM_MODEL_LIST_PATH = ''/v1/models''"

definition ADVANCED_CUSTOM_BALANCE_PATH :: string where
  "ADVANCED_CUSTOM_BALANCE_PATH = ''/v1/dashboard/billing/credit_grants''"

definition openAIChatPath :: string where
  "openAIChatPath = ''/v1/chat/completions''"

definition openAIResponsesPath :: string where
  "openAIResponsesPath = ''/v1/responses''"

definition claudeMessagesPath :: string where
  "claudeMessagesPath = ''/v1/messages''"

definition geminiGenerateContentPath :: string where
  "geminiGenerateContentPath = ''/v1beta/models/{model}:generateContent''"

definition ADVANCED_CUSTOM_MODEL_REGEX_PREFIX :: string where
  "ADVANCED_CUSTOM_MODEL_REGEX_PREFIX = ''re:''"

text \<open>The converters with the label of the option and of the trigger.\<close>

definition ADVANCED_CUSTOM_CONVERTER_OPTIONS :: "(AdvancedCustomConverter \<times> string \<times> string) list" where
  "ADVANCED_CUSTOM_CONVERTER_OPTIONS =
     [(converter_none, ''Native forwarding'', ''Native forwarding''),
      (anthropic_messages_to_openai_chat_completions,
         ''Anthropic Messages to OpenAI Chat'', ''To OpenAI Chat''),
      (openai_chat_completions_to_anthropic_messages,
         ''OpenAI Chat to Anthropic Messages'', ''To Anthropic Messages''),
      (openai_chat_completions_to_openai_responses,
         ''OpenAI Chat to OpenAI Responses'', ''To OpenAI Responses''),
      (openai_responses_to_openai_chat_completions,
         ''OpenAI Responses to OpenAI Chat'', ''To OpenAI Chat''),
      (openai_responses_to_gemini_generate_content,
         ''OpenAI Responses to Gemini Generate Content'', ''To Gemini Generate Content''),
      (gemini_generate_content_to_openai_chat_completions,
         ''Gemini Generate Content to OpenAI Chat'', ''To OpenAI Chat''),
      (openai_chat_completions_to_gemini_generate_content,
         ''OpenAI Chat to Gemini Generate Content'', ''To Gemini Generate Content'')]"

text \<open>The paths offered to the administrator, with their labels.\<close>

definition ADVANCED_CUSTOM_INCOMING_PATH_OPTIONS :: "(string \<times> string) list" where
  "ADVANCED_CUSTOM_INCOMING_PATH_OPTIONS =
     [(''/v1/chat/completions'', ''OpenAI Chat''),
      (''/v1/responses'', ''OpenAI Responses''),
      (''/v1/responses/compact'', ''OpenAI Responses Compact''),
      (''/v1/alpha/search'', ''Codex Alpha Search''),
      (''/v1/embeddings'', ''OpenAI Embeddings''),
      (''/v1/images/generations'', ''OpenAI Image Generations''),
      (''/v1/images/edits'', ''OpenAI Image Edits''),
      (''/v1/completions'', ''OpenAI Completions''),
      (''/v1/audio/speech'', ''OpenAI Audio Speech''),
      (''/v1/audio/transcriptions'', ''OpenAI Audio Transcriptions''),
      (''/v1/audio/translations'', ''OpenAI Audio Translations''),
      (''/v1/rerank'', ''Rerank''),
      (''/v1/realtime'', ''OpenAI Realtime''),
      (''/v1/messages'', ''Claude Messages''),
      (''/v1beta/models/{model}:generateContent'', ''Gemini Generate Content''),
      (''/v1beta/models/{model}:embedContent'', ''Gemini Embed Content''),
      (''/v1beta/models/{model}:batchEmbedContents'', ''Gemini Batch Embed Contents'')]"

definition ADVANCED_CUSTOM_ROUTE_SUMMARY_LABELS :: "(string \<times> string) list" where
  "ADVANCED_CUSTOM_ROUTE_SUMMARY_LABELS =
     [(''/v1/chat/completions'', ''OpenAI Chat''),
      (ADVANCED_CUSTOM_MODEL_LIST_PATH, ''OpenAI Models''),
      (ADVANCED_CUSTOM_BALANCE_PATH, ''Balance Query'')]"

section \<open>Templates\<close>

definition bearerHeaderAuth :: AdvancedCustomRouteAuth where
  "bearerHeaderAuth = \<lparr>aca_type = Some ''header'', aca_name = Some ''Authorization'',
     aca_value = Some ''Bearer {api_key}''\<rparr>"

definition apiKeyHeaderAuth :: AdvancedCustomRouteAuth where
  "apiKeyHeaderAuth = \<lparr>aca_type = Some ''header'', aca_name = Some ''x-api-key'',
     aca_value = Some ''{api_key}''\<rparr>"

definition geminiQueryAuth :: AdvancedCustomRouteAuth where
  "geminiQueryAuth = \<lparr>aca_type = Some ''query'', aca_name = Some ''key'',
     aca_value = Some ''{api_key}''\<rparr>"

definition native_route :: "AdvancedCustomRouteAuth \<Rightarrow> string \<Rightarrow> AdvancedCustomRoute" where
  "native_route auth path = \<lparr>acr_incoming_path = Some path, acr_upstream_path = Some path,
     acr_converter = Some converter_none, acr_models = None, acr_auth = Some auth\<rparr>"

definition createOpenAINativeRoutes :: "AdvancedCustomRoute list" where
  "createOpenAINativeRoutes = map (native_route bearerHeaderAuth)
     [''/v1/chat/completions'', ''/v1/completions'', ''/v1/responses'', ''/v1/responses/compact'',
      ''/v1/embeddings'', ''/v1/images/generations'', ''/v1/images/edits'', ''/v1/audio/speech'',
      ''/v1/audio/transcriptions'', ''/v1/audio/translations'', ''/v1/realtime'']"

definition createClaudeNativeRoutes :: "AdvancedCustomRoute list" where
  "createClaudeNativeRoutes = [native_route apiKeyHeaderAuth ''/v1/messages'']"

definition createGeminiNativeRoutes :: "AdvancedCustomRoute list" where
  "createGeminiNativeRoutes = map (native_route geminiQueryAuth)
     [''/v1beta/models/{model}:generateContent'', ''/v1beta/models/{model}:embedContent'',
      ''/v1beta/models/{model}:batchEmbedContents'']"

definition createGatewayNativeRoutes :: "AdvancedCustomRoute list" where
  "createGatewayNativeRoutes = map (native_route bearerHeaderAuth) [''/v1/alpha/search'', ''/v1/rerank'']"

definition config_of :: "AdvancedCustomRoute list \<Rightarrow> AdvancedCustomConfig" where
  "config_of routes = \<lparr>advanced_routes = Some routes\<rparr>"

definition ADVANCED_CUSTOM_TEMPLATE_OPTIONS :: "(string \<times> string \<times> AdvancedCustomConfig) list" where
  "ADVANCED_CUSTOM_TEMPLATE_OPTIONS =
     [(''all_protocols'', ''All routes'', config_of (createOpenAINativeRoutes @ createClaudeNativeRoutes @
         createGeminiNativeRoutes @ createGatewayNativeRoutes)),
      (''openai_only'', ''OpenAI only'', config_of createOpenAINativeRoutes),
      (''claude_only'', ''Claude only'', config_of createClaudeNativeRoutes),
      (''gemini_only'', ''Gemini only'', config_of createGeminiNativeRoutes)]"

definition getAdvancedCustomTemplateConfig :: "string \<Rightarrow> AdvancedCustomConfig" where
  "getAdvancedCustomTemplateConfig templateKey =
     (case map_of ADVANCED_CUSTOM_TEMPLATE_OPTIONS templateKey of
        Some (_, config) \<Rightarrow> config
      | None \<Rightarrow> snd (snd (hd ADVANCED_CUSTOM_TEMPLATE_OPTIONS)))"

section \<open>Normalisation\<close>

definition getAdvancedCustomRouteUpstreamPath :: "AdvancedCustomRoute \<Rightarrow> string" where
  "getAdvancedCustomRouteUpstreamPath route = js_trim (opt_str (acr_upstream_path route))"

definition normalizeAdvancedCustomRouteModels :: "string list option \<Rightarrow> string list" where
  "normalizeAdvancedCustomRouteModels models =
     (case models of None \<Rightarrow> [] | Some ms \<Rightarrow> filter (\<lambda>m. m \<noteq> []) (map js_trim ms))"

definition normalize_auth :: "AdvancedCustomRouteAuth \<Rightarrow> AdvancedCustomRouteAuth" where
  "normalize_auth auth = \<lparr>aca_type = aca_type auth, aca_name = Some (opt_str (aca_name auth)),
     aca_value = Some (opt_str (aca_value auth))\<rparr>"

definition normalizeAdvancedCustomRoute :: "AdvancedCustomRoute \<Rightarrow> AdvancedCustomRoute" where
  "normalizeAdvancedCustomRoute route =
     (let models = normalizeAdvancedCustomRouteModels (acr_models route) in
      \<lparr>acr_incoming_path = Some (opt_str (acr_incoming_path route)),
       acr_upstream_path = Some (getAdvancedCustomRouteUpstreamPath route),
       acr_converter = Some converter_none,
       acr_models = (if models \<noteq> [] then Some models else None),
       acr_auth = map_option normalize_auth (acr_auth route)\<rparr>)"

definition normalizeAdvancedCustomConfig :: "AdvancedCustomConfig \<Rightarrow> AdvancedCustomConfig" where
  "normalizeAdvancedCustomConfig config =
     (case advanced_routes config of
        Some routes \<Rightarrow> \<lparr>advanced_routes = Some (map normalizeAdvancedCustomRoute routes)\<rparr>
      | None \<Rightarrow> \<lparr>advanced_routes = Some []\<rparr>)"

text \<open>\<open>normalizeAdvancedCustomConfig(config).advanced_routes || []\<close>.\<close>

definition normalized_routes :: "AdvancedCustomConfig \<Rightarrow> AdvancedCustomRoute list" where
  "normalized_routes config = nullish (advanced_routes (normalizeAdvancedCustomConfig config)) []"

text \<open>\<open>route.incoming_path?.trim() || ''\<close>.\<close>

definition route_path :: "AdvancedCustomRoute \<Rightarrow> string" where
  "route_path route = js_trim (opt_str (acr_incoming_path route))"

section \<open>Routes of the management and of the forwarding\<close>

definition isAdvancedCustomManagementPath :: "string \<Rightarrow> bool" where
  "isAdvancedCustomManagementPath path \<longleftrightarrow>
     path = ADVANCED_CUSTOM_MODEL_LIST_PATH \<or> path = ADVANCED_CUSTOM_BALANCE_PATH"

definition getAdvancedCustomManagementRoute :: "AdvancedCustomConfig \<Rightarrow> string \<Rightarrow> AdvancedCustomRoute option" where
  "getAdvancedCustomManagementRoute config path =
     find (\<lambda>route. route_path route = path) (normalized_routes config)"

definition management_route :: "string \<Rightarrow> AdvancedCustomRoute \<Rightarrow> AdvancedCustomRoute" where
  "management_route path route =
     \<lparr>acr_incoming_path = Some path, acr_upstream_path = Some (opt_str (acr_upstream_path route)),
      acr_converter = Some converter_none, acr_models = Some [], acr_auth = acr_auth route\<rparr>"

definition replaceAdvancedCustomManagementRoute ::
  "AdvancedCustomConfig \<Rightarrow> string \<Rightarrow> AdvancedCustomRoute option \<Rightarrow> AdvancedCustomConfig" where
  "replaceAdvancedCustomManagementRoute config path route =
     (let routes = normalized_routes config;
          index = js_findIndex (\<lambda>candidate. route_path candidate = path) routes
      in config_of
        (case route of
           None \<Rightarrow> (case index of Some i \<Rightarrow> take i routes @ drop (Suc i) routes | None \<Rightarrow> routes)
         | Some r \<Rightarrow>
             (case index of
                Some i \<Rightarrow> routes[i := management_route path r]
              | None \<Rightarrow> routes @ [management_route path r])))"

definition replaceAdvancedCustomForwardingRoutes ::
  "AdvancedCustomConfig \<Rightarrow> AdvancedCustomRoute list \<Rightarrow> AdvancedCustomConfig" where
  "replaceAdvancedCustomForwardingRoutes config forwardingRoutes =
     (let routes = normalized_routes config;
          management = (\<lambda>route. isAdvancedCustomManagementPath (route_path route))
      in case js_findIndex (\<lambda>route. \<not> management route) routes of
           None \<Rightarrow> config_of (filter management routes @ forwardingRoutes)
         | Some first \<Rightarrow>
             config_of (filter management (take first routes) @ forwardingRoutes @
               filter management (drop first routes)))"

definition createAdvancedCustomRoute :: AdvancedCustomRoute where
  "createAdvancedCustomRoute =
     \<lparr>acr_incoming_path = Some openAIChatPath, acr_upstream_path = Some openAIChatPath,
      acr_converter = Some converter_none, acr_models = None, acr_auth = None\<rparr>"

definition createAdvancedCustomConfig :: AdvancedCustomConfig where
  "createAdvancedCustomConfig = config_of [createAdvancedCustomRoute]"

definition createAdvancedCustomManagementRoute :: "string \<Rightarrow> AdvancedCustomRoute" where
  "createAdvancedCustomManagementRoute path =
     \<lparr>acr_incoming_path = Some path, acr_upstream_path = Some path,
      acr_converter = Some converter_none, acr_models = Some [], acr_auth = None\<rparr>"

section \<open>Converters\<close>

definition isConverterPathAllowed :: "string \<Rightarrow> AdvancedCustomConverter \<Rightarrow> bool" where
  "isConverterPathAllowed incomingPath converter =
     (if converter = converter_none then True
      else if incomingPath = ''/v1/alpha/search'' then False
      else if converter = anthropic_messages_to_openai_chat_completions then incomingPath = ''/v1/messages''
      else if converter = openai_chat_completions_to_anthropic_messages \<or>
              converter = openai_chat_completions_to_openai_responses \<or>
              converter = openai_chat_completions_to_gemini_generate_content
        then incomingPath = ''/v1/chat/completions''
      else if converter = openai_responses_to_openai_chat_completions then incomingPath = ''/v1/responses''
      else if converter = openai_responses_to_gemini_generate_content then incomingPath = ''/v1/responses''
      else js_includes incomingPath '':generateContent'' \<or>
           js_includes incomingPath '':streamGenerateContent'')"

definition getAdvancedCustomIncomingPathOptions :: "AdvancedCustomConverter \<Rightarrow> (string \<times> string) list" where
  "getAdvancedCustomIncomingPathOptions converter =
     filter (\<lambda>(path, label). isConverterPathAllowed path converter) ADVANCED_CUSTOM_INCOMING_PATH_OPTIONS"

definition getDefaultAdvancedCustomIncomingPath :: "AdvancedCustomConverter \<Rightarrow> string" where
  "getDefaultAdvancedCustomIncomingPath converter =
     (case getAdvancedCustomIncomingPathOptions converter of
        [] \<Rightarrow> ''/v1/chat/completions''
      | (path, label) # _ \<Rightarrow> str_or path ''/v1/chat/completions'')"

definition getAdvancedCustomConverterOptions ::
  "string \<Rightarrow> (AdvancedCustomConverter \<times> string \<times> string) list" where
  "getAdvancedCustomConverterOptions incomingPath =
     filter (\<lambda>(converter, _). converter = converter_none \<or>
       isConverterPathAllowed (js_trim incomingPath) converter) ADVANCED_CUSTOM_CONVERTER_OPTIONS"

definition getAdvancedCustomNativeAuth :: "string \<Rightarrow> AdvancedCustomRouteAuth" where
  "getAdvancedCustomNativeAuth incomingPath =
     (if incomingPath = claudeMessagesPath then apiKeyHeaderAuth
      else if js_includes incomingPath '':generateContent'' \<or>
              js_includes incomingPath '':streamGenerateContent'' \<or>
              js_includes incomingPath '':embedContent'' \<or>
              js_includes incomingPath '':batchEmbedContents''
        then geminiQueryAuth
      else bearerHeaderAuth)"

text \<open>The upstream path and the credentials that belong to a converter. The type of converters is
  closed, so the last return of the source is not reached.\<close>

definition getAdvancedCustomConverterDefaults ::
  "AdvancedCustomConverter \<Rightarrow> string \<Rightarrow> string \<times> AdvancedCustomRouteAuth" where
  "getAdvancedCustomConverterDefaults converter incomingPath =
     (let path = str_or (js_trim incomingPath) (getDefaultAdvancedCustomIncomingPath converter) in
      if converter = converter_none then (path, getAdvancedCustomNativeAuth path)
      else if converter = anthropic_messages_to_openai_chat_completions \<or>
              converter = gemini_generate_content_to_openai_chat_completions \<or>
              converter = openai_responses_to_openai_chat_completions
        then (openAIChatPath, bearerHeaderAuth)
      else if converter = openai_chat_completions_to_openai_responses
        then (openAIResponsesPath, bearerHeaderAuth)
      else if converter = openai_chat_completions_to_anthropic_messages
        then (claudeMessagesPath, apiKeyHeaderAuth)
      else if converter = openai_chat_completions_to_gemini_generate_content \<or>
              converter = openai_responses_to_gemini_generate_content
        then (geminiGenerateContentPath, geminiQueryAuth)
      else (str_or path openAIChatPath, getAdvancedCustomNativeAuth path))"

definition getAdvancedCustomUpstreamPathPlaceholder :: "AdvancedCustomConverter \<Rightarrow> string option \<Rightarrow> string" where
  "getAdvancedCustomUpstreamPathPlaceholder converter incomingPath =
     fst (getAdvancedCustomConverterDefaults converter
       (nullish incomingPath (getDefaultAdvancedCustomIncomingPath converter)))"

definition getAdvancedCustomIncomingPathLabel :: "string \<Rightarrow> string" where
  "getAdvancedCustomIncomingPathLabel path =
     str_or (opt_str (map_of ADVANCED_CUSTOM_INCOMING_PATH_OPTIONS path)) path"

definition getAdvancedCustomAuthMode :: "AdvancedCustomRoute \<Rightarrow> string" where
  "getAdvancedCustomAuthMode route =
     str_or (opt_str (Option.bind (acr_auth route) aca_type)) ''default''"

definition buildAdvancedCustomAuth ::
  "string \<Rightarrow> AdvancedCustomRouteAuth option \<Rightarrow> AdvancedCustomRouteAuth option" where
  "buildAdvancedCustomAuth mode previousAuth =
     (let name = opt_str (Option.bind previousAuth aca_name); val = opt_str (Option.bind previousAuth aca_value) in
      if mode = ''default'' then None
      else if mode = ''none'' then Some \<lparr>aca_type = Some ''none'', aca_name = None, aca_value = None\<rparr>
      else if mode = ''header'' then
        Some \<lparr>aca_type = Some ''header'', aca_name = Some (str_or name ''Authorization''),
          aca_value = Some (str_or val ''Bearer {api_key}'')\<rparr>
      else Some \<lparr>aca_type = Some ''query'', aca_name = Some (str_or name ''api_key''),
          aca_value = Some (str_or val ''{api_key}'')\<rparr>)"

section \<open>JSON\<close>

definition auth_members :: "AdvancedCustomRouteAuth \<Rightarrow> (string \<times> json) list" where
  "auth_members auth =
     (case aca_type auth of None \<Rightarrow> [] | Some s \<Rightarrow> [(''type'', JStr s)]) @
     (case aca_name auth of None \<Rightarrow> [] | Some s \<Rightarrow> [(''name'', JStr s)]) @
     (case aca_value auth of None \<Rightarrow> [] | Some s \<Rightarrow> [(''value'', JStr s)])"

definition converter_name :: "AdvancedCustomConverter \<Rightarrow> string" where
  "converter_name converter = (case converter of
      converter_none \<Rightarrow> ''none''
    | anthropic_messages_to_openai_chat_completions \<Rightarrow> ''anthropic_messages_to_openai_chat_completions''
    | openai_chat_completions_to_anthropic_messages \<Rightarrow> ''openai_chat_completions_to_anthropic_messages''
    | openai_chat_completions_to_openai_responses \<Rightarrow> ''openai_chat_completions_to_openai_responses''
    | openai_responses_to_openai_chat_completions \<Rightarrow> ''openai_responses_to_openai_chat_completions''
    | openai_responses_to_gemini_generate_content \<Rightarrow> ''openai_responses_to_gemini_generate_content''
    | gemini_generate_content_to_openai_chat_completions \<Rightarrow> ''gemini_generate_content_to_openai_chat_completions''
    | openai_chat_completions_to_gemini_generate_content \<Rightarrow> ''openai_chat_completions_to_gemini_generate_content'')"

text \<open>The properties of a route as \<open>JSON.stringify\<close> visits them; undefined ones are left out.\<close>

definition route_members :: "AdvancedCustomRoute \<Rightarrow> (string \<times> json) list" where
  "route_members route =
     (case acr_incoming_path route of None \<Rightarrow> [] | Some s \<Rightarrow> [(''incoming_path'', JStr s)]) @
     (case acr_upstream_path route of None \<Rightarrow> [] | Some s \<Rightarrow> [(''upstream_path'', JStr s)]) @
     (case acr_converter route of None \<Rightarrow> [] | Some c \<Rightarrow> [(''converter'', JStr (converter_name c))]) @
     (case acr_models route of None \<Rightarrow> [] | Some ms \<Rightarrow> [(''models'', JArr (map JStr ms))]) @
     (case acr_auth route of None \<Rightarrow> [] | Some a \<Rightarrow> [(''auth'', JObj (auth_members a))])"

definition advanced_config_json :: "AdvancedCustomConfig \<Rightarrow> json" where
  "advanced_config_json config = JObj (case advanced_routes config of
      None \<Rightarrow> []
    | Some routes \<Rightarrow> [(''advanced_routes'', JArr (map (\<lambda>r. JObj (route_members r)) routes))])"

definition stringifyAdvancedCustomConfig :: "AdvancedCustomConfig \<Rightarrow> string" where
  "stringifyAdvancedCustomConfig config = json_pretty 0 (advanced_config_json (normalizeAdvancedCustomConfig config))"

text \<open>
  The values of a parsed text as the normalisation reads them: a falsy text counts as none,
  \<open>models\<close> and \<open>advanced_routes\<close> count only if they are arrays, and \<open>converter\<close> is not read.
  \<open>TypeError\<close> is the exception of a read on null and of \<open>trim\<close> on what is no string;
  a value of another type that would be kept as it is makes the result \<open>IllTyped\<close>.
\<close>

definition read_text :: "js_error \<Rightarrow> json option \<Rightarrow> js_error + string option" where
  "read_text e x =
     (if \<not> truthy x then Inr None else case x of Some (JStr s) \<Rightarrow> Inr (Some s) | _ \<Rightarrow> Inl e)"

fun read_list :: "(json \<Rightarrow> js_error + 'a) \<Rightarrow> json list \<Rightarrow> js_error + 'a list" where
  "read_list f [] = Inr []"
| "read_list f (x # xs) =
     (case f x of
        Inl e \<Rightarrow> Inl e
      | Inr y \<Rightarrow> (case read_list f xs of Inl e \<Rightarrow> Inl e | Inr ys \<Rightarrow> Inr (y # ys)))"

definition read_models :: "json option \<Rightarrow> js_error + string list option" where
  "read_models x =
     (case x of
        Some (JArr xs) \<Rightarrow>
          map_sum id Some (read_list (\<lambda>j. case j of JStr s \<Rightarrow> Inr s | _ \<Rightarrow> Inl TypeError) xs)
      | _ \<Rightarrow> Inr None)"

definition read_auth :: "json option \<Rightarrow> js_error + AdvancedCustomRouteAuth option" where
  "read_auth x =
     (if \<not> truthy x then Inr None
      else case (jchain x ''type'', read_text IllTyped (jchain x ''name''), read_text IllTyped (jchain x ''value'')) of
        (None, Inr name, Inr val) \<Rightarrow> Inr (Some \<lparr>aca_type = None, aca_name = name, aca_value = val\<rparr>)
      | (Some (JStr s), Inr name, Inr val) \<Rightarrow>
          Inr (Some \<lparr>aca_type = Some s, aca_name = name, aca_value = val\<rparr>)
      | _ \<Rightarrow> Inl IllTyped)"

definition read_route :: "json \<Rightarrow> js_error + AdvancedCustomRoute" where
  "read_route j =
     (if j = JNull then Inl TypeError
      else case read_text IllTyped (jget j ''incoming_path'') of
        Inl e \<Rightarrow> Inl e
      | Inr incoming \<Rightarrow>
          (case read_text TypeError (jget j ''upstream_path'') of
             Inl e \<Rightarrow> Inl e
           | Inr upstream \<Rightarrow>
               (case read_models (jget j ''models'') of
                  Inl e \<Rightarrow> Inl e
                | Inr models \<Rightarrow>
                    (case read_auth (jget j ''auth'') of
                       Inl e \<Rightarrow> Inl e
                     | Inr auth \<Rightarrow>
                         Inr \<lparr>acr_incoming_path = incoming, acr_upstream_path = upstream,
                           acr_converter = None, acr_models = models, acr_auth = auth\<rparr>))))"

definition read_config :: "json \<Rightarrow> js_error + AdvancedCustomConfig" where
  "read_config j =
     (case jget j ''advanced_routes'' of
        Some (JArr xs) \<Rightarrow> map_sum id (\<lambda>routes. \<lparr>advanced_routes = Some routes\<rparr>) (read_list read_route xs)
      | _ \<Rightarrow> Inr \<lparr>advanced_routes = None\<rparr>)"

definition parseAdvancedCustomConfig :: "string option \<Rightarrow> js_error + AdvancedCustomConfig option" where
  "parseAdvancedCustomConfig text =
     (if js_trim (opt_str text) = [] then Inr None
      else case json_parse (opt_str text) of
        None \<Rightarrow> Inr None
      | Some parsed \<Rightarrow>
          (case parsed of
             JObj _ \<Rightarrow>
               (case read_config parsed of
                  Inl e \<Rightarrow> if e = IllTyped then Inl IllTyped else Inr None
                | Inr config \<Rightarrow> Inr (Some (normalizeAdvancedCustomConfig config)))
           | _ \<Rightarrow> Inr None))"

text \<open>The models of the form: a comma-separated text, without repetitions.\<close>

definition parseAdvancedCustomRouteModels :: "string \<Rightarrow> string list" where
  "parseAdvancedCustomRouteModels text =
     rev (foldl (\<lambda>acc m. if m \<in> set acc then acc else m # acc) [] (js_segments CHR '','' text))"

section \<open>Validation\<close>

datatype AdvancedCustomModelRuleKind = rule_exact | rule_regex

definition getAdvancedCustomModelRuleKind :: "string \<Rightarrow> AdvancedCustomModelRuleKind" where
  "getAdvancedCustomModelRuleKind modelRule =
     (if prefix ADVANCED_CUSTOM_MODEL_REGEX_PREFIX modelRule then rule_regex else rule_exact)"

definition getAdvancedCustomRegexModelPattern :: "string \<Rightarrow> string" where
  "getAdvancedCustomRegexModelPattern modelRule = drop (length ADVANCED_CUSTOM_MODEL_REGEX_PREFIX) modelRule"

record PathModels =
  pm_catchAllIndex :: "nat option"
  pm_models :: "(string \<times> nat) list"

type_synonym models_by_path = "(string \<times> PathModels) list"

definition route_error :: "nat \<Rightarrow> string \<Rightarrow> AdvancedCustomValidationError" where
  "route_error index message = \<lparr>acv_message = message, acv_routeIndex = Some index\<rparr>"

fun add_models :: "nat \<Rightarrow> string list \<Rightarrow> string set \<Rightarrow> (string \<times> nat) list \<Rightarrow>
    AdvancedCustomValidationError + (string \<times> nat) list" where
  "add_models routeIndex [] seenInRoute models = Inr models"
| "add_models routeIndex (model # rest) seenInRoute models =
     (if getAdvancedCustomModelRuleKind model = rule_regex \<and> getAdvancedCustomRegexModelPattern model = []
      then Inl (route_error routeIndex ''Model regex cannot be empty'')
      else if model \<in> seenInRoute
      then Inl (route_error routeIndex ''Duplicate model in route models'')
      else if map_of models model \<noteq> None
      then Inl (route_error routeIndex ''Route models must be unique for the same incoming path'')
      else add_models routeIndex rest (insert model seenInRoute) (AList.update model routeIndex models))"

definition validateAdvancedCustomRouteModels ::
  "nat \<Rightarrow> string \<Rightarrow> string list \<Rightarrow> models_by_path \<Rightarrow> AdvancedCustomValidationError + models_by_path" where
  "validateAdvancedCustomRouteModels routeIndex incomingPath models routeModelsByPath =
     (let state = nullish (map_of routeModelsByPath incomingPath) \<lparr>pm_catchAllIndex = None, pm_models = []\<rparr> in
      if models = [] then
        (if pm_catchAllIndex state \<noteq> None
         then Inl (route_error routeIndex ''Only one catch-all route is allowed for the same incoming path'')
         else Inr (AList.update incomingPath (state\<lparr>pm_catchAllIndex := Some routeIndex\<rparr>) routeModelsByPath))
      else if pm_catchAllIndex state \<noteq> None
      then Inl (route_error routeIndex ''Catch-all route must be last for the same incoming path'')
      else (case add_models routeIndex models {} (pm_models state) of
              Inl e \<Rightarrow> Inl e
            | Inr ms \<Rightarrow> Inr (AList.update incomingPath (state\<lparr>pm_models := ms\<rparr>) routeModelsByPath)))"

definition isFullHttpURLOrAbsolutePath :: "(string \<Rightarrow> string option) \<Rightarrow> string \<Rightarrow> bool" where
  "isFullHttpURLOrAbsolutePath hp text =
     (if prefix ''/'' text then \<not> prefix ''//'' text
      else (case new_URL hp text None of
              Http parsed \<Rightarrow>
                (url_host parsed \<noteq> [] \<or> url_port parsed \<noteq> None) \<and>
                (url_protocol parsed = ''http:'' \<or> url_protocol parsed = ''https:'')
            | _ \<Rightarrow> False))"

definition validateRouteAuth :: "AdvancedCustomRouteAuth option \<Rightarrow> string option" where
  "validateRouteAuth auth = (case auth of
      None \<Rightarrow> None
    | Some a \<Rightarrow>
        if aca_type a = Some ''none'' then None
        else if aca_type a \<noteq> Some ''header'' \<and> aca_type a \<noteq> Some ''query'' then Some ''Auth type is invalid''
        else if js_trim (opt_str (aca_name a)) = [] then Some ''Auth name is required''
        else if js_trim (opt_str (aca_value a)) = [] then Some ''Auth value is required''
        else None)"

record ValidationState =
  vs_routeModelsByPath :: models_by_path
  vs_modelListRouteIndex :: "nat option"
  vs_balanceRouteIndex :: "nat option"

definition validate_management ::
  "nat \<Rightarrow> string \<Rightarrow> string list \<Rightarrow> string \<Rightarrow> ValidationState \<Rightarrow> AdvancedCustomValidationError + ValidationState" where
  "validate_management index incomingPath routeModels upstreamPath st =
     (if \<not> isAdvancedCustomManagementPath incomingPath then Inr st
      else
        let isModelListRoute = (incomingPath = ADVANCED_CUSTOM_MODEL_LIST_PATH);
            existingIndex = (if isModelListRoute then vs_modelListRouteIndex st else vs_balanceRouteIndex st);
            routeLabel = (if isModelListRoute then ''OpenAI Models'' else ''Balance Query'')
        in
        if existingIndex \<noteq> None
        then Inl (route_error index (''Only one '' @ routeLabel @ '' route is allowed''))
        else if routeModels \<noteq> []
        then Inl (route_error index (routeLabel @ '' route does not support client model rules''))
        else if js_includes upstreamPath ''{model}''
        then Inl (route_error index (routeLabel @ '' upstream path must not contain {model}''))
        else Inr (if isModelListRoute then st\<lparr>vs_modelListRouteIndex := Some index\<rparr>
                  else st\<lparr>vs_balanceRouteIndex := Some index\<rparr>))"

definition validate_route :: "(string \<Rightarrow> string option) \<Rightarrow> nat \<Rightarrow> AdvancedCustomRoute \<Rightarrow> ValidationState \<Rightarrow>
    AdvancedCustomValidationError + ValidationState" where
  "validate_route hp index route st =
     (let incomingPath = route_path route;
          upstreamPath = getAdvancedCustomRouteUpstreamPath route;
          routeModels = normalizeAdvancedCustomRouteModels (acr_models route)
      in
      if incomingPath = [] then Inl (route_error index ''Incoming path is required'')
      else if \<not> prefix ''/'' incomingPath then Inl (route_error index ''Incoming path must start with /'')
      else if js_includes incomingPath ''?'' then Inl (route_error index ''Incoming path must not include query'')
      else case validate_management index incomingPath routeModels upstreamPath st of
        Inl e \<Rightarrow> Inl e
      | Inr st1 \<Rightarrow>
          (case validateAdvancedCustomRouteModels index incomingPath routeModels (vs_routeModelsByPath st1) of
             Inl e \<Rightarrow> Inl e
           | Inr byPath \<Rightarrow>
               if upstreamPath = [] then Inl (route_error index ''Upstream path is required'')
               else if \<not> isFullHttpURLOrAbsolutePath hp upstreamPath
               then Inl (route_error index ''Upstream path must be a full URL or a path starting with /'')
               else (case validateRouteAuth (acr_auth route) of
                       Some authError \<Rightarrow> Inl (route_error index authError)
                     | None \<Rightarrow> Inr (st1\<lparr>vs_routeModelsByPath := byPath\<rparr>))))"

fun validate_routes :: "(string \<Rightarrow> string option) \<Rightarrow> nat \<Rightarrow> ValidationState \<Rightarrow> AdvancedCustomRoute list \<Rightarrow>
    AdvancedCustomValidationError option" where
  "validate_routes hp index st [] = None"
| "validate_routes hp index st (route # rest) =
     (case validate_route hp index route st of
        Inl e \<Rightarrow> Some e
      | Inr st' \<Rightarrow> validate_routes hp (Suc index) st' rest)"

definition initial_validation :: ValidationState where
  "initial_validation =
     \<lparr>vs_routeModelsByPath = [], vs_modelListRouteIndex = None, vs_balanceRouteIndex = None\<rparr>"

definition validateAdvancedCustomConfig ::
  "(string \<Rightarrow> string option) \<Rightarrow> AdvancedCustomConfig option \<Rightarrow> AdvancedCustomValidationError option" where
  "validateAdvancedCustomConfig hp config =
     (case config of
        None \<Rightarrow> Some \<lparr>acv_message = ''Advanced custom configuration is required'', acv_routeIndex = None\<rparr>
      | Some c \<Rightarrow>
          if normalized_routes c = []
          then Some \<lparr>acv_message = ''Advanced custom configuration requires at least one route'',
            acv_routeIndex = None\<rparr>
          else validate_routes hp 0 initial_validation (normalized_routes c))"

section \<open>Summary\<close>

definition hasValidAdvancedCustomModelListRoute ::
  "(string \<Rightarrow> string option) \<Rightarrow> AdvancedCustomConfig option \<Rightarrow> bool" where
  "hasValidAdvancedCustomModelListRoute hp config =
     (case config of
        None \<Rightarrow> False
      | Some c \<Rightarrow>
          if validateAdvancedCustomConfig hp config \<noteq> None then False
          else list_ex (\<lambda>route. route_path route = ADVANCED_CUSTOM_MODEL_LIST_PATH) (normalized_routes c))"

definition advancedCustomConfigUsesRelativeUpstreamPath :: "AdvancedCustomConfig option \<Rightarrow> bool" where
  "advancedCustomConfigUsesRelativeUpstreamPath config =
     (case config of
        None \<Rightarrow> False
      | Some c \<Rightarrow> list_ex (\<lambda>route. prefix ''/'' (getAdvancedCustomRouteUpstreamPath route)) (normalized_routes c))"

text \<open>The labels are looked up in an object, which has the inherited names as properties too.\<close>

definition getAdvancedCustomRouteSummaryLabel :: "AdvancedCustomRoute \<Rightarrow> js_error + string option" where
  "getAdvancedCustomRouteSummaryLabel route =
     (let incomingPath = route_path route in
      if incomingPath = [] then Inr None
      else case map_of ADVANCED_CUSTOM_ROUTE_SUMMARY_LABELS incomingPath of
        Some label \<Rightarrow> Inr (Some label)
      | None \<Rightarrow> if incomingPath \<in> set inherited_names then Inl IllTyped
          else Inr (Some (getAdvancedCustomIncomingPathLabel incomingPath)))"

fun route_labels :: "AdvancedCustomRoute list \<Rightarrow> string list \<Rightarrow> js_error + string list" where
  "route_labels [] routeTypeLabels = Inr routeTypeLabels"
| "route_labels (route # rest) routeTypeLabels =
     (case getAdvancedCustomRouteSummaryLabel route of
        Inl e \<Rightarrow> Inl e
      | Inr label \<Rightarrow>
          if opt_str label = [] \<or> opt_str label \<in> set routeTypeLabels then route_labels rest routeTypeLabels
          else route_labels rest (routeTypeLabels @ [opt_str label]))"

record AdvancedCustomStats =
  acs_routeCount :: nat
  acs_valid :: bool
  acs_routeTypeLabels :: "string list"

definition getAdvancedCustomStats ::
  "(string \<Rightarrow> string option) \<Rightarrow> string option \<Rightarrow> js_error + AdvancedCustomStats" where
  "getAdvancedCustomStats hp text =
     (case parseAdvancedCustomConfig text of
        Inl e \<Rightarrow> Inl e
      | Inr None \<Rightarrow> Inr \<lparr>acs_routeCount = 0, acs_valid = False, acs_routeTypeLabels = []\<rparr>
      | Inr (Some config) \<Rightarrow>
          (let normalized = normalizeAdvancedCustomConfig config; routes = nullish (advanced_routes normalized) [] in
           case route_labels routes [] of
             Inl e \<Rightarrow> Inl e
           | Inr labels \<Rightarrow>
               Inr \<lparr>acs_routeCount = length routes,
                 acs_valid = (validateAdvancedCustomConfig hp (Some normalized) = None),
                 acs_routeTypeLabels = labels\<rparr>))"

end
