(* ===== verification/Advanced_Editor.thy ===== *)
theory Advanced_Editor
  imports Advanced_Custom
begin

text \<open>
  The dialog in which an administrator edits the routes of a custom channel
  (\<open>features/channels/components/dialogs/advanced-custom-editor-dialog.tsx\<close>). Its state is a
  record of the values of \<open>useState\<close> and \<open>useRef\<close>, together with the calls of \<open>onSave\<close> and the
  toasts it has made. Every handler is an operation on the state that the last rendering saw:
  React renders the result of an event before it delivers the next one. The indices the handlers
  get are those of rendered rows; an index outside of them makes a patch \<open>IllTyped\<close>. \<open>t\<close> is the
  translation, \<open>hp\<close> the host parser of the browser.
\<close>

datatype AdvancedCustomEditorTab = TabForwarding | TabModels | TabBalance | TabJson

record AdvancedCustomRouteRow =
  arr_route :: AdvancedCustomRoute
  arr_routeKey :: string
  arr_index :: nat

record AdvancedCustomRouteGroup =
  arg_incomingPath :: string
  arg_routeRows :: "AdvancedCustomRouteRow list"

record EditorState =
  ed_routeKeyCounter :: nat
  ed_config :: AdvancedCustomConfig
  ed_routeKeys :: "string list"
  ed_activeTab :: AdvancedCustomEditorTab
  ed_jsonText :: string
  ed_jsonError :: string
  ed_templateKey :: string
  ed_templateConfirmOpen :: bool
  ed_expandedRouteGroups :: "string set"
  ed_open :: bool
  ed_saved :: "string list"
  ed_toasts :: "string list"

text \<open>The changes the fields of a row make to a route.\<close>

datatype RoutePatch =
    PatchUpstream string
  | PatchModels "string list"
  | PatchAuth "AdvancedCustomRouteAuth option"

section \<open>Rows and groups\<close>

definition catchAllOrderErrorMessage :: string where
  "catchAllOrderErrorMessage = ''Catch-all route must be last for the same incoming path''"

definition getRouteIncomingPath :: "AdvancedCustomRoute \<Rightarrow> string" where
  "getRouteIncomingPath route = js_trim (opt_str (acr_incoming_path route))"

definition isCatchAllRoute :: "AdvancedCustomRoute \<Rightarrow> bool" where
  "isCatchAllRoute route \<longleftrightarrow> acr_models route = None \<or> acr_models route = Some []"

definition row_path :: "AdvancedCustomRouteRow \<Rightarrow> string" where
  "row_path row = getRouteIncomingPath (arr_route row)"

fun add_to_group :: "AdvancedCustomRouteRow \<Rightarrow> AdvancedCustomRouteGroup list \<Rightarrow> AdvancedCustomRouteGroup list" where
  "add_to_group row [] = [\<lparr>arg_incomingPath = row_path row, arg_routeRows = [row]\<rparr>]"
| "add_to_group row (g # gs) =
     (if arg_incomingPath g = row_path row then g\<lparr>arg_routeRows := arg_routeRows g @ [row]\<rparr> # gs
      else g # add_to_group row gs)"

definition buildRouteGroups :: "AdvancedCustomRouteRow list \<Rightarrow> AdvancedCustomRouteGroup list" where
  "buildRouteGroups routeRows = foldl (\<lambda>groups row. add_to_group row groups) [] routeRows"

definition editor_routes :: "EditorState \<Rightarrow> AdvancedCustomRoute list" where
  "editor_routes st = normalized_routes (ed_config st)"

definition row_key :: "string list \<Rightarrow> nat \<Rightarrow> AdvancedCustomRoute \<Rightarrow> string" where
  "row_key keys index route =
     str_or (if index < length keys then keys ! index else [])
       (str_or (opt_str (acr_incoming_path route))
         (str_or (opt_str (acr_upstream_path route))
           (str_or (opt_str (map_option converter_name (acr_converter route))) ''advanced-custom-route'')))"

definition allRouteRows :: "EditorState \<Rightarrow> AdvancedCustomRouteRow list" where
  "allRouteRows st =
     map (\<lambda>(index, route). \<lparr>arr_route = route, arr_routeKey = row_key (ed_routeKeys st) index route,
       arr_index = index\<rparr>) (List.enumerate 0 (editor_routes st))"

definition routeRows :: "EditorState \<Rightarrow> AdvancedCustomRouteRow list" where
  "routeRows st = filter (\<lambda>row. \<not> isAdvancedCustomManagementPath (row_path row)) (allRouteRows st)"

definition routeGroups :: "EditorState \<Rightarrow> AdvancedCustomRouteGroup list" where
  "routeGroups st = buildRouteGroups (routeRows st)"

definition usedIncomingPaths :: "EditorState \<Rightarrow> string set" where
  "usedIncomingPaths st = set (map arg_incomingPath (routeGroups st))"

definition availableIncomingPathOptions :: "EditorState \<Rightarrow> (string \<times> string) list" where
  "availableIncomingPathOptions st =
     filter (\<lambda>(path, label). \<not> isAdvancedCustomManagementPath path \<and> path \<notin> usedIncomingPaths st)
       ADVANCED_CUSTOM_INCOMING_PATH_OPTIONS"

definition validationError :: "(string \<Rightarrow> string option) \<Rightarrow> EditorState \<Rightarrow> AdvancedCustomValidationError option" where
  "validationError hp st = validateAdvancedCustomConfig hp (Some (normalizeAdvancedCustomConfig (ed_config st)))"

definition canFixCatchAllOrder :: "(string \<Rightarrow> string option) \<Rightarrow> EditorState \<Rightarrow> bool" where
  "canFixCatchAllOrder hp st \<longleftrightarrow> map_option acv_message (validationError hp st) = Some catchAllOrderErrorMessage"

section \<open>Opening\<close>

definition createRouteKey :: "EditorState \<Rightarrow> string \<times> EditorState" where
  "createRouteKey st =
     (let n = Suc (ed_routeKeyCounter st) in
      (''advanced-custom-route-'' @ int_digits (int n), st\<lparr>ed_routeKeyCounter := n\<rparr>))"

fun createRouteKeys :: "nat \<Rightarrow> EditorState \<Rightarrow> string list \<times> EditorState" where
  "createRouteKeys 0 st = ([], st)"
| "createRouteKeys (Suc count) st =
     (case createRouteKey st of (key, st1) \<Rightarrow>
       (case createRouteKeys count st1 of (keys, st2) \<Rightarrow> (key # keys, st2)))"

definition set_new_keys :: "nat \<Rightarrow> EditorState \<Rightarrow> EditorState" where
  "set_new_keys count st = (case createRouteKeys count st of (keys, st1) \<Rightarrow> st1\<lparr>ed_routeKeys := keys\<rparr>)"

definition parsed_or_new :: "string \<Rightarrow> js_error + AdvancedCustomConfig" where
  \<comment> \<open>\<open>parseAdvancedCustomConfig(value) || createAdvancedCustomConfig()\<close>\<close>
  "parsed_or_new text = map_sum id (\<lambda>c. nullish c createAdvancedCustomConfig) (parseAdvancedCustomConfig (Some text))"

definition initial_editor :: "string \<Rightarrow> js_error + EditorState" where
  "initial_editor text = map_sum id (\<lambda>config.
     \<lparr>ed_routeKeyCounter = 0, ed_config = config,
      ed_routeKeys = map (\<lambda>i. ''advanced-custom-route-initial-'' @ int_digits (int i))
        [0..<length (normalized_routes config)],
      ed_activeTab = TabForwarding, ed_jsonText = stringifyAdvancedCustomConfig config, ed_jsonError = [],
      ed_templateKey = fst (hd ADVANCED_CUSTOM_TEMPLATE_OPTIONS), ed_templateConfirmOpen = False,
      ed_expandedRouteGroups = {}, ed_open = False, ed_saved = [], ed_toasts = []\<rparr>) (parsed_or_new text)"

text \<open>The effect that runs when the dialog is opened or its value changes while it is open.\<close>

definition open_editor :: "string \<Rightarrow> EditorState \<Rightarrow> js_error + EditorState" where
  "open_editor text st = map_sum id (\<lambda>parsed.
     let normalized = normalizeAdvancedCustomConfig parsed;
         routes = nullish (advanced_routes normalized) [];
         firstForwardingPath = find (\<lambda>path. \<not> isAdvancedCustomManagementPath path) (map getRouteIncomingPath routes)
     in (set_new_keys (length routes) st)
        \<lparr>ed_config := normalized, ed_jsonText := stringifyAdvancedCustomConfig normalized, ed_jsonError := [],
         ed_activeTab := TabForwarding, ed_templateConfirmOpen := False,
         ed_expandedRouteGroups := (if opt_str firstForwardingPath = [] then {} else {opt_str firstForwardingPath}),
         ed_open := True\<rparr>) (parsed_or_new text)"

section \<open>Rows\<close>

definition apply_patch :: "RoutePatch \<Rightarrow> AdvancedCustomRoute \<Rightarrow> AdvancedCustomRoute" where
  "apply_patch patch route = (case patch of
      PatchUpstream path \<Rightarrow> route\<lparr>acr_upstream_path := Some path\<rparr>
    | PatchModels models \<Rightarrow> route\<lparr>acr_models := Some models\<rparr>
    | PatchAuth auth \<Rightarrow> route\<lparr>acr_auth := auth\<rparr>)"

definition updateRoute :: "nat \<Rightarrow> RoutePatch \<Rightarrow> EditorState \<Rightarrow> js_error + EditorState" where
  "updateRoute index patch st =
     (let nextRoutes = editor_routes st in
      if index < length nextRoutes
      then Inr (st\<lparr>ed_config := config_of (nextRoutes[index := apply_patch patch (nextRoutes ! index)])\<rparr>)
      else Inl IllTyped)"

definition replaceRoutes :: "AdvancedCustomRoute list \<Rightarrow> string list \<Rightarrow> EditorState \<Rightarrow> EditorState" where
  "replaceRoutes nextRoutes nextRouteKeys st = st\<lparr>ed_config := config_of nextRoutes, ed_routeKeys := nextRouteKeys\<rparr>"

definition append_route :: "string \<Rightarrow> EditorState \<Rightarrow> EditorState" where
  "append_route path st =
     (case createRouteKey st of (key, st1) \<Rightarrow>
        st1\<lparr>ed_config := config_of (editor_routes st @ [createAdvancedCustomRoute
              \<lparr>acr_incoming_path := Some path, acr_upstream_path := Some path\<rparr>]),
            ed_routeKeys := ed_routeKeys st @ [key],
            ed_expandedRouteGroups := insert path (ed_expandedRouteGroups st)\<rparr>)"

definition addRoute :: "string option \<Rightarrow> EditorState \<Rightarrow> EditorState" where
  "addRoute incomingPath st =
     (let path = opt_str incomingPath in
      if path = [] \<or> path \<in> usedIncomingPaths st then st else append_route path st)"

definition addRouteForIncomingPath :: "string \<Rightarrow> EditorState \<Rightarrow> EditorState" where
  "addRouteForIncomingPath incomingPath st = append_route (str_or incomingPath ''/v1/chat/completions'') st"

definition remove_at :: "nat \<Rightarrow> 'a list \<Rightarrow> 'a list" where
  "remove_at i xs = take i xs @ drop (Suc i) xs"

definition removeRoute :: "nat \<Rightarrow> EditorState \<Rightarrow> EditorState" where
  "removeRoute index st =
     st\<lparr>ed_config := config_of (remove_at index (editor_routes st)),
        ed_routeKeys := remove_at index (ed_routeKeys st)\<rparr>"

definition updateGroupIncomingPath :: "AdvancedCustomRouteGroup \<Rightarrow> string option \<Rightarrow> EditorState \<Rightarrow> EditorState" where
  "updateGroupIncomingPath grp nextIncomingPath st =
     (let path = str_or (opt_str nextIncomingPath) ''/v1/chat/completions'';
          indexes = set (map arr_index (arg_routeRows grp));
          nextRoutes = map (\<lambda>(index, route).
            if index \<notin> indexes then route
            else if path = ADVANCED_CUSTOM_MODEL_LIST_PATH
            then route\<lparr>acr_incoming_path := Some path, acr_upstream_path := Some ADVANCED_CUSTOM_MODEL_LIST_PATH,
              acr_converter := Some converter_none, acr_models := Some []\<rparr>
            else route\<lparr>acr_incoming_path := Some path, acr_converter := Some converter_none\<rparr>)
            (List.enumerate 0 (editor_routes st))
      in (replaceRoutes nextRoutes (map arr_routeKey (allRouteRows st)) st)
         \<lparr>ed_expandedRouteGroups :=
            insert path (ed_expandedRouteGroups st - {arg_incomingPath grp})\<rparr>)"

definition swap :: "nat \<Rightarrow> nat \<Rightarrow> 'a list \<Rightarrow> 'a list" where
  "swap i j xs = xs[i := xs ! j, j := xs ! i]"

definition swapRoutes :: "nat \<Rightarrow> nat \<Rightarrow> EditorState \<Rightarrow> EditorState" where
  "swapRoutes fromIndex toIndex st =
     (if fromIndex = toIndex then st
      else replaceRoutes (swap fromIndex toIndex (editor_routes st))
        (swap fromIndex toIndex (map arr_routeKey (allRouteRows st))) st)"

text \<open>\<open>xs.at(i)\<close>, in which a negative index counts from the end.\<close>

definition js_at :: "'a list \<Rightarrow> int \<Rightarrow> 'a option" where
  "js_at xs i =
     (let k = (if i < 0 then i + int (length xs) else i) in
      if 0 \<le> k \<and> k < int (length xs) then Some (xs ! nat k) else None)"

definition same_path_indexes :: "string \<Rightarrow> AdvancedCustomRoute list \<Rightarrow> nat list" where
  "same_path_indexes path routes =
     filter (\<lambda>i. getRouteIncomingPath (routes ! i) = path) [0..<length routes]"

definition moveRouteWithinGroup :: "nat \<Rightarrow> int \<Rightarrow> EditorState \<Rightarrow> js_error + EditorState" where
  "moveRouteWithinGroup index direction st =
     (let routes = editor_routes st in
      if length routes \<le> index then Inl TypeError
      else
        let samePathIndexes = same_path_indexes (getRouteIncomingPath (routes ! index)) routes;
            position = (case js_findIndex (\<lambda>i. i = index) samePathIndexes of Some p \<Rightarrow> int p | None \<Rightarrow> - 1)
        in (case js_at samePathIndexes (position + direction) of
              None \<Rightarrow> Inr st
            | Some nextIndex \<Rightarrow> Inr (swapRoutes index nextIndex st)))"

definition insert_at :: "nat \<Rightarrow> 'a \<Rightarrow> 'a list \<Rightarrow> 'a list" where
  "insert_at i x xs = take i xs @ x # drop i xs"

definition moveRouteToGroupEnd :: "nat \<Rightarrow> EditorState \<Rightarrow> js_error + EditorState" where
  "moveRouteToGroupEnd index st =
     (let routes = editor_routes st; keys = map arr_routeKey (allRouteRows st) in
      if length routes \<le> index then Inl TypeError
      else
        let lastSamePathIndex = last (same_path_indexes (getRouteIncomingPath (routes ! index)) routes) in
        if index = lastSamePathIndex then Inr st
        else Inr (replaceRoutes (insert_at lastSamePathIndex (routes ! index) (remove_at index routes))
               (insert_at lastSamePathIndex (keys ! index) (remove_at index keys)) st))"

section \<open>The order of the catch-all routes\<close>

type_synonym row_queues = "(string \<times> AdvancedCustomRouteRow list) list"

definition rows_by_path :: "AdvancedCustomRouteRow list \<Rightarrow> row_queues" where
  "rows_by_path rows =
     foldl (\<lambda>m row. AList.update (row_path row) (nullish (map_of m (row_path row)) [] @ [row]) m) [] rows"

definition catch_all_last :: "AdvancedCustomRouteRow list \<Rightarrow> AdvancedCustomRouteRow list" where
  "catch_all_last rows =
     filter (\<lambda>row. \<not> isCatchAllRoute (arr_route row)) rows @ filter (\<lambda>row. isCatchAllRoute (arr_route row)) rows"

definition ordered_rows_by_path :: "row_queues \<Rightarrow> row_queues" where
  "ordered_rows_by_path m =
     foldl (\<lambda>acc (path, rows). AList.update path (catch_all_last rows) acc) [] m"

text \<open>Each row takes the next one of the queue of its path.\<close>

fun take_ordered :: "row_queues \<Rightarrow> AdvancedCustomRouteRow list \<Rightarrow> AdvancedCustomRouteRow list" where
  "take_ordered queues [] = []"
| "take_ordered queues (row # rows) =
     (case map_of queues (row_path row) of
        Some (next # rest) \<Rightarrow> next # take_ordered (AList.update (row_path row) rest queues) rows
      | _ \<Rightarrow> row # take_ordered queues rows)"

text \<open>Everything but the routes of the management takes the next of the given rows.\<close>

fun place_rows :: "AdvancedCustomRouteRow list \<Rightarrow> AdvancedCustomRouteRow list \<Rightarrow> AdvancedCustomRouteRow list" where
  "place_rows ordered [] = []"
| "place_rows ordered (row # rows) =
     (if isAdvancedCustomManagementPath (row_path row) then row # place_rows ordered rows
      else case ordered of
        next # rest \<Rightarrow> next # place_rows rest rows
      | [] \<Rightarrow> row # place_rows [] rows)"

definition fixCatchAllOrder :: "EditorState \<Rightarrow> EditorState" where
  "fixCatchAllOrder st =
     (let nextRows = take_ordered (ordered_rows_by_path (rows_by_path (routeRows st))) (routeRows st);
          placed = place_rows nextRows (allRouteRows st)
      in replaceRoutes (map arr_route placed) (map arr_routeKey placed) st)"

section \<open>Text, templates and saving\<close>

definition parseJsonEditorConfig :: "(string \<Rightarrow> string option) \<Rightarrow> (string \<Rightarrow> string) \<Rightarrow> EditorState \<Rightarrow>
    js_error + AdvancedCustomConfig option \<times> EditorState" where
  "parseJsonEditorConfig hp t st =
     (case parseAdvancedCustomConfig (Some (ed_jsonText st)) of
        Inl e \<Rightarrow> Inl e
      | Inr None \<Rightarrow> Inr (None, st\<lparr>ed_jsonError := t ''Invalid JSON''\<rparr>)
      | Inr (Some parsed) \<Rightarrow>
          (case validateAdvancedCustomConfig hp (Some parsed) of
             Some error \<Rightarrow> Inr (None, st\<lparr>ed_jsonError := t (acv_message error)\<rparr>)
           | None \<Rightarrow> Inr (Some parsed, st\<lparr>ed_jsonError := []\<rparr>)))"

definition switchTab :: "(string \<Rightarrow> string option) \<Rightarrow> (string \<Rightarrow> string) \<Rightarrow> AdvancedCustomEditorTab \<Rightarrow>
    EditorState \<Rightarrow> js_error + EditorState" where
  "switchTab hp t nextTab st =
     (if ed_activeTab st \<noteq> TabJson then
        Inr ((if nextTab = TabJson
              then st\<lparr>ed_jsonText := stringifyAdvancedCustomConfig (normalizeAdvancedCustomConfig (ed_config st)),
                ed_jsonError := []\<rparr>
              else st)\<lparr>ed_activeTab := nextTab\<rparr>)
      else (case parseJsonEditorConfig hp t st of
              Inl e \<Rightarrow> Inl e
            | Inr (None, st1) \<Rightarrow> Inr st1
            | Inr (Some parsed, st1) \<Rightarrow>
                (let normalized = normalizeAdvancedCustomConfig parsed in
                 Inr ((set_new_keys (length (nullish (advanced_routes normalized) [])) st1)
                   \<lparr>ed_config := normalized, ed_activeTab := nextTab\<rparr>))))"

definition handleJsonChange :: "string \<Rightarrow> EditorState \<Rightarrow> EditorState" where
  "handleJsonChange nextValue st = st\<lparr>ed_jsonText := nextValue, ed_jsonError := []\<rparr>"

definition selectTemplate :: "string \<Rightarrow> EditorState \<Rightarrow> EditorState" where
  "selectTemplate nextTemplateKey st =
     st\<lparr>ed_templateKey := (if nextTemplateKey \<in> set (map fst ADVANCED_CUSTOM_TEMPLATE_OPTIONS)
          then nextTemplateKey else fst (hd ADVANCED_CUSTOM_TEMPLATE_OPTIONS)),
        ed_templateConfirmOpen := True\<rparr>"

definition applySelectedTemplate :: "EditorState \<Rightarrow> EditorState" where
  "applySelectedTemplate st =
     (let templateRoutes = map (\<lambda>route. route\<lparr>acr_models := Some []\<rparr>)
            (nullish (advanced_routes (getAdvancedCustomTemplateConfig (ed_templateKey st))) []);
          normalized = replaceAdvancedCustomForwardingRoutes (normalizeAdvancedCustomConfig (ed_config st)) templateRoutes
      in (set_new_keys (length (nullish (advanced_routes normalized) [])) st)
         \<lparr>ed_config := normalized, ed_jsonText := stringifyAdvancedCustomConfig normalized, ed_jsonError := [],
          ed_expandedRouteGroups := set (map getRouteIncomingPath templateRoutes), ed_templateConfirmOpen := False\<rparr>)"

definition editor_saveConfig :: "(string \<Rightarrow> string option) \<Rightarrow> (string \<Rightarrow> string) \<Rightarrow> EditorState \<Rightarrow> js_error + EditorState" where
  "editor_saveConfig hp t st =
     (if ed_activeTab st = TabJson then
        (case parseJsonEditorConfig hp t st of
           Inl e \<Rightarrow> Inl e
         | Inr (None, st1) \<Rightarrow> Inr (st1\<lparr>ed_toasts := ed_toasts st1 @ [t ''Please fix JSON errors before saving'']\<rparr>)
         | Inr (Some parsed, st1) \<Rightarrow>
             Inr (st1\<lparr>ed_saved := ed_saved st1 @ [stringifyAdvancedCustomConfig parsed], ed_open := False\<rparr>))
      else (case validationError hp st of
              Some error \<Rightarrow> Inr (st\<lparr>ed_toasts := ed_toasts st @ [t (acv_message error)]\<rparr>)
            | None \<Rightarrow>
                Inr (st\<lparr>ed_saved := ed_saved st @
                  [stringifyAdvancedCustomConfig (normalizeAdvancedCustomConfig (ed_config st))], ed_open := False\<rparr>)))"

text \<open>The editors of the two routes of the management.\<close>

definition changeManagementRoute :: "string \<Rightarrow> AdvancedCustomRoute option \<Rightarrow> EditorState \<Rightarrow> EditorState" where
  "changeManagementRoute path route st =
     st\<lparr>ed_config := replaceAdvancedCustomManagementRoute (ed_config st) path route\<rparr>"

section \<open>Fields\<close>

datatype AuthField = AuthName | AuthValue

definition patched_auth :: "AuthField \<Rightarrow> string \<Rightarrow> AdvancedCustomRouteAuth \<Rightarrow> AdvancedCustomRouteAuth" where
  "patched_auth field text auth =
     (let base = \<lparr>aca_type = aca_type auth, aca_name = Some (opt_str (aca_name auth)),
                  aca_value = Some (opt_str (aca_value auth))\<rparr>
      in case field of AuthName \<Rightarrow> base\<lparr>aca_name := Some text\<rparr> | AuthValue \<Rightarrow> base\<lparr>aca_value := Some text\<rparr>)"

definition updateAuth :: "AdvancedCustomRoute \<Rightarrow> AuthField \<Rightarrow> string \<Rightarrow> RoutePatch option" where
  "updateAuth route field text = (case acr_auth route of
      None \<Rightarrow> None
    | Some auth \<Rightarrow> if aca_type auth = Some ''none'' then None else Some (PatchAuth (Some (patched_auth field text auth))))"

definition management_updateAuth :: "AdvancedCustomRoute \<Rightarrow> AuthField \<Rightarrow> string \<Rightarrow> AdvancedCustomRoute option" where
  "management_updateAuth route field text = map_option (\<lambda>patch. apply_patch patch route) (updateAuth route field text)"

definition setAuthMode :: "AdvancedCustomRoute \<Rightarrow> string \<Rightarrow> RoutePatch" where
  "setAuthMode route mode = PatchAuth (buildAdvancedCustomAuth mode (acr_auth route))"

definition setModelsInput :: "string \<Rightarrow> RoutePatch" where
  "setModelsInput text = PatchModels (if text = [] then [] else js_split CHR '','' text)"

definition normalizeModelsInput :: "string \<Rightarrow> RoutePatch" where
  "normalizeModelsInput text = PatchModels (parseAdvancedCustomRouteModels text)"

definition modelsInputValue :: "AdvancedCustomRoute \<Rightarrow> string" where
  "modelsInputValue route = js_join '', '' (nullish (acr_models route) [])"

section \<open>Events\<close>

datatype EditorEvent =
    Opened string
  | Closed
  | RouteChanged nat RoutePatch
  | RouteAdded "string option"
  | SplitAdded string
  | RouteRemoved nat
  | GroupPathChanged AdvancedCustomRouteGroup "string option"
  | RouteMoved nat int
  | RouteMovedToEnd nat
  | OrderFixed
  | TabSwitched AdvancedCustomEditorTab
  | JsonChanged string
  | TemplateSelected string
  | TemplateConfirmed
  | TemplateDismissed
  | ManagementChanged string "AdvancedCustomRoute option"
  | GroupToggled string bool
  | AllCollapsed
  | AllExpanded
  | SaveClicked

definition editor_step :: "(string \<Rightarrow> string option) \<Rightarrow> (string \<Rightarrow> string) \<Rightarrow> EditorEvent \<Rightarrow> EditorState \<Rightarrow>
    js_error + EditorState" where
  "editor_step hp t e st = (case e of
      Opened text \<Rightarrow> open_editor text st
    | Closed \<Rightarrow> Inr (st\<lparr>ed_open := False\<rparr>)
    | RouteChanged index patch \<Rightarrow> updateRoute index patch st
    | RouteAdded path \<Rightarrow> Inr (addRoute path st)
    | SplitAdded path \<Rightarrow> Inr (addRouteForIncomingPath path st)
    | RouteRemoved index \<Rightarrow> Inr (removeRoute index st)
    | GroupPathChanged grp path \<Rightarrow> Inr (updateGroupIncomingPath grp path st)
    | RouteMoved index direction \<Rightarrow> moveRouteWithinGroup index direction st
    | RouteMovedToEnd index \<Rightarrow> moveRouteToGroupEnd index st
    | OrderFixed \<Rightarrow> Inr (fixCatchAllOrder st)
    | TabSwitched tab \<Rightarrow> switchTab hp t tab st
    | JsonChanged text \<Rightarrow> Inr (handleJsonChange text st)
    | TemplateSelected key \<Rightarrow> Inr (selectTemplate key st)
    | TemplateConfirmed \<Rightarrow> Inr (applySelectedTemplate st)
    | TemplateDismissed \<Rightarrow> Inr (st\<lparr>ed_templateConfirmOpen := False\<rparr>)
    | ManagementChanged path route \<Rightarrow> Inr (changeManagementRoute path route st)
    | GroupToggled path expanded \<Rightarrow>
        Inr (st\<lparr>ed_expandedRouteGroups := (if expanded then insert path (ed_expandedRouteGroups st)
          else ed_expandedRouteGroups st - {path})\<rparr>)
    | AllCollapsed \<Rightarrow> Inr (st\<lparr>ed_expandedRouteGroups := {}\<rparr>)
    | AllExpanded \<Rightarrow> Inr (st\<lparr>ed_expandedRouteGroups := usedIncomingPaths st\<rparr>)
    | SaveClicked \<Rightarrow> editor_saveConfig hp t st)"

fun run_editor :: "(string \<Rightarrow> string option) \<Rightarrow> (string \<Rightarrow> string) \<Rightarrow> EditorEvent list \<Rightarrow> EditorState \<Rightarrow>
    js_error + EditorState" where
  "run_editor hp t [] st = Inr st"
| "run_editor hp t (e # es) st =
     (case editor_step hp t e st of Inl err \<Rightarrow> Inl err | Inr st' \<Rightarrow> run_editor hp t es st')"

end
