(* ===== verification/Advanced_Custom_Proofs.thy ===== *)
theory Advanced_Custom_Proofs
  imports Advanced_Custom
begin

text \<open>
  What holds of the routes of a custom channel: the text that is saved is read back, the
  validation accepts exactly the configurations that a declarative predicate describes and points
  to the first route that breaks it, and the routes of the management can be read and replaced
  independently of each other and of the forwarding.
\<close>

section \<open>Normalisation\<close>

named_theorems route_simps \<open>the parts of a normalised route\<close>

abbreviation route_models :: "AdvancedCustomRoute \<Rightarrow> string list" where
  "route_models r \<equiv> normalizeAdvancedCustomRouteModels (acr_models r)"

lemma filter_trim: "\<forall>m \<in> set ms. m \<noteq> [] \<and> js_trim m = m \<Longrightarrow> filter (\<lambda>m. m \<noteq> []) (map js_trim ms) = ms"
  by (induction ms) auto

lemma normalize_models_wf:
  "m \<in> set (normalizeAdvancedCustomRouteModels x) \<Longrightarrow> m \<noteq> [] \<and> js_trim m = m"
  by (auto simp: normalizeAdvancedCustomRouteModels_def split: option.splits)

lemma normalize_models_empty [simp]:
  "normalizeAdvancedCustomRouteModels None = []" "normalizeAdvancedCustomRouteModels (Some []) = []"
  by (simp_all add: normalizeAdvancedCustomRouteModels_def)

lemma normalize_models_idem [simp]:
  "normalizeAdvancedCustomRouteModels (Some (normalizeAdvancedCustomRouteModels x)) =
   normalizeAdvancedCustomRouteModels x"
  using filter_trim [of "normalizeAdvancedCustomRouteModels x"] normalize_models_wf
  by (simp add: normalizeAdvancedCustomRouteModels_def [of "Some _"])

lemma normalize_auth_idem [simp]: "normalize_auth (normalize_auth a) = normalize_auth a"
  by (simp add: normalize_auth_def)

lemma normalized_parts [route_simps]:
  "route_path (normalizeAdvancedCustomRoute r) = route_path r"
  "getAdvancedCustomRouteUpstreamPath (normalizeAdvancedCustomRoute r) = getAdvancedCustomRouteUpstreamPath r"
  "route_models (normalizeAdvancedCustomRoute r) = route_models r"
  "validateRouteAuth (acr_auth (normalizeAdvancedCustomRoute r)) = validateRouteAuth (acr_auth r)"
  by (cases "acr_auth r";
      simp add: normalizeAdvancedCustomRoute_def route_path_def getAdvancedCustomRouteUpstreamPath_def
        Let_def validateRouteAuth_def normalize_auth_def)+

lemma normalize_route_idem [simp]:
  "normalizeAdvancedCustomRoute (normalizeAdvancedCustomRoute r) = normalizeAdvancedCustomRoute r"
proof -
  have "acr_incoming_path (normalizeAdvancedCustomRoute r) = Some (opt_str (acr_incoming_path r))"
    and "map_option normalize_auth (acr_auth (normalizeAdvancedCustomRoute r)) = map_option normalize_auth (acr_auth r)"
    by (simp_all add: normalizeAdvancedCustomRoute_def Let_def option.map_comp comp_def)
  then show ?thesis
    using normalized_parts(2,3) [of r]
    by (simp add: normalizeAdvancedCustomRoute_def [of "normalizeAdvancedCustomRoute r"])
       (simp add: normalizeAdvancedCustomRoute_def [of r] Let_def)
qed

text \<open>The routes of a configuration as they are given.\<close>

definition config_routes :: "AdvancedCustomConfig \<Rightarrow> AdvancedCustomRoute list" where
  "config_routes c = nullish (advanced_routes c) []"

lemma normalize_config_eq:
  "normalizeAdvancedCustomConfig c = config_of (map normalizeAdvancedCustomRoute (config_routes c))"
  by (cases "advanced_routes c") (simp_all add: normalizeAdvancedCustomConfig_def config_routes_def config_of_def)

lemma normalized_routes_eq: "normalized_routes c = map normalizeAdvancedCustomRoute (config_routes c)"
  by (simp add: normalized_routes_def normalize_config_eq config_of_def)

lemma config_routes_of [simp]: "config_routes (config_of rs) = rs"
  by (simp add: config_routes_def config_of_def)

lemma normalize_config_idem [simp]:
  "normalizeAdvancedCustomConfig (normalizeAdvancedCustomConfig c) = normalizeAdvancedCustomConfig c"
  by (simp add: normalize_config_eq comp_def)

lemma validate_normalized [simp]:
  "validateAdvancedCustomConfig hp (Some (normalizeAdvancedCustomConfig c)) = validateAdvancedCustomConfig hp (Some c)"
  by (simp add: validateAdvancedCustomConfig_def normalized_routes_def)

section \<open>Reading what was saved\<close>

lemma read_text_JStr [simp]: "read_text e (Some (JStr s)) = Inr (if s = [] then None else Some s)"
  by (simp add: read_text_def)

lemma read_text_None [simp]: "read_text e None = Inr None"
  by (simp add: read_text_def)

lemma opt_str_read [simp]: "opt_str (if s = [] then None else Some s) = s"
  by simp

lemma read_models_JStr [simp]: "read_models (Some (JArr (map JStr ms))) = Inr (Some ms)"
proof -
  have "read_list (\<lambda>j. case j of JStr s \<Rightarrow> Inr s | _ \<Rightarrow> Inl TypeError) (map JStr ms) = Inr ms"
    by (induction ms) auto
  then show ?thesis by (simp add: read_models_def)
qed

lemma read_normalized_auth:
  "\<exists>a'. read_auth (Some (JObj (auth_members (normalize_auth a)))) = Inr (Some a') \<and>
     normalize_auth a' = normalize_auth a"
  by (cases "aca_type a") (auto simp: read_auth_def auth_members_def normalize_auth_def)

lemma read_normalized_route:
  "\<exists>r'. read_route (JObj (route_members (normalizeAdvancedCustomRoute r))) = Inr r' \<and>
     normalizeAdvancedCustomRoute r' = normalizeAdvancedCustomRoute r"
proof -
  define n where "n = normalizeAdvancedCustomRoute r"
  define kvs where "kvs = route_members n"
  have n: "n = \<lparr>acr_incoming_path = Some (opt_str (acr_incoming_path r)),
      acr_upstream_path = Some (getAdvancedCustomRouteUpstreamPath r), acr_converter = Some converter_none,
      acr_models = (if route_models r \<noteq> [] then Some (route_models r) else None),
      acr_auth = map_option normalize_auth (acr_auth r)\<rparr>"
    by (simp add: n_def normalizeAdvancedCustomRoute_def Let_def)
  have paths: "map_of kvs ''incoming_path'' = Some (JStr (opt_str (acr_incoming_path r)))"
      "map_of kvs ''upstream_path'' = Some (JStr (getAdvancedCustomRouteUpstreamPath r))"
    by (simp_all add: kvs_def n route_members_def)
  have "read_models (map_of kvs ''models'') = Inr (acr_models n)"
    by (cases "acr_auth r") (simp_all add: kvs_def n route_members_def read_models_def [of None])
  moreover have "\<exists>x. read_auth (map_of kvs ''auth'') = Inr x \<and> map_option normalize_auth x = acr_auth n"
  proof (cases "acr_auth r")
    case None
    then show ?thesis by (simp add: kvs_def n route_members_def read_auth_def)
  next
    case (Some a)
    then have "map_of kvs ''auth'' = Some (JObj (auth_members (normalize_auth a)))"
      by (simp add: kvs_def n route_members_def)
    then show ?thesis using read_normalized_auth [of a] Some by (auto simp: n)
  qed
  then obtain x where "read_auth (map_of kvs ''auth'') = Inr x" "map_option normalize_auth x = acr_auth n"
    by blast
  ultimately have "\<exists>r'. read_route (JObj kvs) = Inr r' \<and> normalizeAdvancedCustomRoute r' = n"
    by (simp add: read_route_def paths normalizeAdvancedCustomRoute_def Let_def n
        getAdvancedCustomRouteUpstreamPath_def cong: if_cong)
  then show ?thesis by (simp add: kvs_def n_def)
qed

lemma read_normalized_routes:
  "\<exists>rs'. read_list read_route (map (\<lambda>r. JObj (route_members (normalizeAdvancedCustomRoute r))) rs) = Inr rs' \<and>
     map normalizeAdvancedCustomRoute rs' = map normalizeAdvancedCustomRoute rs"
proof (induction rs)
  case (Cons r rs)
  then show ?case using read_normalized_route [of r] by auto
qed simp

lemma plain_route: "json_plain (JObj (route_members r))"
proof -
  have "json_plain (JObj (auth_members a))" for a
    by (auto simp: auth_members_def split: option.splits)
  then show ?thesis by (auto simp: route_members_def split: option.splits)
qed

lemma parse_stringified:
  "parseAdvancedCustomConfig (Some (stringifyAdvancedCustomConfig c)) = Inr (Some (normalizeAdvancedCustomConfig c))"
proof -
  let ?j = "advanced_config_json (normalizeAdvancedCustomConfig c)"
  let ?text = "stringifyAdvancedCustomConfig c"
  have j: "?j = JObj [(''advanced_routes'',
      JArr (map (\<lambda>r. JObj (route_members (normalizeAdvancedCustomRoute r))) (config_routes c)))]"
    by (simp add: advanced_config_json_def normalize_config_eq config_of_def comp_def)
  then have "json_plain ?j" using plain_route by simp
  then have parsed: "json_parse ?text = Some ?j"
    unfolding stringifyAdvancedCustomConfig_def by (rule json_parse_pretty)
  have "hd ?text = CHR ''{''" "?text \<noteq> []" by (simp_all add: stringifyAdvancedCustomConfig_def j)
  then have "CHR ''{'' \<in> set ?text" by (metis hd_in_set)
  moreover have "\<not> js_ws CHR ''{''" by (simp add: js_ws_def)
  ultimately have "js_trim ?text \<noteq> []" unfolding js_trim_eq_Nil by blast
  moreover obtain rs where rs: "read_config ?j = Inr \<lparr>advanced_routes = Some rs\<rparr>"
      "map normalizeAdvancedCustomRoute rs = map normalizeAdvancedCustomRoute (config_routes c)"
    using read_normalized_routes [of "config_routes c"] by (auto simp: j read_config_def)
  moreover have "normalizeAdvancedCustomConfig \<lparr>advanced_routes = Some rs\<rparr> = normalizeAdvancedCustomConfig c"
    using rs(2) by (simp add: normalize_config_eq config_routes_def [of "\<lparr>advanced_routes = Some rs\<rparr>"])
  ultimately show ?thesis using parsed by (simp add: parseAdvancedCustomConfig_def j)
qed

section \<open>Which configurations are valid\<close>

text \<open>
  A route on its own: its path is absolute and has no query, a route of the management serves
  every model and has no placeholder, the upstream is a path or a URL, the credentials are
  complete, and no model rule is an empty regular expression.
\<close>

definition auth_wf :: "AdvancedCustomRouteAuth \<Rightarrow> bool" where
  "auth_wf a \<longleftrightarrow> aca_type a = Some ''none'' \<or>
     aca_type a \<in> {Some ''header'', Some ''query''} \<and>
     (\<exists>c \<in> set (opt_str (aca_name a)). \<not> js_ws c) \<and> (\<exists>c \<in> set (opt_str (aca_value a)). \<not> js_ws c)"

definition route_wf :: "(string \<Rightarrow> string option) \<Rightarrow> AdvancedCustomRoute \<Rightarrow> bool" where
  "route_wf hp r \<longleftrightarrow>
     prefix ''/'' (route_path r) \<and> CHR ''?'' \<notin> set (route_path r) \<and>
     (isAdvancedCustomManagementPath (route_path r) \<longrightarrow>
        route_models r = [] \<and> \<not> js_includes (getAdvancedCustomRouteUpstreamPath r) ''{model}'') \<and>
     ''re:'' \<notin> set (route_models r) \<and>
     getAdvancedCustomRouteUpstreamPath r \<noteq> [] \<and>
     isFullHttpURLOrAbsolutePath hp (getAdvancedCustomRouteUpstreamPath r) \<and>
     (case acr_auth r of None \<Rightarrow> True | Some a \<Rightarrow> auth_wf a)"

text \<open>
  The routes of one path: no model is named twice, and only the last route may leave the models
  out and so take all that is left.
\<close>

definition same_path :: "string \<Rightarrow> AdvancedCustomRoute list \<Rightarrow> AdvancedCustomRoute list" where
  "same_path p rs = filter (\<lambda>r. route_path r = p) rs"

definition path_wf :: "AdvancedCustomRoute list \<Rightarrow> bool" where
  "path_wf rs \<longleftrightarrow> (\<forall>r \<in> set (butlast rs). route_models r \<noteq> []) \<and> distinct (concat (map route_models rs))"

definition routes_wf :: "(string \<Rightarrow> string option) \<Rightarrow> AdvancedCustomRoute list \<Rightarrow> bool" where
  "routes_wf hp rs \<longleftrightarrow>
     (\<forall>r \<in> set rs. route_wf hp r) \<and> (\<forall>p \<in> set (map route_path rs). path_wf (same_path p rs))"

lemma same_path_snoc:
  "same_path p (rs @ [r]) = (if route_path r = p then same_path p rs @ [r] else same_path p rs)"
  by (simp add: same_path_def)

lemma path_wf_Nil [simp]: "path_wf []"
  by (simp add: path_wf_def)

lemma path_wf_snoc:
  "path_wf (rs @ [r]) \<longleftrightarrow> (\<forall>x \<in> set rs. route_models x \<noteq> []) \<and> distinct (concat (map route_models rs)) \<and>
     distinct (route_models r) \<and> set (route_models r) \<inter> set (concat (map route_models rs)) = {}"
  by (auto simp: path_wf_def)

lemma routes_wf_all_paths:
  "routes_wf hp rs \<longleftrightarrow> (\<forall>r \<in> set rs. route_wf hp r) \<and> (\<forall>p. path_wf (same_path p rs))"
proof -
  have "path_wf (same_path p rs)" if "p \<notin> set (map route_path rs)" for p
  proof -
    have "same_path p rs = []" using that by (auto simp: same_path_def filter_empty_conv)
    then show ?thesis by simp
  qed
  then show ?thesis unfolding routes_wf_def by blast
qed

lemma path_wf_butlast: "path_wf (rs @ [r]) \<Longrightarrow> path_wf rs"
  by (auto simp: path_wf_snoc path_wf_def dest: in_set_butlastD)

lemma routes_wf_snoc:
  "routes_wf hp (rs @ [r]) \<longleftrightarrow>
     routes_wf hp rs \<and> route_wf hp r \<and> path_wf (same_path (route_path r) rs @ [r])"
proof -
  have "(\<forall>p. path_wf (same_path p (rs @ [r]))) \<longleftrightarrow>
      (\<forall>p. path_wf (same_path p rs)) \<and> path_wf (same_path (route_path r) rs @ [r])"
    using path_wf_butlast [of "same_path (route_path r) rs" r] by (auto simp: same_path_snoc)
  then show ?thesis unfolding routes_wf_all_paths by auto
qed

subsection \<open>One route\<close>

lemma validateRouteAuth_wf:
  "validateRouteAuth x = None \<longleftrightarrow> (case x of None \<Rightarrow> True | Some a \<Rightarrow> auth_wf a)"
  by (auto simp: validateRouteAuth_def auth_wf_def js_trim_eq_Nil split: option.splits)

lemma empty_regex:
  "getAdvancedCustomModelRuleKind m = rule_regex \<and> getAdvancedCustomRegexModelPattern m = [] \<longleftrightarrow> m = ''re:''"
  by (auto simp: getAdvancedCustomModelRuleKind_def getAdvancedCustomRegexModelPattern_def
      ADVANCED_CUSTOM_MODEL_REGEX_PREFIX_def prefix_def)

lemma index_of_char: "index_of [c] s = None \<longleftrightarrow> c \<notin> set s"
  by (induction s) auto

lemma includes_char: "js_includes s [c] \<longleftrightarrow> c \<in> set s"
  using index_of_char [of c s] by (simp add: js_includes_def)

lemma add_models_spec:
  "case add_models i ms seen old of
     Inl e \<Rightarrow> acv_routeIndex e = Some i \<and>
       \<not> (''re:'' \<notin> set ms \<and> distinct ms \<and> set ms \<inter> seen = {} \<and> set ms \<inter> fst ` set old = {})
   | Inr new \<Rightarrow> ''re:'' \<notin> set ms \<and> distinct ms \<and> set ms \<inter> seen = {} \<and> set ms \<inter> fst ` set old = {} \<and>
       fst ` set new = set ms \<union> fst ` set old"
proof (induction i ms seen old rule: add_models.induct)
  case (2 i m ms seen old)
  show ?case
  proof (cases "m = ''re:'' \<or> m \<in> seen \<or> m \<in> fst ` set old")
    case True
    then show ?thesis
      using empty_regex [of m] by (auto simp: route_error_def map_of_eq_None_iff)
  next
    case False
    then have "\<not> (getAdvancedCustomModelRuleKind m = rule_regex \<and> getAdvancedCustomRegexModelPattern m = [])"
      using empty_regex [of m] by blast
    moreover have "map_of old m = None" using False by (simp add: map_of_eq_None_iff)
    moreover have "fst ` set (AList.update m i old) = insert m (fst ` set old)" by (simp add: dom_update)
    ultimately show ?thesis
      using 2 False by (auto split: sum.splits simp: route_error_def)
  qed
qed simp

subsection \<open>The state of the validation\<close>

text \<open>What the maps and indices of the loop say about the routes that were checked.\<close>

definition path_state :: "models_by_path \<Rightarrow> string \<Rightarrow> PathModels" where
  "path_state m p = nullish (map_of m p) \<lparr>pm_catchAllIndex = None, pm_models = []\<rparr>"

definition models_tracked :: "AdvancedCustomRoute list \<Rightarrow> models_by_path \<Rightarrow> bool" where
  "models_tracked rs m \<longleftrightarrow> (\<forall>p.
     (pm_catchAllIndex (path_state m p) \<noteq> None \<longleftrightarrow> (\<exists>r \<in> set (same_path p rs). route_models r = [])) \<and>
     fst ` set (pm_models (path_state m p)) = set (concat (map route_models (same_path p rs))))"

definition indices_tracked :: "AdvancedCustomRoute list \<Rightarrow> ValidationState \<Rightarrow> bool" where
  "indices_tracked rs st \<longleftrightarrow>
     (vs_modelListRouteIndex st \<noteq> None \<longleftrightarrow> same_path ADVANCED_CUSTOM_MODEL_LIST_PATH rs \<noteq> []) \<and>
     (vs_balanceRouteIndex st \<noteq> None \<longleftrightarrow> same_path ADVANCED_CUSTOM_BALANCE_PATH rs \<noteq> [])"

lemma path_state_update [simp]:
  "path_state (AList.update p s m) q = (if q = p then s else path_state m q)"
  by (simp add: path_state_def update_conv')

definition models_fit :: "AdvancedCustomRoute list \<Rightarrow> AdvancedCustomRoute \<Rightarrow> bool" where
  "models_fit rs r \<longleftrightarrow> ''re:'' \<notin> set (route_models r) \<and> distinct (route_models r) \<and>
     (\<forall>x \<in> set (same_path (route_path r) rs). route_models x \<noteq> []) \<and>
     set (route_models r) \<inter> set (concat (map route_models (same_path (route_path r) rs))) = {}"

lemma models_step:
  assumes "models_tracked rs m"
  shows "case validateAdvancedCustomRouteModels i (route_path r) (route_models r) m of
      Inl e \<Rightarrow> acv_routeIndex e = Some i \<and> \<not> models_fit rs r
    | Inr m' \<Rightarrow> models_fit rs r \<and> models_tracked (rs @ [r]) m'"
proof -
  define p ms where "p = route_path r" and "ms = route_models r"
  define s where "s = path_state m p"
  have s: "pm_catchAllIndex s \<noteq> None \<longleftrightarrow> (\<exists>x \<in> set (same_path p rs). route_models x = [])"
      "fst ` set (pm_models s) = set (concat (map route_models (same_path p rs)))"
    using assms by (simp_all add: models_tracked_def s_def)
  have unfold: "validateAdvancedCustomRouteModels i p ms m =
     (if ms = [] then
        (if pm_catchAllIndex s \<noteq> None
         then Inl (route_error i ''Only one catch-all route is allowed for the same incoming path'')
         else Inr (AList.update p (s\<lparr>pm_catchAllIndex := Some i\<rparr>) m))
      else if pm_catchAllIndex s \<noteq> None
      then Inl (route_error i ''Catch-all route must be last for the same incoming path'')
      else (case add_models i ms {} (pm_models s) of
              Inl e \<Rightarrow> Inl e | Inr new \<Rightarrow> Inr (AList.update p (s\<lparr>pm_models := new\<rparr>) m)))"
    unfolding validateAdvancedCustomRouteModels_def Let_def s_def path_state_def by (rule refl)
  have fit: "models_fit rs r \<longleftrightarrow> ''re:'' \<notin> set ms \<and> distinct ms \<and> pm_catchAllIndex s = None \<and>
      set ms \<inter> fst ` set (pm_models s) = {}"
    using s by (auto simp: models_fit_def p_def ms_def)
  have tracked: "models_tracked (rs @ [r]) (AList.update p s' m)"
    if "pm_catchAllIndex s' \<noteq> None \<longleftrightarrow> (\<exists>x \<in> set (same_path p rs). route_models x = []) \<or> ms = []"
      and "fst ` set (pm_models s') = set ms \<union> fst ` set (pm_models s)" for s'
    using that s assms unfolding models_tracked_def
    by (auto simp: same_path_snoc p_def [symmetric] ms_def [symmetric])
  show ?thesis
  proof (cases "pm_catchAllIndex s = None \<and> ms \<noteq> []")
    case True
    have "models_tracked (rs @ [r]) (AList.update p (s\<lparr>pm_models := new\<rparr>) m)"
      if "fst ` set new = set ms \<union> fst ` set (pm_models s)" for new
      using True that s(1) by (intro tracked) simp_all
    with True show ?thesis
      unfolding p_def [symmetric] ms_def [symmetric] unfold
      using add_models_spec [of i ms "{}" "pm_models s"] fit
      by (simp split: sum.splits)
  next
    case False
    then show ?thesis
      unfolding p_def [symmetric] ms_def [symmetric] unfold
      using fit s by (auto simp: route_error_def intro!: tracked)
  qed
qed

lemma management_paths_distinct: "ADVANCED_CUSTOM_MODEL_LIST_PATH \<noteq> ADVANCED_CUSTOM_BALANCE_PATH"
  by (simp add: ADVANCED_CUSTOM_MODEL_LIST_PATH_def ADVANCED_CUSTOM_BALANCE_PATH_def)

definition management_fit :: "AdvancedCustomRoute list \<Rightarrow> AdvancedCustomRoute \<Rightarrow> bool" where
  "management_fit rs r \<longleftrightarrow> (isAdvancedCustomManagementPath (route_path r) \<longrightarrow>
     same_path (route_path r) rs = [] \<and> route_models r = [] \<and>
     \<not> js_includes (getAdvancedCustomRouteUpstreamPath r) ''{model}'')"

lemma management_step:
  assumes "indices_tracked rs st"
  shows "case validate_management i (route_path r) (route_models r) (getAdvancedCustomRouteUpstreamPath r) st of
      Inl e \<Rightarrow> acv_routeIndex e = Some i \<and> \<not> management_fit rs r
    | Inr st' \<Rightarrow> management_fit rs r \<and> indices_tracked (rs @ [r]) st' \<and>
        vs_routeModelsByPath st' = vs_routeModelsByPath st"
  using assms management_paths_distinct
  by (auto simp: validate_management_def management_fit_def indices_tracked_def Let_def route_error_def
      isAdvancedCustomManagementPath_def same_path_snoc)

text \<open>Given valid routes before it, a route fits exactly if the routes stay valid with it.\<close>

lemma fit_iff_wf:
  assumes "routes_wf hp rs"
  shows "routes_wf hp (rs @ [r]) \<longleftrightarrow> route_wf hp r \<and> management_fit rs r \<and> models_fit rs r"
proof -
  have old: "distinct (concat (map route_models (same_path (route_path r) rs)))"
    using assms by (simp add: routes_wf_all_paths path_wf_def)
  have "route_models x = []" if "isAdvancedCustomManagementPath (route_path r)"
    and "x \<in> set (same_path (route_path r) rs)" for x
    using assms that by (auto simp: routes_wf_def route_wf_def same_path_def)
  then have "same_path (route_path r) rs = []"
    if "isAdvancedCustomManagementPath (route_path r)" and "models_fit rs r"
    using that by (fastforce simp: models_fit_def neq_Nil_conv)
  then show ?thesis
    using assms old by (auto simp: routes_wf_snoc path_wf_snoc models_fit_def management_fit_def route_wf_def)
qed

lemma route_step:
  assumes wf: "routes_wf hp rs" and st: "models_tracked rs (vs_routeModelsByPath st)" "indices_tracked rs st"
  shows "case validate_route hp i r st of
      Inl e \<Rightarrow> acv_routeIndex e = Some i \<and> \<not> routes_wf hp (rs @ [r])
    | Inr st' \<Rightarrow> routes_wf hp (rs @ [r]) \<and> models_tracked (rs @ [r]) (vs_routeModelsByPath st') \<and>
        indices_tracked (rs @ [r]) st'"
proof -
  let ?p = "route_path r" and ?up = "getAdvancedCustomRouteUpstreamPath r"
  note fit = fit_iff_wf [OF wf, of r]
  have path: "js_includes ?p ''?'' \<longleftrightarrow> CHR ''?'' \<in> set ?p" by (rule includes_char)
  show ?thesis
  proof (cases "validate_management i ?p (route_models r) ?up st")
    case (Inl e)
    then show ?thesis
      using management_step [OF st(2), of i r] fit
      by (auto simp: validate_route_def Let_def route_error_def)
  next
    case m: (Inr st1)
    then have st1: "management_fit rs r" "indices_tracked (rs @ [r]) st1"
        "vs_routeModelsByPath st1 = vs_routeModelsByPath st"
      using management_step [OF st(2), of i r] by auto
    show ?thesis
    proof (cases "validateAdvancedCustomRouteModels i ?p (route_models r) (vs_routeModelsByPath st)")
      case (Inl e)
      then show ?thesis
        using models_step [OF st(1), of i r] fit m st1
        by (auto simp: validate_route_def Let_def route_error_def)
    next
      case (Inr byPath)
      then have by_path: "models_fit rs r" "models_tracked (rs @ [r]) byPath"
        using models_step [OF st(1), of i r] by auto
      then have "route_wf hp r \<longleftrightarrow> prefix ''/'' ?p \<and> CHR ''?'' \<notin> set ?p \<and> ?up \<noteq> [] \<and>
          isFullHttpURLOrAbsolutePath hp ?up \<and> validateRouteAuth (acr_auth r) = None"
        using st1(1) by (auto simp: route_wf_def management_fit_def models_fit_def validateRouteAuth_wf)
      then show ?thesis
        using m Inr st1 by_path fit path
        by (auto simp: validate_route_def Let_def route_error_def indices_tracked_def split: option.splits)
    qed
  qed
qed

lemma validate_routes_spec:
  assumes "routes_wf hp pre" and "models_tracked pre (vs_routeModelsByPath st)" and "indices_tracked pre st"
  shows "case validate_routes hp (length pre) st rs of
      None \<Rightarrow> routes_wf hp (pre @ rs)
    | Some e \<Rightarrow> \<exists>i < length rs. acv_routeIndex e = Some (length pre + i) \<and>
        routes_wf hp (pre @ take i rs) \<and> \<not> routes_wf hp (pre @ take (Suc i) rs)"
  using assms
proof (induction rs arbitrary: pre st)
  case (Cons r rs)
  note step = route_step [OF Cons.prems, of "length pre" r]
  show ?case
  proof (cases "validate_route hp (length pre) r st")
    case (Inl e)
    then show ?thesis using step Cons.prems by (auto intro!: exI [of _ 0])
  next
    case (Inr st')
    then have "routes_wf hp (pre @ [r])" "models_tracked (pre @ [r]) (vs_routeModelsByPath st')"
        "indices_tracked (pre @ [r]) st'"
      using step by auto
    note rest = Cons.IH [OF this]
    show ?thesis
    proof (cases "validate_routes hp (Suc (length pre)) st' rs")
      case None
      then show ?thesis using rest Inr by simp
    next
      case (Some e)
      with rest obtain i where "i < length rs" "acv_routeIndex e = Some (Suc (length pre) + i)"
          "routes_wf hp (pre @ take (Suc i) (r # rs))" "\<not> routes_wf hp (pre @ take (Suc (Suc i)) (r # rs))"
        by auto
      then show ?thesis using Some Inr by (auto intro!: exI [of _ "Suc i"])
    qed
  qed
qed simp

lemma validate_route_normalized [simp]:
  "validate_route hp i (normalizeAdvancedCustomRoute r) st = validate_route hp i r st"
  unfolding validate_route_def route_simps by (rule refl)

lemma validate_routes_normalized [simp]:
  "validate_routes hp i st (map normalizeAdvancedCustomRoute rs) = validate_routes hp i st rs"
  by (induction rs arbitrary: i st) (simp_all split: sum.splits)

lemma validation_cases:
  "case validateAdvancedCustomConfig hp (Some c) of
     None \<Rightarrow> config_routes c \<noteq> [] \<and> routes_wf hp (config_routes c)
   | Some e \<Rightarrow>
       (case acv_routeIndex e of
          None \<Rightarrow> config_routes c = []
        | Some i \<Rightarrow> i < length (config_routes c) \<and> routes_wf hp (take i (config_routes c)) \<and>
            \<not> routes_wf hp (take (Suc i) (config_routes c)))"
proof -
  have "routes_wf hp []" "models_tracked [] (vs_routeModelsByPath initial_validation)"
      "indices_tracked [] initial_validation"
    by (simp_all add: routes_wf_def models_tracked_def indices_tracked_def initial_validation_def
        same_path_def path_state_def)
  note spec = validate_routes_spec [OF this, of "config_routes c"]
  then show ?thesis
    by (cases "validate_routes hp 0 initial_validation (config_routes c)")
       (auto simp: validateAdvancedCustomConfig_def normalized_routes_eq)
qed

end
