(* ===== verification/Advanced_Routes.thy ===== *)
theory Advanced_Routes
  imports Advanced_Custom_Proofs
begin

text \<open>
  The two routes of the management and the routes of the forwarding are parts of one list that can
  be read and replaced independently of each other. The locale states this for any store of
  slots beside a rest; the configuration is an instance as long as it is valid.
\<close>

section \<open>Slots beside a rest\<close>

text \<open>An edit fills or empties a slot, or replaces the rest.\<close>

type_synonym ('k, 'v, 'w) edit = "('k \<times> 'v option) + 'w"

fun last_slot :: "'k \<Rightarrow> ('k, 'v, 'w) edit list \<Rightarrow> 'v option option" where
  "last_slot k [] = None"
| "last_slot k (e # es) =
     (case last_slot k es of
        Some v \<Rightarrow> Some v
      | None \<Rightarrow> (case e of Inl (k', v) \<Rightarrow> if k' = k then Some v else None | Inr w \<Rightarrow> None))"

fun last_rest :: "('k, 'v, 'w) edit list \<Rightarrow> 'w option" where
  "last_rest [] = None"
| "last_rest (e # es) =
     (case last_rest es of
        Some w \<Rightarrow> Some w
      | None \<Rightarrow> (case e of Inl kv \<Rightarrow> None | Inr w \<Rightarrow> Some w))"

locale slots =
  fixes inv :: "'s \<Rightarrow> bool"
    and fits :: "('k, 'v, 'w) edit \<Rightarrow> bool"
    and slot :: "'k \<Rightarrow> bool"
    and get :: "'s \<Rightarrow> 'k \<Rightarrow> 'u option"
    and put :: "'s \<Rightarrow> 'k \<Rightarrow> 'v option \<Rightarrow> 's"
    and rest :: "'s \<Rightarrow> 'x"
    and set_rest :: "'s \<Rightarrow> 'w \<Rightarrow> 's"
    and seen :: "'k \<Rightarrow> 'v \<Rightarrow> 'u"
    and seen_rest :: "'w \<Rightarrow> 'x"
  assumes fits_slot: "fits (Inl (k, v)) \<Longrightarrow> slot k"
    and inv_put: "inv s \<Longrightarrow> fits (Inl (k, v)) \<Longrightarrow> inv (put s k v)"
    and inv_set_rest: "inv s \<Longrightarrow> fits (Inr w) \<Longrightarrow> inv (set_rest s w)"
    and get_put: "inv s \<Longrightarrow> fits (Inl (k, v)) \<Longrightarrow> get (put s k v) k = map_option (seen k) v"
    and get_put_other: "inv s \<Longrightarrow> fits (Inl (k, v)) \<Longrightarrow> k' \<noteq> k \<Longrightarrow> get (put s k v) k' = get s k'"
    and rest_put: "inv s \<Longrightarrow> fits (Inl (k, v)) \<Longrightarrow> rest (put s k v) = rest s"
    and get_set_rest: "inv s \<Longrightarrow> fits (Inr w) \<Longrightarrow> slot k \<Longrightarrow> get (set_rest s w) k = get s k"
    and rest_set_rest: "inv s \<Longrightarrow> fits (Inr w) \<Longrightarrow> rest (set_rest s w) = seen_rest w"
begin

abbreviation edit_step :: "'s \<Rightarrow> ('k, 'v, 'w) edit \<Rightarrow> 's" where
  "edit_step s e \<equiv> (case e of Inl (k, v) \<Rightarrow> put s k v | Inr w \<Rightarrow> set_rest s w)"

lemma inv_step: "inv s \<Longrightarrow> fits e \<Longrightarrow> inv (edit_step s e)"
  by (cases e) (auto intro: inv_put inv_set_rest)

lemma inv_edits: "inv s \<Longrightarrow> \<forall>e \<in> set es. fits e \<Longrightarrow> inv (foldl edit_step s es)"
  by (induction es arbitrary: s) (auto simp del: split_paired_All intro: inv_step)

text \<open>After any edits a slot holds what was put last, and so does the rest.\<close>

lemma get_edits:
  "inv s \<Longrightarrow> \<forall>e \<in> set es. fits e \<Longrightarrow> slot k \<Longrightarrow>
   get (foldl edit_step s es) k =
     (case last_slot k es of None \<Rightarrow> get s k | Some v \<Rightarrow> map_option (seen k) v)"
proof (induction es arbitrary: s)
  case (Cons e es)
  have "get (edit_step s e) k =
      (case e of Inl (k', v) \<Rightarrow> if k' = k then map_option (seen k) v else get s k | Inr w \<Rightarrow> get s k)"
    using Cons.prems by (cases e) (auto simp: get_put get_put_other get_set_rest)
  then show ?case
    using Cons.IH [OF inv_step [of s e]] Cons.prems by (auto split: option.splits sum.splits)
qed simp

lemma rest_edits:
  "inv s \<Longrightarrow> \<forall>e \<in> set es. fits e \<Longrightarrow>
   rest (foldl edit_step s es) = (case last_rest es of None \<Rightarrow> rest s | Some w \<Rightarrow> seen_rest w)"
proof (induction es arbitrary: s)
  case (Cons e es)
  have "rest (edit_step s e) = (case e of Inl kv \<Rightarrow> rest s | Inr w \<Rightarrow> seen_rest w)"
    using Cons.prems by (cases e) (auto simp: rest_put rest_set_rest)
  then show ?case
    using Cons.IH [OF inv_step [of s e]] Cons.prems by (auto split: option.splits sum.splits)
qed simp

end

section \<open>The lists behind the operations\<close>

lemma js_findIndex_split:
  assumes "js_findIndex P xs = Some i"
  obtains pre x post where "xs = pre @ x # post" "length pre = i" "P x" "\<forall>y \<in> set pre. \<not> P y"
proof
  have i: "i < length xs" "P (xs ! i)" "\<forall>j < i. \<not> P (xs ! j)" using js_findIndex_Some [OF assms] by auto
  then show "xs = take i xs @ xs ! i # drop (Suc i) xs" by (simp add: id_take_nth_drop)
  from i show "length (take i xs) = i" "P (xs ! i)" by simp_all
  from i show "\<forall>y \<in> set (take i xs). \<not> P y" by (auto simp: in_set_conv_nth)
qed

lemma find_filter: "find P xs = (case filter P xs of [] \<Rightarrow> None | x # _ \<Rightarrow> Some x)"
  by (induction xs) auto

definition forwarding_routes :: "AdvancedCustomConfig \<Rightarrow> AdvancedCustomRoute list" where
  "forwarding_routes c = filter (\<lambda>r. \<not> isAdvancedCustomManagementPath (route_path r)) (normalized_routes c)"

definition head_option :: "'a list \<Rightarrow> 'a option" where
  "head_option xs = (case xs of [] \<Rightarrow> None | x # _ \<Rightarrow> Some x)"

lemma same_path_normalized [simp]:
  "same_path p (map normalizeAdvancedCustomRoute rs) = map normalizeAdvancedCustomRoute (same_path p rs)"
  by (induction rs) (simp_all add: same_path_def route_simps)

lemma get_management:
  "getAdvancedCustomManagementRoute c p =
   head_option (map normalizeAdvancedCustomRoute (same_path p (config_routes c)))"
  unfolding getAdvancedCustomManagementRoute_def find_filter normalized_routes_eq
    same_path_def [symmetric] same_path_normalized head_option_def ..

lemma management_path_trim: "isAdvancedCustomManagementPath p \<Longrightarrow> js_trim p = p"
  by (auto simp: isAdvancedCustomManagementPath_def ADVANCED_CUSTOM_MODEL_LIST_PATH_def
      ADVANCED_CUSTOM_BALANCE_PATH_def js_trim_def js_ws_def)

lemma path_management_route [simp]:
  "isAdvancedCustomManagementPath p \<Longrightarrow> route_path (management_route p r) = p"
  by (simp add: route_path_def management_route_def management_path_trim)

text \<open>Replacing a route of the management changes the first route of its path and nothing else.\<close>

lemma put_lists:
  fixes c v
  assumes "isAdvancedCustomManagementPath p"
  defines "rs' \<equiv> config_routes (replaceAdvancedCustomManagementRoute c p v)"
    and "rs \<equiv> normalized_routes c"
  shows "same_path p rs' = (case v of None \<Rightarrow> [] | Some r \<Rightarrow> [management_route p r]) @ tl (same_path p rs)"
    and "q \<noteq> p \<Longrightarrow> same_path q rs' = same_path q rs"
    and "filter (\<lambda>r. \<not> isAdvancedCustomManagementPath (route_path r)) rs' =
         filter (\<lambda>r. \<not> isAdvancedCustomManagementPath (route_path r)) rs"
    and "set rs' \<subseteq> set rs \<union> (case v of None \<Rightarrow> {} | Some r \<Rightarrow> {management_route p r})"
proof -
  have "same_path p rs' = (case v of None \<Rightarrow> [] | Some r \<Rightarrow> [management_route p r]) @ tl (same_path p rs) \<and>
      (\<forall>q. q \<noteq> p \<longrightarrow> same_path q rs' = same_path q rs) \<and>
      filter (\<lambda>r. \<not> isAdvancedCustomManagementPath (route_path r)) rs' =
        filter (\<lambda>r. \<not> isAdvancedCustomManagementPath (route_path r)) rs \<and>
      set rs' \<subseteq> set rs \<union> (case v of None \<Rightarrow> {} | Some r \<Rightarrow> {management_route p r})"
  proof (cases "js_findIndex (\<lambda>r. route_path r = p) rs")
    case None
    then have "same_path p rs = []" by (simp add: js_findIndex_None same_path_def filter_empty_conv)
    moreover have "rs' = rs @ (case v of None \<Rightarrow> [] | Some r \<Rightarrow> [management_route p r])"
      using None by (simp add: rs'_def rs_def replaceAdvancedCustomManagementRoute_def Let_def split: option.splits)
    ultimately show ?thesis
      using assms(1) by (cases v) (auto simp: same_path_def)
  next
    case (Some i)
    then obtain pre x post where rs: "rs = pre @ x # post" "length pre = i" "route_path x = p"
        "\<forall>y \<in> set pre. route_path y \<noteq> p"
      by (rule js_findIndex_split)
    then have "rs' = pre @ (case v of None \<Rightarrow> [] | Some r \<Rightarrow> [management_route p r]) @ post"
      using Some by (cases v)
        (simp_all add: rs'_def rs_def [symmetric] replaceAdvancedCustomManagementRoute_def Let_def list_update_append)
    moreover have "same_path p pre = []" using rs(4) by (simp add: same_path_def filter_empty_conv)
    ultimately show ?thesis
      using assms(1) rs(1,3) by (cases v) (auto simp: same_path_def)
  qed
  then show "same_path p rs' = (case v of None \<Rightarrow> [] | Some r \<Rightarrow> [management_route p r]) @ tl (same_path p rs)"
    and "q \<noteq> p \<Longrightarrow> same_path q rs' = same_path q rs"
    and "filter (\<lambda>r. \<not> isAdvancedCustomManagementPath (route_path r)) rs' =
         filter (\<lambda>r. \<not> isAdvancedCustomManagementPath (route_path r)) rs"
    and "set rs' \<subseteq> set rs \<union> (case v of None \<Rightarrow> {} | Some r \<Rightarrow> {management_route p r})"
    by blast+
qed

text \<open>Replacing the forwarding keeps the routes of the management and their order.\<close>

lemma forwarding_lists:
  fixes c
  assumes fwd: "\<forall>r \<in> set fs. \<not> isAdvancedCustomManagementPath (route_path r)"
  defines "rs' \<equiv> config_routes (replaceAdvancedCustomForwardingRoutes c fs)"
    and "rs \<equiv> normalized_routes c"
  shows "isAdvancedCustomManagementPath p \<Longrightarrow> same_path p rs' = same_path p rs"
    and "\<not> isAdvancedCustomManagementPath p \<Longrightarrow> same_path p rs' = same_path p fs"
    and "filter (\<lambda>r. \<not> isAdvancedCustomManagementPath (route_path r)) rs' = fs"
    and "set rs' = {r \<in> set rs. isAdvancedCustomManagementPath (route_path r)} \<union> set fs"
proof -
  let ?m = "\<lambda>r. isAdvancedCustomManagementPath (route_path r)"
  obtain n where rs': "rs' = filter ?m (take n rs) @ fs @ filter ?m (drop n rs)"
  proof (cases "js_findIndex (\<lambda>r. \<not> ?m r) rs")
    case None
    then have "rs' = filter ?m (take (length rs) rs) @ fs @ filter ?m (drop (length rs) rs)"
      by (simp add: rs'_def rs_def replaceAdvancedCustomForwardingRoutes_def Let_def)
    then show ?thesis by (rule that)
  next
    case (Some i)
    then have "rs' = filter ?m (take i rs) @ fs @ filter ?m (drop i rs)"
      by (simp add: rs'_def rs_def replaceAdvancedCustomForwardingRoutes_def Let_def)
    then show ?thesis by (rule that)
  qed
  have restrict: "same_path p (filter ?m xs) = (if isAdvancedCustomManagementPath p then same_path p xs else [])"
    for p xs by (induction xs) (auto simp: same_path_def)
  have "same_path p fs = []" if "isAdvancedCustomManagementPath p" for p
    using fwd that by (auto simp: same_path_def filter_empty_conv)
  moreover have append: "same_path p (xs @ ys) = same_path p xs @ same_path p ys" for p xs ys
    by (simp add: same_path_def)
  ultimately show "isAdvancedCustomManagementPath p \<Longrightarrow> same_path p rs' = same_path p rs"
    by (simp add: rs' restrict append append [of _ "take n rs" "drop n rs", simplified, symmetric])
  show "\<not> isAdvancedCustomManagementPath p \<Longrightarrow> same_path p rs' = same_path p fs"
    by (simp add: rs' restrict append)
  show "filter (\<lambda>r. \<not> ?m r) rs' = fs"
    using fwd by (simp add: rs')
  have "set rs = set (take n rs) \<union> set (drop n rs)" by (metis append_take_drop_id set_append)
  then show "set rs' = {r \<in> set rs. ?m r} \<union> set fs" by (auto simp: rs')
qed

section \<open>The routes as an instance\<close>

lemma route_wf_normalized [simp]: "route_wf hp (normalizeAdvancedCustomRoute r) = route_wf hp r"
  using normalized_parts [of r] by (simp add: route_wf_def validateRouteAuth_wf [symmetric])

lemma path_wf_normalized [simp]: "path_wf (map normalizeAdvancedCustomRoute rs) = path_wf rs"
  by (simp add: path_wf_def map_butlast [symmetric] comp_def route_simps)

lemma routes_wf_normalized [simp]: "routes_wf hp (map normalizeAdvancedCustomRoute rs) = routes_wf hp rs"
  by (simp add: routes_wf_all_paths)

lemma management_unique:
  assumes "routes_wf hp rs" and "isAdvancedCustomManagementPath p"
  shows "tl (same_path p rs) = []"
proof -
  have "route_models r = []" if "r \<in> set (same_path p rs)" for r
    using assms that by (auto simp: routes_wf_def route_wf_def same_path_def)
  moreover have "route_models r \<noteq> []" if "r \<in> set (butlast (same_path p rs))" for r
    using assms(1) that by (auto simp: routes_wf_all_paths path_wf_def)
  ultimately have "r \<notin> set (butlast (same_path p rs))" for r by (blast dest: in_set_butlastD)
  then have "butlast (same_path p rs) = []" by (cases "butlast (same_path p rs)") auto
  then have "length (same_path p rs) - 1 = 0" by (metis length_butlast list.size(3))
  then show ?thesis by (metis length_0_conv length_tl)
qed

lemma path_wf_single: "route_models r = [] \<Longrightarrow> path_wf [r]"
  by (simp add: path_wf_def)

text \<open>The edits that the dialog makes on the parts of a configuration.\<close>

type_synonym route_edit = "(string, AdvancedCustomRoute, AdvancedCustomRoute list) edit"

definition edit_route :: "AdvancedCustomConfig \<Rightarrow> route_edit \<Rightarrow> AdvancedCustomConfig" where
  "edit_route c e = (case e of
      Inl (p, v) \<Rightarrow> replaceAdvancedCustomManagementRoute c p v
    | Inr fs \<Rightarrow> replaceAdvancedCustomForwardingRoutes c fs)"

definition route_edit_fits :: "(string \<Rightarrow> string option) \<Rightarrow> route_edit \<Rightarrow> bool" where
  "route_edit_fits hp e = (case e of
      Inl (p, v) \<Rightarrow> isAdvancedCustomManagementPath p \<and>
        (case v of None \<Rightarrow> True | Some r \<Rightarrow> route_wf hp (management_route p r))
    | Inr fs \<Rightarrow> (\<forall>r \<in> set fs. \<not> isAdvancedCustomManagementPath (route_path r)) \<and> routes_wf hp fs)"

lemma put_keeps_wf:
  assumes wf: "routes_wf hp (config_routes c)" and fits: "route_edit_fits hp (Inl (p, v))"
  shows "routes_wf hp (config_routes (replaceAdvancedCustomManagementRoute c p v))"
proof -
  have p: "isAdvancedCustomManagementPath p" using fits by (simp add: route_edit_fits_def)
  have rs: "routes_wf hp (normalized_routes c)" using wf by (simp add: normalized_routes_eq)
  note lists = put_lists [OF p, where c = c and v = v]
  have "path_wf (same_path q (config_routes (replaceAdvancedCustomManagementRoute c p v)))" for q
    using lists(1) lists(2) [of q] rs management_unique [OF rs p]
    by (cases "q = p"; cases v) (auto simp: routes_wf_all_paths management_route_def intro: path_wf_single)
  moreover have "route_wf hp r" if "r \<in> set (config_routes (replaceAdvancedCustomManagementRoute c p v))" for r
    using that lists(4) rs fits by (cases v) (auto simp: routes_wf_def route_edit_fits_def)
  ultimately show ?thesis by (simp add: routes_wf_all_paths)
qed

lemma forwarding_keeps_wf:
  assumes wf: "routes_wf hp (config_routes c)" and fits: "route_edit_fits hp (Inr fs)"
  shows "routes_wf hp (config_routes (replaceAdvancedCustomForwardingRoutes c fs))"
proof -
  have fs: "\<forall>r \<in> set fs. \<not> isAdvancedCustomManagementPath (route_path r)" "routes_wf hp fs"
    using fits by (simp_all add: route_edit_fits_def)
  have rs: "routes_wf hp (normalized_routes c)" using wf by (simp add: normalized_routes_eq)
  note lists = forwarding_lists [OF fs(1), where c = c]
  have "path_wf (same_path q (config_routes (replaceAdvancedCustomForwardingRoutes c fs)))" for q
    using lists(1,2) [of q] rs fs(2)
    by (cases "isAdvancedCustomManagementPath q") (auto simp: routes_wf_all_paths)
  moreover have "route_wf hp r" if "r \<in> set (config_routes (replaceAdvancedCustomForwardingRoutes c fs))" for r
    using that lists(4) rs fs(2) by (auto simp: routes_wf_def)
  ultimately show ?thesis by (simp add: routes_wf_all_paths)
qed

lemma forwarding_routes_eq:
  "forwarding_routes c = map normalizeAdvancedCustomRoute
     (filter (\<lambda>r. \<not> isAdvancedCustomManagementPath (route_path r)) (config_routes c))"
  by (simp add: forwarding_routes_def normalized_routes_eq filter_map comp_def route_simps)

lemma forwarding_routes_normalized:
  "map normalizeAdvancedCustomRoute
     (filter (\<lambda>r. \<not> isAdvancedCustomManagementPath (route_path r)) (normalized_routes c)) = forwarding_routes c"
  by (simp add: forwarding_routes_eq normalized_routes_eq filter_map comp_def route_simps)

lemma get_management_normalized:
  "getAdvancedCustomManagementRoute c p =
   head_option (map normalizeAdvancedCustomRoute (same_path p (normalized_routes c)))"
  by (simp add: get_management normalized_routes_eq comp_def)

interpretation edits: slots
  "\<lambda>c. routes_wf hp (config_routes c)" "route_edit_fits hp" isAdvancedCustomManagementPath
  getAdvancedCustomManagementRoute replaceAdvancedCustomManagementRoute
  forwarding_routes replaceAdvancedCustomForwardingRoutes
  "\<lambda>p r. normalizeAdvancedCustomRoute (management_route p r)" "map normalizeAdvancedCustomRoute"
  for hp
proof
  fix c p q v fs
  let ?inv = "routes_wf hp (config_routes c)"
  let ?put = "replaceAdvancedCustomManagementRoute c p v" and ?set = "replaceAdvancedCustomForwardingRoutes c fs"
  show slot: "isAdvancedCustomManagementPath p" if "route_edit_fits hp (Inl (p, v))"
    using that by (simp add: route_edit_fits_def)
  show "routes_wf hp (config_routes ?put)" if "?inv" "route_edit_fits hp (Inl (p, v))"
    using that by (rule put_keeps_wf)
  show "routes_wf hp (config_routes ?set)" if "?inv" "route_edit_fits hp (Inr fs)"
    using that by (rule forwarding_keeps_wf)
  show "getAdvancedCustomManagementRoute ?put p =
      map_option (\<lambda>r. normalizeAdvancedCustomRoute (management_route p r)) v"
    if "?inv" "route_edit_fits hp (Inl (p, v))"
    using put_lists(1) [OF slot [OF that(2)], where c = c and v = v] that(1)
      management_unique [OF _ slot [OF that(2)], of hp "normalized_routes c"]
    by (cases v) (simp_all add: get_management head_option_def normalized_routes_eq)
  show "getAdvancedCustomManagementRoute ?put q = getAdvancedCustomManagementRoute c q"
    if "?inv" "route_edit_fits hp (Inl (p, v))" "q \<noteq> p"
    using put_lists(2) [OF slot [OF that(2)] that(3)] by (simp add: get_management [of ?put] get_management_normalized [of c])
  show "forwarding_routes ?put = forwarding_routes c" if "?inv" "route_edit_fits hp (Inl (p, v))"
    using put_lists(3) [OF slot [OF that(2)], where c = c and v = v]
    by (simp add: forwarding_routes_eq [of ?put] forwarding_routes_normalized)
  show "getAdvancedCustomManagementRoute ?set p = getAdvancedCustomManagementRoute c p"
    if "?inv" "route_edit_fits hp (Inr fs)" "isAdvancedCustomManagementPath p"
    using forwarding_lists(1) [where c = c and fs = fs and p = p] that
    by (simp add: get_management [of ?set] get_management_normalized [of c] route_edit_fits_def)
  show "forwarding_routes ?set = map normalizeAdvancedCustomRoute fs" if "?inv" "route_edit_fits hp (Inr fs)"
    using forwarding_lists(3) [where c = c and fs = fs] that
    by (simp add: forwarding_routes_eq route_edit_fits_def)
qed

lemma edits_fold:
  "foldl edit_route c es =
   foldl (\<lambda>c e. case e of Inl (p, v) \<Rightarrow> replaceAdvancedCustomManagementRoute c p v
     | Inr fs \<Rightarrow> replaceAdvancedCustomForwardingRoutes c fs) c es"
  by (simp add: edit_route_def [abs_def])

section \<open>Properties\<close>

lemma validation_None:
  "validateAdvancedCustomConfig hp (Some c) = None \<longleftrightarrow> config_routes c \<noteq> [] \<and> routes_wf hp (config_routes c)"
proof -
  have "routes_wf hp (xs @ ys) \<Longrightarrow> routes_wf hp xs" for xs ys
    by (induction ys rule: rev_induct) (simp_all add: routes_wf_snoc flip: append_assoc)
  then have "routes_wf hp rs \<Longrightarrow> routes_wf hp (take n rs)" for n rs by (metis append_take_drop_id)
  then show ?thesis
    using validation_cases [where hp = hp and c = c] by (auto split: option.splits)
qed

text \<open>
  C12. The validation accepts a configuration exactly if it has a route and its routes satisfy
  the declarative predicate \<open>routes_wf\<close>: every route is well-formed by itself, and among the routes
  of one path no model is named twice and only the last one may serve all models. An error without
  an index says that there is no route; an error with an index points to the first route up to
  which the list is not valid.
\<close>

theorem validation_exact:
  "(validateAdvancedCustomConfig hp (Some c) = None \<longleftrightarrow> config_routes c \<noteq> [] \<and> routes_wf hp (config_routes c)) \<and>
   (case validateAdvancedCustomConfig hp (Some c) of
      None \<Rightarrow> True
    | Some e \<Rightarrow>
        (case acv_routeIndex e of
           None \<Rightarrow> config_routes c = []
         | Some i \<Rightarrow> i < length (config_routes c) \<and> routes_wf hp (take i (config_routes c)) \<and>
             \<not> routes_wf hp (take (Suc i) (config_routes c))))"
  using validation_None [of hp c] validation_cases [where hp = hp and c = c] by (auto split: option.splits)


text \<open>The model list is added to the initial configuration, the forwarding is replaced, and the model
  list gets other credentials.\<close>

definition example_edits :: "route_edit list" where
  "example_edits =
     [Inl (''/v1/models'', Some (createAdvancedCustomManagementRoute ''/v1/models'')),
      Inr createClaudeNativeRoutes,
      Inl (''/v1/models'', Some \<lparr>acr_incoming_path = None, acr_upstream_path = Some ''/models '',
        acr_converter = None, acr_models = None, acr_auth = Some apiKeyHeaderAuth\<rparr>)]"


lemma route_labels_spec:
  "case route_labels rs labels of
     Inl e \<Rightarrow> \<not> (\<forall>r \<in> set rs. route_path r \<notin> set inherited_names)
   | Inr labels' \<Rightarrow> distinct labels \<longrightarrow> distinct labels'"
proof (induction rs arbitrary: labels)
  case (Cons r rs)
  show ?case
  proof (cases "getAdvancedCustomRouteSummaryLabel r")
    case (Inl e)
    then have "route_path r \<in> set inherited_names"
      by (auto simp: getAdvancedCustomRouteSummaryLabel_def Let_def split: if_splits option.splits)
    with Inl show ?thesis by simp
  next
    case (Inr label)
    then show ?thesis
      using Cons.IH [of labels] Cons.IH [of "labels @ [opt_str label]"] by (auto split: sum.splits)
  qed
qed simp

text \<open>
  C24. The text under which a configuration is saved is read back as the normalised
  configuration, which prints to the same text and gets the same verdict of the validation. The summary of the
  text counts the routes, agrees with the validation and lists no label twice; it fails only for a route whose path is
  the name of a property that every object inherits.
\<close>

theorem config_read_back:
  "parseAdvancedCustomConfig (Some (stringifyAdvancedCustomConfig c)) = Inr (Some (normalizeAdvancedCustomConfig c)) \<and>
   stringifyAdvancedCustomConfig (normalizeAdvancedCustomConfig c) = stringifyAdvancedCustomConfig c \<and>
   validateAdvancedCustomConfig hp (Some (normalizeAdvancedCustomConfig c)) = validateAdvancedCustomConfig hp (Some c) \<and>
   (case getAdvancedCustomStats hp (Some (stringifyAdvancedCustomConfig c)) of
      Inl e \<Rightarrow> set (map route_path (config_routes c)) \<inter> set inherited_names \<noteq> {}
    | Inr s \<Rightarrow> acs_routeCount s = length (config_routes c) \<and>
        (acs_valid s \<longleftrightarrow> validateAdvancedCustomConfig hp (Some c) = None) \<and> distinct (acs_routeTypeLabels s))"
proof -
  have routes: "nullish (advanced_routes (normalizeAdvancedCustomConfig c)) [] =
      map normalizeAdvancedCustomRoute (config_routes c)"
    by (simp add: normalize_config_eq config_of_def)
  have "case getAdvancedCustomStats hp (Some (stringifyAdvancedCustomConfig c)) of
      Inl e \<Rightarrow> set (map route_path (config_routes c)) \<inter> set inherited_names \<noteq> {}
    | Inr s \<Rightarrow> acs_routeCount s = length (config_routes c) \<and>
        (acs_valid s \<longleftrightarrow> validateAdvancedCustomConfig hp (Some c) = None) \<and> distinct (acs_routeTypeLabels s)"
    using route_labels_spec [where rs = "map normalizeAdvancedCustomRoute (config_routes c)" and labels = "[]"]
    by (cases "route_labels (map normalizeAdvancedCustomRoute (config_routes c)) []")
       (auto simp: getAdvancedCustomStats_def parse_stringified Let_def routes route_simps)
  moreover have "stringifyAdvancedCustomConfig (normalizeAdvancedCustomConfig c) = stringifyAdvancedCustomConfig c"
    by (simp add: stringifyAdvancedCustomConfig_def)
  ultimately show ?thesis using parse_stringified by simp
qed

lemma templates_valid:
  "validateAdvancedCustomConfig hp (Some (getAdvancedCustomTemplateConfig key)) = None"
proof -
  have fresh: "isFullHttpURLOrAbsolutePath hp s = isFullHttpURLOrAbsolutePath (\<lambda>_. None) s" if "prefix ''/'' s" for s
    using that by (simp add: isFullHttpURLOrAbsolutePath_def)
  have abs: "route_wf hp r = route_wf (\<lambda>_. None) r" if "prefix ''/'' (getAdvancedCustomRouteUpstreamPath r)" for r
    using fresh [OF that] by (simp add: route_wf_def)
  have lift: "validateAdvancedCustomConfig hp (Some c) = None"
    if "\<forall>r \<in> set (config_routes c). prefix ''/'' (getAdvancedCustomRouteUpstreamPath r)"
      and "validateAdvancedCustomConfig (\<lambda>_. None) (Some c) = None" for c
    using that abs by (auto simp: validation_None routes_wf_def)
  have "\<forall>c \<in> set (map (\<lambda>x. snd (snd x)) ADVANCED_CUSTOM_TEMPLATE_OPTIONS).
      (\<forall>r \<in> set (config_routes c). prefix ''/'' (getAdvancedCustomRouteUpstreamPath r)) \<and>
      validateAdvancedCustomConfig (\<lambda>_. None) (Some c) = None"
    by code_simp
  moreover have "getAdvancedCustomTemplateConfig key \<in>
      set (map (\<lambda>x. snd (snd x)) ADVANCED_CUSTOM_TEMPLATE_OPTIONS)"
    by (auto simp: getAdvancedCustomTemplateConfig_def ADVANCED_CUSTOM_TEMPLATE_OPTIONS_def)
  ultimately show ?thesis using lift by blast
qed

text \<open>The path a converter starts from is one that the converter accepts.\<close>

lemma default_path_allowed: "isConverterPathAllowed (getDefaultAdvancedCustomIncomingPath k) k"
  by (cases k; simp only:; code_simp)

end
