(* ===== verification/Advanced_Editor_Proofs.thy ===== *)
theory Advanced_Editor_Proofs
  imports Advanced_Editor Advanced_Routes "HOL-Library.Multiset"
begin

text \<open>
  What the dialog guarantees: only valid configurations are saved, whatever the administrator
  does, and the button that fixes the order of the routes finds a valid order if there is one.
\<close>

lemma getRouteIncomingPath_eq [simp]: "getRouteIncomingPath = route_path"
  by (rule ext) (simp add: getRouteIncomingPath_def route_path_def)

lemma row_path_eq: "row_path row = route_path (arr_route row)"
  by (simp add: row_path_def)

section \<open>What is saved\<close>

definition saved_wf :: "(string \<Rightarrow> string option) \<Rightarrow> string \<Rightarrow> bool" where
  "saved_wf hp text \<longleftrightarrow> (\<exists>c. parseAdvancedCustomConfig (Some text) = Inr (Some c) \<and>
     validateAdvancedCustomConfig hp (Some c) = None \<and> stringifyAdvancedCustomConfig c = text)"

lemma saved_wf_stringify:
  assumes "validateAdvancedCustomConfig hp (Some c) = None"
  shows "saved_wf hp (stringifyAdvancedCustomConfig c)"
  unfolding saved_wf_def
proof (intro exI [of _ "normalizeAdvancedCustomConfig c"] conjI)
  show "stringifyAdvancedCustomConfig (normalizeAdvancedCustomConfig c) = stringifyAdvancedCustomConfig c"
    by (simp add: stringifyAdvancedCustomConfig_def)
qed (use assms parse_stringified in simp_all)

lemma new_keys_saved [simp]: "ed_saved (set_new_keys n st) = ed_saved st"
proof -
  have "ed_saved (snd (createRouteKeys n st)) = ed_saved st"
    by (induction n arbitrary: st) (simp_all add: createRouteKey_def Let_def case_prod_unfold)
  then show ?thesis by (simp add: set_new_keys_def case_prod_unfold)
qed

lemma parseJson_saved:
  assumes "parseJsonEditorConfig hp t st = Inr (x, st')"
  shows "ed_saved st' = ed_saved st" and "x = Some c \<Longrightarrow> validateAdvancedCustomConfig hp (Some c) = None"
  using assms by (auto simp: parseJsonEditorConfig_def split: sum.splits option.splits)

lemma updates_saved [simp]:
  "ed_saved (replaceRoutes rs ks st) = ed_saved st" "ed_saved (append_route p st) = ed_saved st"
  "ed_saved (removeRoute i st) = ed_saved st" "ed_saved (swapRoutes i j st) = ed_saved st"
  "ed_saved (updateGroupIncomingPath g q st) = ed_saved st" "ed_saved (fixCatchAllOrder st) = ed_saved st"
  "ed_saved (applySelectedTemplate st) = ed_saved st" "ed_saved (addRoute x st) = ed_saved st"
  "ed_saved (addRouteForIncomingPath p st) = ed_saved st"
  by (simp_all add: replaceRoutes_def append_route_def createRouteKey_def Let_def removeRoute_def swapRoutes_def
      updateGroupIncomingPath_def fixCatchAllOrder_def applySelectedTemplate_def addRoute_def
      addRouteForIncomingPath_def)

lemma open_saved: "open_editor text st = Inr st' \<Longrightarrow> ed_saved st' = ed_saved st"
  by (cases "parsed_or_new text") (auto simp: open_editor_def Let_def)

lemma rows_saved:
  "updateRoute i patch st = Inr st' \<Longrightarrow> ed_saved st' = ed_saved st"
  "moveRouteWithinGroup i d st = Inr st' \<Longrightarrow> ed_saved st' = ed_saved st"
  "moveRouteToGroupEnd i st = Inr st' \<Longrightarrow> ed_saved st' = ed_saved st"
  by (auto simp: updateRoute_def moveRouteWithinGroup_def moveRouteToGroupEnd_def Let_def
      split: if_splits option.splits)

lemma switch_saved: "switchTab hp t tab st = Inr st' \<Longrightarrow> ed_saved st' = ed_saved st"
  by (auto simp: switchTab_def Let_def parseJson_saved split: if_splits sum.splits option.splits)

lemma save_saved:
  assumes "editor_saveConfig hp t st = Inr st'"
  shows "ed_saved st' = ed_saved st \<or> (\<exists>text. ed_saved st' = ed_saved st @ [text] \<and> saved_wf hp text)"
proof (cases "ed_activeTab st = TabJson")
  case True
  then show ?thesis
    using assms parseJson_saved [of hp t st] saved_wf_stringify [of hp]
    by (fastforce simp: editor_saveConfig_def split: sum.splits option.splits prod.splits)
next
  case False
  then show ?thesis
    using assms saved_wf_stringify [of hp "normalizeAdvancedCustomConfig (ed_config st)"]
    by (auto simp: editor_saveConfig_def validationError_def split: option.splits)
qed

lemma step_saved:
  assumes "editor_step hp t e st = Inr st'" and "\<forall>text \<in> set (ed_saved st). saved_wf hp text"
  shows "\<forall>text \<in> set (ed_saved st'). saved_wf hp text"
proof (cases "e = SaveClicked")
  case True
  then show ?thesis using save_saved [of hp t st st'] assms by (auto simp: editor_step_def)
next
  case False
  then have "ed_saved st' = ed_saved st"
    using assms(1) open_saved rows_saved switch_saved
    by (cases e) (auto simp: editor_step_def handleJsonChange_def selectTemplate_def changeManagementRoute_def)
  then show ?thesis using assms(2) by simp
qed

lemma run_saved:
  "run_editor hp t es st = Inr st' \<Longrightarrow> \<forall>text \<in> set (ed_saved st). saved_wf hp text \<Longrightarrow>
   \<forall>text \<in> set (ed_saved st'). saved_wf hp text"
  by (induction es arbitrary: st) (auto split: sum.splits dest: step_saved)

section \<open>Fixing the order\<close>

subsection \<open>Queues by path\<close>

definition queue :: "row_queues \<Rightarrow> string \<Rightarrow> AdvancedCustomRouteRow list" where
  "queue m p = nullish (map_of m p) []"

abbreviation rows_of :: "string \<Rightarrow> AdvancedCustomRouteRow list \<Rightarrow> AdvancedCustomRouteRow list" where
  "rows_of p rows \<equiv> filter (\<lambda>row. row_path row = p) rows"

lemma queue_update [simp]: "queue (AList.update p rows m) q = (if q = p then rows else queue m q)"
  by (simp add: queue_def update_conv')

lemma rows_by_path_snoc:
  "rows_by_path (rows @ [row]) =
   AList.update (row_path row) (queue (rows_by_path rows) (row_path row) @ [row]) (rows_by_path rows)"
  by (simp add: rows_by_path_def queue_def)

lemma queue_rows_by_path: "queue (rows_by_path rows) p = rows_of p rows"
proof (induction rows arbitrary: p rule: rev_induct)
  case Nil
  then show ?case by (simp add: rows_by_path_def queue_def)
qed (simp add: rows_by_path_snoc)

lemma distinct_rows_by_path: "distinct (map fst (rows_by_path rows))"
proof (induction rows rule: rev_induct)
  case Nil
  then show ?case by (simp add: rows_by_path_def)
qed (simp add: rows_by_path_snoc distinct_update)

lemma catch_all_last_Nil [simp]: "catch_all_last [] = []"
  by (simp add: catch_all_last_def)

lemma mset_catch_all_last [simp]: "mset (catch_all_last rows) = mset rows"
  by (induction rows) (auto simp: catch_all_last_def)

lemma length_catch_all_last [simp]: "length (catch_all_last rows) = length rows"
  using mset_catch_all_last [of rows] by (metis size_mset)

lemma map_of_ordered:
  "distinct (map fst m) \<Longrightarrow>
   queue (foldl (\<lambda>acc (path, rows). AList.update path (catch_all_last rows) acc) acc m) p =
     (case map_of m p of None \<Rightarrow> queue acc p | Some rows \<Rightarrow> catch_all_last rows)"
proof (induction m arbitrary: acc)
  case (Cons x m)
  then have "map_of m (fst x) = None" by (auto simp: map_of_eq_None_iff)
  then show ?case using Cons by (cases x) (auto split: option.splits)
qed simp

lemma queue_ordered:
  "queue (ordered_rows_by_path (rows_by_path rows)) p = catch_all_last (rows_of p rows)"
  using map_of_ordered [OF distinct_rows_by_path, of "[]" rows p] queue_rows_by_path [of rows p]
  by (auto simp: ordered_rows_by_path_def queue_def split: option.splits)

lemma take_ordered_spec:
  assumes "\<And>p. length (queue m p) = length (rows_of p rows)"
    and "\<And>p row. row \<in> set (queue m p) \<Longrightarrow> row_path row = p"
  shows "rows_of p (take_ordered m rows) = queue m p"
    and "map row_path (take_ordered m rows) = map row_path rows"
proof -
  have "(\<forall>p. rows_of p (take_ordered m rows) = queue m p) \<and>
      map row_path (take_ordered m rows) = map row_path rows"
    using assms
  proof (induction rows arbitrary: m)
    case (Cons row rows)
    let ?p = "row_path row"
    have "queue m ?p \<noteq> []" using Cons.prems(1) [of ?p] by auto
    then obtain x xs where q: "map_of m ?p = Some (x # xs)" "queue m ?p = x # xs"
      by (cases "map_of m ?p"; cases "queue m ?p") (auto simp: queue_def)
    let ?m = "AList.update ?p xs m"
    have x: "row_path x = ?p" using Cons.prems(2) q(2) by simp
    have "(\<forall>p. rows_of p (take_ordered ?m rows) = queue ?m p) \<and>
        map row_path (take_ordered ?m rows) = map row_path rows"
    proof (rule Cons.IH)
      show "length (queue ?m p) = length (rows_of p rows)" for p
        using Cons.prems(1) [of p] q(2) by (cases "p = ?p") auto
      show "row_path y = p" if "y \<in> set (queue ?m p)" for p y
        using Cons.prems(2) [of y p] that q(2) by (cases "p = ?p") auto
    qed
    then show ?case using q x by auto
  qed (simp add: queue_def)
  then show "rows_of p (take_ordered m rows) = queue m p"
    and "map row_path (take_ordered m rows) = map row_path rows"
    by blast+
qed

subsection \<open>Back into their places\<close>

abbreviation managed :: "AdvancedCustomRouteRow \<Rightarrow> bool" where
  "managed row \<equiv> isAdvancedCustomManagementPath (row_path row)"

lemma place_rows_spec:
  assumes "length ordered = length (filter (\<lambda>row. \<not> managed row) rows)" and "\<forall>row \<in> set ordered. \<not> managed row"
  shows "filter managed (place_rows ordered rows) = filter managed rows"
    and "filter (\<lambda>row. \<not> managed row) (place_rows ordered rows) = ordered"
proof -
  have "filter managed (place_rows ordered rows) = filter managed rows \<and>
      filter (\<lambda>row. \<not> managed row) (place_rows ordered rows) = ordered"
    using assms by (induction ordered rows rule: place_rows.induct) (auto split: if_splits list.splits)
  then show "filter managed (place_rows ordered rows) = filter managed rows"
    and "filter (\<lambda>row. \<not> managed row) (place_rows ordered rows) = ordered"
    by blast+
qed

definition fixed_rows :: "EditorState \<Rightarrow> AdvancedCustomRouteRow list" where
  "fixed_rows st = place_rows
     (take_ordered (ordered_rows_by_path (rows_by_path (routeRows st))) (routeRows st)) (allRouteRows st)"

lemma rows_of_routeRows:
  "rows_of p (routeRows st) = (if isAdvancedCustomManagementPath p then [] else rows_of p (allRouteRows st))"
  by (auto simp: routeRows_def filter_empty_conv intro: filter_cong)

lemma taken_rows:
  defines "m st \<equiv> ordered_rows_by_path (rows_by_path (routeRows st))"
  shows "rows_of p (take_ordered (m st) (routeRows st)) = catch_all_last (rows_of p (routeRows st))"
    and "map row_path (take_ordered (m st) (routeRows st)) = map row_path (routeRows st)"
proof -
  have "length (queue (m st) p) = length (rows_of p (routeRows st))" for p
    by (simp add: m_def queue_ordered)
  moreover have "row_path row = p" if "row \<in> set (queue (m st) p)" for row p
    using that by (auto simp: m_def queue_ordered catch_all_last_def)
  ultimately show "rows_of p (take_ordered (m st) (routeRows st)) = catch_all_last (rows_of p (routeRows st))"
    and "map row_path (take_ordered (m st) (routeRows st)) = map row_path (routeRows st)"
    using take_ordered_spec [of "m st" "routeRows st"] queue_ordered [of "routeRows st" p]
    unfolding m_def by metis+
qed

lemma fixed_places:
  "filter managed (fixed_rows st) = filter managed (allRouteRows st)"
  "filter (\<lambda>row. \<not> managed row) (fixed_rows st) =
     take_ordered (ordered_rows_by_path (rows_by_path (routeRows st))) (routeRows st)"
proof -
  let ?taken = "take_ordered (ordered_rows_by_path (rows_by_path (routeRows st))) (routeRows st)"
  have "length ?taken = length (routeRows st)" using taken_rows(2) [of st] by (metis length_map)
  moreover have "\<forall>row \<in> set ?taken. \<not> managed row"
  proof
    fix row assume "row \<in> set ?taken"
    then have "row_path row \<in> set (map row_path ?taken)" by simp
    then have "row_path row \<in> set (map row_path (routeRows st))" unfolding taken_rows(2) .
    then show "\<not> managed row" by (auto simp: routeRows_def)
  qed
  ultimately show "filter managed (fixed_rows st) = filter managed (allRouteRows st)"
      "filter (\<lambda>row. \<not> managed row) (fixed_rows st) = ?taken"
    unfolding fixed_rows_def
    using place_rows_spec [of ?taken "allRouteRows st"]
    unfolding routeRows_def [symmetric] by blast+
qed

lemma rows_of_fixed:
  "rows_of p (fixed_rows st) =
   (if isAdvancedCustomManagementPath p then rows_of p (allRouteRows st)
    else catch_all_last (rows_of p (allRouteRows st)))"
proof (cases "isAdvancedCustomManagementPath p")
  case True
  have "rows_of p xs = rows_of p (filter managed xs)" for xs using True by (auto intro: filter_cong)
  from this [of "fixed_rows st"] this [of "allRouteRows st"] show ?thesis
    using True by (simp only: fixed_places(1) if_True)
next
  case False
  have "rows_of p xs = rows_of p (filter (\<lambda>row. \<not> managed row) xs)" for xs
    using False by (auto intro: filter_cong)
  from this [of "fixed_rows st"] have "rows_of p (fixed_rows st) = catch_all_last (rows_of p (routeRows st))"
    by (simp only: fixed_places(2) taken_rows(1))
  then show ?thesis using False by (simp add: rows_of_routeRows)
qed

lemma map_allRouteRows: "map arr_route (allRouteRows st) = editor_routes st"
  by (simp add: allRouteRows_def comp_def case_prod_unfold)

lemma same_path_rows: "same_path p (map arr_route rows) = map arr_route (rows_of p rows)"
  by (simp add: same_path_def filter_map comp_def row_path_eq)

subsection \<open>The routes afterwards\<close>

lemma editor_routes_normalized: "r \<in> set (editor_routes st) \<Longrightarrow> normalizeAdvancedCustomRoute r = r"
  by (auto simp: editor_routes_def normalized_routes_eq)

lemma catch_all_iff:
  assumes "normalizeAdvancedCustomRoute r = r"
  shows "isCatchAllRoute r \<longleftrightarrow> route_models r = []"
proof -
  have "acr_models r = (if route_models r \<noteq> [] then Some (route_models r) else None)"
    by (subst (1) assms [symmetric]) (simp add: normalizeAdvancedCustomRoute_def Let_def)
  then show ?thesis by (auto simp: isCatchAllRoute_def)
qed

lemma mset_by_path:
  assumes "\<And>p. mset (same_path p xs) = mset (same_path p ys)"
  shows "mset xs = mset ys"
proof (rule multiset_eqI)
  fix r
  have "count (mset zs) r = count (mset (same_path (route_path r) zs)) r" for zs
    by (simp add: same_path_def)
  then show "count (mset xs) r = count (mset ys) r" using assms [of "route_path r"] by metis
qed

lemma fixed_routes:
  fixes st
  defines "rs \<equiv> editor_routes st" and "rs' \<equiv> editor_routes (fixCatchAllOrder st)"
  shows "mset rs' = mset rs"
    and "isAdvancedCustomManagementPath p \<Longrightarrow> same_path p rs' = same_path p rs"
    and "\<not> isAdvancedCustomManagementPath p \<Longrightarrow> same_path p rs' =
      filter (\<lambda>r. route_models r \<noteq> []) (same_path p rs) @ filter (\<lambda>r. route_models r = []) (same_path p rs)"
proof -
  have "config_routes (ed_config (fixCatchAllOrder st)) = map arr_route (fixed_rows st)"
    by (simp add: fixCatchAllOrder_def Let_def replaceRoutes_def fixed_rows_def)
  then have rs': "rs' = map normalizeAdvancedCustomRoute (map arr_route (fixed_rows st))"
    by (simp add: rs'_def editor_routes_def normalized_routes_eq)
  have path: "same_path p rs' = map normalizeAdvancedCustomRoute (map arr_route
      (if isAdvancedCustomManagementPath p then rows_of p (allRouteRows st)
       else catch_all_last (rows_of p (allRouteRows st))))" for p
    unfolding rs' same_path_normalized same_path_rows rows_of_fixed ..
  have old: "map arr_route (rows_of p (allRouteRows st)) = same_path p rs" for p
    by (simp add: same_path_rows [symmetric] map_allRouteRows rs_def)
  have normal: "normalizeAdvancedCustomRoute r = r" if "r \<in> set (same_path p rs)" for r p
    using that editor_routes_normalized [of r st] by (simp add: same_path_def rs_def)
  have keep: "map normalizeAdvancedCustomRoute (map arr_route xs) = map arr_route xs"
    if "set xs \<subseteq> set (rows_of p (allRouteRows st))" for xs p
  proof (rule map_idI)
    fix r assume "r \<in> set (map arr_route xs)"
    then have "r \<in> set (map arr_route (rows_of p (allRouteRows st)))"
      using that unfolding set_map by blast
    then show "normalizeAdvancedCustomRoute r = r" unfolding old by (rule normal)
  qed
  show managed: "same_path p rs' = same_path p rs" if "isAdvancedCustomManagementPath p" for p
    using path [of p] keep [of "rows_of p (allRouteRows st)" p] old [of p] that by simp
  show sorted: "same_path p rs' =
      filter (\<lambda>r. route_models r \<noteq> []) (same_path p rs) @ filter (\<lambda>r. route_models r = []) (same_path p rs)"
    if "\<not> isAdvancedCustomManagementPath p" for p
  proof -
    have "same_path p rs' = map arr_route (catch_all_last (rows_of p (allRouteRows st)))"
      using path [of p] keep [of "catch_all_last (rows_of p (allRouteRows st))" p] that
      by (auto simp: catch_all_last_def)
    also have "\<dots> = filter (\<lambda>r. \<not> isCatchAllRoute r) (same_path p rs) @ filter isCatchAllRoute (same_path p rs)"
      by (simp add: catch_all_last_def old [symmetric] filter_map comp_def)
    finally show ?thesis
      using catch_all_iff normal [of _ p] by (metis (mono_tags, lifting) filter_cong)
  qed
  show "mset rs' = mset rs"
  proof (rule mset_by_path)
    fix p
    show "mset (same_path p rs') = mset (same_path p rs)"
      using managed [of p] sorted [of p]
      by (cases "isAdvancedCustomManagementPath p") (simp_all add: multiset_partition [symmetric])
  qed
qed

lemma fixed_managed:
  "filter (\<lambda>r. isAdvancedCustomManagementPath (route_path r)) (editor_routes (fixCatchAllOrder st)) =
   filter (\<lambda>r. isAdvancedCustomManagementPath (route_path r)) (editor_routes st)"
proof -
  have "filter managed (fixed_rows st) = filter managed (allRouteRows st)" by (rule fixed_places)
  then have "filter (\<lambda>r. isAdvancedCustomManagementPath (route_path r)) (map arr_route (fixed_rows st)) =
      filter (\<lambda>r. isAdvancedCustomManagementPath (route_path r)) (editor_routes st)"
    by (simp add: map_allRouteRows [symmetric] filter_map comp_def row_path_eq)
  moreover have "editor_routes (fixCatchAllOrder st) = map normalizeAdvancedCustomRoute (map arr_route (fixed_rows st))"
    by (simp add: editor_routes_def normalized_routes_eq fixCatchAllOrder_def Let_def replaceRoutes_def fixed_rows_def)
  moreover have "map normalizeAdvancedCustomRoute (filter P (editor_routes st)) = filter P (editor_routes st)" for P
    using editor_routes_normalized [of _ st] by (intro map_idI) simp
  moreover have "filter (\<lambda>r. isAdvancedCustomManagementPath (route_path r)) (map normalizeAdvancedCustomRoute xs) =
      map normalizeAdvancedCustomRoute (filter (\<lambda>r. isAdvancedCustomManagementPath (route_path r)) xs)" for xs
    by (simp add: filter_map comp_def route_simps)
  ultimately show ?thesis by metis
qed

subsection \<open>The error that offers the button\<close>

text \<open>A route for some models behind a route of the same path that takes all of them.\<close>

definition catch_all_before :: "AdvancedCustomRoute list \<Rightarrow> AdvancedCustomRoute \<Rightarrow> bool" where
  "catch_all_before rs r \<longleftrightarrow> \<not> isAdvancedCustomManagementPath (route_path r) \<and> route_models r \<noteq> [] \<and>
     (\<exists>x \<in> set (same_path (route_path r) rs). route_models x = [])"

lemma add_models_message:
  "add_models i ms seen old = Inl e \<Longrightarrow> acv_message e \<noteq> catchAllOrderErrorMessage"
  by (induction i ms seen old rule: add_models.induct)
     (auto simp: route_error_def catchAllOrderErrorMessage_def split: if_splits)

lemma models_message:
  assumes "validateAdvancedCustomRouteModels i p ms m = Inl e" and "acv_message e = catchAllOrderErrorMessage"
  shows "ms \<noteq> [] \<and> pm_catchAllIndex (path_state m p) \<noteq> None"
  using assms add_models_message
  by (auto simp: validateAdvancedCustomRouteModels_def Let_def path_state_def route_error_def
      catchAllOrderErrorMessage_def split: if_splits sum.splits)

lemma management_message:
  "validate_management i p ms up st = Inl e \<Longrightarrow> acv_message e \<noteq> catchAllOrderErrorMessage"
  "validate_management i p ms up st = Inr st' \<Longrightarrow> isAdvancedCustomManagementPath p \<Longrightarrow> ms = []"
  "validate_management i p ms up st = Inr st' \<Longrightarrow> vs_routeModelsByPath st' = vs_routeModelsByPath st"
  by (auto simp: validate_management_def Let_def route_error_def catchAllOrderErrorMessage_def split: if_splits)

lemma auth_message: "validateRouteAuth a = Some m \<Longrightarrow> m \<noteq> catchAllOrderErrorMessage"
  by (auto simp: validateRouteAuth_def catchAllOrderErrorMessage_def split: option.splits if_splits)

lemma route_message:
  assumes "validate_route hp i r st = Inl e" and "acv_message e = catchAllOrderErrorMessage"
    and tracked: "models_tracked rs (vs_routeModelsByPath st)"
  shows "catch_all_before rs r"
proof -
  let ?p = "route_path r" and ?up = "getAdvancedCustomRouteUpstreamPath r"
  have other: "acv_message (route_error i m) = m" for m by (simp add: route_error_def)
  obtain st1 where st1: "validate_management i ?p (route_models r) ?up st = Inr st1"
    using assms(1,2) management_message(1)
    by (auto simp: validate_route_def Let_def other split: if_splits sum.splits)
       (auto simp: catchAllOrderErrorMessage_def other)
  then have "validateAdvancedCustomRouteModels i ?p (route_models r) (vs_routeModelsByPath st) = Inl e"
    using assms(1,2) management_message(3) [OF st1] auth_message
    by (auto simp: validate_route_def Let_def other split: if_splits sum.splits option.splits)
       (auto simp: catchAllOrderErrorMessage_def other)
  from models_message [OF this assms(2)] show ?thesis
    using tracked management_message(2) [OF st1] by (auto simp: catch_all_before_def models_tracked_def)
qed

lemma routes_message:
  assumes "validate_routes hp (length pre) st rs = Some e" and "acv_message e = catchAllOrderErrorMessage"
    and "routes_wf hp pre" and "models_tracked pre (vs_routeModelsByPath st)" and "indices_tracked pre st"
  shows "\<exists>xs r ys. pre @ rs = xs @ r # ys \<and> catch_all_before xs r"
  using assms
proof (induction rs arbitrary: pre st)
  case (Cons r rs)
  show ?case
  proof (cases "validate_route hp (length pre) r st")
    case (Inl e')
    then have "catch_all_before pre r" using Cons.prems route_message [OF Inl] by simp
    then show ?thesis by blast
  next
    case (Inr st')
    then show ?thesis
      using Cons.IH [of "pre @ [r]" st'] Cons.prems route_step [OF Cons.prems(3-5), of "length pre" r] by simp
  qed
qed simp

lemma order_error_cause:
  assumes "canFixCatchAllOrder hp st"
  shows "\<exists>xs r ys. editor_routes st = xs @ r # ys \<and> catch_all_before xs r"
proof -
  obtain e where e: "validate_routes hp 0 initial_validation (editor_routes st) = Some e"
      "acv_message e = catchAllOrderErrorMessage"
    using assms
    by (auto simp: canFixCatchAllOrder_def validationError_def validateAdvancedCustomConfig_def editor_routes_def
        normalized_routes_def catchAllOrderErrorMessage_def split: if_splits)
  have "routes_wf hp []" "models_tracked [] (vs_routeModelsByPath initial_validation)"
      "indices_tracked [] initial_validation"
    by (simp_all add: routes_wf_def models_tracked_def indices_tracked_def initial_validation_def
        same_path_def path_state_def)
  then show ?thesis using routes_message [of hp "[]" initial_validation, OF _ e(2)] e(1) by simp
qed

lemma sorted_split:
  assumes "xs @ r # ys = filter (\<lambda>x. \<not> P x) zs @ filter P zs" and "x \<in> set xs" and "P x"
  shows "P r"
proof -
  from assms(1) obtain us where "xs = filter (\<lambda>x. \<not> P x) zs @ us \<and> us @ r # ys = filter P zs \<or>
      xs @ us = filter (\<lambda>x. \<not> P x) zs"
    unfolding append_eq_append_conv2 by blast
  then have "r \<in> set (filter P zs) \<or> x \<in> set (filter (\<lambda>x. \<not> P x) zs)"
    using assms(2) by (metis in_set_conv_decomp UnI1 set_append)
  then show ?thesis using assms(3) by auto
qed

lemma fixed_no_catch_all_before:
  assumes "editor_routes (fixCatchAllOrder st) = xs @ r # ys"
  shows "\<not> catch_all_before xs r"
proof
  assume r: "catch_all_before xs r"
  let ?p = "route_path r" and ?rs = "same_path (route_path r) (editor_routes st)"
  have "same_path ?p xs @ r # same_path ?p ys =
      filter (\<lambda>r. route_models r \<noteq> []) ?rs @ filter (\<lambda>r. route_models r = []) ?rs"
    using fixed_routes(3) [of ?p st] r by (simp add: assms same_path_def catch_all_before_def)
  note split = sorted_split [OF this]
  obtain x where "x \<in> set (same_path ?p xs)" "route_models x = []" "route_models r \<noteq> []"
    using r by (auto simp: catch_all_before_def)
  with split [of x] show False by blast
qed

subsection \<open>A valid order is found\<close>

lemma mset_concat_map: "mset xs = mset ys \<Longrightarrow> mset (concat (map f xs)) = mset (concat (map f ys))"
proof -
  have "mset (concat (map f zs)) = sum_mset (image_mset (\<lambda>x. mset (f x)) (mset zs))" for zs
    by (induction zs) auto
  then show "mset xs = mset ys \<Longrightarrow> mset (concat (map f xs)) = mset (concat (map f ys))" by simp
qed

lemma mset_same_path: "mset xs = mset ys \<Longrightarrow> mset (same_path p xs) = mset (same_path p ys)"
  by (simp add: same_path_def)

lemma one_catch_all:
  assumes "path_wf rs"
  shows "length (filter (\<lambda>r. route_models r = []) rs) \<le> 1"
proof (cases rs rule: rev_cases)
  case (snoc ys y)
  then have "filter (\<lambda>r. route_models r = []) ys = []"
    using assms by (auto simp: path_wf_snoc filter_empty_conv)
  then show ?thesis by (simp add: snoc)
qed simp

lemma path_wf_sorted:
  assumes "path_wf xs" and "mset ys = mset xs"
    and ys: "ys = filter (\<lambda>r. route_models r \<noteq> []) zs @ filter (\<lambda>r. route_models r = []) zs"
  shows "path_wf ys"
proof -
  let ?c = "filter (\<lambda>r. route_models r = []) zs"
  have "length (filter (\<lambda>r. route_models r = []) ys) \<le> 1"
    using one_catch_all [OF assms(1)] assms(2) by (metis mset_filter size_mset)
  then have "length ?c \<le> 1" by (simp add: ys)
  then have "butlast ?c = []" by (cases ?c) auto
  then have "\<forall>r \<in> set (butlast ys). route_models r \<noteq> []"
    by (auto simp: ys butlast_append dest: in_set_butlastD)
  moreover have "distinct (concat (map route_models ys))"
    using assms(1) mset_concat_map [OF assms(2), of route_models]
    by (metis mset_eq_imp_distinct_iff path_wf_def)
  ultimately show ?thesis by (simp add: path_wf_def)
qed

lemma fixed_wf:
  assumes wf: "routes_wf hp xs" and perm: "mset xs = mset (editor_routes st)"
  shows "routes_wf hp (editor_routes (fixCatchAllOrder st))"
proof -
  let ?rs = "editor_routes (fixCatchAllOrder st)"
  have perm': "mset ?rs = mset xs" using fixed_routes(1) [of st] perm by simp
  have "path_wf (same_path p ?rs)" for p
  proof (cases "isAdvancedCustomManagementPath p")
    case True
    have "length (same_path p xs) \<le> 1"
      using management_unique [OF wf True] by (cases "same_path p xs") auto
    moreover have same: "mset (same_path p ?rs) = mset (same_path p xs)" by (rule mset_same_path [OF perm'])
    moreover have "us = vs" if "mset us = mset vs" "length vs \<le> 1" for us vs :: "AdvancedCustomRoute list"
      using that by (cases vs) (auto simp: le_Suc_eq)
    ultimately have "same_path p ?rs = same_path p xs" by blast
    then show ?thesis using wf by (simp add: routes_wf_all_paths)
  next
    case False
    then show ?thesis
      using path_wf_sorted [OF _ mset_same_path [OF perm'] fixed_routes(3) [OF False]] wf
      by (simp add: routes_wf_all_paths)
  qed
  moreover have "set ?rs = set xs" using perm' by (metis set_mset_mset)
  ultimately show ?thesis using wf by (simp add: routes_wf_all_paths)
qed

section \<open>Properties\<close>

text \<open>
  C11. Whatever the administrator does in the dialog, from whatever value it was opened with, each
  text that it saves is read back as a valid configuration, and printing that configuration gives the
  same text again.
\<close>

theorem editor_saves_valid:
  assumes "initial_editor text0 = Inr st0" and "run_editor hp t es st0 = Inr st" and "text \<in> set (ed_saved st)"
  shows "\<exists>c. parseAdvancedCustomConfig (Some text) = Inr (Some c) \<and>
    validateAdvancedCustomConfig hp (Some c) = None \<and> stringifyAdvancedCustomConfig c = text"
proof -
  have "ed_saved st0 = []" using assms(1) by (cases "parsed_or_new text0") (auto simp: initial_editor_def)
  then show ?thesis using run_saved [OF assms(2)] assms(3) by (auto simp: saved_wf_def)
qed

text \<open>The dialog is opened without a value, the path of the messages is added, its models are set, the
  balance is configured, and everything is saved.\<close>

definition example_events :: "EditorEvent list" where
  "example_events =
     [Opened [], RouteAdded (Some ''/v1/messages''), RouteChanged 1 (setModelsInput ''claude-a,claude-b''),
      ManagementChanged ''/v1/dashboard/billing/credit_grants''
        (Some (createAdvancedCustomManagementRoute ''/v1/dashboard/billing/credit_grants'')),
      SaveClicked]"

definition example_config :: AdvancedCustomConfig where
  "example_config = config_of
     [createAdvancedCustomRoute,
      createAdvancedCustomRoute\<lparr>acr_incoming_path := Some ''/v1/messages'', acr_upstream_path := Some ''/v1/messages'',
        acr_models := Some [''claude-a'', ''claude-b'']\<rparr>,
      createAdvancedCustomManagementRoute ''/v1/dashboard/billing/credit_grants'']"

theorem editor_saves_valid_witness:
  "\<exists>c. parseAdvancedCustomConfig (Some (stringifyAdvancedCustomConfig example_config)) = Inr (Some c) \<and>
    validateAdvancedCustomConfig (\<lambda>_. None) (Some c) = None \<and>
    stringifyAdvancedCustomConfig c = stringifyAdvancedCustomConfig example_config"
proof -
  have saved: "case initial_editor [] of Inl _ \<Rightarrow> False
      | Inr st0 \<Rightarrow> (case run_editor (\<lambda>_. None) (\<lambda>s. s) example_events st0 of
          Inl _ \<Rightarrow> False | Inr st \<Rightarrow> ed_saved st = [stringifyAdvancedCustomConfig example_config])"
    by code_simp
  then obtain st0 where st0: "initial_editor [] = Inr st0" by (auto split: sum.splits)
  with saved obtain st where st: "run_editor (\<lambda>_. None) (\<lambda>s. s) example_events st0 = Inr st"
      "ed_saved st = [stringifyAdvancedCustomConfig example_config]"
    by (auto split: sum.splits)
  show ?thesis
    by (rule editor_saves_valid [OF st0 st(1)]) (simp add: st(2))
qed

text \<open>
  C22. The button that fixes the order keeps all routes and the places of those of the management; on every other
  path the routes for some models come first and those for all models last, each in their order. The
  error that offers the button is gone afterwards, and if the routes are valid in any order at all, they are
  valid in this one.
\<close>

theorem order_fixed:
  "mset (editor_routes (fixCatchAllOrder st)) = mset (editor_routes st) \<and>
   filter (\<lambda>r. isAdvancedCustomManagementPath (route_path r)) (editor_routes (fixCatchAllOrder st)) =
     filter (\<lambda>r. isAdvancedCustomManagementPath (route_path r)) (editor_routes st) \<and>
   (\<forall>p. \<not> isAdvancedCustomManagementPath p \<longrightarrow>
      same_path p (editor_routes (fixCatchAllOrder st)) =
        filter (\<lambda>r. route_models r \<noteq> []) (same_path p (editor_routes st)) @
        filter (\<lambda>r. route_models r = []) (same_path p (editor_routes st))) \<and>
   \<not> canFixCatchAllOrder hp (fixCatchAllOrder st) \<and>
   (\<forall>rs. mset rs = mset (editor_routes st) \<and> validateAdvancedCustomConfig hp (Some (config_of rs)) = None \<longrightarrow>
      validationError hp (fixCatchAllOrder st) = None)"
proof (intro conjI allI impI)
  show "mset (editor_routes (fixCatchAllOrder st)) = mset (editor_routes st)" by (rule fixed_routes)
  show "filter (\<lambda>r. isAdvancedCustomManagementPath (route_path r)) (editor_routes (fixCatchAllOrder st)) =
      filter (\<lambda>r. isAdvancedCustomManagementPath (route_path r)) (editor_routes st)" by (rule fixed_managed)
  show "\<not> canFixCatchAllOrder hp (fixCatchAllOrder st)"
    using order_error_cause [of hp "fixCatchAllOrder st"] fixed_no_catch_all_before [of st] by blast
next
  fix p assume "\<not> isAdvancedCustomManagementPath p"
  then show "same_path p (editor_routes (fixCatchAllOrder st)) =
      filter (\<lambda>r. route_models r \<noteq> []) (same_path p (editor_routes st)) @
      filter (\<lambda>r. route_models r = []) (same_path p (editor_routes st))" by (rule fixed_routes)
next
  fix rs assume rs: "mset rs = mset (editor_routes st) \<and> validateAdvancedCustomConfig hp (Some (config_of rs)) = None"
  then have "routes_wf hp (editor_routes (fixCatchAllOrder st))"
    using fixed_wf [of hp rs st] by (simp add: validation_None)
  moreover have "editor_routes (fixCatchAllOrder st) \<noteq> []"
    using rs fixed_routes(1) [of st] by (auto simp: validation_None)
  ultimately show "validationError hp (fixCatchAllOrder st) = None"
    by (simp add: validationError_def validation_None editor_routes_def normalized_routes_eq)
qed

text \<open>Two routes of one path in the wrong order, with a route of the management between them.\<close>

definition example_claude :: "string list option \<Rightarrow> AdvancedCustomRoute" where
  "example_claude models = normalizeAdvancedCustomRoute
     ((native_route apiKeyHeaderAuth ''/v1/messages'')\<lparr>acr_models := models\<rparr>)"

definition example_unordered :: EditorState where
  "example_unordered =
     \<lparr>ed_routeKeyCounter = 3, ed_config = config_of
        [example_claude None, createAdvancedCustomManagementRoute ''/v1/models'', example_claude (Some [''claude-a''])],
      ed_routeKeys = [''k1'', ''k2'', ''k3''], ed_activeTab = TabForwarding, ed_jsonText = [], ed_jsonError = [],
      ed_templateKey = ''all_protocols'', ed_templateConfirmOpen = False, ed_expandedRouteGroups = {}, ed_open = True,
      ed_saved = [], ed_toasts = []\<rparr>"

theorem order_fixed_witness:
  "canFixCatchAllOrder (\<lambda>_. None) example_unordered \<and>
   \<not> canFixCatchAllOrder (\<lambda>_. None) (fixCatchAllOrder example_unordered) \<and>
   validationError (\<lambda>_. None) (fixCatchAllOrder example_unordered) = None"
proof -
  let ?a = "example_claude None" and ?b = "example_claude (Some [''claude-a''])"
    and ?m = "normalizeAdvancedCustomRoute (createAdvancedCustomManagementRoute ''/v1/models'')"
  have "editor_routes example_unordered = [?a, ?m, ?b]" by code_simp
  then have "mset [?b, ?m, ?a] = mset (editor_routes example_unordered)" by (simp add: add_mset_commute)
  moreover have "validateAdvancedCustomConfig (\<lambda>_. None) (Some (config_of [?b, ?m, ?a])) = None" by code_simp
  ultimately have "validationError (\<lambda>_. None) (fixCatchAllOrder example_unordered) = None"
    and "\<not> canFixCatchAllOrder (\<lambda>_. None) (fixCatchAllOrder example_unordered)"
    using order_fixed [where st = example_unordered and hp = "\<lambda>_. None"] by blast+
  moreover have "canFixCatchAllOrder (\<lambda>_. None) example_unordered" by code_simp
  ultimately show ?thesis by blast
qed

section \<open>The field of the models\<close>

text \<open>
  The field shows the normalised route, so a comma typed at its end is gone with the next rendering: a second model can
  be pasted but not typed.
\<close>

lemma models_comma_lost:
  "modelsInputValue (normalizeAdvancedCustomRoute (apply_patch (setModelsInput (text @ '','')) r)) =
   modelsInputValue (normalizeAdvancedCustomRoute (apply_patch (setModelsInput text) r))"
proof -
  have "normalizeAdvancedCustomRouteModels (Some (js_split CHR '','' (text @ '',''))) =
      normalizeAdvancedCustomRouteModels (Some (if text = [] then [] else js_split CHR '','' text))"
    using js_split_append [of "CHR '',''" "text" "[]"] by (simp add: normalizeAdvancedCustomRouteModels_def)
  then show ?thesis
    by (simp add: setModelsInput_def apply_patch_def normalizeAdvancedCustomRoute_def modelsInputValue_def Let_def)
qed

end
