(* ===== verification/Spec2Isabelle.thy ===== *)
theory Spec2Isabelle
  imports Playground_Page Status_Codes Route_Guards Flow_Views Advanced_Editor_Proofs
begin

text \<open>
  A verification development for the web front end of the gateway (\<open>src/web/src\<close>). It covers the
  playground (\<open>features/playground\<close>), in which a user talks to a model and sees the answer as it
  is streamed, the session of the user (\<open>lib/auth-session.ts\<close> and what belongs to it), the
  guards of the routes with the redirects to and from the sign-in page (\<open>routes/guards.tsx\<close>,
  \<open>features/auth/lib/auth-redirect.ts\<close>), the modules an administrator switches on and off
  (\<open>lib/nav-modules.ts\<close>, \<open>hooks/use-sidebar-config.ts\<close>), the graph of usage on the dashboard
  (\<open>features/dashboard/lib/flow.ts\<close>), the routes of a custom channel with the dialog that edits them
  (\<open>features/channels/lib/advanced-custom.ts\<close>,
  \<open>features/channels/components/dialogs/advanced-custom-editor-dialog.tsx\<close>) and the
  rules on HTTP status codes (\<open>lib/http-status-code-rules.ts\<close>,
  \<open>features/channels/lib/status-code-risk-guard.ts\<close>). Paths of the playground are relative to
  \<open>src/web/src/features/playground\<close>, all others to \<open>src/web/src\<close>.

  \<^bold>\<open>How the parts interact.\<close> An action of the user (\<open>hooks/use-playground-conversation.ts\<close>)
  computes a new conversation, hands it to React (\<open>hooks/use-playground-state.ts\<close>, which also
  saves it) and asks the chat handler (\<open>hooks/use-chat-handler.ts\<close>) for an answer. The handler
  builds the request for one of four protocols (\<open>lib/streaming/payload-builder.ts\<close>) and starts
  the stream controller (\<open>hooks/use-stream-request.ts\<close>), which reads the events of the server
  (\<open>lib/streaming/stream-utils.ts\<close>) and calls the handler back. The handler collects chunks and
  writes them into the last message once per frame (\<open>lib/message/message-streaming-utils.ts\<close>),
  where reasoning between think tags is separated from the visible text
  (\<open>lib/message/message-reasoning-utils.ts\<close>). Every navigation first runs the loader of the root
  (\<open>routes/root-layout.tsx\<close>), which redirects addresses of earlier versions and settles the
  session, and the guard of the page, which reads the session and the cached options of the
  server. A guard that turns a visitor away puts the address of the page into the search of the
  sign-in page, where it is checked before it is followed. The dashboard turns the rows of the
  server into the nodes and links of a graph and offers the filters that lead to smaller ones. The
  dialog on the routes of a channel holds a configuration that is normalised at every step, is
  shown as rows or as JSON, and is checked before it is handed to the form of the channel.

  \<^bold>\<open>Theories.\<close>
  \<^item> \<open>Prelude\<close>: the operators of the language on strings, options and arrays, and the facts on
    them that the components share.
  \<^item> \<open>Json\<close>, \<open>Json_Roundtrip\<close>: JSON values, printing and parsing; parsing inverts printing.
  \<^item> \<open>Message\<close>, \<open>Think_Tags\<close>: messages, versions, images, timing, and the parser of think tags
    (\<open>lib/message/message-utils.ts\<close>, \<open>message-timing-utils.ts\<close>, \<open>image-utils.ts\<close>,
    \<open>message-reasoning-utils.ts\<close>). C16, \<open>parseThinkTags_total\<close> and \<open>parseImageDataUrl_iff\<close>: what the tag parser computes.
  \<^item> \<open>Message_Streaming\<close>, \<open>Assistant_Output\<close>: one message while its answer arrives, the four
    response formats and the clean-up on loading (\<open>message-streaming-utils.ts\<close>,
    \<open>message-update-utils.ts\<close>). C17, C18, \<open>streaming_reasoning\<close>, C36, \<open>sanitizeMessagesOnLoad_pending\<close>, \<open>updateAssistantMessageWithError_last\<close> and \<open>streaming_stale_reasoning\<close>: text and reasoning add up, all formats are read, and
    what the clean-up and the report of an error change.
  \<^item> \<open>Conversation\<close>: submit, regenerate, edit, delete and the view states of a message
    (\<open>conversation-message-utils.ts\<close> and its neighbours). C37, \<open>applyMessageEdit_spec\<close> and \<open>createRegeneratedMessages_spec\<close>: keys stay distinct, and the
    exact effect of the operations.
  \<^item> \<open>Stream_Events\<close>, \<open>Stream_Controller\<close>: events of the four protocols and the controller as a
    step relation, in which the source may send any event at any time. C3, C15, C19 and C20: events are
    read back, callbacks come in order, sources are closed, a stream is delivered.
  \<^item> \<open>Payload\<close>: the requests. C33, C34, \<open>payload_images\<close> and C35: parameters, system messages, images, text on the wire.
  \<^item> \<open>Chat_Handler\<close>, \<open>Chat_Streaming\<close>: the handler with React's queue of updaters and the frame
    made explicit. C2, C8, \<open>stopGeneration_settles\<close>, \<open>streaming_depends_on_frames\<close> and \<open>stopGeneration_loses_pending\<close>: stale requests are ignored, the answer does not depend on frames
    where chunks cannot be mistaken for snapshots and does where they can, and what a stop does.
  \<^item> \<open>Schema\<close>, \<open>Schema_Objects\<close>, \<open>Stored_Text\<close>, \<open>Storage\<close>, \<open>Storage_Proofs\<close>: the storage
    (\<open>lib/storage/storage-schema.ts\<close>, \<open>storage.ts\<close>, \<open>lib/state\<close>). C13, \<open>settings_roundtrip\<close>, \<open>fitMessagesIntoStorageBudget_images\<close>, \<open>trimMessagesByContentSize_budget\<close>, \<open>findLastRepeatedSectionRunStart_spec\<close> and \<open>oversized_conversation_lost\<close>: the search for
    repeated sections, round trips of settings and conversation, the budgets, and what is lost
    beyond them.
  \<^item> \<open>Playground_Parameters\<close>, \<open>Playground_State\<close>, \<open>Playground_Options\<close>, \<open>Attachments\<close>,
    \<open>Playground_Page\<close>: the page (\<open>lib/parameters\<close>, \<open>hooks/use-playground-state.ts\<close>,
    \<open>lib/options\<close>, \<open>hooks/use-playground-options.ts\<close>, \<open>api.ts\<close>, \<open>lib/input\<close>,
    \<open>lib/file-accept.ts\<close>, \<open>hooks/use-playground-conversation.ts\<close>,
    \<open>index.tsx\<close>). C1, C6, C39 and \<open>normalizeParameterNumberValue_range\<close>: the storage implements a variable that holds the conversation, a
    question leads to its answer, the effect on the settings comes to rest, numbers stay in
    range.
  \<^item> \<open>Status_Codes\<close>: C14 and C38, the normal form of rules and their round trip.
  \<^item> \<open>Auth_Session\<close>, \<open>Auth_Refresh\<close>: the store of the session, its refresh and the events
    between tabs (\<open>stores/auth-store.ts\<close>, \<open>lib/auth-session.ts\<close>, \<open>lib/auth-session-sync.ts\<close>).
    C7 and C21: a refresh ends and its outcome tells the state, and the store stays well-typed.
  \<^item> \<open>Url\<close>, \<open>Url_Proofs\<close>: the URL parser of the web platform for http and https, written after the URL
    standard; what it reads it also reads back (locale \<open>host_parser\<close>).
  \<^item> \<open>Search_Params\<close>: \<open>URLSearchParams\<close>, percent encoding and the text functions of
    \<open>lib/router.tsx\<close>. C31: a search string keeps the parameters.
  \<^item> \<open>Auth_Redirect\<close>: \<open>features/auth/lib/auth-redirect.ts\<close>, \<open>features/auth/hooks/use-auth-redirect.ts\<close>,
    \<open>i18n/languages.ts\<close> and the two components of \<open>routes/guards.tsx\<close>. C5 and C40:
    an accepted target stays on the site unless it begins with two slashes, and then it does not.
  \<^item> \<open>Nav_Modules\<close>, \<open>Sidebar_Modules\<close>: the two readers and the writer of the modules of the header
    (\<open>lib/nav-modules.ts\<close>, \<open>features/system-settings/maintenance/config.ts\<close> and
    \<open>header-navigation-section.tsx\<close>) and of the sidebar (\<open>hooks/use-sidebar-config.ts\<close>). C29 and
    C30: what is saved takes effect; C28: what the sidebar shows, the guard admits.
  \<^item> \<open>Route_Guards\<close>: the loaders (\<open>routes/guards.tsx\<close>, \<open>routes/root-layout.tsx\<close>), roles and permissions
    (\<open>lib/roles.ts\<close>, \<open>lib/admin-permissions.ts\<close>) and the addresses of earlier versions
    (\<open>lib/legacy-route.ts\<close>). C4: a page behind a role is reached exactly by those who have it;
    C9: signing in leads back to the page; C32: an old address is redirected once.
  \<^item> \<open>Flow_Data\<close>, \<open>Flow_Proofs\<close>, \<open>Flow_Views\<close>: the flow of usage through users, nodes, tokens, models and
    channels. C10: the flow adds up at every node, in every column and in the shares; C25: an
    option of a filter shows what choosing it gives; C27: the limit keeps the largest nodes; C26: the
    mask hides every sensitive label and nothing else.

  \<^item> \<open>Json_Pretty\<close>: \<open>JSON.stringify\<close> with an indentation of two; parsing inverts it on values without
    numbers.
  \<^item> \<open>Advanced_Custom\<close>, \<open>Advanced_Custom_Proofs\<close>, \<open>Advanced_Routes\<close>: the routes of a custom channel, their
    normalisation, text, templates and validation. C24: the saved text is read back; C12: what
    the validation accepts, against a declarative predicate; C23: the two routes of the management and the
    forwarding are replaced independently of each other.
  \<^item> \<open>Advanced_Editor\<close>, \<open>Advanced_Editor_Proofs\<close>: the dialog as a function on events, one per handler.
    C11: only valid configurations are saved; C22: the button that fixes the order finds a valid one if
    there is any.

  \<^bold>\<open>Conventions.\<close> A string is a list of code units below 256. A number is a rational; rounding
  of doubles is not modelled. \<open>undefined\<close> is \<open>None\<close>; where null and undefined differ the type is a
  nested option. Values of type unknown are JSON values, and objects are read by their own
  properties. Exceptions are values of sum types; \<open>IllTyped\<close> marks inputs outside the declared
  types. State is passed explicitly; the state of a hook is a record of its refs. In the dialog on routes an event
  is handled on the state that the last rendering saw.

  \<^bold>\<open>Parameters.\<close> \<open>clock\<close> gives the result of \<open>Date.now()\<close> at each place that reads it, \<open>nanoid\<close> the
  identifiers (C37 assumes that none comes twice), \<open>t\<close> the translations, \<open>zparse\<close> the parser of
  the library zod, with the contract of the locale \<open>zod_parser\<close>, which the reference parser
  \<open>zod_ref\<close> fulfils, and \<open>fits\<close> whether the browser has room to store a text. \<open>eager\<close> tells when
  React runs an updater at once. The environment of a refresh gives what axios returns and what
  happens to the session meanwhile. \<open>hp\<close> is the host parser of the browser, with IDNA; the theorems
  on redirects assume of it the laws of the locale \<open>host_parser\<close>: its result is a text that a URL
  prints as it is, and parsing that text again changes nothing. \<open>FlowEnv\<close> holds \<open>localeCompare\<close>, the number
  format and the colours of the theme, of which nothing is assumed.

  \<^bold>\<open>Interfaces.\<close> \<open>response_protocol\<close> and \<open>stream_protocol\<close> state what a response format and a
  stream format promise and are interpreted on all four protocols; \<open>zod_parser\<close> on the reference
  parser; \<open>refresh_runtime\<close> on the runtime of the page; \<open>host_parser\<close> on the host parser for ASCII
  names; \<open>accumulator\<close>, a map whose entries are created empty and added to, on the nodes, the links
  and the totals of the flow; \<open>slots\<close>, a store of named slots beside a rest, on the routes of a channel.

  \<^bold>\<open>Fuel and bounds.\<close> The JSON parser runs on fuel: twice the length of the text plus one is enough,
  since each call consumes a character or descends once; more fuel gives the same result.
  Decimal expansions are searched up to 400 places; a double has fewer. All other recursions
  are structural or have a measure.

  \<^bold>\<open>Not modelled.\<close> Components in JSX, styles and translations; calls to axios, sse.js, the toast
  library and the browser beyond what is named above; \<open>performRefreshWithBrowserLock\<close>, which only
  takes a lock of the browser; the table of routes; URLs whose scheme is neither http nor https beyond
  the fact that they are none; text outside Latin-1 in a decoded search string; the other features of the front end
  (the other forms of channels, pricing, the other charts of the dashboard, settings, tables of users, keys and logs), the desktop shell and
  the server, which is written in Go and is the environment here.
\<close>

end
